(* ===== verification/Rust_Strings.thy ===== *)
theory Rust_Strings
  imports Prelude
begin

section \<open>Rust strings and byte slices\<close>

text \<open>
  A Rust \<open>String\<close> is the list of its UTF-8 bytes and a \<open>[u8]\<close> slice is a list of bytes;
  both are the HOL type \<open>string\<close>, whose characters are the 256 bytes. So \<open>length\<close> is
  \<open>str::len\<close>, the order of \<open>List_Lexorder\<close> is Rust's order on strings (and SQLite's
  BINARY collation), and an operation of \<open>str\<close> that speaks of Unicode scalar values (\<open>trim\<close>,
  \<open>chars().take(n)\<close>, \<open>char::is_control\<close>) is written out on the encoding.
  The lemmas give the inversion of the searching and splitting operations and the round trip of
  decimal numbers.
\<close>

subsection \<open>ASCII bytes\<close>

definition byte_of :: "char \<Rightarrow> nat" where
  "byte_of c = of_char c"

definition is_ascii_digit :: "char \<Rightarrow> bool" where
  "is_ascii_digit c \<longleftrightarrow> 48 \<le> byte_of c \<and> byte_of c \<le> 57"

definition is_ascii_upper :: "char \<Rightarrow> bool" where
  "is_ascii_upper c \<longleftrightarrow> 65 \<le> byte_of c \<and> byte_of c \<le> 90"

definition is_ascii_lower :: "char \<Rightarrow> bool" where
  "is_ascii_lower c \<longleftrightarrow> 97 \<le> byte_of c \<and> byte_of c \<le> 122"

definition is_ascii_alphabetic :: "char \<Rightarrow> bool" where
  "is_ascii_alphabetic c \<longleftrightarrow> is_ascii_upper c \<or> is_ascii_lower c"

definition is_ascii_alphanumeric :: "char \<Rightarrow> bool" where
  "is_ascii_alphanumeric c \<longleftrightarrow> is_ascii_alphabetic c \<or> is_ascii_digit c"

definition is_ascii_hexdigit :: "char \<Rightarrow> bool" where
  "is_ascii_hexdigit c \<longleftrightarrow> is_ascii_digit c
     \<or> (65 \<le> byte_of c \<and> byte_of c \<le> 70) \<or> (97 \<le> byte_of c \<and> byte_of c \<le> 102)"

text \<open>\<open>u8::is_ascii_whitespace\<close>: space, tab, line feed, form feed, carriage return.\<close>

definition is_ascii_whitespace :: "char \<Rightarrow> bool" where
  "is_ascii_whitespace c \<longleftrightarrow> byte_of c \<in> {32, 9, 10, 12, 13}"

definition is_ascii_control :: "char \<Rightarrow> bool" where
  "is_ascii_control c \<longleftrightarrow> byte_of c < 32 \<or> byte_of c = 127"

definition ascii_lower_char :: "char \<Rightarrow> char" where
  "ascii_lower_char c = (if is_ascii_upper c then char_of (byte_of c + 32) else c)"

definition ascii_upper_char :: "char \<Rightarrow> char" where
  "ascii_upper_char c = (if is_ascii_lower c then char_of (byte_of c - 32) else c)"

definition to_ascii_lowercase :: "string \<Rightarrow> string" where
  "to_ascii_lowercase s = map ascii_lower_char s"

definition to_ascii_uppercase :: "string \<Rightarrow> string" where
  "to_ascii_uppercase s = map ascii_upper_char s"

definition eq_ignore_ascii_case :: "string \<Rightarrow> string \<Rightarrow> bool" where
  "eq_ignore_ascii_case s t \<longleftrightarrow> to_ascii_lowercase s = to_ascii_lowercase t"

definition NUL :: char where "NUL = CHR 0x00"
definition TAB :: char where "TAB = CHR 0x09"
definition LF :: char where "LF = CHR 0x0A"
definition CR :: char where "CR = CHR 0x0D"
definition DQUOTE :: char where "DQUOTE = CHR 0x22"
definition BACKSLASH :: char where "BACKSLASH = CHR 0x5C"

definition CRLF :: string where "CRLF = [CR, LF]"

lemmas char_consts = NUL_def TAB_def LF_def CR_def DQUOTE_def BACKSLASH_def CRLF_def

lemmas ascii_defs = byte_of_def is_ascii_digit_def is_ascii_upper_def is_ascii_lower_def
  is_ascii_alphabetic_def is_ascii_alphanumeric_def is_ascii_hexdigit_def
  is_ascii_whitespace_def is_ascii_control_def ascii_lower_char_def ascii_upper_char_def

lemma byte_of_less [simp]: "byte_of c < 256"
  by (simp add: byte_of_def)

lemma byte_of_inject [simp]: "byte_of c = byte_of d \<longleftrightarrow> c = d"
  by (simp add: byte_of_def)

lemma byte_of_char_of [simp]: "byte_of (char_of (n::nat)) = n mod 256"
  by (simp add: byte_of_def)

lemma char_of_byte_of [simp]: "char_of (byte_of c) = c"
  by (simp add: byte_of_def)

lemma ascii_lower_char_idem [simp]: "ascii_lower_char (ascii_lower_char c) = ascii_lower_char c"
  by (auto simp: ascii_lower_char_def is_ascii_upper_def)

lemma to_ascii_lowercase_idem [simp]:
  "to_ascii_lowercase (to_ascii_lowercase s) = to_ascii_lowercase s"
  by (simp add: to_ascii_lowercase_def)

lemma length_to_ascii_lowercase [simp]: "length (to_ascii_lowercase s) = length s"
  by (simp add: to_ascii_lowercase_def)

lemma eq_ignore_ascii_case_refl [simp]: "eq_ignore_ascii_case s s"
  by (simp add: eq_ignore_ascii_case_def)

lemma eq_ignore_ascii_case_sym: "eq_ignore_ascii_case s t = eq_ignore_ascii_case t s"
  by (auto simp: eq_ignore_ascii_case_def)

subsection \<open>Prefixes, suffixes, searching\<close>

definition starts_with :: "string \<Rightarrow> string \<Rightarrow> bool" where
  "starts_with s p \<longleftrightarrow> take (length p) s = p"

definition ends_with :: "string \<Rightarrow> string \<Rightarrow> bool" where
  "ends_with s p \<longleftrightarrow> take (length p) (rev s) = rev p"

definition strip_prefix :: "string \<Rightarrow> string \<Rightarrow> string option" where
  "strip_prefix s p = (if starts_with s p then Some (drop (length p) s) else None)"

definition strip_suffix :: "string \<Rightarrow> string \<Rightarrow> string option" where
  "strip_suffix s p = (if ends_with s p then Some (take (length s - length p) s) else None)"

lemma starts_with_iff: "starts_with s p \<longleftrightarrow> (\<exists>r. s = p @ r)"
  unfolding starts_with_def
proof
  assume "take (length p) s = p"
  then have "s = p @ drop (length p) s" by (metis append_take_drop_id)
  then show "\<exists>r. s = p @ r" ..
qed auto

lemma starts_with_append [simp]: "starts_with (p @ r) p"
  by (simp add: starts_with_def)

lemma ends_with_iff: "ends_with s p \<longleftrightarrow> (\<exists>r. s = r @ p)"
proof
  assume "ends_with s p"
  then have "starts_with (rev s) (rev p)" by (simp add: ends_with_def starts_with_def)
  then obtain r where "rev s = rev p @ r" by (auto simp: starts_with_iff)
  then have "s = rev r @ p" by (metis rev_append rev_rev_ident)
  then show "\<exists>r. s = r @ p" ..
qed (auto simp: ends_with_def)

lemma strip_prefix_eq_Some [str_simps]: "strip_prefix s p = Some r \<longleftrightarrow> s = p @ r"
  by (auto simp: strip_prefix_def starts_with_iff)

lemma strip_prefix_append [simp]: "strip_prefix (p @ r) p = Some r"
  by (simp add: strip_prefix_eq_Some)

lemma strip_suffix_eq_Some [str_simps]: "strip_suffix s p = Some r \<longleftrightarrow> s = r @ p"
  by (auto simp: strip_suffix_def ends_with_iff)

lemma strip_suffix_append [simp]: "strip_suffix (r @ p) p = Some r"
  by (simp add: strip_suffix_eq_Some)

text \<open>\<open>str::find\<close> of a non-empty needle, and the byte search \<open>windows().position()\<close>.\<close>

fun find_sub :: "string \<Rightarrow> string \<Rightarrow> nat option" where
  "find_sub [] n = (if n = [] then Some 0 else None)"
| "find_sub (x # xs) n =
     (if starts_with (x # xs) n then Some 0 else map_option Suc (find_sub xs n))"

definition contains_sub :: "string \<Rightarrow> string \<Rightarrow> bool" where
  "contains_sub s n \<longleftrightarrow> find_sub s n \<noteq> None"

lemma find_sub_Some:
  "find_sub s n = Some i \<Longrightarrow> i + length n \<le> length s \<and> take (length n) (drop i s) = n"
proof (induction s arbitrary: i)
  case (Cons x xs)
  show ?case
  proof (cases "starts_with (x # xs) n")
    case True
    then have len: "length n \<le> length (x # xs)"
      by (auto simp: starts_with_iff dest: arg_cong [where f = length])
    show ?thesis using Cons.prems True len by (simp add: starts_with_def)
  next
    case False
    with Cons show ?thesis by auto
  qed
qed (auto split: if_splits)

lemma find_sub_split:
  assumes "find_sub s n = Some i"
  shows "s = take i s @ n @ drop (i + length n) s"
proof -
  have "drop i s = n @ drop (length n) (drop i s)"
    using find_sub_Some [OF assms] by (metis append_take_drop_id)
  then have "take i s @ drop i s = take i s @ n @ drop (i + length n) s"
    by (simp add: add.commute)
  then show ?thesis by simp
qed

fun split_on :: "char \<Rightarrow> string \<Rightarrow> string list" where
  "split_on c [] = [[]]"
| "split_on c (x # xs) =
     (if x = c then [] # split_on c xs
      else (case split_on c xs of [] \<Rightarrow> [[x]] | p # ps \<Rightarrow> (x # p) # ps))"

lemma split_on_nonempty [simp]: "split_on c s \<noteq> []"
  by (cases s) (auto split: list.splits)

lemma split_on_no_sep: "c \<notin> set s \<Longrightarrow> split_on c s = [s]"
  by (induction s) auto

lemma split_on_append: "c \<notin> set s \<Longrightarrow> split_on c (s @ c # t) = s # split_on c t"
  by (induction s) auto

lemma split_on_pieces_no_sep: "p \<in> set (split_on c s) \<Longrightarrow> c \<notin> set p"
  by (induction s arbitrary: p) (auto split: list.splits if_splits)

definition split_once :: "string \<Rightarrow> char \<Rightarrow> (string \<times> string) option" where
  "split_once s c = (if c \<in> set s
     then Some (takeWhile (\<lambda>x. x \<noteq> c) s, tl (dropWhile (\<lambda>x. x \<noteq> c) s)) else None)"

definition rsplit_once :: "string \<Rightarrow> char \<Rightarrow> (string \<times> string) option" where
  "rsplit_once s c = map_option (\<lambda>(b, a). (rev a, rev b)) (split_once (rev s) c)"

lemma split_once_append: "c \<notin> set a \<Longrightarrow> split_once (a @ c # b) c = Some (a, b)"
  by (simp add: split_once_def takeWhile_sep dropWhile_sep)

lemma split_once_eq_Some [str_simps]:
  "split_once s c = Some (a, b) \<longleftrightarrow> s = a @ c # b \<and> c \<notin> set a"
proof
  assume eq: "split_once s c = Some (a, b)"
  then have "c \<in> set s" by (simp add: split_once_def split: if_splits)
  then obtain u v where "s = u @ c # v" "c \<notin> set u" by (meson split_list_first)
  with eq show "s = a @ c # b \<and> c \<notin> set a" by (simp add: split_once_append)
qed (auto simp: split_once_append)

lemma split_once_eq_None [str_simps]: "split_once s c = None \<longleftrightarrow> c \<notin> set s"
  by (auto simp: split_once_def)

lemma rsplit_once_eq_Some [str_simps]:
  "rsplit_once s c = Some (a, b) \<longleftrightarrow> s = a @ c # b \<and> c \<notin> set b"
  by (auto simp: rsplit_once_def split_once_eq_Some rev_swap)

text \<open>\<open>str::replace\<close> of a non-empty pattern: leftmost, non-overlapping.\<close>

function replace_sub :: "string \<Rightarrow> string \<Rightarrow> string \<Rightarrow> string" where
  "replace_sub s from to =
     (case s of [] \<Rightarrow> []
      | x # xs \<Rightarrow> if from \<noteq> [] \<and> starts_with s from
                 then to @ replace_sub (drop (length from) s) from to
                 else x # replace_sub xs from to)"
  by pat_completeness auto
termination
  by (relation "measure (\<lambda>(s, _, _). length s)") auto

declare replace_sub.simps [simp del]

definition replace_char :: "char \<Rightarrow> string \<Rightarrow> string \<Rightarrow> string" where
  "replace_char c to s = concat (map (\<lambda>x. if x = c then to else [x]) s)"

text \<open>\<open>str::lines\<close>: split at line feeds, an empty piece after the last one dropped, one carriage
  return before each line feed removed.\<close>

definition strip_cr :: "string \<Rightarrow> string" where
  "strip_cr l = (if l \<noteq> [] \<and> last l = CR then butlast l else l)"

definition str_lines :: "string \<Rightarrow> string list" where
  "str_lines s = (let ps = split_on LF s
                  in map strip_cr (butlast ps) @ (if last ps = [] then [] else [last ps]))"

definition join_with :: "string \<Rightarrow> string list \<Rightarrow> string" where
  "join_with sep xs = (case xs of [] \<Rightarrow> [] | x # ys \<Rightarrow> x @ concat (map (\<lambda>y. sep @ y) ys))"

subsection \<open>Unicode scalar values on the encoding\<close>

definition is_continuation :: "char \<Rightarrow> bool" where
  "is_continuation c \<longleftrightarrow> 128 \<le> byte_of c \<and> byte_of c < 192"

text \<open>\<open>str::chars\<close> as the list of the encodings of the scalar values.\<close>

function utf8_chars :: "string \<Rightarrow> string list" where
  "utf8_chars [] = []"
| "utf8_chars (x # xs) =
     (x # takeWhile is_continuation xs) # utf8_chars (dropWhile is_continuation xs)"
  by pat_completeness auto
termination
  by (relation "measure length") (auto simp: le_imp_less_Suc length_dropWhile_le)

lemma concat_utf8_chars [simp]: "concat (utf8_chars s) = s"
  by (induction s rule: utf8_chars.induct) auto

text \<open>\<open>char::is_control\<close> is the general category Cc: U+0000-001F, U+007F and U+0080-009F, the
  last encoded as the byte \<open>C2\<close> and a byte from 80 to 9F.\<close>

definition is_control_char :: "string \<Rightarrow> bool" where
  "is_control_char ch =
     (case ch of [c] \<Rightarrow> is_ascii_control c
      | [c, d] \<Rightarrow> byte_of c = 194 \<and> 128 \<le> byte_of d \<and> byte_of d \<le> 159
      | _ \<Rightarrow> False)"

text \<open>\<open>char::is_whitespace\<close> is the property White\_Space.\<close>

definition is_whitespace_char :: "string \<Rightarrow> bool" where
  "is_whitespace_char ch =
     (case map byte_of ch of
        [c] \<Rightarrow> (9 \<le> c \<and> c \<le> 13) \<or> c = 32
      | [c, d] \<Rightarrow> c = 194 \<and> (d = 133 \<or> d = 160)
      | [c, d, e] \<Rightarrow> (c = 225 \<and> d = 154 \<and> e = 128)
          \<or> (c = 226 \<and> d = 128 \<and> (128 \<le> e \<and> e \<le> 138 \<or> e = 168 \<or> e = 169 \<or> e = 175))
          \<or> (c = 226 \<and> d = 129 \<and> e = 159)
          \<or> (c = 227 \<and> d = 128 \<and> e = 128)
      | _ \<Rightarrow> False)"

definition trim_chars :: "string list \<Rightarrow> string list" where
  "trim_chars cs = rev (dropWhile is_whitespace_char (rev (dropWhile is_whitespace_char cs)))"

definition trim :: "string \<Rightarrow> string" where
  "trim s = concat (trim_chars (utf8_chars s))"

definition take_chars :: "nat \<Rightarrow> string \<Rightarrow> string" where
  "take_chars n s = concat (take n (utf8_chars s))"

lemma trim_Nil [simp]: "trim [] = []"
  by (simp add: trim_def trim_chars_def)

lemma set_trim: "set (trim s) \<subseteq> set s"
proof -
  have "set (trim_chars cs) \<subseteq> set cs" for cs
    unfolding trim_chars_def set_rev
    by (metis (no_types, lifting) order.trans set_dropWhileD set_rev subsetI)
  then have "set (concat (trim_chars (utf8_chars s))) \<subseteq> set (concat (utf8_chars s))"
    by (fastforce simp del: concat_utf8_chars)
  then show ?thesis by (simp add: trim_def)
qed

text \<open>Trimming twice, and text that trimming leaves alone.\<close>

definition lead_byte :: "string \<Rightarrow> bool" where
  "lead_byte s \<longleftrightarrow> (case s of [] \<Rightarrow> True | c # _ \<Rightarrow> \<not> is_continuation c)"

definition scalar_seq :: "string list \<Rightarrow> bool" where
  "scalar_seq cs \<longleftrightarrow> (\<forall>ch \<in> set cs. ch \<noteq> [] \<and> list_all is_continuation (tl ch)) \<and> (\<forall>ch \<in> set (tl cs). lead_byte ch)"

lemma lead_byte_dropWhile: "lead_byte (dropWhile is_continuation s)"
  by (induction s) (auto simp: lead_byte_def)

lemma scalar_seq_Nil [simp]: "scalar_seq []"
  by (simp add: scalar_seq_def)

lemma scalar_seq_Cons:
  "scalar_seq (ch # cs) \<longleftrightarrow> ch \<noteq> [] \<and> list_all is_continuation (tl ch) \<and> scalar_seq cs \<and> lead_byte (concat cs)"
proof -
  have "lead_byte (concat cs) \<longleftrightarrow> (case cs of [] \<Rightarrow> True | d # ds \<Rightarrow> lead_byte d)" if "\<forall>ch \<in> set cs. ch \<noteq> []"
    using that by (cases cs) (auto simp: lead_byte_def split: list.splits)
  then show ?thesis unfolding scalar_seq_def by (cases cs) auto
qed

lemma scalar_seq_utf8_chars: "scalar_seq (utf8_chars s)"
  by (induction s rule: utf8_chars.induct)
    (auto simp: scalar_seq_Cons lead_byte_dropWhile list_all_iff dest: set_takeWhileD)

lemma utf8_chars_concat: "scalar_seq cs \<Longrightarrow> utf8_chars (concat cs) = cs"
proof (induction cs)
  case (Cons ch cs)
  then obtain x xs where ch: "ch = x # xs" and "list_all is_continuation xs" "scalar_seq cs" "lead_byte (concat cs)"
    by (cases ch) (auto simp: scalar_seq_Cons)
  moreover have "takeWhile is_continuation t = []" "dropWhile is_continuation t = t" if "lead_byte t" for t
    using that by (auto simp: lead_byte_def split: list.splits)
  ultimately have "takeWhile is_continuation (xs @ concat cs) = xs" "dropWhile is_continuation (xs @ concat cs) = concat cs"
    by (simp_all add: list_all_iff)
  with Cons ch \<open>scalar_seq cs\<close> show ?case by simp
qed simp

lemma scalar_seq_drop: "scalar_seq cs \<Longrightarrow> scalar_seq (drop n cs)"
proof (induction cs arbitrary: n)
  case (Cons ch cs)
  then show ?case by (cases n) (auto simp: scalar_seq_Cons)
qed simp

lemma scalar_seq_take: "scalar_seq cs \<Longrightarrow> scalar_seq (take n cs)"
  by (auto simp: scalar_seq_def dest: in_set_takeD) (metis in_set_takeD tl_take)

lemma scalar_seq_trim_chars:
  assumes "scalar_seq cs"
  shows "scalar_seq (trim_chars cs)"
proof -
  have "\<exists>m n. trim_chars cs = take m (drop n cs)"
    unfolding trim_chars_def
    by (metis dropWhile_eq_drop rev_drop rev_rev_ident)
  then show ?thesis using assms scalar_seq_take scalar_seq_drop by metis
qed

lemma utf8_chars_trim: "utf8_chars (trim s) = trim_chars (utf8_chars s)"
  by (simp add: trim_def utf8_chars_concat scalar_seq_trim_chars scalar_seq_utf8_chars)

lemma trim_chars_idem: "trim_chars (trim_chars cs) = trim_chars cs"
proof -
  let ?d = "dropWhile is_whitespace_char"
  have "?d (rev (?d (rev (?d cs)))) = rev (?d (rev (?d cs)))"
  proof (cases "?d cs")
    case (Cons x xs)
    then have "\<not> is_whitespace_char x" by (metis hd_dropWhile list.distinct(1) list.sel(1))
    then show ?thesis using Cons by (simp add: dropWhile_append3)
  next
    case Nil
    show ?thesis unfolding Nil by simp
  qed
  then show ?thesis unfolding trim_chars_def by simp
qed

lemma trim_idem [simp]: "trim (trim s) = trim s"
  unfolding trim_def [of "trim s"] utf8_chars_trim trim_chars_idem by (simp add: trim_def)

lemma utf8_chars_ascii: "list_all (\<lambda>c. byte_of c < 128) s \<Longrightarrow> utf8_chars s = map (\<lambda>c. [c]) s"
proof (induction s)
  case (Cons c s)
  then have "takeWhile is_continuation s = []" "dropWhile is_continuation s = s"
    by (cases s; force simp: is_continuation_def)+
  with Cons show ?case by simp
qed simp

lemma trim_plain:
  assumes "list_all (\<lambda>c. 32 < byte_of c \<and> byte_of c < 128) s"
  shows "trim s = s"
proof -
  have none: "dropWhile is_whitespace_char xs = xs" if "set xs \<subseteq> set (map (\<lambda>c. [c]) s)" for xs
    using that assms by (cases xs) (auto simp: is_whitespace_char_def list_all_iff)
  have "list_all (\<lambda>c. byte_of c < 128) s" using assms by (auto simp: list_all_iff)
  then have "utf8_chars s = map (\<lambda>c. [c]) s" by (rule utf8_chars_ascii)
  then show ?thesis unfolding trim_def trim_chars_def by (simp add: none flip: rev_map)
qed

definition trim_matches :: "(char \<Rightarrow> bool) \<Rightarrow> string \<Rightarrow> string" where
  "trim_matches p s = rev (dropWhile p (rev (dropWhile p s)))"

definition trim_end_matches :: "(char \<Rightarrow> bool) \<Rightarrow> string \<Rightarrow> string" where
  "trim_end_matches p s = rev (dropWhile p (rev s))"

subsection \<open>UTF-8 validity\<close>

text \<open>The well-formed sequences of the Unicode standard, table 3-7, which \<open>String::from_utf8\<close>
  accepts.\<close>

fun valid_utf8 :: "string \<Rightarrow> bool" where
  "valid_utf8 [] = True"
| "valid_utf8 (a # s) =
     (let x = byte_of a in
      if x < 128 then valid_utf8 s
      else if 194 \<le> x \<and> x \<le> 223 then
        (case s of b # t \<Rightarrow> is_continuation b \<and> valid_utf8 t | _ \<Rightarrow> False)
      else if 224 \<le> x \<and> x \<le> 239 then
        (case s of b # c # t \<Rightarrow>
           is_continuation b \<and> (x = 224 \<longrightarrow> 160 \<le> byte_of b) \<and> (x = 237 \<longrightarrow> byte_of b \<le> 159)
           \<and> is_continuation c \<and> valid_utf8 t | _ \<Rightarrow> False)
      else if 240 \<le> x \<and> x \<le> 244 then
        (case s of b # c # d # t \<Rightarrow>
           is_continuation b \<and> (x = 240 \<longrightarrow> 144 \<le> byte_of b) \<and> (x = 244 \<longrightarrow> byte_of b \<le> 143)
           \<and> is_continuation c \<and> is_continuation d \<and> valid_utf8 t | _ \<Rightarrow> False)
      else False)"

lemma valid_utf8_ascii: "(\<forall>c \<in> set s. byte_of c < 128) \<Longrightarrow> valid_utf8 s"
  by (induction s) (simp_all add: Let_def)

subsection \<open>Decimal numbers\<close>

definition digit_char :: "nat \<Rightarrow> char" where
  "digit_char d = char_of (48 + d)"

fun show_nat :: "nat \<Rightarrow> string" where
  "show_nat n = (if n < 10 then [digit_char n]
                 else show_nat (n div 10) @ [digit_char (n mod 10)])"

declare show_nat.simps [simp del]

fun digits_val :: "nat \<Rightarrow> string \<Rightarrow> nat" where
  "digits_val a [] = a"
| "digits_val a (c # cs) = digits_val (10 * a + (byte_of c - 48)) cs"

text \<open>
  \<open>str::parse\<close> into an unsigned type with the given largest value: one optional plus sign, at
  least one digit, only digits, and no overflow.
\<close>

definition parse_uint :: "nat \<Rightarrow> string \<Rightarrow> nat option" where
  "parse_uint mx s =
     (let ds = (case s of c # r \<Rightarrow> if c = CHR ''+'' then r else s | [] \<Rightarrow> [])
      in if ds \<noteq> [] \<and> list_all is_ascii_digit ds \<and> digits_val 0 ds \<le> mx
         then Some (digits_val 0 ds) else None)"

definition u16_max :: nat where "u16_max = 65535"
definition u32_max :: nat where "u32_max = 4294967295"
definition u64_max :: nat where "u64_max = 18446744073709551615"
definition i64_max :: nat where "i64_max = 9223372036854775807"

lemmas uint_bounds = u16_max_def u32_max_def u64_max_def i64_max_def

lemma byte_of_digit_char [simp]: "d < 10 \<Longrightarrow> byte_of (digit_char d) = 48 + d"
  by (simp add: digit_char_def)

lemma digits_val_append: "digits_val a (s @ t) = digits_val (digits_val a s) t"
  by (induction s arbitrary: a) auto

lemma show_nat_digits: "list_all is_ascii_digit (show_nat n)"
proof (induction n rule: show_nat.induct)
  case (1 n)
  have "is_ascii_digit (digit_char d)" if "d < 10" for d
    using that by (simp add: is_ascii_digit_def)
  with 1 show ?case by (subst show_nat.simps) simp
qed

lemma show_nat_not_Nil [simp]: "show_nat n \<noteq> []"
  by (subst show_nat.simps) simp

lemma digits_val_show_nat: "digits_val 0 (show_nat n) = n"
proof (induction n rule: show_nat.induct)
  case (1 n)
  show ?case
  proof (cases "n < 10")
    case True
    then show ?thesis by (subst show_nat.simps) simp
  next
    case False
    with 1 show ?thesis by (subst show_nat.simps) (simp add: digits_val_append)
  qed
qed

lemma not_digit_notin_show_nat: "\<not> is_ascii_digit c \<Longrightarrow> c \<notin> set (show_nat n)"
  using show_nat_digits [of n] by (auto simp: list_all_iff)

lemma parse_uint_show_nat [simp]:
  assumes "n \<le> mx"
  shows "parse_uint mx (show_nat n) = Some n"
proof -
  obtain c r where s: "show_nat n = c # r" by (cases "show_nat n") auto
  have "c \<noteq> CHR ''+''"
    using not_digit_notin_show_nat [of "CHR ''+''" n] s by (auto simp: ascii_defs)
  with s assms show ?thesis
    using show_nat_digits [of n] digits_val_show_nat [of n]
    by (simp add: parse_uint_def Let_def)
qed

lemma parse_uint_bound: "parse_uint mx s = Some n \<Longrightarrow> n \<le> mx"
  by (auto simp: parse_uint_def Let_def split: if_splits)

lemma show_nat_inject [simp]: "show_nat m = show_nat n \<longleftrightarrow> m = n"
  by (metis digits_val_show_nat)

end
