(* ===== verification/Models.thy ===== *)
theory Models
  imports Rust_Strings
begin

section \<open>The data model of crate quickmail-core\<close>

text \<open>
  The structs of \<open>models.rs\<close>, \<open>provider.rs\<close> and \<open>rpc.rs\<close> as records and their
  enums as datatypes. Record fields carry the struct's initials as a prefix, because HOL records
  share one name space. A \<open>DateTime<Utc>\<close> is its millisecond timestamp, an \<open>int\<close>; a
  \<open>u64\<close> counter is a \<open>nat\<close>, with its bound written out where the code can exceed it;
  a \<open>serde_json::Value\<close> is the datatype \<open>json\<close>.
\<close>

subsection \<open>JSON values\<close>

datatype json =
    JNull
  | JBool bool
  | JNum int
  | JReal string
  | JStr string
  | JArr "json list"
  | JObj "(string \<times> json) list"

text \<open>\<open>Value::get\<close> with a string key, and the typed views of a value.\<close>

fun json_get :: "string \<Rightarrow> json \<Rightarrow> json option" where
  "json_get k (JObj fs) = map_of fs k"
| "json_get k _ = None"

fun json_as_str :: "json \<Rightarrow> string option" where
  "json_as_str (JStr s) = Some s"
| "json_as_str _ = None"

fun json_as_bool :: "json \<Rightarrow> bool option" where
  "json_as_bool (JBool b) = Some b"
| "json_as_bool _ = None"

fun json_as_array :: "json \<Rightarrow> json list option" where
  "json_as_array (JArr xs) = Some xs"
| "json_as_array _ = None"

fun json_is_object :: "json \<Rightarrow> bool" where
  "json_is_object (JObj _) = True"
| "json_is_object _ = False"

text \<open>\<open>value[key] = v\<close> on an object.\<close>

fun assoc_set :: "'k \<Rightarrow> 'v \<Rightarrow> ('k \<times> 'v) list \<Rightarrow> ('k \<times> 'v) list" where
  "assoc_set k v [] = [(k, v)]"
| "assoc_set k v ((k', v') # xs) =
     (if k = k' then (k, v) # xs else (k', v') # assoc_set k v xs)"

fun json_set :: "string \<Rightarrow> json \<Rightarrow> json \<Rightarrow> json" where
  "json_set k v (JObj fs) = JObj (assoc_set k v fs)"
| "json_set k v j = j"

lemma map_of_assoc_set [simp]: "map_of (assoc_set k v xs) = (map_of xs)(k \<mapsto> v)"
  by (induction k v xs rule: assoc_set.induct) (auto simp: fun_eq_iff)

lemma json_get_set [simp]:
  "json_is_object j \<Longrightarrow> json_get k (json_set k' v j) = (if k = k' then Some v else json_get k j)"
  by (cases j) auto

definition json_opt_str :: "string option \<Rightarrow> json" where
  "json_opt_str s = (case s of None \<Rightarrow> JNull | Some t \<Rightarrow> JStr t)"

definition json_strs :: "string list \<Rightarrow> json" where
  "json_strs xs = JArr (map JStr xs)"

subsection \<open>Message keys\<close>

definition COLON :: char where "COLON = CHR '':''"

definition normalized_message_id :: "string \<Rightarrow> string \<Rightarrow> string" where
  "normalized_message_id account_id provider_id = account_id @ COLON # provider_id"

definition is_normalized_message_id :: "string \<Rightarrow> string \<Rightarrow> bool" where
  "is_normalized_message_id account_id i =
     (case strip_prefix i account_id of
        None \<Rightarrow> False
      | Some suffix \<Rightarrow> starts_with suffix [COLON] \<and> 1 < length suffix)"

lemma is_normalized_message_id_iff:
  "is_normalized_message_id a i \<longleftrightarrow> (\<exists>p. p \<noteq> [] \<and> i = normalized_message_id a p)"
  by (auto simp: is_normalized_message_id_def normalized_message_id_def strip_prefix_eq_Some
      starts_with_iff neq_Nil_conv split: option.splits dest: iffD1 [OF strip_prefix_eq_Some]
      simp del: not_None_eq)

lemma normalized_message_id_normalized [simp]:
  "is_normalized_message_id a (normalized_message_id a p) \<longleftrightarrow> p \<noteq> []"
  by (simp add: is_normalized_message_id_def normalized_message_id_def starts_with_def)

lemma normalized_message_id_inject:
  "normalized_message_id a p = normalized_message_id a q \<longleftrightarrow> p = q"
  by (simp add: normalized_message_id_def)

subsection \<open>Accounts, mailboxes, messages\<close>

record account =
  a_id :: string
  a_address :: string
  a_display_name :: string
  a_provider :: string
  a_protocol :: string
  a_host :: string
  a_unread :: nat
  a_total :: nat
  a_enabled :: bool

datatype mailbox_role = Inbox | Drafts | Sent | ArchiveRole | TrashRole | Spam | OtherRole

record mailbox =
  mb_id :: string
  mb_account_id :: string
  mb_name :: string
  mb_role :: "mailbox_role option"
  mb_unread :: nat
  mb_total :: nat

record address =
  ad_name :: string
  ad_address :: string

record message_summary =
  ms_id :: string
  ms_account_id :: string
  ms_mailbox_id :: "string option"
  ms_thread_id :: "string option"
  ms_subject :: string
  ms_author :: "address option"
  ms_timestamp :: int
  ms_read :: bool
  ms_starred :: bool
  ms_snippet :: string
  ms_has_attachments :: bool
  ms_labels :: "string list"
  ms_provider_data :: json

record attachment =
  at_id :: string
  at_filename :: string
  at_content_type :: string
  at_size :: nat
  at_inline :: bool
  at_content_id :: "string option"

record message =
  m_summary :: message_summary
  m_to :: "address list"
  m_cc :: "address list"
  m_bcc :: "address list"
  m_body_text :: "string option"
  m_body_html :: "string option"
  m_attachments :: "attachment list"

record thread_conversation =
  tc_id :: string
  tc_messages :: "message_summary list"
  tc_truncated :: bool

record task =
  t_id :: string
  t_title :: string
  t_description :: string
  t_done :: bool
  t_due_at :: "int option"
  t_created_at :: int
  t_source :: string
  t_external_id :: string
  t_account :: string

record calendar_event =
  e_id :: string
  e_external_id :: string
  e_calendar_id :: string
  e_calendar_name :: string
  e_title :: string
  e_description :: string
  e_start_at :: int
  e_end_at :: int
  e_all_day :: bool
  e_read_only :: bool

subsection \<open>The provider interface\<close>

record message_query =
  q_account_id :: "string option"
  q_mailbox_id :: "string option"
  q_search :: "string option"
  q_unread_only :: bool
  q_cursor :: "string option"
  q_limit :: nat

record message_page =
  p_messages :: "message_summary list"
  p_next_cursor :: "string option"

record mailbox_sync_query =
  sq_account_id :: string
  sq_mailbox_id :: string
  sq_cursor :: "string option"
  sq_limit :: nat
  sq_reconcile_message_ids :: "string list"

record mailbox_sync_page =
  sp_messages :: "message_summary list"
  sp_removed_message_ids :: "string list"
  sp_cursor :: "string option"
  sp_reset :: bool

datatype mail_action =
    MarkRead "string list" bool
  | Star "string list" bool
  | Archive "string list"
  | Trash "string list"
  | Move "string list" string
  | SetLabels "string list" "string list"

record outgoing_message =
  o_draft_id :: "string option"
  o_account_id :: string
  o_to :: "address list"
  o_cc :: "address list"
  o_bcc :: "address list"
  o_subject :: string
  o_body_text :: "string option"
  o_body_html :: "string option"
  o_in_reply_to :: "string option"

record attachment_data =
  ad_filename :: string
  ad_content_type :: string
  ad_bytes :: string

datatype provider_error =
    Authentication string
  | Unsupported string
  | ProviderNotFound
  | Temporary string
  | ResourceTooLarge string
  | ProviderOther string

text \<open>The \<open>Display\<close> text of a provider error, which operations record and clients receive.\<close>

fun provider_error_text :: "provider_error \<Rightarrow> string" where
  "provider_error_text (Authentication m) = ''authentication required: '' @ m"
| "provider_error_text (Unsupported m) = ''provider operation is not supported: '' @ m"
| "provider_error_text ProviderNotFound = ''remote resource was not found''"
| "provider_error_text (Temporary m) = ''temporary provider failure: '' @ m"
| "provider_error_text (ResourceTooLarge m) = m @ '' exceeds the configured size limit''"
| "provider_error_text (ProviderOther m) = ''provider failure: '' @ m"

text \<open>\<open>MessageQuery::default()\<close> is derived, so its limit is 0; only a query decoded from JSON
  takes the page size 50 of \<open>default_page_size\<close>.\<close>

definition default_query :: message_query where
  "default_query = \<lparr>q_account_id = None, q_mailbox_id = None, q_search = None,
     q_unread_only = False, q_cursor = None, q_limit = 0\<rparr>"

subsection \<open>JSON-RPC envelopes\<close>

definition JSONRPC_VERSION :: string where "JSONRPC_VERSION = ''2.0''"

datatype rpc_id = RpcNull | RpcNumber int | RpcString string

record rpc_error =
  re_code :: int
  re_message :: string
  re_data :: "json option"

record rpc_request =
  rq_jsonrpc :: string
  rq_id :: rpc_id
  rq_method :: string
  rq_params :: json

record rpc_response =
  rr_jsonrpc :: string
  rr_id :: rpc_id
  rr_result :: "json option"
  rr_error :: "rpc_error option"

definition rpc_success :: "rpc_id \<Rightarrow> json \<Rightarrow> rpc_response" where
  "rpc_success i v = \<lparr>rr_jsonrpc = JSONRPC_VERSION, rr_id = i, rr_result = Some v, rr_error = None\<rparr>"

definition rpc_failure :: "rpc_id \<Rightarrow> rpc_error \<Rightarrow> rpc_response" where
  "rpc_failure i e = \<lparr>rr_jsonrpc = JSONRPC_VERSION, rr_id = i, rr_result = None, rr_error = Some e\<rparr>"

definition rpc_err :: "int \<Rightarrow> string \<Rightarrow> rpc_error" where
  "rpc_err code msg = \<lparr>re_code = code, re_message = msg, re_data = None\<rparr>"

definition invalid_request :: "string \<Rightarrow> rpc_error" where
  "invalid_request msg = rpc_err (-32600) msg"

definition method_not_found :: "string \<Rightarrow> rpc_error" where
  "method_not_found m = rpc_err (-32601) (''method not found: '' @ m)"

definition invalid_params :: "string \<Rightarrow> rpc_error" where
  "invalid_params msg = rpc_err (-32602) msg"

definition internal_error :: "string \<Rightarrow> rpc_error" where
  "internal_error msg = rpc_err (-32603) msg"

lemmas rpc_error_defs = invalid_request_def method_not_found_def invalid_params_def
  internal_error_def rpc_err_def

end
