(* ===== verification/Imap_Ids.thy ===== *)
theory Imap_Ids
  imports Models
begin

section \<open>IMAP: identifiers, cursors, arguments\<close>

text \<open>
  The textual forms of \<open>providers/imap_smtp.rs\<close>: the stable identifier of a message
  (\<open>imap:uidvalidity:uid:hex(mailbox)\<close>), the cursor of a mailbox (\<open>uidvalidity:uid\<close>), hexadecimal
  text, and the arguments of IMAP commands. The locale \<open>text_codec\<close> states what a printed form
  promises its readers; it is interpreted for the three formats.
\<close>

datatype imap_error =
    InvalidConfiguration string
  | ImapAuthentication
  | ImapNotFound
  | MissingMessageSize
  | ImapMessageTooLarge
  | MissingUidValidity
  | InvalidStableId
  | InvalidUidCursor
  | Connection string
  | Protocol string
  | CommandTimeout

fun imap_error_text :: "imap_error \<Rightarrow> string" where
  "imap_error_text (InvalidConfiguration m) = ''invalid IMAP/SMTP configuration: '' @ m"
| "imap_error_text ImapAuthentication = ''IMAP authentication failed''"
| "imap_error_text ImapNotFound = ''IMAP resource was not found''"
| "imap_error_text MissingMessageSize = ''FETCH response did not include RFC822.SIZE''"
| "imap_error_text ImapMessageTooLarge = ''message exceeds the configured IMAP size limit''"
| "imap_error_text MissingUidValidity = ''SELECT response did not include UIDVALIDITY''"
| "imap_error_text InvalidStableId = ''invalid stable IMAP message ID''"
| "imap_error_text InvalidUidCursor = ''invalid IMAP UID cursor''"
| "imap_error_text (Connection m) = ''IMAP connection failure: '' @ m"
| "imap_error_text (Protocol m) = ''IMAP protocol failure: '' @ m"
| "imap_error_text CommandTimeout = ''IMAP command timed out''"

fun imap_provider_error :: "imap_error \<Rightarrow> provider_error" where
  "imap_provider_error ImapAuthentication = Authentication ''IMAP login failed''"
| "imap_provider_error ImapNotFound = ProviderNotFound"
| "imap_provider_error ImapMessageTooLarge = ResourceTooLarge ''message''"
| "imap_provider_error other = Temporary (imap_error_text other)"

subsection \<open>The interface of a printed form\<close>

locale text_codec =
  fixes print :: "'a \<Rightarrow> string" and parse :: "string \<Rightarrow> 'a option" and good :: "'a \<Rightarrow> bool"
  assumes parse_print: "good x \<Longrightarrow> parse (print x) = Some x"
begin

lemma print_inject: "good x \<Longrightarrow> good y \<Longrightarrow> print x = print y \<longleftrightarrow> x = y"
  by (metis parse_print option.inject)

lemma parse_print_exists: "good x \<Longrightarrow> \<exists>s. parse s = Some x"
  using parse_print by blast

text \<open>A value survives any number of printings and readings.\<close>

lemma reprint_stable: "good x \<Longrightarrow> map_option print (parse (print x)) = Some (print x)"
  by (simp add: parse_print)

end

subsection \<open>Hexadecimal text\<close>

definition hex_digit_char :: "nat \<Rightarrow> char" where
  "hex_digit_char d = ''0123456789abcdef'' ! d"

definition encode_hex :: "string \<Rightarrow> string" where
  "encode_hex s = concat (map (\<lambda>c. [hex_digit_char (byte_of c div 16), hex_digit_char (byte_of c mod 16)]) s)"

definition hex_value :: "char \<Rightarrow> nat option" where
  "hex_value c = (let b = byte_of c in
     if 48 \<le> b \<and> b \<le> 57 then Some (b - 48)
     else if 97 \<le> b \<and> b \<le> 102 then Some (b - 97 + 10)
     else if 65 \<le> b \<and> b \<le> 70 then Some (b - 65 + 10) else None)"

fun decode_hex_pairs :: "string \<Rightarrow> string option" where
  "decode_hex_pairs (a # b # s) =
     (case (hex_value a, hex_value b, decode_hex_pairs s) of
        (Some x, Some y, Some r) \<Rightarrow> Some (char_of (16 * x + y) # r)
      | _ \<Rightarrow> None)"
| "decode_hex_pairs _ = Some []"

definition decode_hex :: "string \<Rightarrow> string option" where
  "decode_hex s =
     (if odd (length s) then None
      else (case decode_hex_pairs s of
              None \<Rightarrow> None | Some bytes \<Rightarrow> if valid_utf8 bytes then Some bytes else None))"

lemma hex_value_digit: "d < 16 \<Longrightarrow> hex_value (hex_digit_char d) = Some d"
proof -
  assume "d < 16"
  moreover have "\<forall>d \<in> set [0..<16]. hex_value (hex_digit_char d) = Some d" by code_simp
  ultimately show ?thesis by simp
qed

lemma byte_nibbles: "byte_of c div 16 < 16" "byte_of c mod 16 < 16"
  using byte_of_less [of c] by (auto intro: less_mult_imp_div_less)

lemma decode_hex_pairs_encode: "decode_hex_pairs (encode_hex s) = Some s"
proof (induction s)
  case (Cons c s)
  with byte_nibbles show ?case by (simp add: encode_hex_def hex_value_digit)
qed (simp add: encode_hex_def)

lemma length_encode_hex [simp]: "length (encode_hex s) = 2 * length s"
  by (induction s) (simp_all add: encode_hex_def)

lemma decode_hex_encode: "valid_utf8 s \<Longrightarrow> decode_hex (encode_hex s) = Some s"
  by (simp add: decode_hex_def decode_hex_pairs_encode)

lemma hex_digit_not_colon: "d < 16 \<Longrightarrow> hex_digit_char d \<noteq> COLON"
proof -
  assume "d < 16"
  moreover have "\<forall>d \<in> set [0..<16]. hex_digit_char d \<noteq> COLON" by code_simp
  ultimately show ?thesis by simp
qed

lemma colon_notin_encode_hex [simp]: "COLON \<notin> set (encode_hex s)"
proof (induction s)
  case (Cons c s)
  with byte_nibbles show ?case
    by (simp add: encode_hex_def hex_digit_not_colon hex_digit_not_colon [THEN not_sym])
qed (simp add: encode_hex_def)

lemma colon_notin_show_nat [simp]: "COLON \<notin> set (show_nat n)"
  by (rule not_digit_notin_show_nat) (simp add: COLON_def ascii_defs)

interpretation hex_codec: text_codec encode_hex decode_hex valid_utf8
  by unfold_locales (rule decode_hex_encode)

subsection \<open>Stable message identifiers\<close>

record stable_imap_id =
  si_mailbox :: string
  si_uid_validity :: nat
  si_uid :: nat

definition stable_id_text :: "stable_imap_id \<Rightarrow> string" where
  "stable_id_text i = ''imap:'' @ show_nat (si_uid_validity i) @ COLON # show_nat (si_uid i)
     @ COLON # encode_hex (si_mailbox i)"

definition parse_stable_id :: "string \<Rightarrow> imap_error + stable_imap_id" where
  "parse_stable_id s =
     (case split_on COLON s of
        scheme # rest \<Rightarrow>
          if scheme \<noteq> ''imap'' then Inl InvalidStableId
          else bind_r (ok_or (case rest of v # _ \<Rightarrow> parse_uint u64_max v | [] \<Rightarrow> None) InvalidStableId) (\<lambda>v.
               bind_r (ok_or (case rest of _ # u # _ \<Rightarrow>
                   (case parse_uint u64_max u of Some n \<Rightarrow> if 0 < n then Some n else None | None \<Rightarrow> None)
                 | _ \<Rightarrow> None) InvalidStableId) (\<lambda>u.
               bind_r (ok_or (case rest of _ # _ # h # _ \<Rightarrow> decode_hex h | _ \<Rightarrow> None) InvalidStableId) (\<lambda>mb.
               if 3 < length rest then Inl InvalidStableId
               else Inr \<lparr>si_mailbox = mb, si_uid_validity = v, si_uid = u\<rparr>)))
      | [] \<Rightarrow> Inl InvalidStableId)"

definition stable_id_ok :: "stable_imap_id \<Rightarrow> bool" where
  "stable_id_ok i \<longleftrightarrow> valid_utf8 (si_mailbox i) \<and> si_uid_validity i \<le> u64_max
     \<and> 0 < si_uid i \<and> si_uid i \<le> u64_max"

lemma split_stable_id:
  "split_on COLON (stable_id_text i) =
     [''imap'', show_nat (si_uid_validity i), show_nat (si_uid i), encode_hex (si_mailbox i)]"
proof -
  have eq: "stable_id_text i = ''imap'' @ COLON # show_nat (si_uid_validity i) @ COLON # show_nat (si_uid i)
     @ COLON # encode_hex (si_mailbox i)"
    by (simp add: stable_id_text_def COLON_def)
  have "split_on COLON (''imap'' @ COLON # t) = ''imap'' # split_on COLON t" for t
    by (rule split_on_append) (simp add: COLON_def)
  then show ?thesis
    unfolding eq by (simp only: split_on_append split_on_no_sep colon_notin_show_nat
        colon_notin_encode_hex not_False_eq_True)
qed

lemma parse_stable_id_text:
  "stable_id_ok i \<Longrightarrow> parse_stable_id (stable_id_text i) = Inr i"
  unfolding parse_stable_id_def split_stable_id
  by (simp add: stable_id_ok_def decode_hex_encode)

interpretation stable_id_codec:
  text_codec stable_id_text "\<lambda>s. case parse_stable_id s of Inl _ \<Rightarrow> None | Inr i \<Rightarrow> Some i" stable_id_ok
  by unfold_locales (simp add: parse_stable_id_text)

lemma parse_stable_id_uid_pos: "parse_stable_id s = Inr i \<Longrightarrow> 0 < si_uid i"
  by (auto simp: parse_stable_id_def result_simps split: list.splits option.splits if_splits)

definition provider_native_id :: "string \<Rightarrow> string \<Rightarrow> provider_error + string" where
  "provider_native_id account_id i =
     ok_or (case strip_prefix i account_id of
              None \<Rightarrow> None
            | Some rest \<Rightarrow>
                (case strip_prefix rest [COLON] of
                   None \<Rightarrow> None
                 | Some native \<Rightarrow> if starts_with native ''imap:'' then Some native else None))
       ProviderNotFound"

lemma provider_native_id_normalized:
  "provider_native_id a (normalized_message_id a (stable_id_text i)) = Inr (stable_id_text i)"
proof -
  have "strip_prefix (a @ COLON # stable_id_text i) a = Some (COLON # stable_id_text i)" by simp
  moreover have "strip_prefix (COLON # stable_id_text i) [COLON] = Some (stable_id_text i)"
    by (simp add: strip_prefix_eq_Some)
  moreover have "starts_with (stable_id_text i) ''imap:''"
    unfolding stable_id_text_def by (rule starts_with_append)
  ultimately show ?thesis by (simp add: provider_native_id_def normalized_message_id_def)
qed

text \<open>The identifier that a summary carries leads back to its message: for every mailbox name
  (in UTF-8, colons included), validity and positive UID, the account prefix is recognised, the
  native part parses, and two messages never share an identifier.\<close>

theorem stable_id_roundtrip:
  assumes "stable_id_ok i" and "stable_id_ok j"
  shows "bind_r (provider_native_id a (normalized_message_id a (stable_id_text i)))
      (\<lambda>n. map_err imap_provider_error (parse_stable_id n)) = Inr i
    \<and> (normalized_message_id a (stable_id_text i) = normalized_message_id a (stable_id_text j) \<longleftrightarrow> i = j)"
  using assms stable_id_codec.print_inject [of i j]
  by (simp add: provider_native_id_normalized parse_stable_id_text normalized_message_id_inject)

theorem stable_id_roundtrip_witness:
  "parse_stable_id (stable_id_text \<lparr>si_mailbox = ''a:b'', si_uid_validity = 7, si_uid = 12\<rparr>) =
     Inr \<lparr>si_mailbox = ''a:b'', si_uid_validity = 7, si_uid = 12\<rparr>"
proof -
  let ?i = "\<lparr>si_mailbox = ''a:b'', si_uid_validity = 7, si_uid = 12\<rparr>"
  have "stable_id_ok ?i" by (simp add: stable_id_ok_def uint_bounds byte_of_def)
  from stable_id_roundtrip [OF this this, of "''x''"] show ?thesis
    by (auto simp: provider_native_id_normalized result_simps)
qed

subsection \<open>Mailbox cursors\<close>

record uid_cursor =
  uc_uid_validity :: nat
  uc_last_uid :: nat

definition uid_cursor_text :: "uid_cursor \<Rightarrow> string" where
  "uid_cursor_text c = show_nat (uc_uid_validity c) @ COLON # show_nat (uc_last_uid c)"

definition parse_uid_cursor :: "string \<Rightarrow> imap_error + uid_cursor" where
  "parse_uid_cursor s =
     bind_r (ok_or (split_once s COLON) InvalidUidCursor) (\<lambda>(a, b).
     bind_r (ok_or (parse_uint u64_max a) InvalidUidCursor) (\<lambda>v.
     bind_r (ok_or (parse_uint u64_max b) InvalidUidCursor) (\<lambda>u.
     if v = 0 \<or> u32_max < v \<or> u32_max < u then Inl InvalidUidCursor
     else Inr \<lparr>uc_uid_validity = v, uc_last_uid = u\<rparr>)))"

definition uid_cursor_ok :: "uid_cursor \<Rightarrow> bool" where
  "uid_cursor_ok c \<longleftrightarrow> 0 < uc_uid_validity c \<and> uc_uid_validity c \<le> u32_max \<and> uc_last_uid c \<le> u32_max"

lemma parse_uid_cursor_text: "uid_cursor_ok c \<Longrightarrow> parse_uid_cursor (uid_cursor_text c) = Inr c"
  by (simp add: parse_uid_cursor_def uid_cursor_text_def split_once_append uid_cursor_ok_def
      uint_bounds)

lemma parse_uid_cursor_ok: "parse_uid_cursor s = Inr c \<Longrightarrow> uid_cursor_ok c"
  by (auto simp: parse_uid_cursor_def result_simps uid_cursor_ok_def split: if_splits)

interpretation cursor_codec:
  text_codec uid_cursor_text "\<lambda>s. case parse_uid_cursor s of Inl _ \<Rightarrow> None | Inr c \<Rightarrow> Some c" uid_cursor_ok
  by unfold_locales (simp add: parse_uid_cursor_text)

text \<open>The stored cursor of a mailbox is read back as it was written, and whatever text is
  accepted as a cursor lies in the 32-bit range of IMAP with a non-zero validity.\<close>

theorem uid_cursor_roundtrip:
  "(uid_cursor_ok c \<longrightarrow> parse_uid_cursor (uid_cursor_text c) = Inr c)
   \<and> (parse_uid_cursor s = Inr c' \<longrightarrow> uid_cursor_ok c')"
  using parse_uid_cursor_text parse_uid_cursor_ok by blast

theorem uid_cursor_roundtrip_witness:
  "parse_uid_cursor (uid_cursor_text \<lparr>uc_uid_validity = 3, uc_last_uid = 40\<rparr>) =
     Inr \<lparr>uc_uid_validity = 3, uc_last_uid = 40\<rparr>"
  using uid_cursor_roundtrip [of "\<lparr>uc_uid_validity = 3, uc_last_uid = 40\<rparr>"]
  by (simp add: uid_cursor_ok_def uint_bounds)

subsection \<open>Arguments of commands\<close>

definition validate_imap_text :: "string \<Rightarrow> imap_error + unit" where
  "validate_imap_text s = require (CR \<notin> set s \<and> LF \<notin> set s \<and> NUL \<notin> set s)
     (InvalidConfiguration ''IMAP value contains prohibited control characters'')"

definition quote_imap :: "string \<Rightarrow> imap_error + string" where
  "quote_imap s =
     bind_r (validate_imap_text s) (\<lambda>_.
     Inr (DQUOTE # replace_char DQUOTE [BACKSLASH, DQUOTE] (replace_char BACKSLASH [BACKSLASH, BACKSLASH] s)
       @ [DQUOTE]))"

definition uid_set :: "nat list \<Rightarrow> imap_error + string" where
  "uid_set uids =
     (if list_ex (\<lambda>u. u = 0 \<or> u32_max < u) uids then Inl InvalidStableId
      else Inr (join_with '','' (map show_nat uids)))"

definition flag_byte_ok :: "char \<Rightarrow> bool" where
  "flag_byte_ok c \<longleftrightarrow> is_ascii_alphanumeric c \<or> c = BACKSLASH \<or> c = CHR ''-'' \<or> c = CHR ''_'' \<or> c = CHR ''.''"

definition validated_flags :: "string list \<Rightarrow> imap_error + string list" where
  "validated_flags flags = collect_r (\<lambda>f.
     if f \<noteq> [] \<and> list_all flag_byte_ok f then Inr f
     else Inl (InvalidConfiguration ''invalid IMAP flag'')) flags"

text \<open>How a server reads a quoted string (RFC 3501, \<open>quoted\<close>): up to the first unescaped quote.\<close>

fun read_quoted :: "string \<Rightarrow> (string \<times> string) option" where
  "read_quoted [] = None"
| "read_quoted (c # s) =
     (if c = DQUOTE then Some ([], s)
      else if c = BACKSLASH then
        (case s of [] \<Rightarrow> None | d # t \<Rightarrow> map_option (\<lambda>(v, r). (d # v, r)) (read_quoted t))
      else map_option (\<lambda>(v, r). (c # v, r)) (read_quoted s))"

definition read_imap_string :: "string \<Rightarrow> (string \<times> string) option" where
  "read_imap_string s = (case s of c # t \<Rightarrow> if c = DQUOTE then read_quoted t else None | [] \<Rightarrow> None)"

lemma read_quoted_escaped:
  "read_quoted (replace_char DQUOTE [BACKSLASH, DQUOTE] (replace_char BACKSLASH [BACKSLASH, BACKSLASH] s)
     @ DQUOTE # rest) = Some (s, rest)"
proof (induction s)
  case (Cons c s)
  have "DQUOTE \<noteq> BACKSLASH" by (simp add: char_consts)
  with Cons show ?case by (cases "c = BACKSLASH"; cases "c = DQUOTE") (auto simp: replace_char_def)
qed (simp add: replace_char_def)

text \<open>C34: a search text or mailbox name cannot break out of its command: what \<open>quote_imap\<close> returns has
  no line end, and the server reads exactly the original value back and nothing of what follows.\<close>

theorem quote_imap_confines:
  assumes "quote_imap s = Inr q"
  shows "CR \<notin> set q \<and> LF \<notin> set q \<and> NUL \<notin> set q \<and> read_imap_string (q @ rest) = Some (s, rest)"
proof -
  have clean: "CR \<notin> set s" "LF \<notin> set s" "NUL \<notin> set s"
    and q: "q = DQUOTE # replace_char DQUOTE [BACKSLASH, DQUOTE]
      (replace_char BACKSLASH [BACKSLASH, BACKSLASH] s) @ [DQUOTE]"
    using assms by (auto simp: quote_imap_def validate_imap_text_def result_simps)
  have "set q \<subseteq> {DQUOTE, BACKSLASH} \<union> set s" by (auto simp: q replace_char_def split: if_splits)
  then have "CR \<notin> set q \<and> LF \<notin> set q \<and> NUL \<notin> set q" using clean by (auto simp: char_consts)
  then show ?thesis using read_quoted_escaped [of s rest] by (simp add: q read_imap_string_def)
qed

theorem quote_imap_confines_witness:
  "\<exists>q. quote_imap [DQUOTE, CHR ''x''] = Inr q \<and> read_imap_string (q @ ''y'') = Some ([DQUOTE, CHR ''x''], ''y'')"
proof -
  obtain q where ev: "quote_imap [DQUOTE, CHR ''x''] = Inr q"
    by (simp add: quote_imap_def validate_imap_text_def char_consts)
  from quote_imap_confines [OF ev] ev show ?thesis by blast
qed

subsection \<open>Message-IDs and thread identifiers\<close>

fun unquote_local :: "string \<Rightarrow> string option" where
  "unquote_local [] = Some []"
| "unquote_local (c # s) =
     (if c = BACKSLASH
      then (case s of [] \<Rightarrow> None | d # t \<Rightarrow> map_option (\<lambda>r. d # r) (unquote_local t))
      else map_option (\<lambda>r. c # r) (unquote_local s))"

definition strip_angle :: "string \<Rightarrow> string" where
  "strip_angle v =
     (case strip_prefix v ''<'' of
        None \<Rightarrow> v
      | Some r \<Rightarrow> (case strip_suffix r ''>'' of None \<Rightarrow> v | Some i \<Rightarrow> i))"

definition canonical_rfc_message_id :: "string \<Rightarrow> string option" where
  "canonical_rfc_message_id raw =
     (let v = trim (strip_angle (trim raw)) in
      if v = [] \<or> 998 < length v \<or> list_ex is_control_char (utf8_chars v) then None
      else case rsplit_once v (CHR ''@'') of
        None \<Rightarrow> None
      | Some (loc, host) \<Rightarrow>
          if loc = [] \<or> host = [] \<or> list_ex is_whitespace_char (utf8_chars host) then None
          else map_option (\<lambda>l. l @ ''@'' @ to_ascii_lowercase host)
            (if starts_with loc [DQUOTE] \<and> ends_with loc [DQUOTE] \<and> 2 \<le> length loc
             then unquote_local (take (length loc - 2) (drop 1 loc)) else Some loc))"

text \<open>A version 5 UUID is a hash of its name: the parameter \<open>uuid5\<close>.\<close>

definition imap_thread_id ::
    "(string \<Rightarrow> string) \<Rightarrow> string \<Rightarrow> string option \<Rightarrow> string list \<Rightarrow> string list \<Rightarrow> string option" where
  "imap_thread_id uuid5 account_id message_id references in_reply_to =
     map_option (\<lambda>root. normalized_message_id account_id
         (''thread:'' @ uuid5 (''quickmail:rfc822-thread:'' @ account_id @ '':'' @ root)))
       (case find_map canonical_rfc_message_id references of
          Some r \<Rightarrow> Some r
        | None \<Rightarrow>
            (case find_map canonical_rfc_message_id in_reply_to of
               Some r \<Rightarrow> Some r
             | None \<Rightarrow> Option.bind message_id canonical_rfc_message_id))"

definition imap_singleton_thread_id :: "(string \<Rightarrow> string) \<Rightarrow> string \<Rightarrow> string \<Rightarrow> string" where
  "imap_singleton_thread_id uuid5 account_id native_id =
     normalized_message_id account_id
       (''thread:'' @ uuid5 (''quickmail:imap-singleton:'' @ account_id @ '':'' @ native_id))"

end
