(* ===== verification/Effects.thy ===== *)
theory Effects
  imports Prelude
begin

section \<open>Operations on an outside world\<close>

text \<open>
  An \<open>async\<close> function that talks to a server or to a provider is a function from a state of the
  outside world to a result and the next state. The world is a type variable: nothing is assumed of
  it but what the interfaces of the components say. \<open>io_bind\<close> is \<open>await\<close> followed by \<open>?\<close>.
\<close>

type_synonym ('w, 'e, 'a) io = "'w \<Rightarrow> ('e + 'a) \<times> 'w"

definition io_return :: "'a \<Rightarrow> ('w, 'e, 'a) io" where
  "io_return x w = (Inr x, w)"

definition io_error :: "'e \<Rightarrow> ('w, 'e, 'a) io" where
  "io_error e w = (Inl e, w)"

definition io_lift :: "'e + 'a \<Rightarrow> ('w, 'e, 'a) io" where
  "io_lift r w = (r, w)"

definition io_bind :: "('w, 'e, 'a) io \<Rightarrow> ('a \<Rightarrow> ('w, 'e, 'b) io) \<Rightarrow> ('w, 'e, 'b) io" where
  "io_bind m f w = (case m w of (Inl e, w') \<Rightarrow> (Inl e, w') | (Inr x, w') \<Rightarrow> f x w')"

definition io_map_err :: "('e \<Rightarrow> 'f) \<Rightarrow> ('w, 'e, 'a) io \<Rightarrow> ('w, 'f, 'a) io" where
  "io_map_err g m w = (case m w of (r, w') \<Rightarrow> (map_err g r, w'))"

lemma io_bind_Inr [result_simps]:
  "io_bind m f w = (Inr y, w') \<longleftrightarrow> (\<exists>x v. m w = (Inr x, v) \<and> f x v = (Inr y, w'))"
  by (auto simp: io_bind_def split: prod.splits sum.splits)

lemma io_bind_Inl [result_simps]:
  "io_bind m f w = (Inl e, w') \<longleftrightarrow>
     m w = (Inl e, w') \<or> (\<exists>x v. m w = (Inr x, v) \<and> f x v = (Inl e, w'))"
  by (auto simp: io_bind_def split: prod.splits sum.splits)

lemma io_return_Inr [result_simps]: "io_return x w = (Inr y, w') \<longleftrightarrow> y = x \<and> w' = w"
  by (auto simp: io_return_def)

lemma io_return_not_Inl [simp]: "io_return x w \<noteq> (Inl e, w')"
  by (simp add: io_return_def)

lemma io_error_Inl [result_simps]: "io_error e w = (Inl e', w') \<longleftrightarrow> e' = e \<and> w' = w"
  by (auto simp: io_error_def)

lemma io_error_not_Inr [simp]: "io_error e w \<noteq> (Inr x, w')"
  by (simp add: io_error_def)

lemma io_lift_eq [result_simps]: "io_lift r w = (r', w') \<longleftrightarrow> r = r' \<and> w' = w"
  by (auto simp: io_lift_def)

lemma io_map_err_Inr [result_simps]: "io_map_err g m w = (Inr y, w') \<longleftrightarrow> m w = (Inr y, w')"
  by (auto simp: io_map_err_def map_err_def split: prod.splits sum.splits)

lemma io_map_err_Inl [result_simps]:
  "io_map_err g m w = (Inl e, w') \<longleftrightarrow> (\<exists>e'. m w = (Inl e', w') \<and> e = g e')"
  by (auto simp: io_map_err_def map_err_def split: prod.splits sum.splits)

text \<open>A predicate of the world that every step keeps.\<close>

definition io_keeps :: "('w \<Rightarrow> bool) \<Rightarrow> ('w, 'e, 'a) io \<Rightarrow> bool" where
  "io_keeps P m \<longleftrightarrow> (\<forall>w. P w \<longrightarrow> P (snd (m w)))"

lemma io_keeps_return [inv_intros]: "io_keeps P (io_return x)"
  by (simp add: io_keeps_def io_return_def)

lemma io_keeps_error [inv_intros]: "io_keeps P (io_error e)"
  by (simp add: io_keeps_def io_error_def)

lemma io_keeps_lift [inv_intros]: "io_keeps P (io_lift r)"
  by (simp add: io_keeps_def io_lift_def)

lemma io_keeps_bind [inv_intros]:
  assumes "io_keeps P m" and "\<And>x. io_keeps P (f x)"
  shows "io_keeps P (io_bind m f)"
  unfolding io_keeps_def
proof (intro allI impI)
  fix w assume "P w"
  then have "P (snd (m w))" using assms(1) by (simp add: io_keeps_def)
  then show "P (snd (io_bind m f w))"
    using assms(2) by (auto simp: io_bind_def io_keeps_def split: prod.splits sum.splits)
qed

lemma io_keeps_map_err [inv_intros]: "io_keeps P m \<Longrightarrow> io_keeps P (io_map_err g m)"
  by (auto simp: io_keeps_def io_map_err_def split: prod.splits)

text \<open>A relation between the world before and after that every step satisfies.\<close>

definition io_guarantees :: "('w \<Rightarrow> 'w \<Rightarrow> bool) \<Rightarrow> ('w, 'e, 'a) io \<Rightarrow> bool" where
  "io_guarantees R m \<longleftrightarrow> (\<forall>w. R w (snd (m w)))"

lemma io_guaranteesD: "io_guarantees R m \<Longrightarrow> m w = (r, w') \<Longrightarrow> R w w'"
  by (metis io_guarantees_def snd_conv)

lemma io_guarantees_bind:
  assumes "transp R" and m: "io_guarantees R m" and f: "\<And>x. io_guarantees R (f x)"
  shows "io_guarantees R (io_bind m f)"
  unfolding io_guarantees_def
proof
  fix w
  obtain r v where mw: "m w = (r, v)" by (metis surj_pair)
  have "R w v" by (rule io_guaranteesD [OF m mw])
  moreover have "R v (snd (f x v))" for x using f by (simp add: io_guarantees_def)
  ultimately show "R w (snd (io_bind m f w))"
    using \<open>transp R\<close> mw by (cases r) (auto simp: io_bind_def dest: transpD)
qed

lemma io_guarantees_pure:
  assumes "reflp R"
  shows "io_guarantees R (io_return x)" "io_guarantees R (io_error e)" "io_guarantees R (io_lift r)"
  using assms by (simp_all add: io_guarantees_def io_return_def io_error_def io_lift_def reflpD)

lemma io_guarantees_map_err [simp]: "io_guarantees R (io_map_err g m) \<longleftrightarrow> io_guarantees R m"
  by (simp add: io_guarantees_def io_map_err_def split_beta)

lemma io_bind_eval: "m w = (Inr x, v) \<Longrightarrow> io_bind m f w = f x v"
  by (simp add: io_bind_def)

lemma io_bind_fail: "m w = (Inl e, v) \<Longrightarrow> io_bind m f w = (Inl e, v)"
  by (simp add: io_bind_def)

end
