(* ===== verification/Imap_Session.thy ===== *)
theory Imap_Session
  imports Imap_Ids Effects
begin

section \<open>IMAP: sessions and their single retry\<close>

text \<open>
  \<open>AsyncImapTransport\<close> keeps one authenticated session per lane and runs every command through
  \<open>run_session_operation_on\<close>. A lost connection or a timeout drops the session; a command that is
  safe to repeat is tried once more on a fresh one. The operation and the connection are arguments.

  The lemmas show that a command runs at most twice, a command that is not safe to repeat at most
  once, and that a session whose command was cut off is never used again.
\<close>

datatype session_action = ReturnError | InvalidateAndReturn | InvalidateAndRetry

fun is_connection_error :: "imap_error \<Rightarrow> bool" where
  "is_connection_error (Connection _) = True"
| "is_connection_error CommandTimeout = True"
| "is_connection_error _ = False"

definition session_error_action :: "imap_error \<Rightarrow> bool \<Rightarrow> bool \<Rightarrow> session_action" where
  "session_error_action e retry_safe already_retried =
     (if \<not> is_connection_error e then ReturnError
      else if retry_safe \<and> \<not> already_retried then InvalidateAndRetry
      else InvalidateAndReturn)"

datatype lane = MainLane | DetailLane

record 'w imap_world =
  iw_open :: "lane \<Rightarrow> bool"
  iw_net :: 'w

definition set_open :: "lane \<Rightarrow> bool \<Rightarrow> 'w imap_world \<Rightarrow> 'w imap_world" where
  "set_open l b w = w\<lparr>iw_open := (iw_open w)(l := b)\<rparr>"

definition on_net :: "('w, 'e, 'a) io \<Rightarrow> ('w imap_world, 'e, 'a) io" where
  "on_net m w = (case m (iw_net w) of (r, n) \<Rightarrow> (r, w\<lparr>iw_net := n\<rparr>))"

definition lock_session :: "('w, imap_error, unit) io \<Rightarrow> lane \<Rightarrow> ('w imap_world, imap_error, unit) io" where
  "lock_session connect l w =
     (if iw_open w l then (Inr (), w)
      else (case on_net connect w of
              (Inl e, w') \<Rightarrow> (Inl e, w')
            | (Inr _, w') \<Rightarrow> (Inr (), set_open l True w')))"

function run_session_operation ::
    "bool \<Rightarrow> ('w, imap_error, unit) io \<Rightarrow> lane \<Rightarrow> bool \<Rightarrow> ('w, imap_error, 'a) io
      \<Rightarrow> ('w imap_world, imap_error, 'a) io" where
  "run_session_operation already_retried connect l retry_safe oper w =
     (case lock_session connect l w of
        (Inl e, w1) \<Rightarrow>
          (if session_error_action e retry_safe already_retried = InvalidateAndRetry
           then run_session_operation True connect l retry_safe oper w1
           else (Inl e, w1))
      | (Inr _, w1) \<Rightarrow>
          (case on_net oper w1 of
             (Inr x, w2) \<Rightarrow> (Inr x, w2)
           | (Inl e, w2) \<Rightarrow>
               (case session_error_action e retry_safe already_retried of
                  ReturnError \<Rightarrow> (Inl e, w2)
                | InvalidateAndReturn \<Rightarrow> (Inl e, set_open l False w2)
                | InvalidateAndRetry \<Rightarrow>
                    run_session_operation True connect l retry_safe oper (set_open l False w2))))"
  by pat_completeness auto
termination
  by (relation "measure (\<lambda>(already_retried, _). if already_retried then 0 else 1)")
    (auto simp: session_error_action_def split: if_splits)

declare run_session_operation.simps [simp del]

lemma run_session_last:
  "run_session_operation True connect l retry_safe oper w =
     (case lock_session connect l w of
        (Inl e, w1) \<Rightarrow> (Inl e, w1)
      | (Inr _, w1) \<Rightarrow>
          (case on_net oper w1 of
             (Inr x, w2) \<Rightarrow> (Inr x, w2)
           | (Inl e, w2) \<Rightarrow> (Inl e, if is_connection_error e then set_open l False w2 else w2)))"
  by (subst run_session_operation.simps)
    (auto simp: session_error_action_def split: prod.splits sum.splits)

text \<open>What a successful run means: some call of the operation returned that value.\<close>

lemma run_session_operation_Inr:
  "run_session_operation b connect l rs oper w = (Inr x, w') \<Longrightarrow> \<exists>n n'. oper n = (Inr x, n') \<and> iw_net w' = n'"
proof (induction b connect l rs oper w rule: run_session_operation.induct)
  case (1 b connect l rs oper w)
  from 1(3) show ?case
    by (subst (asm) run_session_operation.simps)
      (auto simp: on_net_def split: prod.splits sum.splits if_splits session_action.splits
        dest: 1(1,2) [rotated -1])
qed

text \<open>Counting the calls of an operation beside its world.\<close>

definition counted :: "('w, 'e, 'a) io \<Rightarrow> ('w \<times> nat, 'e, 'a) io" where
  "counted m p = (case m (fst p) of (r, n) \<Rightarrow> (r, n, Suc (snd p)))"

definition uncounted :: "('w, 'e, 'a) io \<Rightarrow> ('w \<times> nat, 'e, 'a) io" where
  "uncounted m p = (case m (fst p) of (r, n) \<Rightarrow> (r, n, snd p))"

definition calls :: "('w \<times> nat) imap_world \<Rightarrow> nat" where
  "calls w = snd (iw_net w)"

lemma lock_calls: "lock_session (uncounted connect) l w = (r, w') \<Longrightarrow> calls w' = calls w"
  by (auto simp: lock_session_def on_net_def uncounted_def calls_def set_open_def
      split: prod.splits sum.splits if_splits)

lemma oper_calls: "on_net (counted oper) w = (r, w') \<Longrightarrow> calls w' = Suc (calls w)"
  by (auto simp: on_net_def counted_def calls_def split: prod.splits)

lemma set_open_calls [simp]: "calls (set_open l b w) = calls w"
  by (simp add: calls_def set_open_def)

lemma last_run_calls:
  "calls (snd (run_session_operation True (uncounted connect) l rs (counted oper) w)) \<le> Suc (calls w)"
  by (subst run_session_last)
    (auto split: prod.splits sum.splits dest!: lock_calls oper_calls)

lemma lock_error_closed:
  "lock_session connect l w = (Inl e, w') \<Longrightarrow> \<not> iw_open w' l"
  by (auto simp: lock_session_def on_net_def split: prod.splits sum.splits if_splits)

text \<open>C29: the retry discipline of a session. An operation runs at most twice, and at most once when it
  is not safe to repeat (storing flags, moving messages), so no change is ever applied twice. When
  the result is a lost connection or a timeout, the lane holds no session any more.\<close>

theorem session_retry_discipline:
  assumes "run_session_operation False (uncounted connect) l retry_safe (counted oper) w = (r, w')"
  shows "calls w' \<le> calls w + (if retry_safe then 2 else 1)
    \<and> (\<forall>e. r = Inl e \<and> is_connection_error e \<longrightarrow> \<not> iw_open w' l)"
proof -
  let ?run = "run_session_operation True (uncounted connect) l retry_safe (counted oper)"
  have closed_last: "\<not> iw_open v' l" if "is_connection_error e" "?run v = (Inl e, v')" for v v' e
    using that by (auto simp: run_session_last set_open_def dest!: lock_error_closed
        split: prod.splits sum.splits if_splits)
  have last: "calls v' \<le> Suc (calls v)" if "?run v = (x, v')" for x v v'
    using last_run_calls [of connect l retry_safe oper v] that by simp
  note run = assms [unfolded run_session_operation.simps [of False]]
  obtain rl w1 where lock: "lock_session (uncounted connect) l w = (rl, w1)" by (cases "lock_session (uncounted connect) l w")
  note c1 = lock_calls [OF lock]
  show ?thesis
  proof (cases rl)
    case (Inl e)
    show ?thesis
    proof (cases "is_connection_error e \<and> retry_safe")
      case True
      then have rest: "?run w1 = (r, w')" using run lock Inl by (simp add: session_error_action_def)
      show ?thesis using last [OF rest] c1 True rest closed_last by auto
    next
      case False
      then have "session_error_action e retry_safe False \<noteq> InvalidateAndRetry"
        by (auto simp: session_error_action_def)
      then have "(r, w') = (Inl e, w1)" using run lock Inl by simp
      then show ?thesis using lock_error_closed [OF lock [unfolded Inl]] c1 by auto
    qed
  next
    case (Inr u)
    obtain ro w2 where op: "on_net (counted oper) w1 = (ro, w2)" by (cases "on_net (counted oper) w1")
    note c2 = oper_calls [OF op]
    show ?thesis
    proof (cases ro)
      case (Inr x)
      with run lock \<open>rl = Inr u\<close> op have "(r, w') = (Inr x, w2)" by simp
      then show ?thesis using c1 c2 by simp
    next
      case (Inl e)
      let ?w3 = "set_open l False w2"
      have closed: "\<not> iw_open ?w3 l" by (simp add: set_open_def)
      consider (ret) "\<not> is_connection_error e" | (once) "is_connection_error e" "\<not> retry_safe"
        | (again) "is_connection_error e" "retry_safe" by blast
      then show ?thesis
      proof cases
        case ret
        with run lock \<open>rl = Inr u\<close> op Inl have "(r, w') = (Inl e, w2)" by (simp add: session_error_action_def)
        with ret c1 c2 show ?thesis by simp
      next
        case once
        with run lock \<open>rl = Inr u\<close> op Inl have "(r, w') = (Inl e, ?w3)" by (simp add: session_error_action_def)
        with once c1 c2 closed show ?thesis by simp
      next
        case again
        with run lock \<open>rl = Inr u\<close> op Inl have rest: "?run ?w3 = (r, w')" by (simp add: session_error_action_def)
        show ?thesis using last [OF rest] closed_last c1 c2 again rest by auto
      qed
    qed
  qed
qed

theorem session_retry_discipline_witness:
  "calls (snd (run_session_operation False (uncounted (\<lambda>w. (Inr (), w))) MainLane False
      (counted (\<lambda>w. (Inl CommandTimeout :: imap_error + unit, w))) \<lparr>iw_open = (\<lambda>_. False), iw_net = ((), 0)\<rparr>)) \<le> 1"
proof -
  let ?w = "\<lparr>iw_open = (\<lambda>_. False), iw_net = ((), 0)\<rparr> :: (unit \<times> nat) imap_world"
  let ?run = "run_session_operation False (uncounted (\<lambda>w. (Inr (), w))) MainLane False
      (counted (\<lambda>w. (Inl CommandTimeout :: imap_error + unit, w))) ?w"
  have "?run = (fst ?run, snd ?run)" by simp
  from session_retry_discipline [OF this] show ?thesis by (simp add: calls_def)
qed

end
