(* ===== verification/Keyed_Tables.thy ===== *)
theory Keyed_Tables
  imports Prelude
begin

section \<open>Tables with a primary key\<close>

text \<open>
  A SQLite table is the list of its rows in rowid order. Its key is a function of the row, and a
  well-formed table has distinct keys. \<open>upsert_row\<close> is \<open>INSERT ... ON CONFLICT(key) DO
  UPDATE\<close>: an existing row is rewritten in place (it keeps its rowid, so its position), a new one
  goes to the end. The locale \<open>primary_key\<close> states what a client relies on; it is interpreted
  on every table of the store in the theories of the components.
\<close>

definition row_keys :: "('r \<Rightarrow> 'k) \<Rightarrow> 'r list \<Rightarrow> 'k set" where
  "row_keys key rows = key ` set rows"

definition find_row :: "('r \<Rightarrow> 'k) \<Rightarrow> 'k \<Rightarrow> 'r list \<Rightarrow> 'r option" where
  "find_row key k rows = find (\<lambda>r. key r = k) rows"

definition has_row :: "('r \<Rightarrow> 'k) \<Rightarrow> 'k \<Rightarrow> 'r list \<Rightarrow> bool" where
  "has_row key k rows = list_ex (\<lambda>r. key r = k) rows"

definition update_row :: "('r \<Rightarrow> 'k) \<Rightarrow> 'k \<Rightarrow> ('r \<Rightarrow> 'r) \<Rightarrow> 'r list \<Rightarrow> 'r list" where
  "update_row key k f rows = map (\<lambda>r. if key r = k then f r else r) rows"

definition upsert_row :: "('r \<Rightarrow> 'k) \<Rightarrow> ('r \<Rightarrow> 'r \<Rightarrow> 'r) \<Rightarrow> 'r \<Rightarrow> 'r list \<Rightarrow> 'r list" where
  "upsert_row key merge r rows =
     (if has_row key (key r) rows then update_row key (key r) (\<lambda>old. merge old r) rows
      else rows @ [r])"

definition delete_rows :: "('r \<Rightarrow> bool) \<Rightarrow> 'r list \<Rightarrow> 'r list" where
  "delete_rows p rows = filter (\<lambda>r. \<not> p r) rows"

definition keyed :: "('r \<Rightarrow> 'k) \<Rightarrow> 'r list \<Rightarrow> bool" where
  "keyed key rows \<longleftrightarrow> distinct (map key rows)"

lemma has_row_iff: "has_row key k rows \<longleftrightarrow> (\<exists>r \<in> set rows. key r = k)"
  by (auto simp: has_row_def list_ex_iff)

lemma find_row_None_iff: "find_row key k rows = None \<longleftrightarrow> \<not> has_row key k rows"
  by (auto simp: find_row_def has_row_iff find_None_iff)

lemma find_row_SomeD: "find_row key k rows = Some r \<Longrightarrow> r \<in> set rows \<and> key r = k"
  unfolding find_row_def by (rule find_Some_mem)

lemma find_row_Some_iff:
  assumes "keyed key rows"
  shows "find_row key k rows = Some r \<longleftrightarrow> r \<in> set rows \<and> key r = k"
proof
  assume "r \<in> set rows \<and> key r = k"
  then obtain r' where r': "find_row key k rows = Some r'"
    by (cases "find_row key k rows") (auto simp: find_row_None_iff has_row_iff)
  then have "r' \<in> set rows" and "key r' = key r"
    using \<open>r \<in> set rows \<and> key r = k\<close> by (auto dest: find_row_SomeD)
  then have "r' = r"
    using assms \<open>r \<in> set rows \<and> key r = k\<close> by (auto simp: keyed_def distinct_map inj_on_def)
  with r' show "find_row key k rows = Some r" by simp
qed (rule find_row_SomeD)

lemma has_row_append [simp]: "has_row key k (xs @ ys) \<longleftrightarrow> has_row key k xs \<or> has_row key k ys"
  by (simp add: has_row_def)

lemma has_row_Nil [simp]: "\<not> has_row key k []"
  by (simp add: has_row_def)

lemma has_row_Cons [simp]: "has_row key k (x # xs) \<longleftrightarrow> key x = k \<or> has_row key k xs"
  by (simp add: has_row_def)

lemma length_update_row [simp]: "length (update_row key k f rows) = length rows"
  by (simp add: update_row_def)

lemma map_key_update_row:
  "(\<And>r. key r = k \<Longrightarrow> key (f r) = k) \<Longrightarrow> map key (update_row key k f rows) = map key rows"
  by (auto simp: update_row_def)

lemma keyed_update_row:
  "keyed key rows \<Longrightarrow> (\<And>r. key r = k \<Longrightarrow> key (f r) = k) \<Longrightarrow> keyed key (update_row key k f rows)"
  by (simp add: keyed_def map_key_update_row)

lemma has_row_update_row:
  "(\<And>r. key r = k \<Longrightarrow> key (f r) = k) \<Longrightarrow>
     has_row key k' (update_row key k f rows) = has_row key k' rows"
  by (induction rows) (auto simp: update_row_def)

lemma keyed_upsert_row:
  assumes "keyed key rows" and "\<And>old. key old = key r \<Longrightarrow> key (merge old r) = key r"
  shows "keyed key (upsert_row key merge r rows)"
proof (cases "has_row key (key r) rows")
  case True
  with assms show ?thesis by (simp add: upsert_row_def keyed_update_row)
next
  case False
  with assms(1) show ?thesis by (auto simp: upsert_row_def keyed_def has_row_iff)
qed

lemma has_row_upsert_row:
  "(\<And>old. key old = key r \<Longrightarrow> key (merge old r) = key r) \<Longrightarrow>
     has_row key k (upsert_row key merge r rows) \<longleftrightarrow> k = key r \<or> has_row key k rows"
  by (auto simp: upsert_row_def has_row_update_row)

lemma keyed_delete_rows [intro]: "keyed key rows \<Longrightarrow> keyed key (delete_rows p rows)"
  by (simp add: keyed_def delete_rows_def distinct_map_filter)

lemma set_delete_rows [simp]: "set (delete_rows p rows) = {r \<in> set rows. \<not> p r}"
  by (auto simp: delete_rows_def)

lemma set_update_row: "set (update_row key k f rows) \<subseteq> set rows \<union> f ` {r \<in> set rows. key r = k}"
  by (auto simp: update_row_def)

lemma mem_update_row:
  "x \<in> set (update_row key k f rows) \<longleftrightarrow>
     (x \<in> set rows \<and> key x \<noteq> k) \<or> (\<exists>r \<in> set rows. key r = k \<and> x = f r)"
  by (auto simp: update_row_def)

lemma mem_upsert_row:
  "x \<in> set (upsert_row key merge r rows) \<longleftrightarrow>
     (x \<in> set rows \<and> key x \<noteq> key r)
     \<or> (\<exists>old \<in> set rows. key old = key r \<and> x = merge old r)
     \<or> (\<not> has_row key (key r) rows \<and> x = r)"
  by (auto simp: upsert_row_def mem_update_row has_row_iff)

lemma find_row_update_row:
  assumes "\<And>r. key r = k \<Longrightarrow> key (f r) = k"
  shows "find_row key k' (update_row key k f rows) =
    (if k' = k then map_option f (find_row key k rows) else find_row key k' rows)"
  using assms by (induction rows) (auto simp: find_row_def update_row_def)

lemma find_row_append:
  "find_row key k (xs @ ys) =
     (case find_row key k xs of None \<Rightarrow> find_row key k ys | Some r \<Rightarrow> Some r)"
  by (induction xs) (auto simp: find_row_def)

lemma find_row_upsert_row:
  assumes "\<And>old. key old = key r \<Longrightarrow> key (merge old r) = key r"
  shows "find_row key k (upsert_row key merge r rows) =
    (if k = key r
     then Some (case find_row key k rows of None \<Rightarrow> r | Some old \<Rightarrow> merge old r)
     else find_row key k rows)"
proof (cases "has_row key (key r) rows")
  case True
  then obtain old where "find_row key (key r) rows = Some old"
    by (cases "find_row key (key r) rows") (auto simp: find_row_None_iff)
  with True assms show ?thesis by (auto simp: upsert_row_def find_row_update_row)
next
  case False
  then have none: "find_row key (key r) rows = None" by (simp add: find_row_None_iff)
  with False show ?thesis
    by (auto simp: upsert_row_def find_row_append split: option.splits) (auto simp: find_row_def)
qed

lemma find_row_delete_rows:
  assumes "keyed key rows"
  shows "find_row key k (delete_rows p rows) =
    (case find_row key k rows of None \<Rightarrow> None | Some r \<Rightarrow> if p r then None else Some r)"
proof (cases "find_row key k rows")
  case None
  then have "\<not> has_row key k (delete_rows p rows)"
    by (auto simp: find_row_None_iff has_row_iff)
  then have "find_row key k (delete_rows p rows) = None" by (simp add: find_row_None_iff)
  with None show ?thesis by simp
next
  case (Some r)
  then have mem: "r \<in> set rows" "key r = k" by (auto dest: find_row_SomeD)
  have kd: "keyed key (delete_rows p rows)" using assms ..
  show ?thesis
  proof (cases "p r")
    case True
    have "\<not> has_row key k (delete_rows p rows)"
      using True mem assms by (auto simp: has_row_iff keyed_def distinct_map inj_on_def)
    with Some True show ?thesis by (simp add: find_row_None_iff)
  next
    case False
    with mem have "find_row key k (delete_rows p rows) = Some r"
      by (simp add: find_row_Some_iff [OF kd])
    with Some False show ?thesis by simp
  qed
qed

lemma keyed_Nil [simp]: "keyed key []"
  by (simp add: keyed_def)

subsection \<open>The interface of a keyed table\<close>

locale primary_key =
  fixes lookup :: "'k \<Rightarrow> 't \<Rightarrow> 'r option"
    and upsert :: "'r \<Rightarrow> 't \<Rightarrow> 't"
    and remove :: "('r \<Rightarrow> bool) \<Rightarrow> 't \<Rightarrow> 't"
    and wf :: "'t \<Rightarrow> bool"
    and key :: "'r \<Rightarrow> 'k"
    and merge :: "'r \<Rightarrow> 'r \<Rightarrow> 'r"
  assumes lookup_key: "wf t \<Longrightarrow> lookup k t = Some r \<Longrightarrow> key r = k"
    and lookup_upsert: "wf t \<Longrightarrow> lookup k (upsert r t) =
      (if k = key r then Some (case lookup k t of None \<Rightarrow> r | Some old \<Rightarrow> merge old r)
       else lookup k t)"
    and lookup_remove: "wf t \<Longrightarrow> lookup k (remove p t) =
      (case lookup k t of None \<Rightarrow> None | Some r \<Rightarrow> if p r then None else Some r)"
    and wf_upsert: "wf t \<Longrightarrow> wf (upsert r t)"
    and wf_remove: "wf t \<Longrightarrow> wf (remove p t)"
begin

lemma lookup_after_upsert: "wf t \<Longrightarrow> \<exists>r'. lookup (key r) (upsert r t) = Some r'"
  by (simp add: lookup_upsert)

lemma lookup_other_upsert: "wf t \<Longrightarrow> k \<noteq> key r \<Longrightarrow> lookup k (upsert r t) = lookup k t"
  by (simp add: lookup_upsert)

lemma lookup_removed: "wf t \<Longrightarrow> lookup k (remove (\<lambda>r. key r = k) t) = None"
  by (auto simp: lookup_remove split: option.splits dest: lookup_key)

lemma lookup_kept: "wf t \<Longrightarrow> lookup k t = Some r \<Longrightarrow> \<not> p r \<Longrightarrow> lookup k (remove p t) = Some r"
  by (simp add: lookup_remove)

lemma wf_upserts: "wf t \<Longrightarrow> wf (fold upsert rs t)"
  by (induction rs arbitrary: t) (auto intro: wf_upsert)

text \<open>A key that no row of a batch carries is untouched by the whole batch.\<close>

lemma lookup_other_upserts:
  "wf t \<Longrightarrow> \<forall>r \<in> set rs. key r \<noteq> k \<Longrightarrow> lookup k (fold upsert rs t) = lookup k t"
  by (induction rs arbitrary: t) (auto simp: lookup_upsert wf_upsert)

lemma lookup_kept_upserts:
  "wf t \<Longrightarrow> lookup k t \<noteq> None \<Longrightarrow> lookup k (fold upsert rs t) \<noteq> None"
proof (induction rs arbitrary: t)
  case (Cons r rs)
  then have "lookup k (upsert r t) \<noteq> None" by (simp add: lookup_upsert)
  with Cons show ?case by (simp add: wf_upsert)
qed simp

text \<open>Every key of a batch is present after it.\<close>

lemma lookup_upserts_mem:
  "wf t \<Longrightarrow> r \<in> set rs \<Longrightarrow> lookup (key r) (fold upsert rs t) \<noteq> None"
proof (induction rs arbitrary: t)
  case (Cons x xs)
  show ?case
  proof (cases "r = x")
    case True
    have "lookup (key x) (fold upsert xs (upsert x t)) \<noteq> None"
      using Cons.prems(1) by (intro lookup_kept_upserts wf_upsert) (auto simp: lookup_upsert)
    with True show ?thesis by simp
  next
    case False
    with Cons show ?thesis by (simp add: wf_upsert)
  qed
qed simp

end

text \<open>The list implementation meets the interface for any merge that keeps the key.\<close>

lemma primary_key_rows:
  assumes "\<And>old new. key old = key new \<Longrightarrow> key (merge old new) = key new"
  shows "primary_key (find_row key) (upsert_row key merge) delete_rows (keyed key) key merge"
proof unfold_locales
  fix k t and r :: 'a
  show "find_row key k t = Some r \<Longrightarrow> key r = k"
    by (rule conjunct2 [OF find_row_SomeD])
qed (simp_all add: assms find_row_upsert_row find_row_delete_rows keyed_upsert_row
       keyed_delete_rows)

end
