(* ===== verification/Storage_State.thy ===== *)
theory Storage_State
  imports Models Keyed_Tables
begin

section \<open>The database of the repository: tables, statements, invariant\<close>

text \<open>
  The state of \<open>struct Repository\<close> in \<open>storage.rs\<close> is its SQLite database. One record
  field per table of the schema that \<open>migrate\<close> creates, each the list of its rows in rowid
  order. Columns that hold a JSON encoding written and read by the same serde type hold the value
  itself; the payload of an operation, whose text is parsed dynamically, is a \<open>json_text\<close>.

  The SQL text of the schema is part of the source, so its constraints are written out here:
  primary keys, the foreign keys with their \<open>ON DELETE CASCADE\<close>, the partial unique indexes
  on external identifiers, and the three triggers that maintain the search index. A statement that
  violates a constraint is an \<open>Inl\<close>; the transaction it runs in is then dropped, so an operation
  that fails has no new state at all.
\<close>

subsection \<open>Errors\<close>

datatype sqlite_error = ForeignKeyViolation | UniqueViolation | ConversionFailure | MalformedJson

datatype storage_error =
    Sqlite sqlite_error
  | InvalidData string
  | InvalidCursor
  | NotFound
  | Serialization
  | WorkerStopped

subsection \<open>Rows\<close>

record account_row =
  ar_account :: account
  ar_config :: json
  ar_auth_state :: string
  ar_auth_error :: "string option"
  ar_updated_at :: int

record sync_row =
  sy_account_id :: string
  sy_mailbox_id :: string
  sy_cursor :: string
  sy_updated_at :: int

record message_row =
  mr_message :: message
  mr_body_loaded :: bool
  mr_updated_at :: int

record fts_row =
  fts_message_id :: string
  fts_subject :: string
  fts_author :: string
  fts_snippet :: string
  fts_body_text :: string

datatype json_text = JsonText json | OtherText string

record operation =
  op_id :: string
  op_kind :: string
  op_payload :: json_text
  op_state :: string
  op_created_at :: int
  op_attempted_at :: "int option"
  op_last_error :: "string option"

record draft_row =
  dr_id :: string
  dr_account_id :: string
  dr_message :: outgoing_message
  dr_updated_at :: int

record db =
  d_revision :: nat
  d_accounts :: "account_row list"
  d_mailboxes :: "mailbox list"
  d_sync_state :: "sync_row list"
  d_messages :: "message_row list"
  d_messages_fts :: "fts_row list"
  d_tasks :: "task list"
  d_events :: "calendar_event list"
  d_operations :: "operation list"
  d_drafts :: "draft_row list"

text \<open>The database that \<open>migrate\<close> leaves behind for a new file: revision 0, empty tables.\<close>

definition empty_db :: db where
  "empty_db = \<lparr>d_revision = 0, d_accounts = [], d_mailboxes = [], d_sync_state = [],
     d_messages = [], d_messages_fts = [], d_tasks = [], d_events = [], d_operations = [],
     d_drafts = []\<rparr>"

subsection \<open>Keys\<close>

definition account_key :: "account_row \<Rightarrow> string" where
  "account_key r = a_id (ar_account r)"

definition mailbox_key :: "mailbox \<Rightarrow> string \<times> string" where
  "mailbox_key m = (mb_account_id m, mb_id m)"

definition sync_key :: "sync_row \<Rightarrow> string \<times> string" where
  "sync_key r = (sy_account_id r, sy_mailbox_id r)"

definition message_key :: "message_row \<Rightarrow> string" where
  "message_key r = ms_id (m_summary (mr_message r))"

definition message_account :: "message_row \<Rightarrow> string" where
  "message_account r = ms_account_id (m_summary (mr_message r))"

definition message_mailbox :: "message_row \<Rightarrow> string option" where
  "message_mailbox r = ms_mailbox_id (m_summary (mr_message r))"

lemmas key_defs = account_key_def mailbox_key_def sync_key_def message_key_def
  message_account_def message_mailbox_def

definition parse_json :: "json_text \<Rightarrow> json option" where
  "parse_json t = (case t of JsonText j \<Rightarrow> Some j | OtherText _ \<Rightarrow> None)"

subsection \<open>Scalars\<close>

text \<open>A \<open>u64\<close> is bound as an \<open>INTEGER\<close> column, which holds an \<open>i64\<close>.\<close>

definition bind_u64 :: "nat \<Rightarrow> storage_error + nat" where
  "bind_u64 n = (if n \<le> i64_max then Inr n else Inl (Sqlite ConversionFailure))"

text \<open>The range of \<open>chrono::DateTime<Utc>\<close> in milliseconds.\<close>

definition ts_min :: int where "ts_min = -8334601228800000"
definition ts_max :: int where "ts_max = 8210266876799999"

definition valid_ts :: "int \<Rightarrow> bool" where
  "valid_ts t \<longleftrightarrow> ts_min \<le> t \<and> t \<le> ts_max"

definition timestamp_from_millis :: "int \<Rightarrow> storage_error + int" where
  "timestamp_from_millis t = (if valid_ts t then Inr t else Inl (Sqlite ConversionFailure))"

lemma timestamp_from_millis_valid [simp]: "valid_ts t \<Longrightarrow> timestamp_from_millis t = Inr t"
  by (simp add: timestamp_from_millis_def)

subsection \<open>The revision counter\<close>

text \<open>
  \<open>metadata.revision\<close> holds the decimal text of the counter. \<open>bump_revision\<close> adds one in
  SQLite's 64-bit arithmetic; past its end the sum becomes a real number, whose text the following
  \<open>read_revision\<close> cannot parse.
\<close>

definition read_revision :: "db \<Rightarrow> storage_error + nat" where
  "read_revision d = Inr (d_revision d)"

definition bump_revision :: "db \<Rightarrow> storage_error + (nat \<times> db)" where
  "bump_revision d =
     (if d_revision d < i64_max
      then Inr (Suc (d_revision d), d\<lparr>d_revision := Suc (d_revision d)\<rparr>)
      else Inl (InvalidData ''metadata revision is not an integer''))"

lemma bump_revision_Inr [result_simps]:
  "bump_revision d = Inr (n, d') \<longleftrightarrow>
     d_revision d < i64_max \<and> n = Suc (d_revision d) \<and> d' = d\<lparr>d_revision := n\<rparr>"
  by (auto simp: bump_revision_def)

subsection \<open>The search index and its triggers\<close>

definition text_or_empty :: "string option \<Rightarrow> string" where
  "text_or_empty t = (case t of None \<Rightarrow> [] | Some s \<Rightarrow> s)"

definition author_text :: "address option \<Rightarrow> string" where
  "author_text a = (case a of None \<Rightarrow> '' '' | Some x \<Rightarrow> ad_name x @ '' '' @ ad_address x)"

definition fts_of :: "message_row \<Rightarrow> fts_row" where
  "fts_of r = (let m = mr_message r; s = m_summary m in
     \<lparr>fts_message_id = ms_id s, fts_subject = ms_subject s, fts_author = author_text (ms_author s),
      fts_snippet = ms_snippet s, fts_body_text = text_or_empty (m_body_text m)\<rparr>)"

text \<open>The \<open>WHEN\<close> condition of \<open>messages_fts_update\<close>.\<close>

definition fts_content_changed :: "message_row \<Rightarrow> message_row \<Rightarrow> bool" where
  "fts_content_changed old new \<longleftrightarrow>
     (let a = m_summary (mr_message old); b = m_summary (mr_message new) in
      ms_id a \<noteq> ms_id b \<or> ms_subject a \<noteq> ms_subject b \<or> ms_author a \<noteq> ms_author b
      \<or> ms_snippet a \<noteq> ms_snippet b
      \<or> m_body_text (mr_message old) \<noteq> m_body_text (mr_message new))"

definition fts_delete_trigger :: "message_row \<Rightarrow> fts_row list \<Rightarrow> fts_row list" where
  "fts_delete_trigger old fts = delete_rows (\<lambda>f. fts_message_id f = message_key old) fts"

definition fts_insert_trigger :: "message_row \<Rightarrow> fts_row list \<Rightarrow> fts_row list" where
  "fts_insert_trigger new fts = fts @ [fts_of new]"

definition fts_update_trigger ::
    "message_row \<Rightarrow> message_row \<Rightarrow> fts_row list \<Rightarrow> fts_row list" where
  "fts_update_trigger old new fts =
     (if fts_content_changed old new
      then fts_insert_trigger new (fts_delete_trigger old fts) else fts)"

subsection \<open>Statements on messages\<close>

definition has_account :: "string \<Rightarrow> db \<Rightarrow> bool" where
  "has_account a d = has_row account_key a (d_accounts d)"

definition has_mailbox :: "string \<times> string \<Rightarrow> db \<Rightarrow> bool" where
  "has_mailbox k d = has_row mailbox_key k (d_mailboxes d)"

text \<open>
  \<open>INSERT INTO messages ... ON CONFLICT(id) DO UPDATE\<close>: the merge function gives the row that the
  \<open>SET\<close> list leaves. The foreign key to \<open>accounts\<close> is checked on the resulting row.
\<close>

definition upsert_message ::
    "(message_row \<Rightarrow> message_row \<Rightarrow> message_row) \<Rightarrow> message_row \<Rightarrow> db \<Rightarrow> storage_error + db" where
  "upsert_message merge new d =
     bind_r (require (has_account (message_account new) d) (Sqlite ForeignKeyViolation)) (\<lambda>_.
     Inr (d\<lparr>d_messages := upsert_row message_key merge new (d_messages d),
            d_messages_fts :=
              (case find_row message_key (message_key new) (d_messages d) of
                 None \<Rightarrow> fts_insert_trigger new (d_messages_fts d)
               | Some old \<Rightarrow> fts_update_trigger old (merge old new) (d_messages_fts d))\<rparr>))"

text \<open>\<open>UPDATE messages SET ... WHERE id=?\<close> for columns other than the identifier and account.\<close>

definition update_message :: "string \<Rightarrow> (message_row \<Rightarrow> message_row) \<Rightarrow> db \<Rightarrow> db" where
  "update_message i f d =
     (case find_row message_key i (d_messages d) of
        None \<Rightarrow> d
      | Some old \<Rightarrow>
          d\<lparr>d_messages := update_row message_key i f (d_messages d),
            d_messages_fts := fts_update_trigger old (f old) (d_messages_fts d)\<rparr>)"

text \<open>\<open>DELETE FROM messages WHERE ...\<close>, with the delete trigger fired for each row.\<close>

definition delete_messages :: "(message_row \<Rightarrow> bool) \<Rightarrow> db \<Rightarrow> db" where
  "delete_messages p d =
     d\<lparr>d_messages := delete_rows p (d_messages d),
       d_messages_fts := fold fts_delete_trigger (filter p (d_messages d)) (d_messages_fts d)\<rparr>"

subsection \<open>Statements on tasks and events\<close>

definition task_slot :: "task \<Rightarrow> string \<times> string \<times> string" where
  "task_slot t = (t_account t, t_source t, t_external_id t)"

definition event_slot :: "calendar_event \<Rightarrow> string \<times> string" where
  "event_slot e = (e_calendar_id e, e_external_id e)"

text \<open>The \<open>SET\<close> list of the task upsert leaves \<open>created_at\<close> alone; that of the event upsert
  writes every column.\<close>

definition merge_task :: "task \<Rightarrow> task \<Rightarrow> task" where
  "merge_task old new = new\<lparr>t_created_at := t_created_at old\<rparr>"

definition merge_event :: "calendar_event \<Rightarrow> calendar_event \<Rightarrow> calendar_event" where
  "merge_event old new = new"

definition upsert_task_row :: "task \<Rightarrow> db \<Rightarrow> storage_error + db" where
  "upsert_task_row t d =
     (if t_external_id t \<noteq> []
         \<and> list_ex (\<lambda>x. t_id x \<noteq> t_id t \<and> task_slot x = task_slot t) (d_tasks d)
      then Inl (Sqlite UniqueViolation)
      else Inr (d\<lparr>d_tasks := upsert_row t_id merge_task t (d_tasks d)\<rparr>))"

definition upsert_event_row :: "calendar_event \<Rightarrow> db \<Rightarrow> storage_error + db" where
  "upsert_event_row e d =
     (if e_external_id e \<noteq> []
         \<and> list_ex (\<lambda>x. e_id x \<noteq> e_id e \<and> event_slot x = event_slot e) (d_events d)
      then Inl (Sqlite UniqueViolation)
      else Inr (d\<lparr>d_events := upsert_row e_id merge_event e (d_events d)\<rparr>))"

subsection \<open>Statements on operations\<close>

definition insert_operation :: "operation \<Rightarrow> db \<Rightarrow> storage_error + db" where
  "insert_operation r d =
     (if has_row op_id (op_id r) (d_operations d) then Inl (Sqlite UniqueViolation)
      else Inr (d\<lparr>d_operations := d_operations d @ [r]\<rparr>))"

subsection \<open>Cascades\<close>

text \<open>Deleting a mailbox deletes its synchronisation state; deleting an account deletes its
  messages (firing their trigger), its mailboxes and its drafts.\<close>

definition delete_mailboxes :: "(mailbox \<Rightarrow> bool) \<Rightarrow> db \<Rightarrow> db" where
  "delete_mailboxes p d =
     d\<lparr>d_mailboxes := delete_rows p (d_mailboxes d),
       d_sync_state := delete_rows
         (\<lambda>s. list_ex (\<lambda>m. p m \<and> mailbox_key m = sync_key s) (d_mailboxes d)) (d_sync_state d)\<rparr>"

definition delete_account_row :: "string \<Rightarrow> db \<Rightarrow> db" where
  "delete_account_row a d =
     (let d1 = delete_messages (\<lambda>r. message_account r = a) d;
          d2 = delete_mailboxes (\<lambda>m. mb_account_id m = a) d1
      in d2\<lparr>d_accounts := delete_rows (\<lambda>r. account_key r = a) (d_accounts d2),
            d_drafts := delete_rows (\<lambda>r. dr_account_id r = a) (d_drafts d2)\<rparr>)"

end
