(* ===== verification/Mime_Codec.thy ===== *)
theory Mime_Codec
  imports Storage_State
begin

section \<open>MIME: building, bounding, decoding\<close>

text \<open>
  \<open>providers/mime.rs\<close>. The crates \<open>mail-parser\<close> and \<open>mail-builder\<close> are parameters: the parser
  gives the view of a message that \<open>parse\<close> reads, the builder receives the headers and bodies that
  \<open>production_build\<close> has checked. The lemmas bound what a hostile message can make the daemon keep,
  show that no header value can smuggle in a line, and give the round trip of the base64 codec.
\<close>

datatype mime_error =
    MessageTooLarge | AttachmentLimitExceeded | MalformedMessage | MimeBuild | MissingHeaders
  | MalformedHeader | InvalidHeaderEncoding | MissingBoundary | InvalidBase64
  | InvalidQuotedPrintable | HeaderInjection | InvalidAddress | InvalidMessageId

record parsed_attachment =
  pt_filename :: string
  pt_content_type :: string
  pt_content_id :: "string option"
  pt_inline :: bool
  pt_data :: string

record parsed_mime =
  pm_subject :: string
  pm_from :: "address option"
  pm_to :: "address list"
  pm_cc :: "address list"
  pm_bcc :: "address list"
  pm_date :: "int option"
  pm_message_id :: "string option"
  pm_in_reply_to :: "string list"
  pm_references :: "string list"
  pm_text_body :: "string option"
  pm_html_body :: "string option"
  pm_attachments :: "parsed_attachment list"

definition empty_parsed_mime :: parsed_mime where
  "empty_parsed_mime = \<lparr>pm_subject = [], pm_from = None, pm_to = [], pm_cc = [], pm_bcc = [],
     pm_date = None, pm_message_id = None, pm_in_reply_to = [], pm_references = [],
     pm_text_body = None, pm_html_body = None, pm_attachments = []\<rparr>"

definition MAX_MAIL_MESSAGE_BYTES :: nat where "MAX_MAIL_MESSAGE_BYTES = 64 * 1024 * 1024"
definition MAX_MAIL_ATTACHMENT_BYTES :: nat where "MAX_MAIL_ATTACHMENT_BYTES = 64 * 1024 * 1024"
definition MAX_MIME_ATTACHMENTS :: nat where "MAX_MIME_ATTACHMENTS = 256"

subsection \<open>Reply chains\<close>

definition json_string_values :: "string \<Rightarrow> json \<Rightarrow> string list" where
  "json_string_values key v =
     (case Option.bind (json_get key v) json_as_array of
        None \<Rightarrow> [] | Some xs \<Rightarrow> List.map_filter json_as_str xs)"

definition reply_reference_chain :: "json \<Rightarrow> string list" where
  "reply_reference_chain provider_data =
     (let refs = json_string_values ''references'' provider_data
      in if refs = [] then json_string_values ''inReplyTo'' provider_data else refs)"

subsection \<open>Checks\<close>

definition validate_header :: "string \<Rightarrow> mime_error + unit" where
  "validate_header v = require (CR \<notin> set v \<and> LF \<notin> set v) HeaderInjection"

definition validate_address :: "address \<Rightarrow> mime_error + unit" where
  "validate_address a =
     bind_r (validate_header (ad_name a)) (\<lambda>_.
     bind_r (validate_header (ad_address a)) (\<lambda>_.
     require (CHR ''@'' \<in> set (ad_address a)) InvalidAddress))"

definition validate_message_size :: "nat \<Rightarrow> nat \<Rightarrow> mime_error + unit" where
  "validate_message_size n limit = (if limit < n then Inl MessageTooLarge else Inr ())"

text \<open>The new byte total; \<open>checked_add\<close> overflows at the word size of \<open>usize\<close>.\<close>

definition reserve_attachment_budget ::
    "nat \<Rightarrow> nat \<Rightarrow> nat \<Rightarrow> nat \<Rightarrow> nat \<Rightarrow> mime_error + nat" where
  "reserve_attachment_budget current_count current_bytes next_bytes count_limit byte_limit =
     (let sum_bytes = current_bytes + next_bytes in
      if u64_max < sum_bytes then Inl AttachmentLimitExceeded
      else if count_limit \<le> current_count \<or> byte_limit < next_bytes \<or> byte_limit < sum_bytes
      then Inl AttachmentLimitExceeded
      else Inr sum_bytes)"

definition bare_message_id :: "string \<Rightarrow> mime_error + string" where
  "bare_message_id value =
     bind_r (validate_header value) (\<lambda>_.
     let t = trim value;
         inner = (case strip_prefix t ''<'' of
                    None \<Rightarrow> t | Some r \<Rightarrow> (case strip_suffix r ''>'' of None \<Rightarrow> t | Some i \<Rightarrow> i));
         v = trim inner
     in if v = [] \<or> 998 < length v \<or> CHR ''@'' \<notin> set v then Inl InvalidMessageId else Inr v)"

text \<open>The name after the last path separator, without control characters, at most 240 scalars.\<close>

definition after_last_separator :: "string \<Rightarrow> string" where
  "after_last_separator s = rev (takeWhile (\<lambda>c. c \<noteq> CHR ''/'' \<and> c \<noteq> BACKSLASH) (rev s))"

definition sanitize_filename :: "string option \<Rightarrow> string" where
  "sanitize_filename filename =
     (let candidate = (case filename of None \<Rightarrow> ''attachment'' | Some v \<Rightarrow> after_last_separator v);
          clean = concat (take 240 (filter (\<lambda>c. \<not> is_control_char c) (utf8_chars candidate)))
      in if clean = [] \<or> clean = ''.'' \<or> clean = ''..'' then ''attachment'' else clean)"

subsection \<open>Parsing a message\<close>

text \<open>What \<open>mail-parser\<close> reports of a message.\<close>

record raw_part =
  rp_name :: "string option"
  rp_content_type :: "(string \<times> string option) option"
  rp_content_id :: "string option"
  rp_disposition :: "string option"
  rp_contents :: string

record raw_mail =
  rm_subject :: "string option"
  rm_from :: "(string option \<times> string option) list"
  rm_to :: "(string option \<times> string option) list"
  rm_cc :: "(string option \<times> string option) list"
  rm_bcc :: "(string option \<times> string option) list"
  rm_date :: "int option"
  rm_message_id :: "string option"
  rm_in_reply_to :: "string list"
  rm_references :: "string list"
  rm_text :: "string option"
  rm_html :: "string option"
  rm_attachments :: "raw_part list"

definition convert_addr :: "string option \<times> string option \<Rightarrow> address option" where
  "convert_addr a = map_option (\<lambda>addr. \<lparr>ad_name = (case fst a of None \<Rightarrow> [] | Some n \<Rightarrow> n),
     ad_address = addr\<rparr>) (snd a)"

definition convert_attachment :: "raw_part \<Rightarrow> parsed_attachment" where
  "convert_attachment p = \<lparr>pt_filename = sanitize_filename (rp_name p),
     pt_content_type = (case rp_content_type p of
        None \<Rightarrow> ''application/octet-stream''
      | Some (t, st) \<Rightarrow> t @ ''/'' @ (case st of None \<Rightarrow> ''octet-stream'' | Some x \<Rightarrow> x)),
     pt_content_id = rp_content_id p,
     pt_inline = (case rp_disposition p of None \<Rightarrow> False | Some v \<Rightarrow> eq_ignore_ascii_case v ''inline''),
     pt_data = rp_contents p\<rparr>"

definition take_attachment ::
    "parsed_attachment list \<times> nat \<Rightarrow> raw_part \<Rightarrow> mime_error + (parsed_attachment list \<times> nat)" where
  "take_attachment st p =
     bind_r (reserve_attachment_budget (length (fst st)) (snd st) (length (rp_contents p))
       MAX_MIME_ATTACHMENTS MAX_MAIL_ATTACHMENT_BYTES) (\<lambda>n.
     Inr (fst st @ [convert_attachment p], n))"

definition production_parse :: "(string \<Rightarrow> raw_mail option) \<Rightarrow> string \<Rightarrow> mime_error + parsed_mime" where
  "production_parse parser raw =
     bind_r (validate_message_size (length raw) MAX_MAIL_MESSAGE_BYTES) (\<lambda>_.
     bind_r (ok_or (parser raw) MalformedMessage) (\<lambda>m.
     bind_r (fold_r take_attachment ([], 0) (rm_attachments m)) (\<lambda>(atts, _).
     Inr \<lparr>pm_subject = (case rm_subject m of None \<Rightarrow> [] | Some s \<Rightarrow> s),
          pm_from = (case rm_from m of [] \<Rightarrow> None | a # _ \<Rightarrow> convert_addr a),
          pm_to = List.map_filter convert_addr (rm_to m),
          pm_cc = List.map_filter convert_addr (rm_cc m),
          pm_bcc = List.map_filter convert_addr (rm_bcc m),
          pm_date = (case rm_date m of None \<Rightarrow> None
            | Some s \<Rightarrow> if valid_ts (1000 * s) then Some (1000 * s) else None),
          pm_message_id = rm_message_id m, pm_in_reply_to = rm_in_reply_to m,
          pm_references = rm_references m, pm_text_body = rm_text m, pm_html_body = rm_html m,
          pm_attachments = atts\<rparr>)))"

subsection \<open>Building a message\<close>

text \<open>The calls that \<open>production_build\<close> makes on \<open>MessageBuilder\<close>.\<close>

record mail_draft =
  md_from :: address
  md_to :: "address list"
  md_subject :: string
  md_cc :: "address list option"
  md_reply :: "(string \<times> string list) option"
  md_text :: "string option"
  md_html :: "string option"

definition reply_headers :: "string option \<Rightarrow> string list \<Rightarrow> mime_error + (string \<times> string list) option" where
  "reply_headers rfc_message_id rfc_references =
     (case rfc_message_id of
        None \<Rightarrow> Inr None
      | Some raw \<Rightarrow>
          bind_r (bare_message_id raw) (\<lambda>i.
          bind_r (collect_r bare_message_id (take 99 rfc_references)) (\<lambda>refs.
          Inr (Some (i, if refs \<noteq> [] \<and> last refs = i then refs else refs @ [i])))))"

definition production_draft ::
    "address \<Rightarrow> outgoing_message \<Rightarrow> string option \<Rightarrow> string list \<Rightarrow> mime_error + mail_draft" where
  "production_draft sender msg rfc_message_id rfc_references =
     bind_r (validate_address sender) (\<lambda>_.
     bind_r (collect_r validate_address (o_to msg @ o_cc msg @ o_bcc msg)) (\<lambda>_.
     bind_r (validate_header (o_subject msg)) (\<lambda>_.
     bind_r (reply_headers rfc_message_id rfc_references) (\<lambda>reply.
     Inr \<lparr>md_from = sender, md_to = o_to msg, md_subject = o_subject msg,
          md_cc = (if o_cc msg = [] then None else Some (o_cc msg)), md_reply = reply,
          md_text = o_body_text msg, md_html = o_body_html msg\<rparr>))))"

definition production_build ::
    "(mail_draft \<Rightarrow> string option) \<Rightarrow> address \<Rightarrow> outgoing_message \<Rightarrow> string option \<Rightarrow> string list
      \<Rightarrow> mime_error + string" where
  "production_build builder sender msg rfc_message_id rfc_references =
     bind_r (production_draft sender msg rfc_message_id rfc_references) (\<lambda>d.
     ok_or (builder d) MimeBuild)"

subsection \<open>Message-ID lists\<close>

function parse_message_ids :: "string \<Rightarrow> string list" where
  "parse_message_ids s =
     (case dropWhile (\<lambda>c. c \<noteq> CHR ''<'') s of
        [] \<Rightarrow> []
      | _ # r \<Rightarrow>
          (case dropWhile (\<lambda>c. c \<noteq> CHR ''>'') r of
             [] \<Rightarrow> []
           | _ # rest \<Rightarrow>
               (let i = trim (takeWhile (\<lambda>c. c \<noteq> CHR ''>'') r)
                in if i = [] then parse_message_ids rest else i # parse_message_ids rest)))"
  by pat_completeness auto
termination
proof (relation "measure length", goal_cases)
  case (2 s a r b rest i)
  have "length rest < length r" using length_dropWhile_le [of "\<lambda>c. c \<noteq> CHR ''>''" r] 2 by simp
  moreover have "length r < length s" using length_dropWhile_le [of "\<lambda>c. c \<noteq> CHR ''<''" s] 2 by simp
  ultimately show ?case by simp
next
  case (3 s a r b rest i)
  have "length rest < length r" using length_dropWhile_le [of "\<lambda>c. c \<noteq> CHR ''>''" r] 3 by simp
  moreover have "length r < length s" using length_dropWhile_le [of "\<lambda>c. c \<noteq> CHR ''<''" s] 3 by simp
  ultimately show ?case by simp
qed simp

declare parse_message_ids.simps [simp del]

subsection \<open>Base64 and quoted-printable\<close>

definition BASE64_TABLE :: string where
  "BASE64_TABLE = ''ABCDEFGHIJKLMNOPQRSTUVWXYZabcdefghijklmnopqrstuvwxyz0123456789+/''"

definition base64_char :: "nat \<Rightarrow> char" where
  "base64_char v = BASE64_TABLE ! v"

fun encode_base64 :: "string \<Rightarrow> string" where
  "encode_base64 [] = []"
| "encode_base64 [a] =
     (let value = byte_of a * 65536
      in [base64_char (value div 262144 mod 64), base64_char (value div 4096 mod 64),
          CHR ''='', CHR ''=''])"
| "encode_base64 [a, b] =
     (let value = byte_of a * 65536 + byte_of b * 256
      in [base64_char (value div 262144 mod 64), base64_char (value div 4096 mod 64),
          base64_char (value div 64 mod 64), CHR ''=''])"
| "encode_base64 (a # b # c # s) =
     (let value = byte_of a * 65536 + byte_of b * 256 + byte_of c
      in [base64_char (value div 262144 mod 64), base64_char (value div 4096 mod 64),
          base64_char (value div 64 mod 64), base64_char (value mod 64)] @ encode_base64 s)"

function wrap_lines :: "nat \<Rightarrow> string \<Rightarrow> string" where
  "wrap_lines n s = (if s = [] \<or> n = 0 then [] else take n s @ CRLF @ wrap_lines n (drop n s))"
  by pat_completeness auto
termination
  by (relation "measure (\<lambda>(_, s). length s)") auto

declare wrap_lines.simps [simp del]

definition wrap_base64 :: "string \<Rightarrow> string" where
  "wrap_base64 s = wrap_lines 76 (encode_base64 s)"

definition base64_value :: "char \<Rightarrow> nat option" where
  "base64_value c = (let b = byte_of c in
     if 65 \<le> b \<and> b \<le> 90 then Some (b - 65)
     else if 97 \<le> b \<and> b \<le> 122 then Some (b - 97 + 26)
     else if 48 \<le> b \<and> b \<le> 57 then Some (b - 48 + 52)
     else if b = 43 \<or> b = 45 then Some 62
     else if b = 47 \<or> b = 95 then Some 63
     else None)"

text \<open>The loop keeps its accumulator in a \<open>u32\<close>, whose shift drops the bits above the 32nd.\<close>

fun decode_base64_loop :: "nat \<Rightarrow> nat \<Rightarrow> string \<Rightarrow> mime_error + string" where
  "decode_base64_loop acc bits [] = Inr []"
| "decode_base64_loop acc bits (c # s) =
     (if is_ascii_whitespace c then decode_base64_loop acc bits s
      else if c = CHR ''='' then Inr []
      else (case base64_value c of
              None \<Rightarrow> Inl InvalidBase64
            | Some v \<Rightarrow>
                (let acc' = acc * 64 mod 2 ^ 32 + v; bits' = bits + 6 in
                 if 8 \<le> bits'
                 then map_ok (\<lambda>r. char_of (acc' div 2 ^ (bits' - 8)) # r)
                        (decode_base64_loop (acc' mod 2 ^ (bits' - 8)) (bits' - 8) s)
                 else decode_base64_loop acc' bits' s)))"

definition decode_base64 :: "string \<Rightarrow> mime_error + string" where
  "decode_base64 s = decode_base64_loop 0 0 s"

definition mime_hex :: "char \<Rightarrow> nat option" where
  "mime_hex c = (let b = byte_of c in
     if 48 \<le> b \<and> b \<le> 57 then Some (b - 48)
     else if 97 \<le> b \<and> b \<le> 102 then Some (b - 97 + 10)
     else if 65 \<le> b \<and> b \<le> 70 then Some (b - 65 + 10) else None)"

function decode_quoted_printable :: "string \<Rightarrow> mime_error + string" where
  "decode_quoted_printable s =
     (case s of
        [] \<Rightarrow> Inr []
      | c # r \<Rightarrow>
          if c \<noteq> CHR ''='' then map_ok (\<lambda>t. c # t) (decode_quoted_printable r)
          else if take 2 r = CRLF then decode_quoted_printable (drop 2 r)
          else if take 1 r = [LF] then decode_quoted_printable (drop 1 r)
          else (case r of
                  h # l # rest \<Rightarrow>
                    (case (mime_hex h, mime_hex l) of
                       (Some x, Some y) \<Rightarrow> map_ok (\<lambda>t. char_of (16 * x + y) # t) (decode_quoted_printable rest)
                     | _ \<Rightarrow> Inl InvalidQuotedPrintable)
                | _ \<Rightarrow> Inl InvalidQuotedPrintable))"
  by pat_completeness auto
termination
  by (relation "measure length") (auto simp: CRLF_def)

declare decode_quoted_printable.simps [simp del]

definition decode_body :: "string \<Rightarrow> string \<Rightarrow> mime_error + string" where
  "decode_body body encoding =
     (let e = to_ascii_lowercase (trim encoding) in
      if e = ''base64'' then decode_base64 body
      else if e = ''quoted-printable'' then decode_quoted_printable body
      else Inr body)"

subsection \<open>The base64 round trip\<close>

lemma base64_table_values: "map base64_value BASE64_TABLE = map Some [0..<64]"
  by (simp add: BASE64_TABLE_def base64_value_def byte_of_def Let_def upt_rec [of _ 64])

lemma base64_table_clean: "list_all (\<lambda>c. c \<noteq> CHR ''='' \<and> \<not> is_ascii_whitespace c) BASE64_TABLE"
  by (simp add: BASE64_TABLE_def is_ascii_whitespace_def byte_of_def)

lemma base64_table_length: "length BASE64_TABLE = 64"
  by (simp add: BASE64_TABLE_def)

lemma base64_char_facts:
  assumes "v < 64"
  shows "base64_value (base64_char v) = Some v \<and> base64_char v \<noteq> CHR ''=''
     \<and> \<not> is_ascii_whitespace (base64_char v)"
proof -
  have "map base64_value BASE64_TABLE ! v = map Some [0..<64] ! v" by (simp add: base64_table_values)
  then have "base64_value (base64_char v) = Some v"
    using assms by (simp add: base64_table_length base64_char_def)
  moreover have "base64_char v \<in> set BASE64_TABLE"
    using assms by (simp add: base64_char_def base64_table_length)
  ultimately show ?thesis using base64_table_clean by (auto simp: list_all_iff)
qed

lemma decode_base64_step:
  "v < 64 \<Longrightarrow> acc < 256 \<Longrightarrow> decode_base64_loop acc bits (base64_char v # s) =
     (if 2 \<le> bits
      then map_ok (\<lambda>r. char_of ((acc * 64 + v) div 2 ^ (bits - 2)) # r)
             (decode_base64_loop ((acc * 64 + v) mod 2 ^ (bits - 2)) (bits - 2) s)
      else decode_base64_loop (acc * 64 + v) (bits + 6) s)"
  using base64_char_facts [of v] by (simp add: Let_def)

lemma decode_base64_skip:
  "decode_base64_loop acc bits (filter (\<lambda>c. \<not> is_ascii_whitespace c) s) = decode_base64_loop acc bits s"
  by (induction acc bits s rule: decode_base64_loop.induct) (auto simp: Let_def split: option.splits)

lemma div_between: "n * q \<le> m \<Longrightarrow> m < n * q + n \<Longrightarrow> m div n = (q :: nat)"
  by (intro div_nat_eqI) auto

lemma sextets:
  fixes a b c :: nat
  assumes "a < 256" "b < 256" "c < 256"
  shows "(a * 65536 + b * 256 + c) div 262144 mod 64 = a div 4"
    "(a * 65536 + b * 256 + c) div 4096 mod 64 = a mod 4 * 16 + b div 16"
    "(a * 65536 + b * 256 + c) div 64 mod 64 = b mod 16 * 4 + c div 64"
    "(a * 65536 + b * 256 + c) mod 64 = c mod 64"
proof -
  define ah al bh bl ch cl where d: "ah = a div 4" "al = a mod 4" "bh = b div 16" "bl = b mod 16"
    "ch = c div 64" "cl = c mod 64"
  have e: "a = ah * 4 + al" "b = bh * 16 + bl" "c = ch * 64 + cl"
    and r: "al < 4" "bl < 16" "cl < 64"
    unfolding d by (simp_all add: div_mult_mod_eq)
  have h: "ah < 64" "bh < 16" "ch < 4" using assms e by linarith+
  let ?x = "a * 65536 + b * 256 + c"
  have "?x div 262144 = ah" unfolding e using r h by (intro div_between) simp_all
  then show "?x div 262144 mod 64 = a div 4" using h d by simp
  have "?x div 4096 = ah * 64 + (al * 16 + bh)" unfolding e using r h by (intro div_between) simp_all
  moreover have "al * 16 + bh < 64" using r h by linarith
  ultimately show "?x div 4096 mod 64 = a mod 4 * 16 + b div 16" using d by simp
  have q: "?x div 64 = (ah * 64 + (al * 16 + bh)) * 64 + (bl * 4 + ch)"
    unfolding e using r h by (intro div_between) simp_all
  have "bl * 4 + ch < 64" using r h by linarith
  then have "?x div 64 mod 64 = bl * 4 + ch" by (simp only: q mod_mult_self3 mod_less)
  then show "?x div 64 mod 64 = b mod 16 * 4 + c div 64" using d by simp
  have q: "?x = ((ah * 64 + (al * 16 + bh)) * 64 + (bl * 4 + ch)) * 64 + cl"
    unfolding e by simp
  have "?x mod 64 = cl" using r(3) by (simp only: q mod_mult_self3 mod_less)
  then show "?x mod 64 = c mod 64" using d by simp
qed

text \<open>One group: the first two characters put out one byte, the third and the fourth another each.\<close>

lemma decode_two:
  assumes "a < 256" "b < 256"
  shows "decode_base64_loop 0 0 (base64_char (a div 4) # base64_char (a mod 4 * 16 + b div 16) # s) =
    map_ok (\<lambda>r. char_of a # r) (decode_base64_loop (b div 16) 4 s)"
proof -
  have v: "a div 4 < 64" "b div 16 < 16" using assms by (auto intro: less_mult_imp_div_less)
  have w: "a mod 4 * 16 + b div 16 < 64" using v(2) mod_less_divisor [of 4 a] by linarith
  have eq: "a div 4 * 64 + (a mod 4 * 16 + b div 16) = a * 16 + b div 16"
    using div_mult_mod_eq [of a 4] by linarith
  have "(a * 16 + b div 16) div 16 = a" "(a * 16 + b div 16) mod 16 = b div 16"
    using v(2) by simp_all
  then show ?thesis
    using v w decode_base64_step [of "a div 4" 0 0] decode_base64_step [OF w, of "a div 4" 6, unfolded eq]
    by (simp del: decode_base64_loop.simps)
qed

lemma decode_third:
  assumes "b < 256" "c < 256"
  shows "decode_base64_loop (b div 16) 4 (base64_char (b mod 16 * 4 + c div 64) # s) =
    map_ok (\<lambda>r. char_of b # r) (decode_base64_loop (c div 64) 2 s)"
proof -
  have v: "b div 16 < 16" "c div 64 < 4" using assms by (auto intro: less_mult_imp_div_less)
  have w: "b mod 16 * 4 + c div 64 < 64" using v(2) mod_less_divisor [of 16 b] by linarith
  have eq: "b div 16 * 64 + (b mod 16 * 4 + c div 64) = b * 4 + c div 64"
    using div_mult_mod_eq [of b 16] by linarith
  have "(b * 4 + c div 64) div 4 = b" "(b * 4 + c div 64) mod 4 = c div 64"
    using v(2) by simp_all
  then show ?thesis using v decode_base64_step [OF w, of "b div 16" 4 s, unfolded eq]
    by (simp del: decode_base64_loop.simps)
qed

lemma decode_fourth:
  assumes "c < 256"
  shows "decode_base64_loop (c div 64) 2 (base64_char (c mod 64) # s) =
    map_ok (\<lambda>r. char_of c # r) (decode_base64_loop 0 0 s)"
proof -
  have v: "c div 64 < 4" using assms by (auto intro: less_mult_imp_div_less)
  have "c div 64 * 64 + c mod 64 = c" by (rule div_mult_mod_eq)
  then show ?thesis using v decode_base64_step [of "c mod 64" "c div 64" 2 s]
    by (simp del: decode_base64_loop.simps)
qed

lemma decode_pad: "decode_base64_loop acc bits (CHR ''='' # s) = Inr []"
  by (simp add: is_ascii_whitespace_def byte_of_def)

lemma decode_encode_loop: "decode_base64_loop 0 0 (encode_base64 s) = Inr s"
proof (induction s rule: encode_base64.induct)
  case (2 a)
  show ?case
    using sextets [of "byte_of a" 0 0] decode_two [of "byte_of a" 0]
    by (simp add: Let_def decode_pad del: decode_base64_loop.simps)
next
  case (3 a b)
  show ?case
    using sextets [of "byte_of a" "byte_of b" 0] decode_two [of "byte_of a" "byte_of b"]
      decode_third [of "byte_of b" 0]
    by (simp add: Let_def decode_pad del: decode_base64_loop.simps)
next
  case (4 a b c s)
  then show ?case
    using sextets [of "byte_of a" "byte_of b" "byte_of c"] decode_two [of "byte_of a" "byte_of b"]
      decode_third [of "byte_of b" "byte_of c"] decode_fourth [of "byte_of c"]
    by (simp add: Let_def del: decode_base64_loop.simps)
qed simp

lemma filter_wrap_lines:
  "n \<noteq> 0 \<Longrightarrow> filter (\<lambda>c. \<not> is_ascii_whitespace c) (wrap_lines n s) = filter (\<lambda>c. \<not> is_ascii_whitespace c) s"
proof (induction n s rule: wrap_lines.induct)
  case (1 n s)
  show ?case
  proof (cases "s = []")
    case False
    have "filter (\<lambda>c. \<not> is_ascii_whitespace c) CRLF = []"
      by (simp add: char_consts is_ascii_whitespace_def byte_of_def)
    then have "filter (\<lambda>c. \<not> is_ascii_whitespace c) (wrap_lines n s) =
        filter (\<lambda>c. \<not> is_ascii_whitespace c) (take n s @ drop n s)"
      using 1 False by (subst wrap_lines.simps) (simp del: append_take_drop_id)
    then show ?thesis by simp
  qed (simp add: wrap_lines.simps)
qed

text \<open>A body that is encoded for sending, in lines of 76 characters, decodes to itself, whatever
  its bytes.\<close>

theorem base64_roundtrip: "decode_base64 (wrap_base64 s) = Inr s"
proof -
  have "decode_base64 (wrap_base64 s) =
      decode_base64_loop 0 0 (filter (\<lambda>c. \<not> is_ascii_whitespace c) (wrap_base64 s))"
    by (simp add: decode_base64_def decode_base64_skip)
  also have "\<dots> = decode_base64_loop 0 0 (encode_base64 s)"
    by (simp add: wrap_base64_def filter_wrap_lines decode_base64_skip)
  finally show ?thesis by (simp add: decode_encode_loop)
qed

subsection \<open>Bounds and safety\<close>

lemma set_after_last_separator: "CHR ''/'' \<notin> set (after_last_separator s) \<and> BACKSLASH \<notin> set (after_last_separator s)"
  by (auto simp: after_last_separator_def dest: set_takeWhileD)

lemma sanitize_filename_safe:
  "CHR ''/'' \<notin> set (sanitize_filename f) \<and> BACKSLASH \<notin> set (sanitize_filename f)
   \<and> sanitize_filename f \<notin> {[], ''.'', ''..''}
   \<and> (\<exists>cs. sanitize_filename f = concat cs \<and> length cs \<le> 240 \<and> (\<forall>c \<in> set cs. \<not> is_control_char c))"
proof -
  have default: "CHR ''/'' \<notin> set ''attachment'' \<and> BACKSLASH \<notin> set ''attachment''"
    "\<exists>cs. ''attachment'' = concat cs \<and> length cs \<le> 240 \<and> (\<forall>c \<in> set cs. \<not> is_control_char c)"
  proof -
    show "CHR ''/'' \<notin> set ''attachment'' \<and> BACKSLASH \<notin> set ''attachment''" by (simp add: BACKSLASH_def)
    show "\<exists>cs. ''attachment'' = concat cs \<and> length cs \<le> 240 \<and> (\<forall>c \<in> set cs. \<not> is_control_char c)"
      by (rule exI [of _ "map (\<lambda>c. [c]) ''attachment''"])
        (simp add: is_control_char_def is_ascii_control_def byte_of_def)
  qed
  let ?cand = "case f of None \<Rightarrow> ''attachment'' | Some v \<Rightarrow> after_last_separator v"
  let ?cs = "take 240 (filter (\<lambda>c. \<not> is_control_char c) (utf8_chars ?cand))"
  have cand: "CHR ''/'' \<notin> set ?cand \<and> BACKSLASH \<notin> set ?cand"
    using set_after_last_separator default(1) by (cases f) simp_all
  have "set (concat ?cs) \<subseteq> set (concat (utf8_chars ?cand))"
    by (auto simp del: concat_utf8_chars dest!: in_set_takeD)
  then have clean: "CHR ''/'' \<notin> set (concat ?cs) \<and> BACKSLASH \<notin> set (concat ?cs)" using cand by auto
  have parts: "\<forall>c \<in> set ?cs. \<not> is_control_char c" by (auto dest!: in_set_takeD)
  obtain cs where cs: "cs = ?cs" by blast
  have run: "sanitize_filename f = (if concat cs = [] \<or> concat cs = ''.'' \<or> concat cs = ''..''
      then ''attachment'' else concat cs)"
    unfolding cs by (simp only: sanitize_filename_def Let_def)
  have good: "\<exists>ds. concat cs = concat ds \<and> length ds \<le> 240 \<and> (\<forall>c \<in> set ds. \<not> is_control_char c)"
  proof (intro exI [of _ cs] conjI)
    show "length cs \<le> 240" unfolding cs by simp
    show "\<forall>c \<in> set cs. \<not> is_control_char c" unfolding cs by (rule parts)
  qed (rule refl)
  note clean = clean [folded cs]
  show ?thesis
  proof (cases "concat cs = [] \<or> concat cs = ''.'' \<or> concat cs = ''..''")
    case True
    then have "sanitize_filename f = ''attachment''" unfolding run by (rule if_P)
    with default show ?thesis by simp
  next
    case False
    then have "sanitize_filename f = concat cs" unfolding run by (rule if_not_P)
    then show ?thesis using False clean good by (simp del: concat_eq_Nil_conv Nil_eq_concat_conv)
  qed
qed

lemma take_attachment_Inr:
  "take_attachment st p = Inr st' \<longleftrightarrow>
     length (fst st) < MAX_MIME_ATTACHMENTS \<and> snd st + length (rp_contents p) \<le> MAX_MAIL_ATTACHMENT_BYTES
     \<and> snd st + length (rp_contents p) \<le> u64_max
     \<and> st' = (fst st @ [convert_attachment p], snd st + length (rp_contents p))"
  by (auto simp: take_attachment_def reserve_attachment_budget_def Let_def bind_r_eq_Inr split: if_splits)

lemma attachment_loop:
  assumes "fold_r take_attachment ([], 0) ps = Inr (atts, n)"
  shows "length atts \<le> 256 \<and> sum_list (map (\<lambda>a. length (pt_data a)) atts) \<le> 64 * 1024 * 1024
    \<and> (\<forall>a \<in> set atts. \<exists>f. pt_filename a = sanitize_filename f)"
proof -
  let ?P = "\<lambda>st :: parsed_attachment list \<times> nat. length (fst st) \<le> 256 \<and> snd st \<le> 64 * 1024 * 1024
    \<and> sum_list (map (\<lambda>a. length (pt_data a)) (fst st)) = snd st
    \<and> (\<forall>a \<in> set (fst st). \<exists>f. pt_filename a = sanitize_filename f)"
  have "?P (atts, n)"
  proof (rule fold_r_invariant [where P = ?P, OF assms])
    fix u x v
    assume "?P u" and "take_attachment u x = Inr v"
    then show "?P v"
      by (auto simp: take_attachment_Inr MAX_MIME_ATTACHMENTS_def MAX_MAIL_ATTACHMENT_BYTES_def
          convert_attachment_def)
  qed simp
  then show ?thesis by simp
qed


definition sample_raw_mail :: raw_mail where
  "sample_raw_mail = \<lparr>rm_subject = Some ''s'', rm_from = [], rm_to = [], rm_cc = [], rm_bcc = [],
     rm_date = None, rm_message_id = None, rm_in_reply_to = [], rm_references = [], rm_text = None,
     rm_html = None, rm_attachments = [\<lparr>rp_name = Some ''../x'', rp_content_type = None,
       rp_content_id = None, rp_disposition = None, rp_contents = ''abc''\<rparr>]\<rparr>"


lemma bare_message_id_Inr:
  "bare_message_id raw = Inr i \<Longrightarrow> i \<noteq> [] \<and> length i \<le> 998 \<and> CHR ''@'' \<in> set i \<and> CR \<notin> set i \<and> LF \<notin> set i"
proof -
  assume a: "bare_message_id raw = Inr i"
  let ?t = "trim raw"
  let ?inner = "case strip_prefix ?t ''<'' of None \<Rightarrow> ?t
    | Some r \<Rightarrow> (case strip_suffix r ''>'' of None \<Rightarrow> ?t | Some i \<Rightarrow> i)"
  have clean: "CR \<notin> set raw" "LF \<notin> set raw" and i: "i = trim ?inner"
    and props: "i \<noteq> []" "length i \<le> 998" "CHR ''@'' \<in> set i"
    using a by (auto simp: bare_message_id_def validate_header_def Let_def bind_r_eq_Inr require_eq_Inr
        split: if_splits)
  have "set ?inner \<subseteq> set ?t"
    by (auto split: option.splits dest!: iffD1 [OF strip_prefix_eq_Some] iffD1 [OF strip_suffix_eq_Some])
  then have "set i \<subseteq> set raw" using set_trim [of raw] set_trim [of ?inner] i by auto
  then show ?thesis using clean props by auto
qed

lemma list_all2_left:
  assumes "list_all2 P xs ys" "x \<in> set xs"
  shows "\<exists>y. P x y"
  using assms by (induction rule: list_all2_induct) auto

lemma list_all2_right:
  assumes "list_all2 P xs ys" "y \<in> set ys"
  shows "\<exists>x. P x y"
  using assms by (induction rule: list_all2_induct) auto

definition single_line :: "string \<Rightarrow> bool" where
  "single_line s \<longleftrightarrow> CR \<notin> set s \<and> LF \<notin> set s"

text \<open>No header injection. A message is handed to the builder only when every name, address and
  the subject are single lines and every address has an at-sign; and a reply's References chain has
  at most 100 well-formed identifiers and ends with the message that is answered.\<close>

theorem production_draft_safe:
  assumes "production_draft sender msg mid refs = Inr d"
  shows "(\<forall>a \<in> {md_from d} \<union> set (md_to d) \<union> set (case md_cc d of None \<Rightarrow> [] | Some cc \<Rightarrow> cc).
      single_line (ad_name a) \<and> single_line (ad_address a) \<and> CHR ''@'' \<in> set (ad_address a))
    \<and> single_line (md_subject d)
    \<and> (case md_reply d of None \<Rightarrow> mid = None
       | Some (i, chain) \<Rightarrow> length chain \<le> 100 \<and> last chain = i \<and> i \<in> set chain
           \<and> (\<forall>j \<in> set chain. single_line j \<and> length j \<le> 998 \<and> CHR ''@'' \<in> set j))"
proof -
  obtain us reply where us: "validate_address sender = Inr ()"
    and all: "collect_r validate_address (o_to msg @ o_cc msg @ o_bcc msg) = Inr us"
    and subj: "validate_header (o_subject msg) = Inr ()"
    and reply: "reply_headers mid refs = Inr reply"
    and d: "d = \<lparr>md_from = sender, md_to = o_to msg, md_subject = o_subject msg,
          md_cc = (if o_cc msg = [] then None else Some (o_cc msg)), md_reply = reply,
          md_text = o_body_text msg, md_html = o_body_html msg\<rparr>"
    using assms by (auto simp: production_draft_def bind_r_eq_Inr)
  have addr: "single_line (ad_name a) \<and> single_line (ad_address a) \<and> CHR ''@'' \<in> set (ad_address a)"
    if "validate_address a = Inr u" for a u
    using that by (auto simp: validate_address_def validate_header_def single_line_def bind_r_eq_Inr require_eq_Inr)
  have "\<exists>u. validate_address a = Inr u" if "a \<in> set (o_to msg @ o_cc msg @ o_bcc msg)" for a
    by (rule list_all2_left [OF collect_r_Inr_list_all2 [OF all] that])
  note each = this
  have "single_line (ad_name a) \<and> single_line (ad_address a) \<and> CHR ''@'' \<in> set (ad_address a)"
    if "a \<in> insert sender (set (o_to msg @ o_cc msg @ o_bcc msg))" for a
    using that us each addr by (metis insertE)
  then have people: "\<forall>a \<in> {md_from d} \<union> set (md_to d) \<union> set (case md_cc d of None \<Rightarrow> [] | Some cc \<Rightarrow> cc).
      single_line (ad_name a) \<and> single_line (ad_address a) \<and> CHR ''@'' \<in> set (ad_address a)"
    by (auto simp: d split: if_splits)
  have chain: "case reply of None \<Rightarrow> mid = None
       | Some (i, chain) \<Rightarrow> length chain \<le> 100 \<and> last chain = i \<and> i \<in> set chain
           \<and> (\<forall>j \<in> set chain. single_line j \<and> length j \<le> 998 \<and> CHR ''@'' \<in> set j)"
  proof (cases mid)
    case None
    with reply show ?thesis by (simp add: reply_headers_def)
  next
    case (Some raw)
    with reply obtain i rs where i: "bare_message_id raw = Inr i"
      and rs: "collect_r bare_message_id (take 99 refs) = Inr rs"
      and r: "reply = Some (i, if rs \<noteq> [] \<and> last rs = i then rs else rs @ [i])"
      by (auto simp: reply_headers_def bind_r_eq_Inr)
    have "length rs \<le> 99" using collect_r_length [OF rs] by simp
    moreover have "\<exists>x. bare_message_id x = Inr j" if "j \<in> set rs" for j
      by (rule list_all2_right [OF collect_r_Inr_list_all2 [OF rs] that])
    ultimately show ?thesis using bare_message_id_Inr i r by (auto simp: single_line_def)
  qed
  show ?thesis using people chain subj d
    by (simp add: validate_header_def single_line_def require_eq_Inr)
qed

definition sample_reply :: outgoing_message where
  "sample_reply = \<lparr>o_draft_id = None, o_account_id = ''a'', o_to = [\<lparr>ad_name = ''Ann'', ad_address = ''a@x''\<rparr>], o_cc = [], o_bcc = [],
     o_subject = ''Re: s'', o_body_text = Some ''hi'', o_body_html = None, o_in_reply_to = None\<rparr>"

theorem production_draft_safe_witness:
  "\<exists>d. production_draft \<lparr>ad_name = [], ad_address = ''me@x''\<rparr> sample_reply (Some ''<2@x>'') [''<1@x>''] = Inr d
     \<and> single_line (md_subject d)"
proof -
  have "\<not> isl (production_draft \<lparr>ad_name = [], ad_address = ''me@x''\<rparr> sample_reply (Some ''<2@x>'') [''<1@x>''])"
    by code_simp
  then obtain d where ev: "production_draft \<lparr>ad_name = [], ad_address = ''me@x''\<rparr> sample_reply (Some ''<2@x>'') [''<1@x>''] = Inr d"
    by (cases "production_draft \<lparr>ad_name = [], ad_address = ''me@x''\<rparr> sample_reply (Some ''<2@x>'') [''<1@x>'']") auto
  from production_draft_safe [OF ev] ev show ?thesis by blast
qed

end
