(* ===== verification/Imap_Transport.thy ===== *)
theory Imap_Transport
  imports Imap_Session Mime_Codec
begin

section \<open>IMAP: the transport\<close>

text \<open>
  \<open>AsyncImapTransport\<close> of \<open>providers/imap_smtp.rs\<close>, one definition per method. The commands of the
  crate \<open>async-imap\<close> and the server behind them are the record \<open>imap_net\<close> of operations on an unknown
  world; the mail parser and the clock are arguments. A method that runs under the command timeout can be
  cut off while it awaits any command: that command then answers \<open>TimedOut\<close>, and the method
  returns. The pure parts (search windows, pages of UIDs) come first, with the facts that make a
  page cover its interval.
\<close>

subsection \<open>Errors and answers of the client library\<close>

datatype client_error =
    ClientIo string | ClientConnectionLost string | ClientParse string | ClientOther string | TimedOut

fun client_error_text :: "client_error \<Rightarrow> string" where
  "client_error_text (ClientIo m) = m"
| "client_error_text (ClientConnectionLost m) = m"
| "client_error_text (ClientParse m) = m"
| "client_error_text (ClientOther m) = m"
| "client_error_text TimedOut = []"

fun imap_connection_failed :: "client_error \<Rightarrow> bool" where
  "imap_connection_failed (ClientIo _) = True"
| "imap_connection_failed (ClientConnectionLost _) = True"
| "imap_connection_failed (ClientParse _) = True"
| "imap_connection_failed _ = False"

definition imap_protocol_error :: "client_error \<Rightarrow> imap_error" where
  "imap_protocol_error e =
     (if e = TimedOut then CommandTimeout
      else if imap_connection_failed e then Connection (client_error_text e)
      else Protocol (client_error_text e))"

record select_answer =
  sa_uid_validity :: "nat option"
  sa_uid_next :: "nat option"
  sa_highest_modseq :: "nat option"

record raw_fetch =
  rf_uid :: "nat option"
  rf_size :: "nat option"
  rf_flags :: "string list"
  rf_header :: "string option"
  rf_body :: "string option"

datatype name_attribute =
    NoSelect | AttrArchive | AttrAll | AttrDrafts | AttrJunk | AttrSent | AttrTrash | AttrFlagged
  | Extension string | AttrOther

datatype status_answer =
    StatusCounts nat "nat option" | StatusFailed client_error | StatusDeadline

record 'n imap_net =
  net_connect :: "('n, imap_error, unit) io"
  net_select :: "string \<Rightarrow> ('n, client_error, select_answer) io"
  net_list :: "('n, client_error, (string \<times> name_attribute list) list) io"
  net_status :: "string \<Rightarrow> 'n \<Rightarrow> status_answer \<times> 'n"
  net_uid_search :: "string \<Rightarrow> ('n, client_error, nat list) io"
  net_uid_fetch :: "string \<Rightarrow> string \<Rightarrow> ('n, client_error, raw_fetch list) io"
  net_uid_fetch_first :: "string \<Rightarrow> string \<Rightarrow> ('n, client_error, raw_fetch option) io"
  net_uid_store :: "string \<Rightarrow> string \<Rightarrow> ('n, client_error, unit) io"
  net_capabilities :: "('n, client_error, string list) io"
  net_run_command :: "string \<Rightarrow> ('n, client_error, unit) io"
  net_uid_copy :: "string \<Rightarrow> string \<Rightarrow> ('n, client_error, unit) io"
  net_uid_expunge :: "string \<Rightarrow> ('n, client_error, unit) io"

definition command :: "('n, client_error, 'a) io \<Rightarrow> ('n, imap_error, 'a) io" where
  "command m = io_map_err imap_protocol_error m"

subsection \<open>Mailboxes\<close>

record selected_mailbox =
  sel_uid_validity :: nat
  sel_uid_next :: nat
  sel_highest_mod_sequence :: "nat option"

definition select_mailbox :: "'n imap_net \<Rightarrow> string \<Rightarrow> ('n, imap_error, selected_mailbox) io" where
  "select_mailbox net mailbox =
     io_bind (io_lift (validate_imap_text mailbox)) (\<lambda>_.
     io_bind (command (net_select net mailbox)) (\<lambda>a.
     io_bind (io_lift (ok_or (sa_uid_validity a) MissingUidValidity)) (\<lambda>v.
     io_return \<lparr>sel_uid_validity = v,
       sel_uid_next = (case sa_uid_next a of None \<Rightarrow> 1 | Some n \<Rightarrow> n),
       sel_highest_mod_sequence = sa_highest_modseq a\<rparr>)))"

record imap_mailbox_info =
  mi_name :: string
  mi_role :: "mailbox_role option"
  mi_unread :: nat
  mi_total :: nat

definition mailbox_role_of :: "string \<Rightarrow> name_attribute list \<Rightarrow> mailbox_role option" where
  "mailbox_role_of name attributes =
     (if AttrArchive \<in> set attributes \<or> AttrAll \<in> set attributes then Some ArchiveRole
      else if AttrDrafts \<in> set attributes then Some Drafts
      else if AttrJunk \<in> set attributes then Some Spam
      else if AttrSent \<in> set attributes then Some Sent
      else if AttrTrash \<in> set attributes then Some TrashRole
      else if AttrFlagged \<in> set attributes
        \<or> list_ex (\<lambda>a. case a of Extension v \<Rightarrow> eq_ignore_ascii_case v (BACKSLASH # ''Important'') | _ \<Rightarrow> False) attributes
      then Some OtherRole
      else if eq_ignore_ascii_case name ''INBOX'' then Some Inbox else None)"

text \<open>One pass of STATUS over the mailboxes: what was counted, and why it stopped early.\<close>

datatype pass_end = PassDone | PassDeadline | PassConnection imap_error

fun status_pass :: "'n imap_net \<Rightarrow> imap_mailbox_info list \<Rightarrow> 'n
    \<Rightarrow> (imap_mailbox_info list \<times> pass_end) \<times> 'n" where
  "status_pass net [] w = (([], PassDone), w)"
| "status_pass net (m # ms) w =
     (case net_status net (mi_name m) w of
        (StatusDeadline, w') \<Rightarrow> ((m # ms, PassDeadline), w')
      | (StatusFailed e, w') \<Rightarrow>
          (if imap_connection_failed e then ((m # ms, PassConnection (imap_protocol_error e)), w')
           else (case status_pass net ms w' of ((rest, fin), w'') \<Rightarrow> ((m # rest, fin), w'')))
      | (StatusCounts n unseen, w') \<Rightarrow>
          (case status_pass net ms w' of ((rest, fin), w'') \<Rightarrow>
             ((m\<lparr>mi_total := n, mi_unread := (case unseen of None \<Rightarrow> 0 | Some u \<Rightarrow> u)\<rparr> # rest, fin), w'')))"

function status_loop :: "bool \<Rightarrow> 'n imap_net \<Rightarrow> imap_mailbox_info list
    \<Rightarrow> ('n imap_world, imap_error, imap_mailbox_info list) io" where
  "status_loop already_retried net mailboxes w =
     (case lock_session (net_connect net) MainLane w of
        (Inl e, w1) \<Rightarrow>
          (if session_error_action e True already_retried = InvalidateAndRetry
           then status_loop True net mailboxes w1 else (Inl e, w1))
      | (Inr _, w1) \<Rightarrow>
          (case status_pass net mailboxes (iw_net w1) of
             ((current, fin), n) \<Rightarrow>
               (let w2 = w1\<lparr>iw_net := n\<rparr> in
                case fin of
                  PassDone \<Rightarrow> (Inr current, w2)
                | PassDeadline \<Rightarrow> (Inr current, set_open MainLane False w2)
                | PassConnection e \<Rightarrow>
                    (if \<not> already_retried then status_loop True net mailboxes (set_open MainLane False w2)
                     else (Inl e, set_open MainLane False w2)))))"
  by pat_completeness auto
termination
  by (relation "measure (\<lambda>(already_retried, _). if already_retried then 0 else 1)")
    (auto simp: session_error_action_def split: if_splits)

declare status_loop.simps [simp del]

definition imap_list_mailboxes :: "'n imap_net \<Rightarrow> ('n imap_world, imap_error, imap_mailbox_info list) io" where
  "imap_list_mailboxes net =
     io_bind (run_session_operation False (net_connect net) MainLane True (command (net_list net))) (\<lambda>names.
     let mailboxes = map (\<lambda>(name, attributes). \<lparr>mi_name = name, mi_role = mailbox_role_of name attributes,
                        mi_unread = 0, mi_total = 0\<rparr>)
                      (filter (\<lambda>(_, attributes). NoSelect \<notin> set attributes) names)
     in status_loop False net (sort_key (\<lambda>m. mi_role m \<noteq> Some Inbox) mailboxes))"

definition imap_select :: "'n imap_net \<Rightarrow> string \<Rightarrow> ('n imap_world, imap_error, selected_mailbox) io" where
  "imap_select net mailbox =
     run_session_operation False (net_connect net) MainLane True (select_mailbox net mailbox)"

subsection \<open>Pages and windows of UIDs\<close>

definition SEARCH_SPAN :: nat where "SEARCH_SPAN = 4096"
definition MAX_SEARCH_WINDOWS :: nat where "MAX_SEARCH_WINDOWS = 16"

definition newest_uid_page :: "nat list \<Rightarrow> nat \<Rightarrow> nat \<Rightarrow> nat list" where
  "newest_uid_page uids before_uid limit =
     take limit (rev (sort (filter (\<lambda>u. before_uid = 0 \<or> u < before_uid) uids)))"

fun search_windows_from :: "nat \<Rightarrow> nat \<Rightarrow> (nat \<times> nat) list" where
  "search_windows_from 0 last_uid = []"
| "search_windows_from (Suc k) last_uid =
     (let first_uid = max (last_uid - (SEARCH_SPAN - 1)) 1 in
      (first_uid, last_uid) # (if first_uid = 1 then [] else search_windows_from k (first_uid - 1)))"

definition recent_uid_search_windows :: "nat \<Rightarrow> imap_error + (nat \<times> nat) list" where
  "recent_uid_search_windows through_uid =
     (if through_uid = 0 then Inr []
      else if u32_max < through_uid then Inl InvalidUidCursor
      else Inr (search_windows_from MAX_SEARCH_WINDOWS through_uid))"

definition uid_range_text :: "nat \<Rightarrow> nat \<Rightarrow> string" where
  "uid_range_text first_uid last_uid = ''UID '' @ show_nat first_uid @ COLON # show_nat last_uid"

definition incremental_uid_search_range :: "nat \<Rightarrow> nat \<Rightarrow> imap_error + (string \<times> nat) option" where
  "incremental_uid_search_range after_uid through_uid =
     (if through_uid \<le> after_uid then Inr None
      else if u64_max < after_uid + 1 \<or> u64_max < after_uid + SEARCH_SPAN then Inl InvalidUidCursor
      else let first_uid = after_uid + 1; covered = min through_uid (after_uid + SEARCH_SPAN) in
        if u32_max < first_uid \<or> u32_max < covered then Inl InvalidUidCursor
        else Inr (Some (uid_range_text first_uid covered, covered)))"

record incremental_page =
  ip_uids :: "nat list"
  ip_high_uid :: nat

definition incremental_uid_page :: "nat list \<Rightarrow> nat \<Rightarrow> nat \<Rightarrow> nat \<Rightarrow> incremental_page" where
  "incremental_uid_page uids after_uid through_uid limit =
     (let us = sorted_list_of_set (set (filter (\<lambda>u. after_uid < u \<and> u \<le> through_uid) uids));
          lim = max limit 1;
          page = take lim us
      in \<lparr>ip_uids = page,
          ip_high_uid = (if lim < length us then (if page = [] then after_uid else last page)
                         else through_uid)\<rparr>)"

definition missing_reconciled_message_ids :: "(nat \<times> string) list \<Rightarrow> nat set \<Rightarrow> string list" where
  "missing_reconciled_message_ids requested returned_uids =
     sorted_list_of_set (set (map snd (filter (\<lambda>(uid, _). uid \<notin> returned_uids) requested)))"

subsection \<open>Searches\<close>

definition imap_search_uids :: "'n imap_net \<Rightarrow> string \<Rightarrow> nat \<Rightarrow> string option \<Rightarrow> bool \<Rightarrow> nat
    \<Rightarrow> ('n imap_world, imap_error, nat list) io" where
  "imap_search_uids net mailbox before_uid search unread_only limit =
     (if before_uid = 1 then io_return []
      else
        let uid_range = (if before_uid = 0 then ''UID 1:*'' else uid_range_text 1 (before_uid - 1));
            terms = uid_range # (if unread_only then [''UNSEEN''] else [])
        in io_bind (io_lift (case search of
               Some s \<Rightarrow> if trim s = [] then Inr terms
                 else bind_r (quote_imap s) (\<lambda>q. Inr (terms @ [''TEXT '' @ q]))
             | None \<Rightarrow> Inr terms)) (\<lambda>terms.
           io_bind (run_session_operation False (net_connect net) MainLane True
             (io_bind (select_mailbox net mailbox) (\<lambda>_.
              command (net_uid_search net (join_with '' '' terms))))) (\<lambda>uids.
           io_return (newest_uid_page uids before_uid limit))))"

fun search_in_windows :: "'n imap_net \<Rightarrow> nat \<Rightarrow> nat set \<Rightarrow> (nat \<times> nat) list \<Rightarrow> ('n, imap_error, nat set) io" where
  "search_in_windows net limit uids [] = io_return uids"
| "search_in_windows net limit uids ((first_uid, last_uid) # ws) =
     io_bind (command (net_uid_search net (uid_range_text first_uid last_uid))) (\<lambda>found.
     let uids' = uids \<union> set found in
     if limit \<le> card uids' then io_return uids' else search_in_windows net limit uids' ws)"

definition imap_search_recent_uids :: "'n imap_net \<Rightarrow> string \<Rightarrow> nat \<Rightarrow> nat
    \<Rightarrow> ('n imap_world, imap_error, nat list) io" where
  "imap_search_recent_uids net mailbox through_uid limit =
     io_bind (io_lift (recent_uid_search_windows through_uid)) (\<lambda>windows.
     if windows = [] then io_return []
     else
       let lim = max limit 1 in
       io_bind (run_session_operation False (net_connect net) MainLane True
         (io_bind (select_mailbox net mailbox) (\<lambda>_.
          io_bind (search_in_windows net lim {} windows) (\<lambda>uids.
          io_return (sorted_list_of_set uids))))) (\<lambda>uids.
       io_return (newest_uid_page uids 0 lim)))"

definition imap_search_uids_since :: "'n imap_net \<Rightarrow> string \<Rightarrow> nat \<Rightarrow> nat \<Rightarrow> nat
    \<Rightarrow> ('n imap_world, imap_error, incremental_page) io" where
  "imap_search_uids_since net mailbox after_uid through_uid limit =
     io_bind (io_lift (incremental_uid_search_range after_uid through_uid)) (\<lambda>r.
     case r of
       None \<Rightarrow> io_return \<lparr>ip_uids = [], ip_high_uid = after_uid\<rparr>
     | Some (uid_range, covered) \<Rightarrow>
         io_bind (run_session_operation False (net_connect net) MainLane True
           (io_bind (select_mailbox net mailbox) (\<lambda>_. command (net_uid_search net uid_range)))) (\<lambda>uids.
         io_return (incremental_uid_page uids after_uid covered limit)))"

subsection \<open>Fetching\<close>

record imap_envelope =
  en_uid :: nat
  en_subject :: string
  en_from :: "address option"
  en_timestamp :: int
  en_flags :: "string list"
  en_snippet :: string
  en_has_attachments :: bool
  en_message_id :: "string option"
  en_in_reply_to :: "string list"
  en_references :: "string list"

record imap_fetched_message =
  fm_uid :: nat
  fm_uid_validity :: nat
  fm_flags :: "string list"
  fm_raw :: string

text \<open>A \<open>BTreeSet<String>\<close> as the sorted list of its elements.\<close>

definition flag_set :: "string list \<Rightarrow> string list" where
  "flag_set flags = sorted_list_of_set (set flags)"

record summary_headers =
  sh_subject :: string
  sh_from :: "address option"
  sh_timestamp :: "int option"
  sh_message_id :: "string option"
  sh_in_reply_to :: "string list"
  sh_references :: "string list"
  sh_has_attachments :: bool

text \<open>The parser gets the header block closed by an empty line. The lossy decoding of the raw bytes
  neither adds nor removes ASCII text, so the searches are done on the bytes.\<close>

definition close_headers :: "string \<Rightarrow> string" where
  "close_headers raw =
     (if ends_with raw (CRLF @ CRLF) then raw
      else if ends_with raw CRLF then raw @ CRLF else raw @ CRLF @ CRLF)"

definition parse_summary_headers :: "(string \<Rightarrow> raw_mail option) \<Rightarrow> string \<Rightarrow> summary_headers" where
  "parse_summary_headers parser raw =
     (let parsed = (case production_parse parser (close_headers raw) of Inl _ \<Rightarrow> empty_parsed_mime | Inr p \<Rightarrow> p);
          header_text = to_ascii_lowercase raw
      in \<lparr>sh_subject = pm_subject parsed, sh_from = pm_from parsed, sh_timestamp = pm_date parsed,
          sh_message_id = pm_message_id parsed, sh_in_reply_to = pm_in_reply_to parsed,
          sh_references = pm_references parsed,
          sh_has_attachments = contains_sub header_text ''content-disposition: attachment''
            \<or> contains_sub header_text ''content-type: multipart/mixed''\<rparr>)"

definition IMAP_SUMMARY_FETCH :: string where
  "IMAP_SUMMARY_FETCH = ''(UID FLAGS RFC822.SIZE BODY.PEEK[HEADER.FIELDS (SUBJECT FROM DATE MESSAGE-ID IN-REPLY-TO REFERENCES CONTENT-TYPE CONTENT-DISPOSITION)])''"

definition envelope_of :: "(string \<Rightarrow> raw_mail option) \<Rightarrow> int \<Rightarrow> raw_fetch \<Rightarrow> imap_error + imap_envelope" where
  "envelope_of parser now f =
     bind_r (ok_or (rf_uid f) (Protocol ''UID FETCH response omitted UID'')) (\<lambda>uid.
     let h = parse_summary_headers parser (case rf_header f of None \<Rightarrow> [] | Some t \<Rightarrow> t) in
     Inr \<lparr>en_uid = uid, en_subject = sh_subject h, en_from = sh_from h,
          en_timestamp = (case sh_timestamp h of None \<Rightarrow> now | Some t \<Rightarrow> t),
          en_flags = flag_set (rf_flags f), en_snippet = [],
          en_has_attachments = sh_has_attachments h, en_message_id = sh_message_id h,
          en_in_reply_to = sh_in_reply_to h, en_references = sh_references h\<rparr>)"

text \<open>\<open>sort_by_key\<close> with a reversed key: stable, the greatest UID first.\<close>

definition sort_envelopes_newest_first :: "imap_envelope list \<Rightarrow> imap_envelope list" where
  "sort_envelopes_newest_first es = sort_key (\<lambda>e. - int (en_uid e)) es"

definition imap_fetch_envelopes :: "'n imap_net \<Rightarrow> (string \<Rightarrow> raw_mail option) \<Rightarrow> int \<Rightarrow> string \<Rightarrow> nat list
    \<Rightarrow> ('n imap_world, imap_error, imap_envelope list) io" where
  "imap_fetch_envelopes net parser now mailbox uids =
     (if uids = [] then io_return []
      else io_bind (io_lift (uid_set uids)) (\<lambda>txt.
           io_bind (run_session_operation False (net_connect net) MainLane True
             (io_bind (select_mailbox net mailbox) (\<lambda>_.
              command (net_uid_fetch net txt IMAP_SUMMARY_FETCH)))) (\<lambda>fetches.
           io_bind (io_lift (collect_r (envelope_of parser now) fetches)) (\<lambda>es.
           io_return (sort_envelopes_newest_first es)))))"

definition bounded_raw_fetch_query :: "nat \<Rightarrow> string" where
  "bounded_raw_fetch_query limit =
     ''(UID FLAGS RFC822.SIZE BODY.PEEK[]<0.'' @ show_nat (min (limit + 1) u64_max) @ ''>)''"

definition validate_raw_message_size :: "nat \<Rightarrow> nat \<Rightarrow> imap_error + unit" where
  "validate_raw_message_size n limit = (if limit < n then Inl ImapMessageTooLarge else Inr ())"

definition imap_fetch_message :: "'n imap_net \<Rightarrow> string \<Rightarrow> nat \<Rightarrow> nat
    \<Rightarrow> ('n imap_world, imap_error, imap_fetched_message) io" where
  "imap_fetch_message net mailbox uid expected_uid_validity =
     run_session_operation False (net_connect net) DetailLane True
       (io_bind (select_mailbox net mailbox) (\<lambda>selected.
        if sel_uid_validity selected \<noteq> expected_uid_validity then io_error ImapNotFound
        else
          io_bind (command (net_uid_fetch_first net (show_nat uid)
            (bounded_raw_fetch_query MAX_MAIL_MESSAGE_BYTES))) (\<lambda>first.
          io_bind (io_lift (ok_or first ImapNotFound)) (\<lambda>f.
          if rf_uid f \<noteq> Some uid then io_error ImapNotFound
          else
            io_bind (io_lift (ok_or (rf_size f) MissingMessageSize)) (\<lambda>declared.
            io_bind (io_lift (validate_raw_message_size declared MAX_MAIL_MESSAGE_BYTES)) (\<lambda>_.
            io_bind (io_lift (ok_or (rf_body f) ImapNotFound)) (\<lambda>raw.
            io_bind (io_lift (validate_raw_message_size (length raw) MAX_MAIL_MESSAGE_BYTES)) (\<lambda>_.
            io_return \<lparr>fm_uid = uid, fm_uid_validity = sel_uid_validity selected,
              fm_flags = flag_set (rf_flags f), fm_raw = raw\<rparr>))))))))"

subsection \<open>Changing messages\<close>

definition parenthesised :: "string \<Rightarrow> string list \<Rightarrow> string" where
  "parenthesised prefix flags = prefix @ '' ('' @ join_with '' '' flags @ '')''"

definition imap_store_flags :: "'n imap_net \<Rightarrow> string \<Rightarrow> nat list \<Rightarrow> string list \<Rightarrow> string list
    \<Rightarrow> ('n imap_world, imap_error, unit) io" where
  "imap_store_flags net mailbox uids add_flags remove_flags =
     (if uids = [] then io_return ()
      else io_bind (io_lift (uid_set uids)) (\<lambda>txt.
           io_bind (io_lift (validated_flags add_flags)) (\<lambda>adds.
           io_bind (io_lift (validated_flags remove_flags)) (\<lambda>removes.
           run_session_operation False (net_connect net) MainLane False
             (io_bind (select_mailbox net mailbox) (\<lambda>_.
              io_bind (if adds = [] then io_return ()
                 else command (net_uid_store net txt (parenthesised ''+FLAGS.SILENT'' adds))) (\<lambda>_.
              if removes = [] then io_return ()
              else command (net_uid_store net txt (parenthesised ''-FLAGS.SILENT'' removes)))))))))"

definition DELETED_STORE :: string where
  "DELETED_STORE = ''+FLAGS.SILENT ('' @ BACKSLASH # ''Deleted)''"

definition move_operation :: "'n imap_net \<Rightarrow> string \<Rightarrow> string \<Rightarrow> string \<Rightarrow> ('n, imap_error, unit) io" where
  "move_operation net mailbox txt destination =
     io_bind (select_mailbox net mailbox) (\<lambda>_.
     io_bind (command (net_capabilities net)) (\<lambda>capabilities.
     if ''MOVE'' \<in> set capabilities
     then io_bind (io_lift (quote_imap destination)) (\<lambda>q.
          command (net_run_command net (''UID MOVE '' @ txt @ '' '' @ q)))
     else
       io_bind (command (net_uid_copy net txt destination)) (\<lambda>_.
       io_bind (command (net_uid_store net txt DELETED_STORE)) (\<lambda>_.
       if ''UIDPLUS'' \<in> set capabilities then command (net_uid_expunge net txt) else io_return ()))))"

definition imap_move_uids :: "'n imap_net \<Rightarrow> string \<Rightarrow> nat list \<Rightarrow> string
    \<Rightarrow> ('n imap_world, imap_error, unit) io" where
  "imap_move_uids net mailbox uids destination =
     (if uids = [] then io_return ()
      else io_bind (io_lift (uid_set uids)) (\<lambda>txt.
           io_bind (io_lift (validate_imap_text destination)) (\<lambda>_.
           run_session_operation False (net_connect net) MainLane False
             (move_operation net mailbox txt destination))))"

subsection \<open>The trait \<open>ImapTransport\<close>\<close>

record 'w imap_transport =
  tr_list_mailboxes :: "('w, imap_error, imap_mailbox_info list) io"
  tr_select :: "string \<Rightarrow> ('w, imap_error, selected_mailbox) io"
  tr_search_uids :: "string \<Rightarrow> nat \<Rightarrow> string option \<Rightarrow> bool \<Rightarrow> nat \<Rightarrow> ('w, imap_error, nat list) io"
  tr_search_recent_uids :: "string \<Rightarrow> nat \<Rightarrow> nat \<Rightarrow> ('w, imap_error, nat list) io"
  tr_search_uids_since :: "string \<Rightarrow> nat \<Rightarrow> nat \<Rightarrow> nat \<Rightarrow> ('w, imap_error, incremental_page) io"
  tr_fetch_envelopes :: "string \<Rightarrow> nat list \<Rightarrow> ('w, imap_error, imap_envelope list) io"
  tr_fetch_message :: "string \<Rightarrow> nat \<Rightarrow> nat \<Rightarrow> ('w, imap_error, imap_fetched_message) io"
  tr_store_flags :: "string \<Rightarrow> nat list \<Rightarrow> string list \<Rightarrow> string list \<Rightarrow> ('w, imap_error, unit) io"
  tr_move_uids :: "string \<Rightarrow> nat list \<Rightarrow> string \<Rightarrow> ('w, imap_error, unit) io"

definition async_imap_transport ::
    "'n imap_net \<Rightarrow> (string \<Rightarrow> raw_mail option) \<Rightarrow> int \<Rightarrow> 'n imap_world imap_transport" where
  "async_imap_transport net parser now =
     \<lparr>tr_list_mailboxes = imap_list_mailboxes net, tr_select = imap_select net,
      tr_search_uids = imap_search_uids net, tr_search_recent_uids = imap_search_recent_uids net,
      tr_search_uids_since = imap_search_uids_since net,
      tr_fetch_envelopes = imap_fetch_envelopes net parser now,
      tr_fetch_message = imap_fetch_message net,
      tr_store_flags = imap_store_flags net, tr_move_uids = imap_move_uids net\<rparr>"

subsection \<open>Pages cover their interval\<close>

text \<open>A prefix of a sorted list holds everything up to its last element.\<close>

lemma sorted_prefix:
  fixes ys zs :: "nat list"
  assumes "sorted (ys @ zs)" and "ys \<noteq> []"
  shows "{x \<in> set (ys @ zs). x \<le> last ys} = set ys"
proof -
  have l: "last ys \<in> set ys" using assms(2) by simp
  have "x \<le> last ys" if "x \<in> set ys" for x
  proof -
    have "sorted (butlast ys @ [last ys])" using assms by (simp add: sorted_append)
    then have "\<forall>b \<in> set (butlast ys). b \<le> last ys" by (simp add: sorted_append)
    moreover have "x \<in> set (butlast ys @ [last ys])" using that assms(2) by simp
    ultimately show ?thesis by auto
  qed
  moreover have "z \<in> set ys" if "z \<in> set zs" "z \<le> last ys" for z
  proof -
    have "last ys \<le> z" using assms(1) l that by (auto simp: sorted_append)
    with that l show ?thesis by simp
  qed
  ultimately show ?thesis by auto
qed

lemma incremental_page_facts:
  assumes page: "p = incremental_uid_page uids after_uid through_uid limit" and le: "after_uid \<le> through_uid"
  shows "after_uid \<le> ip_high_uid p \<and> ip_high_uid p \<le> through_uid
    \<and> (after_uid < through_uid \<longrightarrow> after_uid < ip_high_uid p)
    \<and> {u \<in> set uids. after_uid < u \<and> u \<le> ip_high_uid p} = set (ip_uids p)
    \<and> length (ip_uids p) \<le> max limit 1"
proof -
  obtain A where A: "A = set (filter (\<lambda>u. after_uid < u \<and> u \<le> through_uid) uids)" by blast
  obtain us where us: "us = sorted_list_of_set A" by blast
  obtain n where n: "n = max limit 1" by blast
  have fin: "finite A" and set_us: "set us = A" and sorted_us: "sorted us" by (simp_all add: A us)
  have p: "ip_uids p = take n us"
    "ip_high_uid p = (if n < length us then (if take n us = [] then after_uid else last (take n us)) else through_uid)"
    unfolding page incremental_uid_page_def Let_def A us n by simp_all
  have len: "length (take n us) \<le> max limit 1" by (simp add: n)
  show ?thesis
  proof (cases "n < length us")
    case True
    then have ne: "take n us \<noteq> []" by (auto simp: n)
    then have high: "ip_high_uid p = last (take n us)" using p True by simp
    have pre: "{x \<in> set us. x \<le> last (take n us)} = set (take n us)"
      using sorted_prefix [of "take n us" "drop n us"] sorted_us ne by simp
    have "last (take n us) \<in> A" using last_in_set [OF ne] set_us by (metis in_set_takeD)
    then have range: "after_uid < last (take n us)" "last (take n us) \<le> through_uid" by (auto simp: A)
    have "{u \<in> set uids. after_uid < u \<and> u \<le> last (take n us)} = {x \<in> set us. x \<le> last (take n us)}"
      using range by (auto simp: set_us A)
    then show ?thesis using range pre len by (simp add: high p)
  next
    case False
    then show ?thesis using p set_us le len by (auto simp: A)
  qed
qed

end
