(* ===== verification/Imap_Provider.thy ===== *)
theory Imap_Provider
  imports Imap_Transport
begin

section \<open>The IMAP and SMTP provider\<close>

text \<open>
  \<open>ImapSmtpProvider\<close> of \<open>providers/imap_smtp.rs\<close> and the trait \<open>MailProvider\<close> of
  \<open>provider.rs\<close>. The provider is generic over its transports and its codec, so these are fields of
  the record \<open>imap_smtp_provider\<close>; the clock, the random and the hashed UUIDs are fields too. Its
  state is the special-use cache beside the world of the transports.
\<close>

subsection \<open>Errors of the other layers\<close>

fun mime_error_text :: "mime_error \<Rightarrow> string" where
  "mime_error_text MessageTooLarge = ''message exceeds the configured MIME size limit''"
| "mime_error_text AttachmentLimitExceeded = ''message attachments exceed the configured MIME limits''"
| "mime_error_text MalformedMessage = ''message could not be parsed as RFC 5322/MIME''"
| "mime_error_text MimeBuild = ''message could not be serialized as RFC 5322/MIME''"
| "mime_error_text MissingHeaders = ''message is missing its header/body separator''"
| "mime_error_text MalformedHeader = ''message header is malformed''"
| "mime_error_text InvalidHeaderEncoding = ''message header is not UTF-8''"
| "mime_error_text MissingBoundary = ''multipart entity has no boundary''"
| "mime_error_text InvalidBase64 = ''invalid base64 body''"
| "mime_error_text InvalidQuotedPrintable = ''invalid quoted-printable body''"
| "mime_error_text HeaderInjection = ''header value contains a newline''"
| "mime_error_text InvalidAddress = ''invalid email address''"
| "mime_error_text InvalidMessageId = ''invalid RFC Message-ID''"

fun mime_provider_error :: "mime_error \<Rightarrow> provider_error" where
  "mime_provider_error MessageTooLarge = ResourceTooLarge ''message''"
| "mime_provider_error AttachmentLimitExceeded = ResourceTooLarge ''message attachment data''"
| "mime_provider_error other = ProviderOther (''MIME processing failed: '' @ mime_error_text other)"

record smtp_error =
  sm_reason :: string
  sm_authentication :: bool

definition smtp_error_text :: "smtp_error \<Rightarrow> string" where
  "smtp_error_text e = ''SMTP delivery failed: '' @ sm_reason e"

definition smtp_provider_error :: "smtp_error \<Rightarrow> provider_error" where
  "smtp_provider_error e =
     (if sm_authentication e then Authentication (smtp_error_text e) else Temporary (smtp_error_text e))"

record smtp_envelope =
  sv_from :: string
  sv_recipients :: "string list"

subsection \<open>The provider and its state\<close>

record 'w imap_smtp_provider =
  ip_account :: account
  ip_discover_special_use :: bool
  ip_archive_mailbox :: "string option"
  ip_trash_mailbox :: "string option"
  ip_imap :: "'w imap_transport"
  ip_smtp :: "smtp_envelope \<Rightarrow> string \<Rightarrow> ('w, smtp_error, unit) io"
  ip_parse :: "string \<Rightarrow> mime_error + parsed_mime"
  ip_build_reply :: "address \<Rightarrow> outgoing_message \<Rightarrow> string option \<Rightarrow> string list \<Rightarrow> mime_error + string"
  ip_uuid5 :: "string \<Rightarrow> string"
  ip_now :: int
  ip_new_uuid :: string

record 'w provider_state =
  ps_archive :: "string option"
  ps_trash :: "string option"
  ps_world :: 'w

definition on_world :: "('w, 'e, 'a) io \<Rightarrow> ('w provider_state, 'e, 'a) io" where
  "on_world m st = (case m (ps_world st) of (r, w) \<Rightarrow> (r, st\<lparr>ps_world := w\<rparr>))"

definition on_imap :: "('w, imap_error, 'a) io \<Rightarrow> ('w provider_state, provider_error, 'a) io" where
  "on_imap m = io_map_err imap_provider_error (on_world m)"

text \<open>Only the transports touch the world: an \<open>on_imap\<close> call is the call of its transport.\<close>

lemma on_imap_Inr [result_simps]:
  "on_imap m st = (Inr x, st') \<longleftrightarrow> (\<exists>w. m (ps_world st) = (Inr x, w) \<and> st' = st\<lparr>ps_world := w\<rparr>)"
  by (auto simp: on_imap_def on_world_def result_simps split: prod.splits)

lemma on_imap_Inl [result_simps]:
  "on_imap m st = (Inl e, st') \<longleftrightarrow>
     (\<exists>e' w. m (ps_world st) = (Inl e', w) \<and> e = imap_provider_error e' \<and> st' = st\<lparr>ps_world := w\<rparr>)"
  by (auto simp: on_imap_def on_world_def result_simps split: prod.splits)

subsection \<open>Special-use mailboxes\<close>

definition special_use_mailbox :: "imap_mailbox_info list \<Rightarrow> mailbox_role \<Rightarrow> string option" where
  "special_use_mailbox mailboxes role =
     map_option mi_name (List.find (\<lambda>m. mi_role m = Some role) mailboxes)"

definition remember_special_use :: "imap_mailbox_info list \<Rightarrow> ('w provider_state, 'e, unit) io" where
  "remember_special_use mailboxes st =
     (Inr (), st\<lparr>ps_archive := special_use_mailbox mailboxes ArchiveRole,
                 ps_trash := special_use_mailbox mailboxes TrashRole\<rparr>)"

fun role_debug :: "mailbox_role \<Rightarrow> string" where
  "role_debug Inbox = ''Inbox''"
| "role_debug Drafts = ''Drafts''"
| "role_debug Sent = ''Sent''"
| "role_debug ArchiveRole = ''Archive''"
| "role_debug TrashRole = ''Trash''"
| "role_debug Spam = ''Spam''"
| "role_debug OtherRole = ''Other''"

definition action_mailbox ::
    "'w imap_smtp_provider \<Rightarrow> mailbox_role \<Rightarrow> string option \<Rightarrow> ('w provider_state, provider_error, string) io" where
  "action_mailbox p role configured st =
     (case (if role = ArchiveRole then ps_archive st else if role = TrashRole then ps_trash st else None) of
        Some mailbox \<Rightarrow> (Inr mailbox, st)
      | None \<Rightarrow>
          io_bind (on_imap (tr_list_mailboxes (ip_imap p))) (\<lambda>mailboxes.
          io_bind (remember_special_use mailboxes) (\<lambda>_.
          io_lift (ok_or (case special_use_mailbox mailboxes role of Some d \<Rightarrow> Some d | None \<Rightarrow> configured)
            (Unsupported (role_debug role @ '' mailbox is not available''))))) st)"

subsection \<open>Identifiers of an action\<close>

text \<open>The loop state: the mailbox and validity all identifiers share so far, and their UIDs.\<close>

definition take_action_id ::
    "string \<Rightarrow> (string \<times> nat) option \<times> nat list \<Rightarrow> string
      \<Rightarrow> provider_error + ((string \<times> nat) option \<times> nat list)" where
  "take_action_id account_id acc i =
     bind_r (provider_native_id account_id i) (\<lambda>native.
     bind_r (map_err imap_provider_error (parse_stable_id native)) (\<lambda>s.
     if (case fst acc of None \<Rightarrow> False | Some (mb, v) \<Rightarrow> mb \<noteq> si_mailbox s \<or> v \<noteq> si_uid_validity s)
     then Inl (Unsupported ''one action cannot span IMAP mailboxes'')
     else Inr (Some (si_mailbox s, si_uid_validity s), snd acc @ [si_uid s])))"

definition validate_ids ::
    "'w imap_smtp_provider \<Rightarrow> string list \<Rightarrow> ('w provider_state, provider_error, string \<times> nat list) io" where
  "validate_ids p message_ids =
     io_bind (io_lift (fold_r (take_action_id (a_id (ip_account p))) (None, []) message_ids)) (\<lambda>(shared, uids).
     io_bind (io_lift (ok_or shared (ProviderOther ''message list is empty''))) (\<lambda>(mailbox, validity).
     io_bind (on_imap (tr_select (ip_imap p) mailbox)) (\<lambda>selected.
     if sel_uid_validity selected \<noteq> validity
     then io_error (Temporary ''mailbox UIDVALIDITY changed; a full mailbox resync is required'')
     else io_return (mailbox, uids))))"

subsection \<open>Summaries\<close>

definition imap_message_summary ::
    "(string \<Rightarrow> string) \<Rightarrow> string \<Rightarrow> string \<Rightarrow> nat \<Rightarrow> imap_envelope \<Rightarrow> message_summary" where
  "imap_message_summary uuid5 account_id mailbox uid_validity e =
     (let native = stable_id_text \<lparr>si_mailbox = mailbox, si_uid_validity = uid_validity, si_uid = en_uid e\<rparr> in
      \<lparr>ms_id = normalized_message_id account_id native, ms_account_id = account_id,
       ms_mailbox_id = Some mailbox,
       ms_thread_id = (case imap_thread_id uuid5 account_id (en_message_id e) (en_references e) (en_in_reply_to e) of
           Some t \<Rightarrow> Some t | None \<Rightarrow> Some (imap_singleton_thread_id uuid5 account_id native)),
       ms_subject = en_subject e, ms_author = en_from e, ms_timestamp = en_timestamp e,
       ms_read = (BACKSLASH # ''Seen'' \<in> set (en_flags e)),
       ms_starred = (BACKSLASH # ''Flagged'' \<in> set (en_flags e)),
       ms_snippet = en_snippet e, ms_has_attachments = en_has_attachments e,
       ms_labels = filter (\<lambda>f. \<not> starts_with f [BACKSLASH]) (en_flags e),
       ms_provider_data = JObj
         [(''inReplyTo'', json_strs (en_in_reply_to e)), (''messageId'', json_opt_str (en_message_id e)),
          (''references'', json_strs (en_references e)), (''uid'', JNum (int (en_uid e)))]\<rparr>)"

subsection \<open>The operations of the provider\<close>

definition provider_list_mailboxes ::
    "'w imap_smtp_provider \<Rightarrow> ('w provider_state, provider_error, mailbox list) io" where
  "provider_list_mailboxes p =
     io_bind (on_imap (tr_list_mailboxes (ip_imap p))) (\<lambda>mailboxes.
     io_bind (remember_special_use mailboxes) (\<lambda>_.
     io_return (map (\<lambda>m. \<lparr>mb_id = mi_name m, mb_account_id = a_id (ip_account p), mb_name = mi_name m,
        mb_role = mi_role m, mb_unread = mi_unread m, mb_total = mi_total m\<rparr>) mailboxes)))"

definition provider_list_messages ::
    "'w imap_smtp_provider \<Rightarrow> message_query \<Rightarrow> ('w provider_state, provider_error, message_page) io" where
  "provider_list_messages p q =
     (let mailbox = (case q_mailbox_id q of None \<Rightarrow> ''INBOX'' | Some m \<Rightarrow> m);
          limit = min (max (q_limit q) 1) 500
      in io_bind (on_imap (tr_select (ip_imap p) mailbox)) (\<lambda>selected.
         io_bind (io_lift (case q_cursor q of
             None \<Rightarrow> Inr 0
           | Some c \<Rightarrow> bind_r (map_err imap_provider_error (parse_uid_cursor c)) (\<lambda>u.
               Inr (if uc_uid_validity u \<noteq> sel_uid_validity selected then 0 else uc_last_uid u)))) (\<lambda>cursor.
         io_bind (on_imap (tr_search_uids (ip_imap p) mailbox cursor (q_search q) (q_unread_only q) (limit + 1)))
           (\<lambda>found.
         let uids = take limit found in
         io_bind (on_imap (tr_fetch_envelopes (ip_imap p) mailbox uids)) (\<lambda>envelopes.
         io_return \<lparr>p_messages = map (imap_message_summary (ip_uuid5 p) (a_id (ip_account p)) mailbox
              (sel_uid_validity selected)) envelopes,
            p_next_cursor = (if limit < length found
              then Some (uid_cursor_text \<lparr>uc_uid_validity = sel_uid_validity selected,
                     uc_last_uid = (if uids = [] then cursor else last uids)\<rparr>)
              else None)\<rparr>)))))"

record uid_sync_plan =
  pl_after_uid :: "nat option"
  pl_through_uid :: nat
  pl_reset :: bool

definition make_uid_sync_plan :: "uid_cursor option \<Rightarrow> selected_mailbox \<Rightarrow> uid_sync_plan" where
  "make_uid_sync_plan previous selected =
     (let same = (case previous of
          Some c \<Rightarrow> if uc_uid_validity c = sel_uid_validity selected then Some c else None | None \<Rightarrow> None)
      in \<lparr>pl_after_uid = map_option uc_last_uid same,
          pl_through_uid = sel_uid_next selected - 1,
          pl_reset = (previous \<noteq> None \<and> same = None)\<rparr>)"

text \<open>The cached messages to check again: those of this mailbox and this validity.\<close>

definition reconciled_ids :: "string \<Rightarrow> string \<Rightarrow> nat \<Rightarrow> string list \<Rightarrow> (nat \<times> string) list" where
  "reconciled_ids account_id mailbox validity ids =
     List.map_filter (\<lambda>i.
       case provider_native_id account_id i of
         Inl _ \<Rightarrow> None
       | Inr native \<Rightarrow>
           (case parse_stable_id native of
              Inl _ \<Rightarrow> None
            | Inr s \<Rightarrow> if si_mailbox s = mailbox \<and> si_uid_validity s = validity
                      then Some (si_uid s, i) else None)) ids"

definition provider_sync_mailbox ::
    "'w imap_smtp_provider \<Rightarrow> mailbox_sync_query \<Rightarrow> ('w provider_state, provider_error, mailbox_sync_page) io" where
  "provider_sync_mailbox p q =
     (let account_id = a_id (ip_account p); mailbox = sq_mailbox_id q;
          limit = min (max (sq_limit q) 1) 500 in
      if sq_account_id q \<noteq> account_id
      then io_error (ProviderOther ''mailbox sync account does not match provider'')
      else
        io_bind (on_imap (tr_select (ip_imap p) mailbox)) (\<lambda>selected.
        io_bind (io_lift (case sq_cursor q of
            None \<Rightarrow> Inr None
          | Some c \<Rightarrow> map_ok Some (map_err imap_provider_error (parse_uid_cursor c)))) (\<lambda>previous.
        let plan = make_uid_sync_plan previous selected in
        io_bind (case pl_after_uid plan of
            Some after_uid \<Rightarrow>
              io_bind (on_imap (tr_search_uids_since (ip_imap p) mailbox after_uid (pl_through_uid plan) limit))
                (\<lambda>page. io_return (ip_uids page, ip_high_uid page))
          | None \<Rightarrow>
              io_bind (on_imap (tr_search_recent_uids (ip_imap p) mailbox (pl_through_uid plan) limit))
                (\<lambda>uids. io_return (uids, pl_through_uid plan))) (\<lambda>(new_uids, high_uid).
        let requested = (if pl_after_uid plan = None then []
              else reconciled_ids account_id mailbox (sel_uid_validity selected) (sq_reconcile_message_ids q));
            fetch_uids = sorted_list_of_set (set new_uids \<union> set (map fst requested)) in
        io_bind (on_imap (tr_fetch_envelopes (ip_imap p) mailbox fetch_uids)) (\<lambda>envelopes.
        io_bind (on_imap (tr_select (ip_imap p) mailbox)) (\<lambda>confirmed.
        if sel_uid_validity confirmed \<noteq> sel_uid_validity selected
        then io_error (Temporary ''mailbox UIDVALIDITY changed during synchronization; retry required'')
        else io_return
          \<lparr>sp_messages = map (imap_message_summary (ip_uuid5 p) account_id mailbox
             (sel_uid_validity selected)) envelopes,
           sp_removed_message_ids = missing_reconciled_message_ids requested (set (map en_uid envelopes)),
           sp_cursor = Some (uid_cursor_text \<lparr>uc_uid_validity = sel_uid_validity selected, uc_last_uid = high_uid\<rparr>),
           sp_reset = pl_reset plan\<rparr>))))))"

definition provider_get_message ::
    "'w imap_smtp_provider \<Rightarrow> string \<Rightarrow> ('w provider_state, provider_error, message) io" where
  "provider_get_message p i =
     io_bind (io_lift (bind_r (provider_native_id (a_id (ip_account p)) i)
       (\<lambda>n. map_err imap_provider_error (parse_stable_id n)))) (\<lambda>s.
     io_bind (on_imap (tr_fetch_message (ip_imap p) (si_mailbox s) (si_uid s) (si_uid_validity s))) (\<lambda>f.
     if fm_uid f \<noteq> si_uid s \<or> fm_uid_validity f \<noteq> si_uid_validity s then io_error ProviderNotFound
     else
       io_bind (io_lift (map_err mime_provider_error (ip_parse p (fm_raw f)))) (\<lambda>parsed.
       io_return
         \<lparr>m_summary =
            \<lparr>ms_id = i, ms_account_id = a_id (ip_account p), ms_mailbox_id = Some (si_mailbox s),
             ms_thread_id = (case imap_thread_id (ip_uuid5 p) (a_id (ip_account p)) (pm_message_id parsed)
                   (pm_references parsed) (pm_in_reply_to parsed) of
                 Some t \<Rightarrow> Some t
               | None \<Rightarrow> Some (imap_singleton_thread_id (ip_uuid5 p) (a_id (ip_account p)) (stable_id_text s))),
             ms_subject = pm_subject parsed, ms_author = pm_from parsed,
             ms_timestamp = (case pm_date parsed of None \<Rightarrow> ip_now p | Some t \<Rightarrow> t),
             ms_read = (BACKSLASH # ''Seen'' \<in> set (fm_flags f)),
             ms_starred = (BACKSLASH # ''Flagged'' \<in> set (fm_flags f)),
             ms_snippet = take_chars 180 (case pm_text_body parsed of None \<Rightarrow> [] | Some t \<Rightarrow> t),
             ms_has_attachments = (pm_attachments parsed \<noteq> []),
             ms_labels = filter (\<lambda>f. \<not> starts_with f [BACKSLASH]) (fm_flags f),
             ms_provider_data = JObj
               [(''inReplyTo'', json_strs (pm_in_reply_to parsed)),
                (''messageId'', json_opt_str (pm_message_id parsed)),
                (''references'', json_strs (pm_references parsed))]\<rparr>,
          m_to = pm_to parsed, m_cc = pm_cc parsed, m_bcc = pm_bcc parsed,
          m_body_text = pm_text_body parsed, m_body_html = pm_html_body parsed,
          m_attachments = map (\<lambda>(k, a). \<lparr>at_id = show_nat k, at_filename = pt_filename a,
              at_content_type = pt_content_type a, at_size = length (pt_data a), at_inline = pt_inline a,
              at_content_id = pt_content_id a\<rparr>)
            (zip [0..<length (pm_attachments parsed)] (pm_attachments parsed))\<rparr>)))"

definition set_flag ::
    "'w imap_smtp_provider \<Rightarrow> string list \<Rightarrow> string \<Rightarrow> bool \<Rightarrow> ('w provider_state, provider_error, unit) io" where
  "set_flag p ids flag add_it =
     io_bind (validate_ids p ids) (\<lambda>(mailbox, uids).
     on_imap (tr_store_flags (ip_imap p) mailbox uids
       (if add_it then [flag] else []) (if add_it then [] else [flag])))"

fun provider_apply_action ::
    "'w imap_smtp_provider \<Rightarrow> mail_action \<Rightarrow> ('w provider_state, provider_error, unit) io" where
  "provider_apply_action p (MarkRead ids seen) = set_flag p ids (BACKSLASH # ''Seen'') seen"
| "provider_apply_action p (Star ids starred) = set_flag p ids (BACKSLASH # ''Flagged'') starred"
| "provider_apply_action p (Archive ids) =
     io_bind (action_mailbox p ArchiveRole (ip_archive_mailbox p)) (\<lambda>destination.
     io_bind (validate_ids p ids) (\<lambda>(mailbox, uids).
     on_imap (tr_move_uids (ip_imap p) mailbox uids destination)))"
| "provider_apply_action p (Trash ids) =
     io_bind (action_mailbox p TrashRole (ip_trash_mailbox p)) (\<lambda>destination.
     io_bind (validate_ids p ids) (\<lambda>(mailbox, uids).
     on_imap (tr_move_uids (ip_imap p) mailbox uids destination)))"
| "provider_apply_action p (Move ids mailbox_id) =
     io_bind (validate_ids p ids) (\<lambda>(mailbox, uids).
     on_imap (tr_move_uids (ip_imap p) mailbox uids mailbox_id))"
| "provider_apply_action p (SetLabels ids labels) =
     io_error (Unsupported ''Gmail labels are not available over generic IMAP'')"

definition reply_context ::
    "'w imap_smtp_provider \<Rightarrow> string option
      \<Rightarrow> ('w provider_state, provider_error, string option \<times> string list) io" where
  "reply_context p in_reply_to =
     (case in_reply_to of
        None \<Rightarrow> io_return (None, [])
      | Some parent_id \<Rightarrow>
          io_bind (provider_get_message p parent_id) (\<lambda>parent.
          let data = ms_provider_data (m_summary parent) in
          io_bind (io_lift (ok_or (Option.bind (json_get ''messageId'' data) json_as_str)
            (ProviderOther ''reply target has no RFC Message-ID''))) (\<lambda>message_id.
          io_return (Some message_id, reply_reference_chain data))))"

definition provider_send ::
    "'w imap_smtp_provider \<Rightarrow> outgoing_message \<Rightarrow> ('w provider_state, provider_error, string) io" where
  "provider_send p msg =
     (if o_account_id msg \<noteq> a_id (ip_account p)
      then io_error (ProviderOther ''outgoing message belongs to another account'')
      else
        let sender = \<lparr>ad_name = a_display_name (ip_account p), ad_address = a_address (ip_account p)\<rparr> in
        io_bind (reply_context p (o_in_reply_to msg)) (\<lambda>(message_id, references).
        io_bind (io_lift (map_err mime_provider_error (ip_build_reply p sender msg message_id references))) (\<lambda>raw.
        io_bind (io_map_err smtp_provider_error (on_world (ip_smtp p
            \<lparr>sv_from = ad_address sender, sv_recipients = map ad_address (o_to msg @ o_cc msg @ o_bcc msg)\<rparr> raw)))
          (\<lambda>_.
        io_return (normalized_message_id (a_id (ip_account p)) (''smtp:'' @ ip_new_uuid p))))))"

definition provider_get_attachment ::
    "'w imap_smtp_provider \<Rightarrow> string \<Rightarrow> string \<Rightarrow> ('w provider_state, provider_error, attachment_data) io" where
  "provider_get_attachment p message_id attachment_id =
     io_bind (io_lift (bind_r (provider_native_id (a_id (ip_account p)) message_id)
       (\<lambda>n. map_err imap_provider_error (parse_stable_id n)))) (\<lambda>s.
     io_bind (io_lift (ok_or (parse_uint u64_max attachment_id) ProviderNotFound)) (\<lambda>index.
     io_bind (on_imap (tr_fetch_message (ip_imap p) (si_mailbox s) (si_uid s) (si_uid_validity s))) (\<lambda>f.
     io_bind (io_lift (map_err mime_provider_error (ip_parse p (fm_raw f)))) (\<lambda>parsed.
     io_lift (if index < length (pm_attachments parsed)
              then let a = pm_attachments parsed ! index in
                Inr \<lparr>ad_filename = pt_filename a, ad_content_type = pt_content_type a, ad_bytes = pt_data a\<rparr>
              else Inl ProviderNotFound)))))"

end
