(* ===== verification/Imap_Sync.thy ===== *)
theory Imap_Sync
  imports Imap_Provider
begin

section \<open>IMAP synchronisation against a changing server\<close>

text \<open>
  Other clients change a mailbox between two commands, so the promises of a server are stated about
  a view of its mailboxes that every command may move along the relation \<open>evolves\<close>: while the
  UIDVALIDITY of a mailbox stays, its next UID only grows and no message appears below it. Under
  these rules of RFC 3501 a synchronisation misses no message and reports none as gone that is there.
\<close>

subsection \<open>What the server promises\<close>

record mailbox_view =
  vw_validity :: nat
  vw_next :: nat
  vw_uids :: "nat set"

definition mailbox_evolves :: "mailbox_view \<Rightarrow> mailbox_view \<Rightarrow> bool" where
  "mailbox_evolves b b' \<longleftrightarrow> vw_validity b \<le> vw_validity b'
     \<and> (vw_validity b' = vw_validity b \<longrightarrow>
          vw_next b \<le> vw_next b' \<and> (\<forall>u \<in> vw_uids b'. u < vw_next b \<longrightarrow> u \<in> vw_uids b))"

lemma mailbox_evolves_refl [simp]: "mailbox_evolves b b"
  by (simp add: mailbox_evolves_def)

lemma mailbox_evolves_trans:
  "mailbox_evolves a b \<Longrightarrow> mailbox_evolves b c \<Longrightarrow> mailbox_evolves a c"
  unfolding mailbox_evolves_def by (auto dest: le_antisym)

definition evolves :: "('n \<Rightarrow> string \<Rightarrow> mailbox_view) \<Rightarrow> 'n \<Rightarrow> 'n \<Rightarrow> bool" where
  "evolves view n n' \<longleftrightarrow> (\<forall>mb. mailbox_evolves (view n mb) (view n' mb))"

lemma evolves_refl [simp]: "evolves view n n"
  by (simp add: evolves_def)

lemma evolves_trans: "evolves view a b \<Longrightarrow> evolves view b c \<Longrightarrow> evolves view a c"
  using mailbox_evolves_trans by (fastforce simp: evolves_def)

definition server_ok :: "'n imap_net \<Rightarrow> ('n \<Rightarrow> string \<Rightarrow> mailbox_view) \<Rightarrow> ('n \<Rightarrow> string) \<Rightarrow> bool" where
  "server_ok net view sel \<longleftrightarrow>
     io_guarantees (evolves view) (net_connect net)
   \<and> (\<forall>mb. io_guarantees (evolves view) (net_select net mb))
   \<and> (\<forall>t. io_guarantees (evolves view) (net_uid_search net t))
   \<and> (\<forall>t q. io_guarantees (evolves view) (net_uid_fetch net t q))
   \<and> (\<forall>mb n a n'. net_select net mb n = (Inr a, n') \<longrightarrow> sel n' = mb
        \<and> (\<forall>v. sa_uid_validity a = Some v \<longrightarrow> v = vw_validity (view n' mb))
        \<and> (\<forall>u. sa_uid_next a = Some u \<longrightarrow> u \<le> vw_next (view n' mb)))
   \<and> (\<forall>a b n us n'. net_uid_search net (uid_range_text a b) n = (Inr us, n') \<longrightarrow> sel n' = sel n
        \<and> (vw_validity (view n' (sel n)) = vw_validity (view n (sel n)) \<longrightarrow>
             (\<forall>u \<in> vw_uids (view n' (sel n)). a \<le> u \<and> u \<le> b \<and> u < vw_next (view n (sel n)) \<longrightarrow> u \<in> set us)))
   \<and> (\<forall>us t q n fs n'. uid_set us = Inr t \<and> net_uid_fetch net t q n = (Inr fs, n') \<longrightarrow>
        (vw_validity (view n' (sel n)) = vw_validity (view n (sel n)) \<longrightarrow>
           (\<forall>u \<in> vw_uids (view n' (sel n)). u \<in> set us \<and> u < vw_next (view n (sel n)) \<longrightarrow>
              Some u \<in> rf_uid ` set fs)))"

lemma server_okD:
  assumes "server_ok net view sel"
  shows "io_guarantees (evolves view) (net_connect net)"
    "net_select net mb n = (r, n') \<Longrightarrow> evolves view n n'"
    "net_uid_search net t n = (r1, n') \<Longrightarrow> evolves view n n'"
    "net_uid_fetch net t q n = (r2, n') \<Longrightarrow> evolves view n n'"
    "net_select net mb n = (Inr a, n') \<Longrightarrow> sel n' = mb
       \<and> (\<forall>v. sa_uid_validity a = Some v \<longrightarrow> v = vw_validity (view n' mb))
       \<and> (\<forall>u. sa_uid_next a = Some u \<longrightarrow> u \<le> vw_next (view n' mb))"
    "net_uid_search net (uid_range_text lo hi) n = (Inr us, n') \<Longrightarrow> sel n' = sel n
       \<and> (vw_validity (view n' (sel n)) = vw_validity (view n (sel n)) \<longrightarrow>
            (\<forall>u \<in> vw_uids (view n' (sel n)). lo \<le> u \<and> u \<le> hi \<and> u < vw_next (view n (sel n)) \<longrightarrow> u \<in> set us))"
    "uid_set us' = Inr t' \<Longrightarrow> net_uid_fetch net t' q n = (Inr fs, n') \<Longrightarrow>
       vw_validity (view n' (sel n)) = vw_validity (view n (sel n)) \<Longrightarrow>
       u \<in> vw_uids (view n' (sel n)) \<Longrightarrow> u \<in> set us' \<Longrightarrow> u < vw_next (view n (sel n)) \<Longrightarrow>
       Some u \<in> rf_uid ` set fs"
  using assms unfolding server_ok_def io_guarantees_def by (metis snd_conv)+

subsection \<open>Sessions move the world along the relation\<close>

lemma lock_session_evolves:
  assumes "io_guarantees (evolves view) connect" and "lock_session connect l w = (r, w')"
  shows "evolves view (iw_net w) (iw_net w')"
  using assms
  by (auto simp: lock_session_def on_net_def io_guarantees_def set_open_def
      split: if_splits prod.splits sum.splits) (metis snd_conv)+

lemma iw_net_set_open [simp]: "iw_net (set_open l b w) = iw_net w"
  by (simp add: set_open_def)

lemma on_net_eq: "on_net m w = (r, w') \<longleftrightarrow> (\<exists>n. m (iw_net w) = (r, n) \<and> w' = w\<lparr>iw_net := n\<rparr>)"
  by (auto simp: on_net_def split: prod.splits)

text \<open>A run that succeeds is a successful call of its operation, from a later world.\<close>

lemma run_session_evolves:
  assumes "io_guarantees (evolves view) connect" and "io_guarantees (evolves view) oper"
  shows "run_session_operation b connect l rs oper w = (Inr x, w') \<Longrightarrow>
    \<exists>n. evolves view (iw_net w) n \<and> oper n = (Inr x, iw_net w')"
using assms proof (induction b connect l rs oper w rule: run_session_operation.induct)
  case (1 b connect l rs oper w)
  note run0 = 1(3) [unfolded run_session_operation.simps [of b]]
  obtain rl w1 where lock: "lock_session connect l w = (rl, w1)" by (cases "lock_session connect l w")
  have step1: "evolves view (iw_net w) (iw_net w1)" by (rule lock_session_evolves [OF 1(4) lock])
  show ?case
  proof (cases rl)
    case (Inl e)
    then have act: "session_error_action e rs b = InvalidateAndRetry"
      and run: "run_session_operation True connect l rs oper w1 = (Inr x, w')"
      using run0 lock by (simp_all split: if_splits)
    from 1(1) [OF lock [symmetric] Inl act run 1(4,5)]
    obtain n where "evolves view (iw_net w1) n" "oper n = (Inr x, iw_net w')" by blast
    with evolves_trans [OF step1] show ?thesis by blast
  next
    case (Inr u)
    obtain ro w2 where op: "on_net oper w1 = (ro, w2)" by (cases "on_net oper w1")
    then have net: "oper (iw_net w1) = (ro, iw_net w2)" by (auto simp: on_net_eq)
    then have step2: "evolves view (iw_net w1) (iw_net w2)" using 1(5) by (metis io_guarantees_def snd_conv)
    show ?thesis
    proof (cases ro)
      case (Inr y)
      with run0 lock \<open>rl = Inr u\<close> op have "y = x" "w' = w2" by simp_all
      with step1 net Inr show ?thesis by blast
    next
      case (Inl e)
      with run0 lock \<open>rl = Inr u\<close> op
      have act: "session_error_action e rs b = InvalidateAndRetry"
        and run: "run_session_operation True connect l rs oper (set_open l False w2) = (Inr x, w')"
        by (simp_all split: session_action.splits)
      from 1(2) [OF lock [symmetric] \<open>rl = Inr u\<close> op [symmetric] Inl act run 1(4,5)]
      obtain n where "evolves view (iw_net w2) n" "oper n = (Inr x, iw_net w')" by auto
      with evolves_trans [OF evolves_trans [OF step1 step2]] show ?thesis by blast
    qed
  qed
qed

lemma select_mailbox_Inr:
  "select_mailbox net mb n = (Inr s, n') \<longleftrightarrow>
     validate_imap_text mb = Inr () \<and> (\<exists>a. net_select net mb n = (Inr a, n')
       \<and> sa_uid_validity a = Some (sel_uid_validity s)
       \<and> sel_uid_next s = (case sa_uid_next a of None \<Rightarrow> 1 | Some u \<Rightarrow> u)
       \<and> sel_highest_mod_sequence s = sa_highest_modseq a)"
  by (auto simp: select_mailbox_def command_def result_simps)

lemma evolves_rel: "reflp (evolves view)" "transp (evolves view)"
  by (auto intro!: reflpI transpI intro: evolves_trans)

lemmas io_guarantees_evolves = io_guarantees_bind [OF evolves_rel(2)]

lemma io_guarantees_simple [simp]:
  "io_guarantees (evolves view) (io_return x)" "io_guarantees (evolves view) (io_error e)"
  "io_guarantees (evolves view) (io_lift r)"
  by (rule io_guarantees_pure [OF evolves_rel(1)])+

lemma io_guarantees_command [simp]:
  "io_guarantees R (command m) \<longleftrightarrow> io_guarantees R m"
  by (simp add: command_def)

lemma select_mailbox_guarantees:
  assumes "server_ok net view sel"
  shows "io_guarantees (evolves view) (select_mailbox net mb)"
  unfolding select_mailbox_def
  by (intro io_guarantees_evolves) (use assms in \<open>simp_all add: server_ok_def\<close>)

lemma search_guarantees:
  assumes "server_ok net view sel"
  shows "io_guarantees (evolves view) (command (net_uid_search net t))"
    "io_guarantees (evolves view) (command (net_uid_fetch net t' q))"
    "io_guarantees (evolves view) (net_connect net)"
  using assms by (simp_all add: server_ok_def)

lemma search_in_windows_guarantees:
  assumes "server_ok net view sel"
  shows "io_guarantees (evolves view) (search_in_windows net limit uids ws)"
proof (induction ws arbitrary: uids)
  case (Cons w ws)
  then show ?case
    by (cases w) (auto simp: Let_def intro!: io_guarantees_evolves search_guarantees [OF assms])
qed simp

subsection \<open>What a successful call tells\<close>

lemma imap_select_Inr:
  assumes ok: "server_ok net view sel" and run: "imap_select net mb w = (Inr s, w')"
  shows "evolves view (iw_net w) (iw_net w')
    \<and> sel_uid_validity s = vw_validity (view (iw_net w') mb)
    \<and> (\<forall>u. 0 < u \<and> u \<le> sel_uid_next s - 1 \<longrightarrow> u < vw_next (view (iw_net w') mb))"
proof -
  obtain n where n: "evolves view (iw_net w) n" "select_mailbox net mb n = (Inr s, iw_net w')"
    using run_session_evolves [OF search_guarantees(3) [OF ok] select_mailbox_guarantees [OF ok]] run
    unfolding imap_select_def by blast
  then obtain a where a: "net_select net mb n = (Inr a, iw_net w')"
    "sa_uid_validity a = Some (sel_uid_validity s)"
    "sel_uid_next s = (case sa_uid_next a of None \<Rightarrow> 1 | Some u \<Rightarrow> u)"
    by (auto simp: select_mailbox_Inr)
  have "evolves view (iw_net w) (iw_net w')" using n(1) server_okD(2) [OF ok a(1)] by (rule evolves_trans)
  moreover have "\<forall>u. 0 < u \<and> u \<le> sel_uid_next s - 1 \<longrightarrow> u < vw_next (view (iw_net w') mb)"
    using server_okD(5) [OF ok a(1)] a(3) by (cases "sa_uid_next a") auto
  ultimately show ?thesis using server_okD(5) [OF ok a(1)] a(2) by auto
qed

text \<open>Between two worlds of equal validity the mailbox only grew above and shrank below.\<close>

lemma evolves_same:
  assumes "evolves view a b" and "evolves view b c" and "vw_validity (view c mb) = vw_validity (view a mb)"
  shows "vw_validity (view b mb) = vw_validity (view a mb)"
    and "vw_next (view a mb) \<le> vw_next (view b mb)"
    and "u \<in> vw_uids (view c mb) \<Longrightarrow> u < vw_next (view b mb) \<Longrightarrow> u \<in> vw_uids (view b mb)"
proof -
  have ab: "mailbox_evolves (view a mb) (view b mb)" and bc: "mailbox_evolves (view b mb) (view c mb)"
    using assms(1,2) by (simp_all add: evolves_def)
  show same: "vw_validity (view b mb) = vw_validity (view a mb)"
    using ab bc assms(3) by (auto simp: mailbox_evolves_def)
  show "vw_next (view a mb) \<le> vw_next (view b mb)" using ab same by (simp add: mailbox_evolves_def)
  show "u \<in> vw_uids (view c mb) \<Longrightarrow> u < vw_next (view b mb) \<Longrightarrow> u \<in> vw_uids (view b mb)"
    using bc same assms(3) by (simp add: mailbox_evolves_def)
qed

lemma list_all2_left':
  assumes "list_all2 P xs ys" "x \<in> set xs"
  shows "\<exists>y \<in> set ys. P x y"
  using assms by (induction rule: list_all2_induct) auto

lemma imap_fetch_envelopes_Inr:
  assumes ok: "server_ok net view sel" and run: "imap_fetch_envelopes net parser now mb uids w = (Inr es, w')"
  shows "evolves view (iw_net w) (iw_net w')"
    and "vw_validity (view (iw_net w') mb) = vw_validity (view (iw_net w) mb) \<Longrightarrow>
      u \<in> set uids \<Longrightarrow> u \<in> vw_uids (view (iw_net w') mb) \<Longrightarrow> u < vw_next (view (iw_net w) mb) \<Longrightarrow>
      u \<in> en_uid ` set es"
proof -
  have "evolves view (iw_net w) (iw_net w') \<and>
    (vw_validity (view (iw_net w') mb) = vw_validity (view (iw_net w) mb) \<longrightarrow>
      u \<in> set uids \<longrightarrow> u \<in> vw_uids (view (iw_net w') mb) \<longrightarrow> u < vw_next (view (iw_net w) mb) \<longrightarrow>
      u \<in> en_uid ` set es)"
  proof (cases "uids = []")
    case True
    with run show ?thesis by (simp add: imap_fetch_envelopes_def result_simps)
  next
    case False
    with run obtain uids_text fs es' where uids_text: "uid_set uids = Inr uids_text"
      and fetch: "run_session_operation False (net_connect net) MainLane True
        (io_bind (select_mailbox net mb) (\<lambda>_. command (net_uid_fetch net uids_text IMAP_SUMMARY_FETCH))) w = (Inr fs, w')"
      and es': "collect_r (envelope_of parser now) fs = Inr es'" and es: "es = sort_envelopes_newest_first es'"
      by (auto simp: imap_fetch_envelopes_def result_simps)
    have "io_guarantees (evolves view)
        (io_bind (select_mailbox net mb) (\<lambda>_. command (net_uid_fetch net uids_text IMAP_SUMMARY_FETCH)))"
      by (intro io_guarantees_evolves select_mailbox_guarantees [OF ok] search_guarantees [OF ok])
    from run_session_evolves [OF search_guarantees(3) [OF ok] this fetch]
    obtain n n1 s a where n: "evolves view (iw_net w) n" and a: "net_select net mb n = (Inr a, n1)"
      and f: "net_uid_fetch net uids_text IMAP_SUMMARY_FETCH n1 = (Inr fs, iw_net w')"
      by (auto simp: result_simps select_mailbox_Inr command_def)
    have n1: "evolves view (iw_net w) n1" using n server_okD(2) [OF ok a] by (rule evolves_trans)
    have n2: "evolves view n1 (iw_net w')" by (rule server_okD(4) [OF ok f])
    have sel: "sel n1 = mb" using server_okD(5) [OF ok a] by simp
    have "u \<in> en_uid ` set es" if v: "vw_validity (view (iw_net w') mb) = vw_validity (view (iw_net w) mb)"
      and u: "u \<in> set uids" "u \<in> vw_uids (view (iw_net w') mb)" "u < vw_next (view (iw_net w) mb)"
    proof -
      note same = evolves_same [OF n1 n2 v]
      have "Some u \<in> rf_uid ` set fs"
        using server_okD(7) [OF ok uids_text f, of u] same(1,2) v u by (simp add: sel)
      then obtain f where f: "f \<in> set fs" "rf_uid f = Some u" by force
      obtain e where e: "e \<in> set es'" "envelope_of parser now f = Inr e"
        using list_all2_left' [OF collect_r_Inr_list_all2 [OF es'] f(1)] by blast
      have "en_uid e = u" using e(2) f(2) by (auto simp: envelope_of_def Let_def)
      then show ?thesis using e(1) by (force simp: es sort_envelopes_newest_first_def)
    qed
    then show ?thesis using evolves_trans [OF n1 n2] by blast
  qed
  then show "evolves view (iw_net w) (iw_net w')"
    and "vw_validity (view (iw_net w') mb) = vw_validity (view (iw_net w) mb) \<Longrightarrow>
      u \<in> set uids \<Longrightarrow> u \<in> vw_uids (view (iw_net w') mb) \<Longrightarrow> u < vw_next (view (iw_net w) mb) \<Longrightarrow>
      u \<in> en_uid ` set es" by blast+
qed

lemma incremental_range_Inr:
  assumes "incremental_uid_search_range after_uid through_uid = Inr (Some (t, covered))"
  shows "t = uid_range_text (after_uid + 1) covered" "after_uid < covered" "covered \<le> through_uid"
  using assms by (auto simp: incremental_uid_search_range_def Let_def SEARCH_SPAN_def split: if_splits)

lemma imap_search_uids_since_Inr:
  assumes ok: "server_ok net view sel"
    and run: "imap_search_uids_since net mb after_uid through_uid limit w = (Inr p, w')"
  shows "evolves view (iw_net w) (iw_net w')"
    and "after_uid \<le> ip_high_uid p" and "ip_high_uid p \<le> max after_uid through_uid"
    and "vw_validity (view (iw_net w') mb) = vw_validity (view (iw_net w) mb) \<Longrightarrow>
      (\<forall>u. 0 < u \<and> u \<le> through_uid \<longrightarrow> u < vw_next (view (iw_net w) mb)) \<Longrightarrow>
      u \<in> vw_uids (view (iw_net w') mb) \<Longrightarrow> after_uid < u \<Longrightarrow> u \<le> ip_high_uid p \<Longrightarrow> u \<in> set (ip_uids p)"
proof -
  have "evolves view (iw_net w) (iw_net w') \<and> after_uid \<le> ip_high_uid p \<and> ip_high_uid p \<le> max after_uid through_uid
    \<and> (vw_validity (view (iw_net w') mb) = vw_validity (view (iw_net w) mb) \<longrightarrow>
      (\<forall>u. 0 < u \<and> u \<le> through_uid \<longrightarrow> u < vw_next (view (iw_net w) mb)) \<longrightarrow>
      u \<in> vw_uids (view (iw_net w') mb) \<longrightarrow> after_uid < u \<longrightarrow> u \<le> ip_high_uid p \<longrightarrow> u \<in> set (ip_uids p))"
  proof (cases "incremental_uid_search_range after_uid through_uid = Inr None")
    case True
    with run show ?thesis by (auto simp: imap_search_uids_since_def result_simps)
  next
    case False
    with run obtain t covered us where range: "incremental_uid_search_range after_uid through_uid = Inr (Some (t, covered))"
      and search: "run_session_operation False (net_connect net) MainLane True
        (io_bind (select_mailbox net mb) (\<lambda>_. command (net_uid_search net t))) w = (Inr us, w')"
      and p: "p = incremental_uid_page us after_uid covered limit"
      by (auto simp: imap_search_uids_since_def result_simps split: option.splits)
    note t = incremental_range_Inr [OF range]
    have facts: "after_uid \<le> ip_high_uid p" "ip_high_uid p \<le> covered"
      "{u \<in> set us. after_uid < u \<and> u \<le> ip_high_uid p} = set (ip_uids p)"
      using incremental_page_facts [OF p] t(2) by auto
    have "io_guarantees (evolves view) (io_bind (select_mailbox net mb) (\<lambda>_. command (net_uid_search net t)))"
      by (intro io_guarantees_evolves select_mailbox_guarantees [OF ok] search_guarantees [OF ok])
    from run_session_evolves [OF search_guarantees(3) [OF ok] this search]
    obtain n n1 a where n: "evolves view (iw_net w) n" and a: "net_select net mb n = (Inr a, n1)"
      and f: "net_uid_search net (uid_range_text (after_uid + 1) covered) n1 = (Inr us, iw_net w')"
      by (auto simp: result_simps select_mailbox_Inr command_def t(1))
    have n1: "evolves view (iw_net w) n1" using n server_okD(2) [OF ok a] by (rule evolves_trans)
    have n2: "evolves view n1 (iw_net w')" by (rule server_okD(3) [OF ok f])
    have sel: "sel n1 = mb" using server_okD(5) [OF ok a] by simp
    have "u \<in> set (ip_uids p)" if v: "vw_validity (view (iw_net w') mb) = vw_validity (view (iw_net w) mb)"
      and below: "\<forall>u. 0 < u \<and> u \<le> through_uid \<longrightarrow> u < vw_next (view (iw_net w) mb)"
      and u: "u \<in> vw_uids (view (iw_net w') mb)" "after_uid < u" "u \<le> ip_high_uid p"
    proof -
      note same = evolves_same [OF n1 n2 v]
      have "u < vw_next (view (iw_net w) mb)" using below u facts(2) t(3) by simp
      then have "u < vw_next (view n1 mb)" using same(2) by (rule less_le_trans)
      then have "u \<in> set us" using server_okD(6) [OF ok f] same(1) v u facts(2) by (auto simp: sel)
      then show ?thesis using facts(3) u by auto
    qed
    then show ?thesis using evolves_trans [OF n1 n2] facts t(3) by auto
  qed
  then show "evolves view (iw_net w) (iw_net w')"
    and "after_uid \<le> ip_high_uid p" and "ip_high_uid p \<le> max after_uid through_uid"
    and "vw_validity (view (iw_net w') mb) = vw_validity (view (iw_net w) mb) \<Longrightarrow>
      (\<forall>u. 0 < u \<and> u \<le> through_uid \<longrightarrow> u < vw_next (view (iw_net w) mb)) \<Longrightarrow>
      u \<in> vw_uids (view (iw_net w') mb) \<Longrightarrow> after_uid < u \<Longrightarrow> u \<le> ip_high_uid p \<Longrightarrow> u \<in> set (ip_uids p)"
    by blast+
qed

subsection \<open>A synchronisation misses nothing\<close>

definition uid_message_id :: "string \<Rightarrow> string \<Rightarrow> nat \<Rightarrow> nat \<Rightarrow> string" where
  "uid_message_id account_id mailbox validity uid =
     normalized_message_id account_id
       (stable_id_text \<lparr>si_mailbox = mailbox, si_uid_validity = validity, si_uid = uid\<rparr>)"

lemma reconciled_ids_D:
  assumes "(u, i) \<in> set (reconciled_ids account_id mailbox validity ids)"
  shows "i \<in> set ids \<and> 0 < u \<and> (\<exists>native s. provider_native_id account_id i = Inr native
     \<and> parse_stable_id native = Inr s \<and> si_mailbox s = mailbox \<and> si_uid_validity s = validity \<and> si_uid s = u)"
  using assms
proof (induction ids)
  case (Cons j ids)
  then show ?case
    by (auto simp: reconciled_ids_def map_filter_simps parse_stable_id_uid_pos split: sum.splits if_splits)
qed (simp add: reconciled_ids_def map_filter_simps)

text \<open>The steps of an incremental synchronisation, each with its world.\<close>

lemma sync_incremental_steps:
  assumes tr: "ip_imap p = async_imap_transport net parser now"
    and cur: "sq_cursor q = Some txt" "parse_uid_cursor txt = Inr c"
    and run: "provider_sync_mailbox p q st = (Inr page, st')" and inc: "\<not> sp_reset page"
  shows "\<exists>s w1 ipg w2 es w3 s2. imap_select net (sq_mailbox_id q) (ps_world st) = (Inr s, w1)
    \<and> imap_search_uids_since net (sq_mailbox_id q) (uc_last_uid c) (sel_uid_next s - 1)
        (min (max (sq_limit q) 1) 500) w1 = (Inr ipg, w2)
    \<and> imap_fetch_envelopes net parser now (sq_mailbox_id q)
        (sorted_list_of_set (set (ip_uids ipg) \<union> set (map fst
          (reconciled_ids (a_id (ip_account p)) (sq_mailbox_id q) (sel_uid_validity s) (sq_reconcile_message_ids q)))))
        w2 = (Inr es, w3)
    \<and> imap_select net (sq_mailbox_id q) w3 = (Inr s2, ps_world st')
    \<and> sel_uid_validity s2 = sel_uid_validity s \<and> uc_uid_validity c = sel_uid_validity s
    \<and> sp_messages page = map (imap_message_summary (ip_uuid5 p) (a_id (ip_account p)) (sq_mailbox_id q)
        (sel_uid_validity s)) es
    \<and> sp_removed_message_ids page = missing_reconciled_message_ids
        (reconciled_ids (a_id (ip_account p)) (sq_mailbox_id q) (sel_uid_validity s) (sq_reconcile_message_ids q))
        (set (map en_uid es))
    \<and> sp_cursor page = Some (uid_cursor_text \<lparr>uc_uid_validity = sel_uid_validity s, uc_last_uid = ip_high_uid ipg\<rparr>)"
  using run inc cur
  by (auto simp: provider_sync_mailbox_def tr async_imap_transport_def Let_def result_simps make_uid_sync_plan_def
      split: if_splits)

text \<open>C10: a synchronisation misses no mail, whatever other clients do meanwhile. When it continues
  from a cursor of the same mailbox generation, the new cursor is not older, every message that is
  in the mailbox at the end and lies between the two cursors has its summary in the page, and a
  cached message whose UID was assigned when the run began is reported as removed only when it is gone. The server is any that follows the
  UID rules (\<open>server_ok\<close>), the connection may be lost and reopened in between.\<close>

theorem sync_misses_nothing:
  assumes ok: "server_ok net view sel"
    and tr: "ip_imap p = async_imap_transport net parser now"
    and cur: "sq_cursor q = Some old" "parse_uid_cursor old = Inr c"
    and run: "provider_sync_mailbox p q st = (Inr page, st')" and inc: "\<not> sp_reset page"
  shows "\<exists>high. uc_last_uid c \<le> high
    \<and> sp_cursor page = Some (uid_cursor_text \<lparr>uc_uid_validity = uc_uid_validity c, uc_last_uid = high\<rparr>)
    \<and> (\<forall>u \<in> vw_uids (view (iw_net (ps_world st')) (sq_mailbox_id q)). uc_last_uid c < u \<and> u \<le> high \<longrightarrow>
         uid_message_id (a_id (ip_account p)) (sq_mailbox_id q) (uc_uid_validity c) u \<in> ms_id ` set (sp_messages page))
    \<and> (\<forall>i \<in> set (sp_removed_message_ids page). \<exists>native s. provider_native_id (a_id (ip_account p)) i = Inr native
         \<and> parse_stable_id native = Inr s \<and> si_mailbox s = sq_mailbox_id q
         \<and> (vw_validity (view (iw_net (ps_world st)) (sq_mailbox_id q)) = uc_uid_validity c
             \<and> si_uid s < vw_next (view (iw_net (ps_world st)) (sq_mailbox_id q)) \<longrightarrow>
             si_uid s \<notin> vw_uids (view (iw_net (ps_world st')) (sq_mailbox_id q))))"
proof -
  let ?mb = "sq_mailbox_id q" and ?fin = "iw_net (ps_world st')" and ?start = "iw_net (ps_world st)"
  obtain s w1 ipg w2 es w3 s2 where
      sel1: "imap_select net ?mb (ps_world st) = (Inr s, w1)"
    and search: "imap_search_uids_since net ?mb (uc_last_uid c) (sel_uid_next s - 1)
        (min (max (sq_limit q) 1) 500) w1 = (Inr ipg, w2)"
    and fetch: "imap_fetch_envelopes net parser now ?mb
        (sorted_list_of_set (set (ip_uids ipg) \<union> set (map fst
          (reconciled_ids (a_id (ip_account p)) ?mb (sel_uid_validity s) (sq_reconcile_message_ids q)))))
        w2 = (Inr es, w3)"
    and sel2: "imap_select net ?mb w3 = (Inr s2, ps_world st')"
    and v: "sel_uid_validity s2 = sel_uid_validity s" "uc_uid_validity c = sel_uid_validity s"
    and msgs: "sp_messages page = map (imap_message_summary (ip_uuid5 p) (a_id (ip_account p)) ?mb (sel_uid_validity s)) es"
    and gone: "sp_removed_message_ids page = missing_reconciled_message_ids
        (reconciled_ids (a_id (ip_account p)) ?mb (sel_uid_validity s) (sq_reconcile_message_ids q)) (set (map en_uid es))"
    and cursor: "sp_cursor page = Some (uid_cursor_text \<lparr>uc_uid_validity = sel_uid_validity s, uc_last_uid = ip_high_uid ipg\<rparr>)"
    using sync_incremental_steps [OF tr cur run inc] by blast
  have s0: "evolves view ?start (iw_net w1)" using imap_select_Inr [OF ok sel1] by simp
  have s1: "sel_uid_validity s = vw_validity (view (iw_net w1) ?mb)"
      "\<forall>u. 0 < u \<and> u \<le> sel_uid_next s - 1 \<longrightarrow> u < vw_next (view (iw_net w1) ?mb)"
    using imap_select_Inr [OF ok sel1] by auto
  have s2: "evolves view (iw_net w3) ?fin" "sel_uid_validity s2 = vw_validity (view ?fin ?mb)"
    using imap_select_Inr [OF ok sel2] by auto
  note e12 = imap_search_uids_since_Inr(1) [OF ok search] and e23 = imap_fetch_envelopes_Inr(1) [OF ok fetch]
  have e13: "evolves view (iw_net w1) (iw_net w3)" using e12 e23 by (rule evolves_trans)
  have same: "vw_validity (view ?fin ?mb) = vw_validity (view (iw_net w1) ?mb)" using s1(1) s2(2) v by simp
  note at3 = evolves_same [OF e13 s2(1) same]
  note at2 = evolves_same [OF e12 e23 at3(1)]
  have high: "uc_last_uid c \<le> ip_high_uid ipg" "ip_high_uid ipg \<le> max (uc_last_uid c) (sel_uid_next s - 1)"
    using imap_search_uids_since_Inr(2,3) [OF ok search] by simp_all
  have returned: "u \<in> en_uid ` set es"
    if "u \<in> vw_uids (view ?fin ?mb)" "0 < u" "u < vw_next (view (iw_net w1) ?mb)"
      "u \<in> set (ip_uids ipg) \<union> set (map fst
          (reconciled_ids (a_id (ip_account p)) ?mb (sel_uid_validity s) (sq_reconcile_message_ids q)))" for u
  proof -
    have "u < vw_next (view (iw_net w3) ?mb)" "u < vw_next (view (iw_net w2) ?mb)"
      using that(3) at2(2) at3(2) by simp_all
    then show ?thesis
      using imap_fetch_envelopes_Inr(2) [OF ok fetch, of u] that(1,4) at2(1) at3(1,3) by simp
  qed
  have complete: "uid_message_id (a_id (ip_account p)) ?mb (uc_uid_validity c) u \<in> ms_id ` set (sp_messages page)"
    if u: "u \<in> vw_uids (view ?fin ?mb)" "uc_last_uid c < u" "u \<le> ip_high_uid ipg" for u
  proof -
    have through: "0 < u" "u \<le> sel_uid_next s - 1" using u high by auto
    then have next1: "u < vw_next (view (iw_net w1) ?mb)" using s1(2) by blast
    have "u \<in> vw_uids (view (iw_net w2) ?mb)"
      using evolves_same(3) [OF e12 evolves_trans [OF e23 s2(1)] same u(1)] at2(2) next1 by simp
    then have "u \<in> set (ip_uids ipg)"
      using imap_search_uids_since_Inr(4) [OF ok search at2(1) s1(2)] u by simp
    then have "u \<in> en_uid ` set es" using returned [OF u(1) through(1) next1] by simp
    then show ?thesis
      by (force simp: msgs imap_message_summary_def Let_def uid_message_id_def v(2))
  qed
  have really_gone: "\<exists>native t. provider_native_id (a_id (ip_account p)) i = Inr native
         \<and> parse_stable_id native = Inr t \<and> si_mailbox t = ?mb
         \<and> (vw_validity (view ?start ?mb) = uc_uid_validity c \<and> si_uid t < vw_next (view ?start ?mb) \<longrightarrow>
             si_uid t \<notin> vw_uids (view ?fin ?mb))"
    if i: "i \<in> set (sp_removed_message_ids page)" for i
  proof -
    from i obtain u where u: "(u, i) \<in> set (reconciled_ids (a_id (ip_account p)) ?mb (sel_uid_validity s) (sq_reconcile_message_ids q))"
      "u \<notin> en_uid ` set es"
      by (auto simp: gone missing_reconciled_message_ids_def)
    have pos: "0 < u" using reconciled_ids_D [OF u(1)] by simp
    have "u \<notin> vw_uids (view ?fin ?mb)"
      if "vw_validity (view ?start ?mb) = uc_uid_validity c" "u < vw_next (view ?start ?mb)"
    proof -
      have "vw_next (view ?start ?mb) \<le> vw_next (view (iw_net w1) ?mb)"
        using s0 that(1) v(2) s1(1) by (simp add: evolves_def mailbox_evolves_def)
      with that(2) have "u < vw_next (view (iw_net w1) ?mb)" by simp
      with returned [of u] u pos show ?thesis by force
    qed
    then show ?thesis using reconciled_ids_D [OF u(1)] by auto
  qed
  show ?thesis
    using high(1) cursor v(2) complete really_gone by auto
qed

definition constant_net :: "string imap_net" where
  "constant_net =
     \<lparr>net_connect = io_return (), net_select = (\<lambda>mb _. (Inr \<lparr>sa_uid_validity = Some 7, sa_uid_next = Some 4,
        sa_highest_modseq = None\<rparr>, mb)),
      net_list = io_return [], net_status = (\<lambda>_ n. (StatusCounts 2 None, n)),
      net_uid_search = (\<lambda>_. io_return [3, 1]),
      net_uid_fetch = (\<lambda>_ _. io_return [\<lparr>rf_uid = Some 3, rf_size = Some 1, rf_flags = [], rf_header = None, rf_body = None\<rparr>,
         \<lparr>rf_uid = Some 1, rf_size = Some 1, rf_flags = [], rf_header = None, rf_body = None\<rparr>]),
      net_uid_fetch_first = (\<lambda>_ _. io_return None), net_uid_store = (\<lambda>_ _. io_return ()),
      net_capabilities = io_return [], net_run_command = (\<lambda>_. io_return ()),
      net_uid_copy = (\<lambda>_ _. io_return ()), net_uid_expunge = (\<lambda>_. io_return ())\<rparr>"

lemma constant_net_ok:
  "server_ok constant_net (\<lambda>_ _. \<lparr>vw_validity = 7, vw_next = 4, vw_uids = {1, 3}\<rparr>) id"
  by (auto simp: server_ok_def constant_net_def io_guarantees_def io_return_def evolves_def)

definition sample_provider :: "string imap_world imap_smtp_provider" where
  "sample_provider =
     \<lparr>ip_account = \<lparr>a_id = ''a'', a_address = ''a@x'', a_display_name = ''A'', a_provider = ''imap'',
        a_protocol = ''imap'', a_host = ''h'', a_unread = 0, a_total = 0, a_enabled = True\<rparr>,
      ip_discover_special_use = True, ip_archive_mailbox = None, ip_trash_mailbox = None,
      ip_imap = async_imap_transport constant_net (\<lambda>_. None) 0,
      ip_smtp = (\<lambda>_ _. io_return ()), ip_parse = (\<lambda>_. Inl MalformedMessage),
      ip_build_reply = (\<lambda>_ _ _ _. Inl MalformedMessage), ip_uuid5 = (\<lambda>_. ''u''), ip_now = 0,
      ip_new_uuid = ''n''\<rparr>"

definition sample_sync_query :: mailbox_sync_query where
  "sample_sync_query = \<lparr>sq_account_id = ''a'', sq_mailbox_id = ''INBOX'', sq_cursor = Some ''7:1'',
     sq_limit = 10, sq_reconcile_message_ids = []\<rparr>"

definition sample_provider_state :: "string imap_world provider_state" where
  "sample_provider_state = \<lparr>ps_archive = None, ps_trash = None,
     ps_world = \<lparr>iw_open = (\<lambda>_. False), iw_net = []\<rparr>\<rparr>"

definition sample_sync :: "(provider_error + mailbox_sync_page) \<times> string imap_world provider_state" where
  "sample_sync = provider_sync_mailbox sample_provider sample_sync_query sample_provider_state"

lemma constant_connect: "net_connect constant_net = io_return ()"
  by (simp add: constant_net_def)

lemma run_session_ok:
  assumes "oper n = (Inr x, n')"
  shows "run_session_operation b (io_return ()) l rs oper \<lparr>iw_open = f, iw_net = n\<rparr> =
    (Inr x, \<lparr>iw_open = f(l := True), iw_net = n'\<rparr>)"
  using assms by (subst run_session_operation.simps)
    (auto simp: lock_session_def on_net_def io_return_def set_open_def fun_upd_idem)

lemma constant_select:
  "imap_select constant_net ''INBOX'' \<lparr>iw_open = f, iw_net = n\<rparr> =
     (Inr \<lparr>sel_uid_validity = 7, sel_uid_next = 4, sel_highest_mod_sequence = None\<rparr>,
      \<lparr>iw_open = f(MainLane := True), iw_net = ''INBOX''\<rparr>)"
  "select_mailbox constant_net ''INBOX'' n =
     (Inr \<lparr>sel_uid_validity = 7, sel_uid_next = 4, sel_highest_mod_sequence = None\<rparr>, ''INBOX'')"
proof -
  show sel: "select_mailbox constant_net ''INBOX'' n =
     (Inr \<lparr>sel_uid_validity = 7, sel_uid_next = 4, sel_highest_mod_sequence = None\<rparr>, ''INBOX'')" for n
    by (simp add: select_mailbox_Inr constant_net_def validate_imap_text_def char_consts)
  show "imap_select constant_net ''INBOX'' \<lparr>iw_open = f, iw_net = n\<rparr> =
     (Inr \<lparr>sel_uid_validity = 7, sel_uid_next = 4, sel_highest_mod_sequence = None\<rparr>,
      \<lparr>iw_open = f(MainLane := True), iw_net = ''INBOX''\<rparr>)"
    unfolding imap_select_def constant_connect by (rule run_session_ok) (rule sel)
qed

lemma constant_search:
  "imap_search_uids_since constant_net ''INBOX'' 1 3 10 \<lparr>iw_open = f, iw_net = n\<rparr> =
     (Inr \<lparr>ip_uids = [3], ip_high_uid = 3\<rparr>, \<lparr>iw_open = f(MainLane := True), iw_net = ''INBOX''\<rparr>)"
proof -
  have oper: "io_bind (select_mailbox constant_net ''INBOX'') (\<lambda>_. command (net_uid_search constant_net t)) n =
     (Inr [3, 1], ''INBOX'')" for t
    using constant_select(2) [of n] by (simp add: result_simps command_def) (simp add: constant_net_def io_return_def)
  have range: "incremental_uid_search_range 1 3 = Inr (Some (uid_range_text 2 3, 3))"
    by (simp add: incremental_uid_search_range_def SEARCH_SPAN_def uint_bounds Let_def numeral_2_eq_2)
  have page: "incremental_uid_page [3, 1] 1 3 10 = \<lparr>ip_uids = [3], ip_high_uid = 3\<rparr>" by code_simp
  have run: "run_session_operation False (io_return ()) MainLane True
      (io_bind (select_mailbox constant_net ''INBOX'') (\<lambda>_. command (net_uid_search constant_net t)))
      \<lparr>iw_open = f, iw_net = n\<rparr> = (Inr [3, 1], \<lparr>iw_open = f(MainLane := True), iw_net = ''INBOX''\<rparr>)" for t
    by (rule run_session_ok) (rule oper)
  show ?thesis
    unfolding imap_search_uids_since_def range constant_connect
    using run page
    by (simp add: result_simps del: One_nat_def)
qed

lemma constant_fetch:
  "\<exists>es. imap_fetch_envelopes constant_net (\<lambda>_. None) 0 ''INBOX'' [3] \<lparr>iw_open = f, iw_net = n\<rparr> =
     (Inr es, \<lparr>iw_open = f(MainLane := True), iw_net = ''INBOX''\<rparr>)"
proof -
  have oper: "\<exists>fs. io_bind (select_mailbox constant_net ''INBOX'')
       (\<lambda>_. command (net_uid_fetch constant_net t IMAP_SUMMARY_FETCH)) n = (Inr fs, ''INBOX'')
     \<and> (\<exists>es. collect_r (envelope_of (\<lambda>_. None) 0) fs = Inr es)" for t
    using constant_select(2) [of n] by (simp add: result_simps command_def)
      (simp add: constant_net_def io_return_def envelope_of_def Let_def)
  have "uid_set [3] = Inr (show_nat 3)" by (simp add: uid_set_def join_with_def uint_bounds)
  then obtain t where t: "uid_set [3] = Inr t" by blast
  obtain fs es where "io_bind (select_mailbox constant_net ''INBOX'')
       (\<lambda>_. command (net_uid_fetch constant_net t IMAP_SUMMARY_FETCH)) n = (Inr fs, ''INBOX'')"
     and "collect_r (envelope_of (\<lambda>_. None) 0) fs = Inr es" using oper by blast
  then show ?thesis
    using run_session_ok [of _ n fs "''INBOX''" False MainLane True f]
    unfolding imap_fetch_envelopes_def t constant_connect by (simp add: result_simps)
qed

lemma sample_cursors:
  "parse_uid_cursor ''7:1'' = Inr \<lparr>uc_uid_validity = 7, uc_last_uid = 1\<rparr>"
  "uid_cursor_text \<lparr>uc_uid_validity = 7, uc_last_uid = 3\<rparr> = ''7:3''"
proof -
  have "''7:1'' = uid_cursor_text \<lparr>uc_uid_validity = 7, uc_last_uid = 1\<rparr>" by code_simp
  moreover have "uid_cursor_ok \<lparr>uc_uid_validity = 7, uc_last_uid = 1\<rparr>"
    by (simp add: uid_cursor_ok_def uint_bounds)
  ultimately show "parse_uid_cursor ''7:1'' = Inr \<lparr>uc_uid_validity = 7, uc_last_uid = 1\<rparr>"
    using parse_uid_cursor_text by metis
  show "uid_cursor_text \<lparr>uc_uid_validity = 7, uc_last_uid = 3\<rparr> = ''7:3''" by code_simp
qed

lemma sample_sync_runs: "\<exists>page st'. sample_sync = (Inr page, st') \<and> \<not> sp_reset page
  \<and> sp_cursor page = Some ''7:3'' \<and> ps_world st' = \<lparr>iw_open = (\<lambda>_. False)(MainLane := True), iw_net = ''INBOX''\<rparr>"
proof -
  note p = sample_cursors(1) and t = sample_cursors(2)
  obtain es where es: "imap_fetch_envelopes constant_net (\<lambda>_. None) 0 ''INBOX'' [3]
      \<lparr>iw_open = (\<lambda>_. False)(MainLane := True), iw_net = ''INBOX''\<rparr> =
     (Inr es, \<lparr>iw_open = (\<lambda>_. False)(MainLane := True), iw_net = ''INBOX''\<rparr>)"
    using constant_fetch [of "(\<lambda>_. False)(MainLane := True)" "''INBOX''"] by auto
  show ?thesis
    unfolding sample_sync_def provider_sync_mailbox_def sample_provider_def sample_sync_query_def sample_provider_state_def
    by (simp add: result_simps async_imap_transport_def constant_select constant_search es p t make_uid_sync_plan_def
        reconciled_ids_def map_filter_simps missing_reconciled_message_ids_def Let_def del: One_nat_def)
qed

theorem sync_misses_nothing_witness:
  "\<exists>page. fst sample_sync = Inr page \<and> uid_message_id ''a'' ''INBOX'' 7 3 \<in> ms_id ` set (sp_messages page)"
proof -
  obtain page st' where run: "provider_sync_mailbox sample_provider sample_sync_query sample_provider_state = (Inr page, st')"
    and inc: "\<not> sp_reset page" and cur: "sp_cursor page = Some ''7:3''"
    using sample_sync_runs unfolding sample_sync_def by blast
  have tr: "ip_imap sample_provider = async_imap_transport constant_net (\<lambda>_. None) 0"
    by (simp add: sample_provider_def)
  have q: "sq_cursor sample_sync_query = Some ''7:1''" by (simp add: sample_sync_query_def)
  obtain high where high: "''7:3'' = uid_cursor_text \<lparr>uc_uid_validity = 7, uc_last_uid = high\<rparr>"
    and all: "\<forall>u \<in> {1, 3}. 1 < u \<and> u \<le> high \<longrightarrow> uid_message_id ''a'' ''INBOX'' 7 u \<in> ms_id ` set (sp_messages page)"
    using sync_misses_nothing [OF constant_net_ok tr q sample_cursors(1) run inc] cur
    by (auto simp: sample_provider_def sample_sync_query_def)
  have "uid_cursor_text \<lparr>uc_uid_validity = 7, uc_last_uid = 3\<rparr> = uid_cursor_text \<lparr>uc_uid_validity = 7, uc_last_uid = high\<rparr>"
    unfolding sample_cursors(2) by (rule high)
  then have "high = 3" by (simp add: uid_cursor_text_def)
  with all run show ?thesis by (auto simp: sample_sync_def)
qed

end
