(* ===== verification/Imap_Actions.thy ===== *)
theory Imap_Actions
  imports Imap_Provider
begin

section \<open>IMAP: search windows and changes of messages\<close>

text \<open>
  The bounded windows of a first synchronisation, and the order in which the commands of a move
  reach the server. A log of the commands and their outcomes is kept beside the world by
  \<open>logging\<close>, so that the lemmas can speak of what the server saw.
\<close>

subsection \<open>The windows of a first synchronisation\<close>

lemma search_windows_facts:
  "0 < t \<Longrightarrow> length (search_windows_from k t) \<le> k
    \<and> (\<forall>(a, b) \<in> set (search_windows_from k t). 1 \<le> a \<and> a \<le> b \<and> b \<le> t \<and> b < a + SEARCH_SPAN)
    \<and> sorted_wrt (\<lambda>(a, _) (_, d). d < a) (search_windows_from k t)
    \<and> (\<forall>u. (\<exists>(a, b) \<in> set (search_windows_from k t). a \<le> u \<and> u \<le> b) \<longleftrightarrow>
         1 \<le> u \<and> u \<le> t \<and> t < u + k * SEARCH_SPAN)"
proof (induction k arbitrary: t)
  case (Suc k)
  define a where "a = max (t - (SEARCH_SPAN - 1)) 1"
  have span: "0 < SEARCH_SPAN" by (simp add: SEARCH_SPAN_def)
  have a: "1 \<le> a" "a \<le> t" "t < a + SEARCH_SPAN" using Suc.prems span by (auto simp: a_def)
  have ws: "search_windows_from (Suc k) t = (a, t) # (if a = 1 then [] else search_windows_from k (a - 1))"
    by (simp add: a_def Let_def)
  show ?case
  proof (cases "a = 1")
    case True
    then have "\<forall>u. (1 \<le> u \<and> u \<le> t) \<longleftrightarrow> 1 \<le> u \<and> u \<le> t \<and> t < u + Suc k * SEARCH_SPAN" using a by auto
    then show ?thesis using True a unfolding ws by simp
  next
    case False
    then have at: "a + SEARCH_SPAN = Suc t" using span by (auto simp: a_def)
    have pos: "0 < a - 1" using False a by simp
    note IH = Suc.IH [OF pos]
    have cover: "(\<exists>(x, y) \<in> set (search_windows_from k (a - 1)). x \<le> u \<and> u \<le> y) \<longleftrightarrow>
        1 \<le> u \<and> u \<le> a - 1 \<and> a - 1 < u + k * SEARCH_SPAN" for u
      using IH by blast
    have "(a \<le> u \<and> u \<le> t) \<or> (1 \<le> u \<and> u \<le> a - 1 \<and> a - 1 < u + k * SEARCH_SPAN) \<longleftrightarrow>
        1 \<le> u \<and> u \<le> t \<and> t < u + Suc k * SEARCH_SPAN" for u
      using a at by (auto simp: algebra_simps)
    then have "\<forall>u. (\<exists>(x, y) \<in> set (search_windows_from (Suc k) t). x \<le> u \<and> u \<le> y) \<longleftrightarrow>
        1 \<le> u \<and> u \<le> t \<and> t < u + Suc k * SEARCH_SPAN"
      using False cover by (simp add: ws del: search_windows_from.simps)
    moreover have "\<forall>(x, y) \<in> set (search_windows_from (Suc k) t). 1 \<le> x \<and> x \<le> y \<and> y \<le> t \<and> y < x + SEARCH_SPAN"
      using IH a False unfolding ws by fastforce
    moreover have "sorted_wrt (\<lambda>(x, _) (_, d). d < x) (search_windows_from (Suc k) t)"
      using IH a False unfolding ws by fastforce
    moreover have "length (search_windows_from (Suc k) t) \<le> Suc k" using IH False unfolding ws by simp
    ultimately show ?thesis by blast
  qed
qed simp

text \<open>The first synchronisation of a mailbox is bounded and leaves no gap: at most 16 searches, each
  over at most 4096 UIDs, newest first, pairwise disjoint, together exactly the newest 65536 UIDs.\<close>

theorem recent_windows_cover:
  assumes "recent_uid_search_windows through_uid = Inr ws"
  shows "length ws \<le> 16
    \<and> (\<forall>(a, b) \<in> set ws. 1 \<le> a \<and> a \<le> b \<and> b \<le> u32_max \<and> b - a < 4096)
    \<and> sorted_wrt (\<lambda>(a, _) (_, d). d < a) ws
    \<and> (\<forall>u. (\<exists>(a, b) \<in> set ws. a \<le> u \<and> u \<le> b) \<longleftrightarrow> 1 \<le> u \<and> u \<le> through_uid \<and> through_uid < u + 65536)"
proof (cases "through_uid = 0")
  case True
  with assms show ?thesis by (auto simp: recent_uid_search_windows_def)
next
  case False
  with assms have ws: "ws = search_windows_from 16 through_uid" and le: "through_uid \<le> u32_max"
    by (auto simp: recent_uid_search_windows_def MAX_SEARCH_WINDOWS_def split: if_splits)
  note facts = search_windows_facts [of through_uid 16, folded ws]
  have "\<forall>(a, b) \<in> set ws. 1 \<le> a \<and> a \<le> b \<and> b \<le> u32_max \<and> b - a < 4096"
    using facts False le by (fastforce simp: SEARCH_SPAN_def)
  then show ?thesis using facts False by (simp add: SEARCH_SPAN_def)
qed

theorem recent_windows_cover_witness:
  "\<exists>ws. recent_uid_search_windows 5000 = Inr ws \<and> length ws \<le> 16 \<and> (\<exists>(a, b) \<in> set ws. a \<le> 17 \<and> 17 \<le> b)"
proof -
  obtain ws where ws: "recent_uid_search_windows 5000 = Inr ws"
    by (simp add: recent_uid_search_windows_def uint_bounds)
  from recent_windows_cover [OF this] show ?thesis using ws by auto
qed

subsection \<open>A log of commands\<close>

datatype imap_command =
    SelectCmd string | CapabilityCmd | RunCmd string | CopyCmd string string | StoreCmd string string
  | ExpungeCmd string | ReadCmd

type_synonym 'n logged = "'n \<times> (imap_command \<times> bool) list"

definition logged :: "imap_command \<Rightarrow> ('n, 'e, 'a) io \<Rightarrow> ('n logged, 'e, 'a) io" where
  "logged c m p = (case m (fst p) of (r, n) \<Rightarrow> (r, n, snd p @ [(c, \<not> isl r)]))"

definition unlogged :: "('n, 'e, 'a) io \<Rightarrow> ('n logged, 'e, 'a) io" where
  "unlogged m p = (case m (fst p) of (r, n) \<Rightarrow> (r, n, snd p))"

definition logging :: "'n imap_net \<Rightarrow> 'n logged imap_net" where
  "logging net =
     \<lparr>net_connect = unlogged (net_connect net), net_select = (\<lambda>mb. logged (SelectCmd mb) (net_select net mb)),
      net_list = logged ReadCmd (net_list net),
      net_status = (\<lambda>mb p. case net_status net mb (fst p) of (r, n) \<Rightarrow> (r, n, snd p)),
      net_uid_search = (\<lambda>t. logged ReadCmd (net_uid_search net t)),
      net_uid_fetch = (\<lambda>t q. logged ReadCmd (net_uid_fetch net t q)),
      net_uid_fetch_first = (\<lambda>t q. logged ReadCmd (net_uid_fetch_first net t q)),
      net_uid_store = (\<lambda>t q. logged (StoreCmd t q) (net_uid_store net t q)),
      net_capabilities = logged CapabilityCmd (net_capabilities net),
      net_run_command = (\<lambda>t. logged (RunCmd t) (net_run_command net t)),
      net_uid_copy = (\<lambda>t d. logged (CopyCmd t d) (net_uid_copy net t d)),
      net_uid_expunge = (\<lambda>t. logged (ExpungeCmd t) (net_uid_expunge net t))\<rparr>"

text \<open>A run that may not be repeated runs its operation once, or not at all.\<close>

lemma run_session_once:
  assumes "run_session_operation False connect l False oper w = (r, w')"
  shows "(\<exists>e. lock_session connect l w = (Inl e, w') \<and> r = Inl e)
    \<or> (\<exists>w1. lock_session connect l w = (Inr (), w1) \<and> oper (iw_net w1) = (r, iw_net w'))"
  using assms
  by (subst (asm) run_session_operation.simps)
    (auto simp: on_net_def session_error_action_def set_open_def split: prod.splits sum.splits if_splits)

lemma lock_session_logging:
  "lock_session (net_connect (logging net)) l w = (r, w') \<Longrightarrow> snd (iw_net w') = snd (iw_net w)"
  by (auto simp: lock_session_def logging_def unlogged_def on_net_def set_open_def
      split: if_splits prod.splits sum.splits)

text \<open>Commands of a plan that ran in order, up to the first failure.\<close>

definition ran :: "imap_command list \<Rightarrow> (imap_command \<times> bool) list \<Rightarrow> bool" where
  "ran plan cs \<longleftrightarrow> (\<exists>rest. plan = map fst cs @ rest) \<and> (\<forall>c \<in> set (butlast cs). snd c)"

definition move_plans :: "string \<Rightarrow> string \<Rightarrow> string \<Rightarrow> string \<Rightarrow> imap_command list set" where
  "move_plans mailbox uids_text destination quoted =
     {[SelectCmd mailbox, CapabilityCmd, RunCmd (''UID MOVE '' @ uids_text @ '' '' @ quoted)],
      [SelectCmd mailbox, CapabilityCmd, CopyCmd uids_text destination, StoreCmd uids_text DELETED_STORE],
      [SelectCmd mailbox, CapabilityCmd, CopyCmd uids_text destination, StoreCmd uids_text DELETED_STORE,
       ExpungeCmd uids_text]}"

text \<open>The outcome of one logged command.\<close>

lemma logged_cases:
  "command (logged c m) p = (r, p') \<Longrightarrow>
     snd p' = snd p @ [(c, True)] \<and> (\<exists>x. r = Inr x \<and> m (fst p) = (Inr x, fst p'))
   \<or> snd p' = snd p @ [(c, False)] \<and> (\<exists>e. r = Inl e)"
  by (cases "fst (m (fst p))") (auto simp: command_def io_map_err_def logged_def split: prod.splits)

lemma select_logged:
  assumes "select_mailbox (logging net) mb p = (r, p')"
  shows "(snd p' = snd p \<or> snd p' = snd p @ [(SelectCmd mb, True)] \<or> snd p' = snd p @ [(SelectCmd mb, False)]) \<and> isl r
    \<or> snd p' = snd p @ [(SelectCmd mb, True)] \<and> \<not> isl r"
proof -
  have net: "net_select (logging net) mb = logged (SelectCmd mb) (net_select net mb)" by (simp add: logging_def)
  show ?thesis
    using assms unfolding select_mailbox_def net
    by (auto simp: io_bind_def io_lift_def io_return_def split: prod.splits sum.splits dest!: logged_cases)
qed

lemma logging_simps:
  "net_capabilities (logging net) = logged CapabilityCmd (net_capabilities net)"
  "net_run_command (logging net) t = logged (RunCmd t) (net_run_command net t)"
  "net_uid_copy (logging net) t d = logged (CopyCmd t d) (net_uid_copy net t d)"
  "net_uid_store (logging net) t q = logged (StoreCmd t q) (net_uid_store net t q)"
  "net_uid_expunge (logging net) t = logged (ExpungeCmd t) (net_uid_expunge net t)"
  by (simp_all add: logging_def)

lemma move_operation_logged:
  assumes "move_operation (logging net) mb ut dest p = (r, p')" and q: "quote_imap dest = Inr q"
  shows "\<exists>plan \<in> move_plans mb ut dest q. \<exists>cs. snd p' = snd p @ cs \<and> ran plan cs
    \<and> (r = Inr () \<longrightarrow> cs = map (\<lambda>c. (c, True)) plan)"
proof -
  obtain rs p1 where sel: "select_mailbox (logging net) mb p = (rs, p1)" by (metis surj_pair)
  show ?thesis
  proof (cases rs)
    case (Inl e)
    with assms(1) sel have "r = Inl e" "p' = p1" by (simp_all add: move_operation_def io_bind_def)
    with select_logged [OF sel] show ?thesis
      by (auto simp: move_plans_def ran_def)
  next
    case (Inr s)
    then have l1: "snd p1 = snd p @ [(SelectCmd mb, True)]" using select_logged [OF sel] by simp
    note rest = assms(1) [unfolded move_operation_def
        io_bind_eval [where m = "select_mailbox (logging net) mb", OF sel [unfolded Inr]] logging_simps]
    obtain rc p2 where cap: "command (logged CapabilityCmd (net_capabilities net)) p1 = (rc, p2)" by (metis surj_pair)
    show ?thesis
    proof (cases rc)
      case (Inl e)
      have "(Inl e, p2) = (r, p')"
        using rest unfolding io_bind_fail [where m = "command (logged CapabilityCmd (net_capabilities net))", OF cap [unfolded Inl]] .
      then have "r = Inl e" "p' = p2" by simp_all
      with logged_cases [OF cap] l1 Inl show ?thesis
        by (auto simp: move_plans_def ran_def)
    next
      case (Inr caps)
      then have l2: "snd p2 = snd p @ [(SelectCmd mb, True), (CapabilityCmd, True)]" using logged_cases [OF cap] l1 by simp
      have tail: "(if ''MOVE'' \<in> set caps
           then io_bind (io_lift (quote_imap dest)) (\<lambda>q.
             command (logged (RunCmd (''UID MOVE '' @ ut @ '' '' @ q)) (net_run_command net (''UID MOVE '' @ ut @ '' '' @ q))))
           else io_bind (command (logged (CopyCmd ut dest) (net_uid_copy net ut dest))) (\<lambda>_.
             io_bind (command (logged (StoreCmd ut DELETED_STORE) (net_uid_store net ut DELETED_STORE))) (\<lambda>_.
             if ''UIDPLUS'' \<in> set caps then command (logged (ExpungeCmd ut) (net_uid_expunge net ut)) else io_return ()))) p2
          = (r, p')"
        using rest unfolding io_bind_eval [where m = "command (logged CapabilityCmd (net_capabilities net))", OF cap [unfolded Inr]] .
      show ?thesis
        using tail l2 q
        by (auto simp: io_bind_def io_lift_def io_return_def move_plans_def ran_def
            split: if_splits prod.splits sum.splits dest!: logged_cases)
    qed
  qed
qed

text \<open>C31: a move never loses a message. The server sees either one UID MOVE, or a copy first, only after
  its success the deletion mark, and an expunge of exactly these UIDs only after that and only with
  UIDPLUS; the commands stop at the first failure, and none is ever sent twice.\<close>

theorem move_order:
  assumes "imap_move_uids (logging net) mailbox uids destination w = (r, w')"
  shows "\<exists>ut q cs. snd (iw_net w') = snd (iw_net w) @ cs
    \<and> (cs = [] \<or> uid_set uids = Inr ut \<and> quote_imap destination = Inr q
         \<and> (\<exists>plan \<in> move_plans mailbox ut destination q. ran plan cs
              \<and> (r = Inr () \<longrightarrow> cs = map (\<lambda>c. (c, True)) plan)))
    \<and> (r = Inr () \<and> uids \<noteq> [] \<longrightarrow> cs \<noteq> [])"
proof (cases "uids = [] \<or> isl (uid_set uids) \<or> isl (validate_imap_text destination)")
  case True
  then have "w' = w \<and> (r = Inr () \<longrightarrow> uids = [])"
    using assms by (auto simp: imap_move_uids_def io_bind_def io_lift_def io_return_def split: if_splits sum.splits)
  then show ?thesis by auto
next
  case False
  then obtain ut where ne: "uids \<noteq> []" and ut: "uid_set uids = Inr ut" and clean: "validate_imap_text destination = Inr ()"
    by (cases "uid_set uids"; cases "validate_imap_text destination") auto
  then obtain q where q: "quote_imap destination = Inr q" by (simp add: quote_imap_def)
  have "run_session_operation False (net_connect (logging net)) MainLane False
      (move_operation (logging net) mailbox ut destination) w = (r, w')"
    using assms ne ut clean by (simp add: imap_move_uids_def io_bind_def io_lift_def)
  from run_session_once [OF this] show ?thesis
  proof (elim disjE exE conjE)
    fix e
    assume "lock_session (net_connect (logging net)) MainLane w = (Inl e, w')" and "r = Inl e"
    then show ?thesis using lock_session_logging [of net MainLane w] by auto
  next
    fix w1
    assume lock: "lock_session (net_connect (logging net)) MainLane w = (Inr (), w1)"
      and run: "move_operation (logging net) mailbox ut destination (iw_net w1) = (r, iw_net w')"
    obtain plan cs where plan: "plan \<in> move_plans mailbox ut destination q"
      and cs: "snd (iw_net w') = snd (iw_net w) @ cs" "ran plan cs"
        "r = Inr () \<longrightarrow> cs = map (\<lambda>c. (c, True)) plan"
      using move_operation_logged [OF run q] lock_session_logging [OF lock] by auto
    have "plan \<noteq> []" using plan by (auto simp: move_plans_def)
    with plan cs ut q show ?thesis by (metis Nil_is_map_conv)
  qed
qed

text \<open>A server without MOVE but with UIDPLUS, as an example.\<close>

definition copying_net :: "unit imap_net" where
  "copying_net =
     \<lparr>net_connect = io_return (), net_select = (\<lambda>_. io_return \<lparr>sa_uid_validity = Some 7, sa_uid_next = Some 4,
        sa_highest_modseq = None\<rparr>),
      net_list = io_return [], net_status = (\<lambda>_ n. (StatusDeadline, n)), net_uid_search = (\<lambda>_. io_return []),
      net_uid_fetch = (\<lambda>_ _. io_return []), net_uid_fetch_first = (\<lambda>_ _. io_return None),
      net_uid_store = (\<lambda>_ _. io_return ()), net_capabilities = io_return [''UIDPLUS''],
      net_run_command = (\<lambda>_. io_return ()), net_uid_copy = (\<lambda>_ _. io_return ()),
      net_uid_expunge = (\<lambda>_. io_return ())\<rparr>"

theorem move_order_witness:
  "\<exists>w'. snd (iw_net w') \<noteq> [] \<and> imap_move_uids (logging copying_net) ''INBOX'' [3] ''Old''
      \<lparr>iw_open = (\<lambda>_. False), iw_net = ((), [])\<rparr> = (Inr (), w')"
proof -
  let ?w = "\<lparr>iw_open = (\<lambda>_. False), iw_net = ((), [])\<rparr>"
  let ?run = "imap_move_uids (logging copying_net) ''INBOX'' [3] ''Old'' ?w"
  have "fst ?run = Inr ()"
    by (simp add: imap_move_uids_def uid_set_def uint_bounds validate_imap_text_def char_consts
        io_bind_def io_lift_def run_session_operation.simps lock_session_def on_net_def logging_def
        unlogged_def logged_def copying_net_def io_return_def move_operation_def select_mailbox_def
        command_def io_map_err_def set_open_def)
  then have run: "?run = (Inr (), snd ?run)" by (metis prod.collapse)
  from move_order [OF run] run show ?thesis by auto
qed

subsection \<open>The targets of an action\<close>

definition identifies :: "string \<Rightarrow> string \<Rightarrow> nat \<Rightarrow> string \<Rightarrow> nat \<Rightarrow> bool" where
  "identifies account_id mailbox validity i uid \<longleftrightarrow>
     (\<exists>native. provider_native_id account_id i = Inr native
        \<and> parse_stable_id native = Inr \<lparr>si_mailbox = mailbox, si_uid_validity = validity, si_uid = uid\<rparr>)"

lemma take_action_id_Inr:
  "take_action_id a acc i = Inr acc' \<longleftrightarrow>
     (\<exists>mb v u. identifies a mb v i u \<and> (fst acc = None \<or> fst acc = Some (mb, v)) \<and> acc' = (Some (mb, v), snd acc @ [u]))"
  (is "?l \<longleftrightarrow> ?r")
proof
  assume ?l
  then obtain native s where n: "provider_native_id a i = Inr native" "parse_stable_id native = Inr s"
    and same: "fst acc = None \<or> fst acc = Some (si_mailbox s, si_uid_validity s)"
    and acc': "acc' = (Some (si_mailbox s, si_uid_validity s), snd acc @ [si_uid s])"
    by (auto simp: take_action_id_def result_simps split: if_splits option.splits)
  have "identifies a (si_mailbox s) (si_uid_validity s) i (si_uid s)" using n by (simp add: identifies_def)
  with same acc' show ?r by blast
next
  assume ?r
  then obtain mb v u native where n: "provider_native_id a i = Inr native"
      "parse_stable_id native = Inr \<lparr>si_mailbox = mb, si_uid_validity = v, si_uid = u\<rparr>"
    and same: "fst acc = None \<or> fst acc = Some (mb, v)" and acc': "acc' = (Some (mb, v), snd acc @ [u])"
    by (auto simp: identifies_def)
  from same show ?l by (elim disjE) (simp_all add: take_action_id_def n acc')
qed

lemma fold_action_ids:
  assumes "fold_r (take_action_id a) (sh, us) ids = Inr (sh', us')"
  shows "ids = [] \<and> sh' = sh \<and> us' = us
    \<or> (\<exists>mb v new. sh' = Some (mb, v) \<and> (sh = None \<or> sh = Some (mb, v)) \<and> us' = us @ new
         \<and> list_all2 (identifies a mb v) ids new \<and> ids \<noteq> [])"
  using assms
proof (induction ids arbitrary: sh us)
  case (Cons i ids)
  then obtain mb v u where i: "identifies a mb v i u" and sh: "sh = None \<or> sh = Some (mb, v)"
    and rest: "fold_r (take_action_id a) (Some (mb, v), us @ [u]) ids = Inr (sh', us')"
    by (auto simp: result_simps take_action_id_Inr)
  from Cons.IH [OF rest] i sh show ?case by auto
qed simp


text \<open>A server that renews the mailbox between two commands: the world counts the selections and
  keeps the UIDs whose flags were stored together with the validity they were stored under.\<close>

definition renewing_net :: "(nat \<times> (nat \<times> string) list) imap_net" where
  "renewing_net =
     \<lparr>net_connect = io_return (),
      net_select = (\<lambda>_ (k, l). (Inr \<lparr>sa_uid_validity = Some (if k = 0 then 7 else 8), sa_uid_next = Some 20,
        sa_highest_modseq = None\<rparr>, Suc k, l)),
      net_list = io_return [], net_status = (\<lambda>_ n. (StatusDeadline, n)), net_uid_search = (\<lambda>_. io_return []),
      net_uid_fetch = (\<lambda>_ _. io_return []), net_uid_fetch_first = (\<lambda>_ _. io_return None),
      net_uid_store = (\<lambda>t _ (k, l). (Inr (), k, l @ [(if k \<le> 1 then 7 else 8, t)])),
      net_capabilities = io_return [], net_run_command = (\<lambda>_. io_return ()),
      net_uid_copy = (\<lambda>_ _. io_return ()), net_uid_expunge = (\<lambda>_. io_return ())\<rparr>"

definition renewing_provider :: "(nat \<times> (nat \<times> string) list) imap_world imap_smtp_provider" where
  "renewing_provider =
     \<lparr>ip_account = \<lparr>a_id = ''a'', a_address = ''a@x'', a_display_name = ''A'', a_provider = ''imap'',
        a_protocol = ''imap'', a_host = ''h'', a_unread = 0, a_total = 0, a_enabled = True\<rparr>,
      ip_discover_special_use = True, ip_archive_mailbox = None, ip_trash_mailbox = None,
      ip_imap = async_imap_transport renewing_net (\<lambda>_. None) 0,
      ip_smtp = (\<lambda>_ _. io_return ()), ip_parse = (\<lambda>_. Inl MalformedMessage),
      ip_build_reply = (\<lambda>_ _ _ _. Inl MalformedMessage), ip_uuid5 = (\<lambda>_. ''u''), ip_now = 0,
      ip_new_uuid = ''n''\<rparr>"

definition renewing_id :: string where
  "renewing_id = normalized_message_id ''a''
     (stable_id_text \<lparr>si_mailbox = ''INBOX'', si_uid_validity = 7, si_uid = 12\<rparr>)"

definition renewing_state :: "(nat \<times> (nat \<times> string) list) imap_world provider_state" where
  "renewing_state = \<lparr>ps_archive = None, ps_trash = None,
     ps_world = \<lparr>iw_open = (\<lambda>_. True), iw_net = (0, [])\<rparr>\<rparr>"

lemma renewing_validate:
  "validate_ids renewing_provider [renewing_id] renewing_state =
     (Inr (''INBOX'', [12]), renewing_state\<lparr>ps_world := \<lparr>iw_open = (\<lambda>_. True), iw_net = (1, [])\<rparr>\<rparr>)"
proof -
  have "stable_id_ok \<lparr>si_mailbox = ''INBOX'', si_uid_validity = 7, si_uid = 12\<rparr>"
    by (simp add: stable_id_ok_def uint_bounds byte_of_def)
  then have "take_action_id ''a'' (None, []) renewing_id = Inr (Some (''INBOX'', 7), [12])"
    by (auto simp: take_action_id_Inr identifies_def renewing_id_def provider_native_id_normalized parse_stable_id_text)
  then show ?thesis
    by (simp add: validate_ids_def renewing_provider_def renewing_state_def on_imap_def on_world_def
        async_imap_transport_def imap_select_def run_session_operation.simps lock_session_def on_net_def
        renewing_net_def select_mailbox_def command_def io_map_err_def io_bind_def io_lift_def io_return_def
        validate_imap_text_def char_consts)
qed

text \<open>The change itself selects the mailbox again and ignores its validity: when the mailbox is renewed
  in between, the flags of whatever message now has that UID are changed.\<close>

theorem stale_generation_is_changed:
  "\<exists>st'. provider_apply_action renewing_provider (MarkRead [renewing_id] True) renewing_state = (Inr (), st')
     \<and> snd (iw_net (ps_world st')) = [(8, ''12'')]"
proof -
  have s: "show_nat 12 = ''12''" by code_simp
  have f: "validated_flags [BACKSLASH # ''Seen''] = Inr [BACKSLASH # ''Seen'']" "validated_flags [] = Inr []"
    by code_simp+
  show ?thesis
    by (simp add: set_flag_def io_bind_def renewing_validate)
      (simp add: renewing_provider_def renewing_state_def on_imap_def on_world_def async_imap_transport_def
        imap_store_flags_def uid_set_def uint_bounds join_with_def s f f [unfolded BACKSLASH_def] run_session_operation.simps
        lock_session_def on_net_def renewing_net_def select_mailbox_def command_def io_map_err_def io_bind_def
        io_lift_def io_return_def validate_imap_text_def char_consts)
qed


end
