(* ===== verification/Smtp_Delivery.thy ===== *)
theory Smtp_Delivery
  imports Imap_Provider
begin

section \<open>SMTP delivery\<close>

text \<open>
  The native XOAUTH2 transport of \<open>providers/imap_smtp.rs\<close>. Sockets, TLS and the token source are the
  fields of \<open>smtp_net\<close>, each already under its timeout; the dialogue, its replies, the dot stuffing and
  the retry are defined here. A slice off a character boundary panics, so the failure of a step is a
  \<open>smtp_fault\<close>: an error value or the panic of the task.
\<close>

subsection \<open>The stream\<close>

datatype connection_security = ImplicitTls | StartTls

record 'n smtp_net =
  sn_tcp :: "('n, unit, unit) io"
  sn_server_name_ok :: bool
  sn_tls :: "('n, unit, unit) io"
  sn_write :: "string \<Rightarrow> ('n, unit, unit) io"
  sn_flush :: "('n, unit, unit) io"
  sn_read_line :: "('n, unit, string) io"
  sn_token :: "('n, unit, string) io"
  sn_security :: connection_security
  sn_username :: string

datatype smtp_fault = Fault smtp_error | Panicked

definition smtp_failure :: smtp_fault where
  "smtp_failure = Fault \<lparr>sm_reason = ''SMTP protocol or connection failure'', sm_authentication = False\<rparr>"

definition smtp_refused :: "string \<Rightarrow> bool \<Rightarrow> smtp_fault" where
  "smtp_refused reason auth = Fault \<lparr>sm_reason = reason, sm_authentication = auth\<rparr>"

definition timeout_smtp :: "('n, unit, 'a) io \<Rightarrow> ('n, smtp_fault, 'a) io" where
  "timeout_smtp m = io_map_err (\<lambda>_. smtp_failure) m"

definition smtp_line :: "'n smtp_net \<Rightarrow> string \<Rightarrow> ('n, smtp_fault, unit) io" where
  "smtp_line net line =
     (if CR \<in> set line \<or> LF \<in> set line \<or> NUL \<in> set line \<or> 8192 < length line
      then io_error (smtp_refused ''invalid SMTP command'' False)
      else io_bind (timeout_smtp (sn_write net line)) (\<lambda>_.
           io_bind (timeout_smtp (sn_write net CRLF)) (\<lambda>_.
           timeout_smtp (sn_flush net))))"

text \<open>What one reply line means: another line follows, the reply is complete, or it fails.\<close>

datatype reply_step = MoreLines | ReplyDone | ReplyFails smtp_fault

definition reply_line :: "nat \<Rightarrow> string \<Rightarrow> reply_step" where
  "reply_line expected line =
     (if length line < 4 then ReplyFails smtp_failure
      else if is_continuation (line ! 3) then ReplyFails Panicked
      else (case parse_uint u16_max (take 3 line) of
              None \<Rightarrow> ReplyFails smtp_failure
            | Some code \<Rightarrow>
                if code \<noteq> expected then ReplyFails smtp_failure
                else if line ! 3 = CHR ''-'' then MoreLines
                else if line ! 3 = CHR '' '' then ReplyDone
                else ReplyFails smtp_failure))"

function expect_smtp_loop :: "'n smtp_net \<Rightarrow> nat \<Rightarrow> nat \<Rightarrow> ('n, smtp_fault, unit) io" where
  "expect_smtp_loop net expected n_read w =
     (case timeout_smtp (sn_read_line net) w of
        (Inl e, w') \<Rightarrow> (Inl e, w')
      | (Inr line, w') \<Rightarrow>
          (if line = [] \<or> 8192 < length line \<or> 65536 < n_read + length line then (Inl smtp_failure, w')
           else (case reply_line expected line of
                   ReplyFails e \<Rightarrow> (Inl e, w')
                 | ReplyDone \<Rightarrow> (Inr (), w')
                 | MoreLines \<Rightarrow> expect_smtp_loop net expected (n_read + length line) w')))"
  by pat_completeness auto
termination
  proof (relation "measure (\<lambda>(_, _, n_read, _). 65537 - n_read)", goal_cases)
  case (2 net expected n_read w r w' line)
  then have "0 < length line" "n_read + length line \<le> 65536" by simp_all
  then have "65537 - (n_read + length line) < 65537 - n_read" by linarith
  then show ?case by simp
qed simp

declare expect_smtp_loop.simps [simp del]

definition expect_smtp :: "'n smtp_net \<Rightarrow> nat \<Rightarrow> ('n, smtp_fault, unit) io" where
  "expect_smtp net expected = expect_smtp_loop net expected 0"

definition dialogue :: "'n smtp_net \<Rightarrow> string \<Rightarrow> nat \<Rightarrow> ('n, smtp_fault, unit) io" where
  "dialogue net line code = io_bind (smtp_line net line) (\<lambda>_. expect_smtp net code)"

subsection \<open>Opening a connection\<close>

definition smtp_connect :: "'n smtp_net \<Rightarrow> ('n, smtp_fault, unit) io" where
  "smtp_connect net =
     io_bind (timeout_smtp (sn_tcp net)) (\<lambda>_.
     if \<not> sn_server_name_ok net then io_error (smtp_refused ''invalid SMTP TLS server name'' False)
     else
       io_bind (case sn_security net of
           ImplicitTls \<Rightarrow> io_bind (timeout_smtp (sn_tls net)) (\<lambda>_. expect_smtp net 220)
         | StartTls \<Rightarrow>
             io_bind (expect_smtp net 220) (\<lambda>_.
             io_bind (dialogue net ''EHLO quickmail.local'' 250) (\<lambda>_.
             io_bind (dialogue net ''STARTTLS'' 220) (\<lambda>_.
             io_bind (timeout_smtp (sn_flush net)) (\<lambda>_.
             timeout_smtp (sn_tls net)))))) (\<lambda>_.
       io_bind (dialogue net ''EHLO quickmail.local'' 250) (\<lambda>_.
       io_bind (io_map_err (\<lambda>_. smtp_refused ''SMTP authorization required'' True) (sn_token net)) (\<lambda>token.
       io_bind (io_map_err (\<lambda>_. smtp_failure) (smtp_line net (''AUTH XOAUTH2 '' @ encode_base64
          (''user='' @ sn_username net @ CHR 0x01 # ''auth=Bearer '' @ token @ [CHR 0x01, CHR 0x01])))) (\<lambda>_.
       io_map_err (\<lambda>e. if e = Panicked then Panicked else smtp_refused ''SMTP authorization failed'' True)
         (expect_smtp net 235))))))"

subsection \<open>Dot stuffing\<close>

fun stuff_dots :: "bool \<Rightarrow> string \<Rightarrow> string" where
  "stuff_dots line_start [] = []"
| "stuff_dots line_start (c # s) =
     (if line_start \<and> c = CHR ''.'' then [CHR ''.''] else []) @ c # stuff_dots (c = LF) s"

text \<open>The line ends at the end of the output, read from its back.\<close>

fun drop_line_ends :: "string \<Rightarrow> string" where
  "drop_line_ends [] = []"
| "drop_line_ends [c] = (if c = LF then [] else [c])"
| "drop_line_ends (c # d # r) =
     (if c = LF then (if d = CR then drop_line_ends r else drop_line_ends (d # r)) else c # d # r)"

definition strip_line_ends :: "string \<Rightarrow> string" where
  "strip_line_ends s = rev (drop_line_ends (rev s))"

definition dot_stuff :: "string \<Rightarrow> string" where
  "dot_stuff msg = strip_line_ends (stuff_dots True msg)"

definition END_OF_DATA :: string where
  "END_OF_DATA = CRLF @ ''.'' @ CRLF"

subsection \<open>A transaction and its retry\<close>

definition validate_smtp_address :: "string \<Rightarrow> smtp_fault + unit" where
  "validate_smtp_address a =
     (if a = [] \<or> 320 < length a \<or> CR \<in> set a \<or> LF \<in> set a \<or> NUL \<in> set a \<or> CHR ''<'' \<in> set a
         \<or> CHR ''>'' \<in> set a \<or> CHR ''@'' \<notin> set a
      then Inl (smtp_refused ''invalid SMTP envelope address'' False) else Inr ())"

fun recipients_dialogue :: "'n smtp_net \<Rightarrow> string list \<Rightarrow> ('n, smtp_fault, unit) io" where
  "recipients_dialogue net [] = io_return ()"
| "recipients_dialogue net (r # rs) =
     io_bind (dialogue net (''RCPT TO:<'' @ r @ ''>'') 250) (\<lambda>_. recipients_dialogue net rs)"

definition before_data :: "'n smtp_net \<Rightarrow> smtp_envelope \<Rightarrow> ('n, smtp_fault, unit) io" where
  "before_data net envelope =
     io_bind (dialogue net (''MAIL FROM:<'' @ sv_from envelope @ ''>'') 250) (\<lambda>_.
     io_bind (recipients_dialogue net (sv_recipients envelope)) (\<lambda>_.
     dialogue net ''DATA'' 354))"

definition send_data :: "'n smtp_net \<Rightarrow> string \<Rightarrow> ('n, smtp_fault, unit) io" where
  "send_data net rfc822 =
     io_bind (timeout_smtp (sn_write net (dot_stuff rfc822))) (\<lambda>_.
     io_bind (timeout_smtp (sn_write net END_OF_DATA)) (\<lambda>_.
     io_bind (timeout_smtp (sn_flush net)) (\<lambda>_.
     expect_smtp net 250)))"

text \<open>The error carries whether DATA had begun.\<close>

definition smtp_transaction ::
    "'n smtp_net \<Rightarrow> smtp_envelope \<Rightarrow> string \<Rightarrow> ('n, smtp_fault \<times> bool, unit) io" where
  "smtp_transaction net envelope rfc822 =
     io_bind (io_map_err (\<lambda>e. (e, False)) (before_data net envelope)) (\<lambda>_.
     io_map_err (\<lambda>e. (e, True)) (send_data net rfc822))"

record 'n smtp_world =
  sw_open :: bool
  sw_net :: 'n

definition on_stream :: "('n, 'e, 'a) io \<Rightarrow> ('n smtp_world, 'e, 'a) io" where
  "on_stream m w = (case m (sw_net w) of (r, n) \<Rightarrow> (r, w\<lparr>sw_net := n\<rparr>))"

text \<open>The loop over the two attempts. A panic leaves the function at once, the connection as it is.\<close>

fun send_attempts :: "nat \<Rightarrow> 'n smtp_net \<Rightarrow> smtp_envelope \<Rightarrow> string \<Rightarrow> ('n smtp_world, smtp_fault, unit) io" where
  "send_attempts 0 net envelope rfc822 w = (Inl Panicked, w)"
| "send_attempts (Suc left) net envelope rfc822 w =
     (let reused = sw_open w in
      case (if reused then (Inr (), w)
            else (case on_stream (smtp_connect net) w of
                    (Inl e, w1) \<Rightarrow> (Inl e, w1) | (Inr _, w1) \<Rightarrow> (Inr (), w1\<lparr>sw_open := True\<rparr>))) of
        (Inl e, w1) \<Rightarrow> (Inl e, w1)
      | (Inr _, w1) \<Rightarrow>
          (case on_stream (smtp_transaction net envelope rfc822) w1 of
             (Inr _, w2) \<Rightarrow> (Inr (), w2)
           | (Inl (Panicked, _), w2) \<Rightarrow> (Inl Panicked, w2)
           | (Inl (e, after_data), w2) \<Rightarrow>
               (if after_data \<or> \<not> reused \<or> left = 0 then (Inl e, w2\<lparr>sw_open := False\<rparr>)
                else send_attempts left net envelope rfc822 (w2\<lparr>sw_open := False\<rparr>))))"

definition xoauth2_send :: "'n smtp_net \<Rightarrow> smtp_envelope \<Rightarrow> string \<Rightarrow> ('n smtp_world, smtp_fault, unit) io" where
  "xoauth2_send net envelope rfc822 =
     io_bind (io_lift (validate_smtp_address (sv_from envelope))) (\<lambda>_.
     io_bind (io_lift (collect_r validate_smtp_address (sv_recipients envelope))) (\<lambda>_.
     send_attempts 2 net envelope rfc822))"

subsection \<open>What the receiving server reads\<close>

text \<open>The receiver of RFC 5321, section 4.5.2: at the start of a line a dot is dropped, and a line that
  is a single dot ends the data. A line ends with CR LF; a lenient server also takes a bare LF.\<close>

fun receive_data :: "bool \<Rightarrow> bool \<Rightarrow> bool \<Rightarrow> string \<Rightarrow> (string \<times> string) option" where
  "receive_data strict line_start after_cr [] = None"
| "receive_data strict line_start after_cr (c # s) =
     (if line_start \<and> c = CHR ''.''
      then (if take 2 s = CRLF then Some ([], drop 2 s) else receive_data strict False False s)
      else map_option (\<lambda>(m, rest). (c # m, rest))
             (receive_data strict (c = LF \<and> (strict \<longrightarrow> after_cr)) (c = CR) s))"

fun no_bare_lf :: "bool \<Rightarrow> string \<Rightarrow> bool" where
  "no_bare_lf after_cr [] = True"
| "no_bare_lf after_cr (c # s) \<longleftrightarrow> (c = LF \<longrightarrow> after_cr) \<and> no_bare_lf (c = CR) s"

lemma no_bare_lf_prefix: "no_bare_lf b (s @ t) \<Longrightarrow> no_bare_lf b s"
  by (induction s arbitrary: b) auto

lemma stuff_dots_append:
  "stuff_dots b (s @ t) = stuff_dots b s @ stuff_dots (if s = [] then b else last s = LF) t"
  by (induction b s rule: stuff_dots.induct) auto

lemma stuff_dots_Nil [simp]: "stuff_dots b s = [] \<longleftrightarrow> s = []"
  by (cases s) auto

lemma last_stuff_dots: "s \<noteq> [] \<Longrightarrow> last (stuff_dots b s) = last s"
  by (induction b s rule: stuff_dots.induct) auto

lemma char_distinct [simp]: "LF \<noteq> CHR ''.''" "CR \<noteq> CHR ''.''" "CR \<noteq> LF" "LF \<noteq> CR" "CHR ''.'' \<noteq> LF" "CHR ''.'' \<noteq> CR"
  by (simp_all add: char_consts)

text \<open>Stuffing commutes with stripping: the line ends at the end hold no dot.\<close>

lemma drop_stuffed: "drop_line_ends (rev (stuff_dots b (rev r))) = rev (stuff_dots b (rev (drop_line_ends r)))"
proof (induction r rule: drop_line_ends.induct)
  case (2 c)
  then show ?case by simp
next
  case (3 c d r)
  have last: "drop_line_ends (rev (stuff_dots b (s @ [c]))) = rev (stuff_dots b (s @ [c]))" if "c \<noteq> LF" for s
    using that by (cases "rev (stuff_dots b s @ (if (if s = [] then b else last s = LF) \<and> c = CHR ''.'' then [CHR ''.''] else []))")
      (auto simp: stuff_dots_append)
  show ?case
  proof (cases "c = LF")
    case False
    then show ?thesis using last [of "rev r @ [d]"] by simp
  next
    case True
    show ?thesis
    proof (cases "d = CR")
      case True
      with \<open>c = LF\<close> 3(1) show ?thesis by (simp add: stuff_dots_append)
    next
      case False
      let ?s = "rev r @ [d]"
      have ne: "stuff_dots b ?s \<noteq> []" by simp
      have "last (stuff_dots b ?s) = d" using last_stuff_dots [of ?s b] by simp
      then obtain u where u: "rev (stuff_dots b ?s) = d # u" using ne by (metis hd_rev list.collapse rev_is_Nil_conv)
      have "drop_line_ends (rev (stuff_dots b (?s @ [LF]))) = drop_line_ends (LF # rev (stuff_dots b ?s))"
        by (simp add: stuff_dots_append)
      also have "\<dots> = drop_line_ends (rev (stuff_dots b ?s))" unfolding u using False by simp
      finally show ?thesis using \<open>c = LF\<close> False 3(2) by simp
    qed
  qed
qed simp

lemma dot_stuff_strip: "dot_stuff m = stuff_dots True (strip_line_ends m)"
  using drop_stuffed [of True "rev m"] by (simp add: dot_stuff_def strip_line_ends_def)

lemma drop_line_ends_suffix: "\<exists>t. r = t @ drop_line_ends r"
  by (induction r rule: drop_line_ends.induct) (auto, (metis append_Cons)+)

lemma strip_line_ends_prefix: "\<exists>t. s = strip_line_ends s @ t"
  using drop_line_ends_suffix [of "rev s"] by (metis rev_append rev_rev_ident strip_line_ends_def)

lemma receive_stuffed:
  "(strict \<longrightarrow> no_bare_lf cr m) \<Longrightarrow> \<exists>ls' cr'. receive_data strict ls cr (stuff_dots ls m @ t) =
     map_option (\<lambda>(x, rest). (m @ x, rest)) (receive_data strict ls' cr' t)"
proof (induction m arbitrary: ls cr)
  case Nil
  show ?case by (auto simp: option.map_ident)
next
  case (Cons c m)
  have "strict \<longrightarrow> no_bare_lf (c = CR) m" using Cons.prems by auto
  from Cons.IH [OF this] obtain ls' cr' where
    IH: "receive_data strict (c = LF) (c = CR) (stuff_dots (c = LF) m @ t) =
      map_option (\<lambda>(x, rest). (m @ x, rest)) (receive_data strict ls' cr' t)" by blast
  have state: "(c = LF \<and> (strict \<longrightarrow> cr)) = (c = LF)" using Cons.prems by auto
  have "receive_data strict ls cr (stuff_dots ls (c # m) @ t) =
      map_option (\<lambda>(x, rest). (c # x, rest)) (receive_data strict (c = LF) (c = CR) (stuff_dots (c = LF) m @ t))"
  proof (cases "ls \<and> c = CHR ''.''")
    case True
    then show ?thesis by (simp add: CRLF_def)
  next
    case False
    then show ?thesis by (auto simp: state)
  qed
  then show ?case unfolding IH by (auto simp: option.map_comp comp_def split_beta)
qed

lemma receive_end: "receive_data strict ls cr (END_OF_DATA @ rest) = Some (CRLF, rest)"
  by (simp add: END_OF_DATA_def CRLF_def)

text \<open>C36: transparency of the DATA phase. Whatever the message contains, lines of single dots included,
  the receiving server ends the data exactly where the client does and has read the message, up to
  the line ends at its very end; a server that insists on CR LF does so for every message
  without bare line feeds, a lenient one for every message.\<close>

theorem dot_stuff_transparent:
  assumes "strict \<longrightarrow> no_bare_lf True msg"
  shows "receive_data strict True True (dot_stuff msg @ END_OF_DATA @ rest) = Some (strip_line_ends msg @ CRLF, rest)"
proof -
  obtain t where "msg = strip_line_ends msg @ t" using strip_line_ends_prefix by blast
  then have "strict \<longrightarrow> no_bare_lf True (strip_line_ends msg)" using assms no_bare_lf_prefix by metis
  from receive_stuffed [OF this, of True "END_OF_DATA @ rest"]
  show ?thesis by (auto simp: dot_stuff_strip receive_end)
qed

theorem dot_stuff_transparent_witness:
  "receive_data True True True (dot_stuff (''a'' @ CRLF @ ''.'' @ CRLF @ ''b'') @ END_OF_DATA @ ''x'') =
     Some (''a'' @ CRLF @ ''.'' @ CRLF @ ''b'' @ CRLF, ''x'')"
proof -
  have "True \<longrightarrow> no_bare_lf True (''a'' @ CRLF @ ''.'' @ CRLF @ ''b'')" by code_simp
  moreover have "strip_line_ends (''a'' @ CRLF @ ''.'' @ CRLF @ ''b'') = ''a'' @ CRLF @ ''.'' @ CRLF @ ''b''" by code_simp
  ultimately show ?thesis using dot_stuff_transparent [of True "''a'' @ CRLF @ ''.'' @ CRLF @ ''b''" "''x''"] by simp
qed

subsection \<open>A message is committed at most once\<close>

text \<open>What is written is kept beside the stream.\<close>

definition quiet :: "('n, 'e, 'a) io \<Rightarrow> ('n \<times> string list, 'e, 'a) io" where
  "quiet m p = (case m (fst p) of (r, n) \<Rightarrow> (r, n, snd p))"

definition written :: "string \<Rightarrow> ('n, 'e, 'a) io \<Rightarrow> ('n \<times> string list, 'e, 'a) io" where
  "written s m p = (case m (fst p) of (r, n) \<Rightarrow> (r, n, snd p @ [s]))"

definition logging_writes :: "'n smtp_net \<Rightarrow> ('n \<times> string list) smtp_net" where
  "logging_writes net =
     \<lparr>sn_tcp = quiet (sn_tcp net), sn_server_name_ok = sn_server_name_ok net, sn_tls = quiet (sn_tls net),
      sn_write = (\<lambda>s. written s (sn_write net s)), sn_flush = quiet (sn_flush net),
      sn_read_line = quiet (sn_read_line net), sn_token = quiet (sn_token net),
      sn_security = sn_security net, sn_username = sn_username net\<rparr>"

definition commits :: "string list \<Rightarrow> nat" where
  "commits ws = length (filter (\<lambda>s. s = END_OF_DATA) ws)"

definition same_commits :: "'n \<times> string list \<Rightarrow> 'n \<times> string list \<Rightarrow> bool" where
  "same_commits p p' \<longleftrightarrow> commits (snd p') = commits (snd p)"

lemma same_commits_rel: "reflp same_commits" "transp same_commits"
  by (auto intro!: reflpI transpI simp: same_commits_def)

lemma commits_kept: "io_guarantees same_commits m \<Longrightarrow> commits (snd (snd (m p))) = commits (snd p)"
  unfolding io_guarantees_def same_commits_def by blast

lemmas same_commits_bind = io_guarantees_bind [OF same_commits_rel(2)]
lemmas same_commits_pure [simp] = io_guarantees_pure [OF same_commits_rel(1)]

lemma quiet_same [simp]: "io_guarantees same_commits (quiet m)"
  by (simp add: io_guarantees_def quiet_def same_commits_def split_beta)

lemma written_same: "s \<noteq> END_OF_DATA \<Longrightarrow> io_guarantees same_commits (written s m)"
  by (simp add: io_guarantees_def written_def same_commits_def commits_def split_beta)

lemma logging_writes_simps [simp]:
  "sn_tcp (logging_writes net) = quiet (sn_tcp net)" "sn_tls (logging_writes net) = quiet (sn_tls net)"
  "sn_write (logging_writes net) s = written s (sn_write net s)"
  "sn_flush (logging_writes net) = quiet (sn_flush net)"
  "sn_read_line (logging_writes net) = quiet (sn_read_line net)"
  "sn_token (logging_writes net) = quiet (sn_token net)"
  by (simp_all add: logging_writes_def)

lemma timeout_same [simp]:
  "io_guarantees same_commits (timeout_smtp m) \<longleftrightarrow> io_guarantees same_commits m"
  by (simp add: timeout_smtp_def)

lemma line_not_end: "CR \<notin> set line \<Longrightarrow> line \<noteq> END_OF_DATA" "CRLF \<noteq> END_OF_DATA"
  by (auto simp: END_OF_DATA_def CRLF_def)

lemma smtp_line_same: "io_guarantees same_commits (smtp_line (logging_writes net) line)"
  by (auto simp: smtp_line_def intro!: same_commits_bind written_same line_not_end)

lemma expect_loop_same: "io_guarantees same_commits (expect_smtp_loop (logging_writes net) code n)"
proof -
  have "same_commits w (snd (expect_smtp_loop (logging_writes net) code n w))" for w
  proof (induction "logging_writes net" code n w rule: expect_smtp_loop.induct)
    case (1 code n w)
    obtain r v where r: "timeout_smtp (quiet (sn_read_line net)) w = (r, v)" by (rule prod.exhaust)
    have step: "same_commits w v"
      using commits_kept [of "timeout_smtp (quiet (sn_read_line net))" w] r by (simp add: same_commits_def)
    show ?case
    proof (cases r)
      case (Inl e)
      with r step show ?thesis by (subst expect_smtp_loop.simps) simp
    next
      case (Inr line)
      show ?thesis
      proof (cases "line = [] \<or> 8192 < length line \<or> 65536 < n + length line")
        case True
        with r step Inr show ?thesis by (subst expect_smtp_loop.simps) simp
      next
        case False
        show ?thesis
        proof (cases "reply_line code line")
          case MoreLines
          have "same_commits v (snd (expect_smtp_loop (logging_writes net) code (n + length line) v))"
            using 1 [OF _ Inr False MoreLines] r by simp
          with step have "same_commits w (snd (expect_smtp_loop (logging_writes net) code (n + length line) v))"
            using same_commits_rel(2) by (blast dest: transpD)
          then show ?thesis using r Inr False MoreLines by (subst expect_smtp_loop.simps) simp
        qed (use r step Inr False in \<open>subst expect_smtp_loop.simps, simp\<close>)+
      qed
    qed
  qed
  then show ?thesis by (simp add: io_guarantees_def)
qed

lemma dialogue_same: "io_guarantees same_commits (dialogue (logging_writes net) line code)"
  by (auto simp: dialogue_def expect_smtp_def intro!: same_commits_bind smtp_line_same expect_loop_same)

lemma connect_same: "io_guarantees same_commits (smtp_connect (logging_writes net))"
  unfolding smtp_connect_def expect_smtp_def
  by (auto intro!: same_commits_bind dialogue_same smtp_line_same expect_loop_same split: connection_security.splits)

lemma recipients_same: "io_guarantees same_commits (recipients_dialogue (logging_writes net) rs)"
  by (induction rs) (auto intro!: same_commits_bind dialogue_same)

lemma before_data_same: "io_guarantees same_commits (before_data (logging_writes net) envelope)"
  by (auto simp: before_data_def intro!: same_commits_bind dialogue_same recipients_same)

text \<open>The stuffed text never ends in a line feed, so only the terminator commits.\<close>

lemma drop_line_ends_hd: "drop_line_ends r = LF # t \<Longrightarrow> False"
  by (induction r rule: drop_line_ends.induct) (auto split: if_splits)

lemma dot_stuff_not_end: "dot_stuff m \<noteq> END_OF_DATA"
proof
  assume "dot_stuff m = END_OF_DATA"
  then have "drop_line_ends (rev (stuff_dots True m)) = rev END_OF_DATA"
    by (metis dot_stuff_def strip_line_ends_def rev_rev_ident)
  also have "\<dots> = LF # [CR, CHR ''.'', LF, CR]" by (simp add: END_OF_DATA_def CRLF_def)
  finally show False by (rule drop_line_ends_hd)
qed

lemma send_data_commits:
  assumes "send_data (logging_writes net) m p = (r, p')"
  shows "commits (snd p') \<le> Suc (commits (snd p))" and "r = Inr u \<Longrightarrow> commits (snd p') = Suc (commits (snd p))"
proof -
  obtain r1 p1 where w1: "timeout_smtp (written (dot_stuff m) (sn_write net (dot_stuff m))) p = (r1, p1)" by (rule prod.exhaust)
  have c1: "commits (snd p1) = commits (snd p)"
    using commits_kept [of "timeout_smtp (written (dot_stuff m) (sn_write net (dot_stuff m)))" p] w1
    by (simp add: written_same [OF dot_stuff_not_end])
  have "commits (snd p') \<le> Suc (commits (snd p)) \<and> (\<forall>u. r = Inr u \<longrightarrow> commits (snd p') = Suc (commits (snd p)))"
  proof (cases r1)
    case (Inl e)
    with assms w1 have "r = Inl e" "p' = p1" by (simp_all add: send_data_def io_bind_def)
    with c1 show ?thesis by simp
  next
    case (Inr x)
    obtain r2 p2 where w2: "timeout_smtp (written END_OF_DATA (sn_write net END_OF_DATA)) p1 = (r2, p2)" by (rule prod.exhaust)
    have c2: "commits (snd p2) = Suc (commits (snd p))"
      using w2 c1 by (auto simp: timeout_smtp_def io_map_err_def written_def commits_def split: prod.splits)
    have rest: "io_guarantees same_commits (io_bind (timeout_smtp (quiet (sn_flush net))) (\<lambda>_. expect_smtp (logging_writes net) 250))"
      by (auto simp: expect_smtp_def intro!: same_commits_bind expect_loop_same)
    have "commits (snd p') = Suc (commits (snd p))"
    proof (cases r2)
      case (Inl e)
      with assms w1 w2 Inr have "p' = p2" by (simp add: send_data_def io_bind_def)
      with c2 show ?thesis by simp
    next
      case (Inr y)
      with assms w1 w2 \<open>r1 = Inr x\<close>
      have "io_bind (timeout_smtp (quiet (sn_flush net))) (\<lambda>_. expect_smtp (logging_writes net) 250) p2 = (r, p')"
        by (simp add: send_data_def io_bind_eval [where m = "timeout_smtp (written (dot_stuff m) (sn_write net (dot_stuff m)))"]
            io_bind_eval [where m = "timeout_smtp (written END_OF_DATA (sn_write net END_OF_DATA))"])
      with commits_kept [OF rest, of p2] c2 show ?thesis by simp
    qed
    then show ?thesis by simp
  qed
  then show "commits (snd p') \<le> Suc (commits (snd p))" and "r = Inr u \<Longrightarrow> commits (snd p') = Suc (commits (snd p))"
    by blast+
qed

lemma transaction_commits:
  assumes "smtp_transaction (logging_writes net) envelope m p = (r, p')"
  shows "commits (snd p') \<le> Suc (commits (snd p))"
    and "r = Inr u \<Longrightarrow> commits (snd p') = Suc (commits (snd p))"
    and "r = Inl (e, False) \<Longrightarrow> commits (snd p') = commits (snd p)"
proof -
  obtain r1 p1 where b: "before_data (logging_writes net) envelope p = (r1, p1)" by (rule prod.exhaust)
  have c1: "commits (snd p1) = commits (snd p)"
    using commits_kept [OF before_data_same, of net envelope p] b by simp
  obtain r2 p2 where d: "send_data (logging_writes net) m p1 = (r2, p2)" by (rule prod.exhaust)
  have run: "r1 = Inl f \<Longrightarrow> r = Inl (f, False) \<and> p' = p1"
      "r1 = Inr x \<Longrightarrow> r = map_err (\<lambda>e. (e, True)) r2 \<and> p' = p2" for f x
    using assms b d by (simp_all add: smtp_transaction_def io_bind_def io_map_err_def)
  note c2 = send_data_commits [OF d]
  show "commits (snd p') \<le> Suc (commits (snd p))"
    using run c1 c2(1) by (cases r1) auto
  show "r = Inr u \<Longrightarrow> commits (snd p') = Suc (commits (snd p))"
    using run c1 c2(2) by (cases r1; cases r2) auto
  show "r = Inl (e, False) \<Longrightarrow> commits (snd p') = commits (snd p)"
    using run c1 by (cases r1; cases r2) auto
qed

definition committed :: "('n \<times> string list) smtp_world \<Rightarrow> nat" where
  "committed w = commits (snd (sw_net w))"

lemma on_stream_eq: "on_stream m w = (r, w') \<longleftrightarrow> (\<exists>n. m (sw_net w) = (r, n) \<and> w' = w\<lparr>sw_net := n\<rparr>)"
  by (auto simp: on_stream_def split: prod.splits)

lemma connect_committed:
  "on_stream (smtp_connect (logging_writes net)) w = (r, w') \<Longrightarrow> committed w' = committed w"
  using commits_kept [OF connect_same, of net "sw_net w"] by (auto simp: on_stream_eq committed_def)

lemma attempts_committed:
  "send_attempts k (logging_writes net) envelope m w = (r, w') \<Longrightarrow>
     committed w' \<le> Suc (committed w) \<and> (r = Inr u \<longrightarrow> committed w' = Suc (committed w))"
proof (induction k arbitrary: w)
  case (Suc k)
  let ?open = "if sw_open w then (Inr (), w)
      else (case on_stream (smtp_connect (logging_writes net)) w of
              (Inl e, w1) \<Rightarrow> (Inl e, w1) | (Inr _, w1) \<Rightarrow> (Inr (), w1\<lparr>sw_open := True\<rparr>))"
  obtain r1 w1 where open_stream: "?open = (r1, w1)" by (rule prod.exhaust)
  have "committed (snd ?open) = committed w"
  proof (cases "sw_open w")
    case False
    obtain rc wc where rc: "on_stream (smtp_connect (logging_writes net)) w = (rc, wc)" by (rule prod.exhaust)
    show ?thesis using connect_committed [OF rc] unfolding rc by (cases rc) (simp_all add: False committed_def)
  qed simp
  then have c1: "committed w1 = committed w" unfolding open_stream by simp
  show ?case
  proof (cases r1)
    case (Inl e)
    with Suc.prems open_stream have "w' = w1" "r = Inl e" by (simp_all add: Let_def)
    with c1 show ?thesis by simp
  next
    case (Inr x)
    obtain r2 w2 where tr: "on_stream (smtp_transaction (logging_writes net) envelope m) w1 = (r2, w2)" by (rule prod.exhaust)
    then obtain n where n: "smtp_transaction (logging_writes net) envelope m (sw_net w1) = (r2, n)"
      and w2: "w2 = w1\<lparr>sw_net := n\<rparr>" by (auto simp: on_stream_eq)
    have c2: "committed w2 \<le> Suc (committed w)" "r2 = Inr u \<Longrightarrow> committed w2 = Suc (committed w)"
      "r2 = Inl (e, False) \<Longrightarrow> committed w2 = committed w" for u e
      using transaction_commits [OF n] c1 by (simp_all add: w2 committed_def)
    note run = Suc.prems [unfolded send_attempts.simps Let_def open_stream Inr, simplified, unfolded tr, simplified]
    show ?thesis
    proof (cases r2)
      case (Inr y)
      with run have "w' = w2" by simp
      with c2(1,2) Inr show ?thesis by simp
    next
      case (Inl f)
      obtain e after_data where f: "f = (e, after_data)" by (rule prod.exhaust)
      consider "e = Panicked" | "e \<noteq> Panicked" "after_data \<or> \<not> sw_open w \<or> k = 0"
        | "e \<noteq> Panicked" "\<not> after_data" "sw_open w" "k \<noteq> 0" by blast
      then show ?thesis
      proof cases
        case 1
        with run Inl f have "w' = w2" "r = Inl Panicked" by simp_all
        with c2(1) show ?thesis by simp
      next
        case 2
        with run Inl f have "w' = w2\<lparr>sw_open := False\<rparr>" "r = Inl e" by (cases e; simp)+
        with c2(1) show ?thesis by (simp add: committed_def)
      next
        case 3
        with run Inl f have "send_attempts k (logging_writes net) envelope m (w2\<lparr>sw_open := False\<rparr>) = (r, w')"
          by (cases e) simp_all
        from Suc.IH [OF this] c2(3) Inl f 3 show ?thesis by (simp add: committed_def)
      qed
    qed
  qed
qed auto

text \<open>C11: a message is never delivered twice. However the connection breaks, one call of the transport writes
  the terminator that commits the message at most once, and exactly once when it reports success:
  a stale connection is replaced only before DATA.\<close>

theorem delivered_at_most_once:
  assumes "xoauth2_send (logging_writes net) envelope rfc822 w = (r, w')"
  shows "committed w' \<le> Suc (committed w) \<and> (r = Inr () \<longrightarrow> committed w' = Suc (committed w))"
  using assms attempts_committed [of 2 net envelope rfc822]
  by (auto simp: xoauth2_send_def io_bind_def io_lift_def split: sum.splits)

text \<open>A server that answers from a list of lines.\<close>

definition scripted_net :: "string list smtp_net" where
  "scripted_net =
     \<lparr>sn_tcp = io_return (), sn_server_name_ok = True, sn_tls = io_return (), sn_write = (\<lambda>_. io_return ()),
      sn_flush = io_return (),
      sn_read_line = (\<lambda>ls. case ls of [] \<Rightarrow> (Inl (), []) | l # rest \<Rightarrow> (Inr l, rest)),
      sn_token = io_return ''t'', sn_security = ImplicitTls, sn_username = ''u''\<rparr>"

lemma scripted_reply:
  assumes "reply_line code l = ReplyDone" and "l \<noteq> []" and "length l \<le> 8192"
  shows "expect_smtp (logging_writes scripted_net) code (l # ls, ws) = (Inr (), ls, ws)"
  using assms unfolding expect_smtp_def
  by (subst expect_smtp_loop.simps)
    (simp add: logging_writes_def scripted_net_def timeout_smtp_def io_map_err_def quiet_def)

lemma scripted_line:
  "CR \<notin> set line \<Longrightarrow> LF \<notin> set line \<Longrightarrow> NUL \<notin> set line \<Longrightarrow> length line \<le> 8192 \<Longrightarrow>
   smtp_line (logging_writes scripted_net) line (ls, ws) = (Inr (), ls, ws @ [line, CRLF])"
  by (simp add: smtp_line_def logging_writes_def scripted_net_def timeout_smtp_def io_map_err_def
      written_def quiet_def io_return_def io_bind_def)

lemma scripted_write:
  "timeout_smtp (sn_write (logging_writes scripted_net) s) (ls, ws) = (Inr (), ls, ws @ [s])"
  "timeout_smtp (sn_flush (logging_writes scripted_net)) (ls, ws) = (Inr (), ls, ws)"
  by (simp_all add: logging_writes_def scripted_net_def timeout_smtp_def io_map_err_def
      written_def quiet_def io_return_def)

lemma reply_lines:
  "reply_line 250 ''250 ok'' = ReplyDone" "reply_line 354 ''354 go'' = ReplyDone"
  by (simp_all add: reply_line_def parse_uint_def u16_max_def ascii_defs is_continuation_def Let_def)

theorem delivered_at_most_once_witness:
  "\<exists>w'. xoauth2_send (logging_writes scripted_net) \<lparr>sv_from = ''a@x'', sv_recipients = [''b@x'']\<rparr> ''hi''
      \<lparr>sw_open = True, sw_net = ([''250 ok'', ''250 ok'', ''354 go'', ''250 ok''], [])\<rparr> = (Inr (), w')
    \<and> committed w' = 1"
proof -
  let ?w = "\<lparr>sw_open = True, sw_net = ([''250 ok'', ''250 ok'', ''354 go'', ''250 ok''], [])\<rparr>
      :: (string list \<times> string list) smtp_world"
  let ?run = "xoauth2_send (logging_writes scripted_net) \<lparr>sv_from = ''a@x'', sv_recipients = [''b@x'']\<rparr> ''hi'' ?w"
  have "fst ?run = Inr ()"
    by (simp add: xoauth2_send_def validate_smtp_address_def char_consts io_bind_def io_lift_def numeral_2_eq_2
        on_stream_def smtp_transaction_def before_data_def send_data_def dialogue_def scripted_line scripted_reply
        reply_lines io_map_err_def io_return_def scripted_write del: logging_writes_simps)
  then have run: "?run = (Inr (), snd ?run)" by (metis prod.collapse)
  from delivered_at_most_once [OF run] run show ?thesis by (auto simp: committed_def commits_def)
qed

text \<open>A reply whose fourth byte continues a character makes the client task panic: the code is cut out with
  a slice of the line.\<close>

theorem malformed_reply_panics:
  "expect_smtp (logging_writes scripted_net) 250 ([CHR ''2'', CHR ''5'', CHR 0xC3, CHR 0xA9, LF] # ls, ws) =
     (Inl Panicked, ls, ws)"
  unfolding expect_smtp_def
  by (subst expect_smtp_loop.simps)
    (simp add: logging_writes_def scripted_net_def timeout_smtp_def io_map_err_def quiet_def reply_line_def
      is_continuation_def byte_of_def smtp_failure_def)

end
