(* ===== verification/Avatars.thy ===== *)
theory Avatars
  imports Models "HOL-Library.Word"
begin

section \<open>Fetching sender pictures\<close>

text \<open>
  The avatar service of \<open>daemon.rs\<close>: which URLs a client may ask for, which addresses the daemon may
  connect to, how much it reads, and what it keeps in its cache. The crate \<open>url\<close>, the resolver, the
  HTTP client and the file system are parameters; the parser of IP addresses is the standard library's.
  An IPv4 address is its four octets and an IPv6 address the list of its eight segments.
\<close>

subsection \<open>Addresses\<close>

type_synonym ipv4 = "8 word \<times> 8 word \<times> 8 word \<times> 8 word"
type_synonym ipv6 = "16 word list"

datatype ip_addr = V4 ipv4 | V6 ipv6

fun is_public_ipv4 :: "ipv4 \<Rightarrow> bool" where
  "is_public_ipv4 (first, second, third, fourth) =
     (\<not> (first = 0
       \<or> first = 10
       \<or> first = 127
       \<or> (first = 100 \<and> 64 \<le> second \<and> second \<le> 127)
       \<or> (first = 169 \<and> second = 254)
       \<or> (first = 172 \<and> 16 \<le> second \<and> second \<le> 31)
       \<or> (first = 192 \<and> second = 0 \<and> third = 0)
       \<or> (first = 192 \<and> second = 0 \<and> third = 2)
       \<or> (first = 192 \<and> second = 88 \<and> third = 99)
       \<or> (first = 192 \<and> second = 168)
       \<or> (first = 198 \<and> (second = 18 \<or> second = 19))
       \<or> (first = 198 \<and> second = 51 \<and> third = 100)
       \<or> (first = 203 \<and> second = 0 \<and> third = 113)
       \<or> first \<ge> 224))"

text \<open>\<open>Ipv6Addr::to_ipv4_mapped\<close>: the range \<open>::ffff:0:0/96\<close>.\<close>

definition to_ipv4_mapped :: "ipv6 \<Rightarrow> ipv4 option" where
  "to_ipv4_mapped segments =
     (if take 6 segments = [0, 0, 0, 0, 0, 0xFFFF]
      then (let ab = segments ! 6; cd = segments ! 7 in
            Some (ucast (drop_bit 8 ab), ucast ab, ucast (drop_bit 8 cd), ucast cd))
      else None)"

definition is_public_ipv6 :: "ipv6 \<Rightarrow> bool" where
  "is_public_ipv6 address =
     (case to_ipv4_mapped address of
        Some mapped \<Rightarrow> is_public_ipv4 mapped
      | None \<Rightarrow> and (address ! 0) 0xE000 = 0x2000 \<and> \<not> (address ! 0 = 0x2001 \<and> address ! 1 = 0x0DB8))"

fun is_public_ip :: "ip_addr \<Rightarrow> bool" where
  "is_public_ip (V4 address) = is_public_ipv4 address"
| "is_public_ip (V6 address) = is_public_ipv6 address"

text \<open>The order of addresses, in which \<open>sort_unstable\<close> leaves them: IPv4 first, then by their numbers.\<close>

fun ip_key :: "ip_addr \<Rightarrow> nat \<times> nat list" where
  "ip_key (V4 (a, b, c, d)) = (0, [unat a, unat b, unat c, unat d])"
| "ip_key (V6 segments) = (1, map unat segments)"

lemma ip_key_inject: "ip_key x = ip_key y \<longleftrightarrow> x = y"
proof -
  have "map unat xs = map unat ys \<longleftrightarrow> xs = ys" for xs ys :: "16 word list"
    by (rule inj_map_eq_map) (simp add: inj_on_def word_unat_eq_iff)
  then show ?thesis
    by (cases x rule: ip_key.cases; cases y rule: ip_key.cases) (auto simp: word_unat_eq_iff)
qed

instantiation ip_addr :: linorder
begin

definition less_eq_ip_addr :: "ip_addr \<Rightarrow> ip_addr \<Rightarrow> bool" where
  "less_eq_ip_addr x y \<longleftrightarrow> ip_key x \<le> ip_key y"

definition less_ip_addr :: "ip_addr \<Rightarrow> ip_addr \<Rightarrow> bool" where
  "less_ip_addr x y \<longleftrightarrow> ip_key x < ip_key y"

instance
  by standard (unfold less_eq_ip_addr_def less_ip_addr_def, auto dest: order.antisym simp: ip_key_inject)

end

subsection \<open>The standard library's parser of addresses\<close>

text \<open>\<open>Parser::read_number\<close>: digits of the radix as long as they come, too many or too large a number
  fail.\<close>

definition digit_in :: "nat \<Rightarrow> char \<Rightarrow> nat option" where
  "digit_in radix c =
     (let v = (if is_ascii_digit c then Some (byte_of c - 48)
               else if 65 \<le> byte_of c \<and> byte_of c \<le> 70 then Some (byte_of c - 55)
               else if 97 \<le> byte_of c \<and> byte_of c \<le> 102 then Some (byte_of c - 87)
               else None)
      in case v of Some d \<Rightarrow> if d < radix then Some d else None | None \<Rightarrow> None)"

definition read_number :: "nat \<Rightarrow> nat \<Rightarrow> bool \<Rightarrow> nat \<Rightarrow> string \<Rightarrow> (nat \<times> string) option" where
  "read_number radix max_digits allow_zero_prefix max_value s =
     (let ds = takeWhile (\<lambda>c. digit_in radix c \<noteq> None) s;
          value = foldl (\<lambda>a c. a * radix + the (digit_in radix c)) 0 ds in
      if ds = [] \<or> max_digits < length ds \<or> max_value < value
         \<or> (\<not> allow_zero_prefix \<and> hd ds = CHR ''0'' \<and> 1 < length ds)
      then None else Some (value, drop (length ds) s))"

definition read_given_char :: "char \<Rightarrow> string \<Rightarrow> string option" where
  "read_given_char c s = (case s of [] \<Rightarrow> None | x # r \<Rightarrow> if x = c then Some r else None)"

definition read_separator :: "char \<Rightarrow> nat \<Rightarrow> (string \<Rightarrow> ('a \<times> string) option) \<Rightarrow> string \<Rightarrow> ('a \<times> string) option" where
  "read_separator sep i p s = (if 0 < i then Option.bind (read_given_char sep s) p else p s)"

definition read_octet :: "nat \<Rightarrow> string \<Rightarrow> (nat \<times> string) option" where
  "read_octet i = read_separator (CHR ''.'') i (read_number 10 3 False 255)"

definition read_ipv4_addr :: "string \<Rightarrow> (ipv4 \<times> string) option" where
  "read_ipv4_addr s =
     Option.bind (read_octet 0 s) (\<lambda>(a, s).
     Option.bind (read_octet 1 s) (\<lambda>(b, s).
     Option.bind (read_octet 2 s) (\<lambda>(c, s).
     Option.bind (read_octet 3 s) (\<lambda>(d, s).
     Some ((word_of_nat a, word_of_nat b, word_of_nat c, word_of_nat d), s)))))"

definition segments_of_ipv4 :: "ipv4 \<Rightarrow> 16 word list" where
  "segments_of_ipv4 x = (case x of (a, b, c, d) \<Rightarrow>
     [or (push_bit 8 (ucast a)) (ucast b), or (push_bit 8 (ucast c)) (ucast d)])"

text \<open>\<open>read_groups\<close> into a slice of \<open>limit\<close> groups, of which \<open>i\<close> are read.\<close>

function read_groups :: "nat \<Rightarrow> nat \<Rightarrow> string \<Rightarrow> (16 word list \<times> bool) \<times> string" where
  "read_groups limit i s =
     (if limit \<le> i then (([], False), s)
      else (case (if i < limit - 1 then read_separator (CHR '':'') i read_ipv4_addr s else None) of
              Some (v4, r) \<Rightarrow> ((segments_of_ipv4 v4, True), r)
            | None \<Rightarrow>
                (case read_separator (CHR '':'') i (read_number 16 4 True 65535) s of
                   None \<Rightarrow> (([], False), s)
                 | Some (g, r) \<Rightarrow>
                     (case read_groups limit (i + 1) r of ((gs, v4), t) \<Rightarrow> ((word_of_nat g # gs, v4), t)))))"
  by pat_completeness auto
termination
  by (relation "measure (\<lambda>(limit, i, _). limit - i)") auto

declare read_groups.simps [simp del]

definition read_ipv6_addr :: "string \<Rightarrow> (ipv6 \<times> string) option" where
  "read_ipv6_addr s =
     (case read_groups 8 0 s of
        ((head, head_ipv4), r) \<Rightarrow>
          if length head = 8 then Some (head, r)
          else if head_ipv4 then None
          else Option.bind (read_given_char (CHR '':'') r) (\<lambda>r.
               Option.bind (read_given_char (CHR '':'') r) (\<lambda>r.
               (case read_groups (8 - (length head + 1)) 0 r of
                  ((tail, _), t) \<Rightarrow> Some (head @ replicate (8 - length head - length tail) 0 @ tail, t)))))"

definition parse_ip_addr :: "string \<Rightarrow> ip_addr option" where
  "parse_ip_addr s =
     (case (case read_ipv4_addr s of Some (a, r) \<Rightarrow> Some (V4 a, r)
            | None \<Rightarrow> map_option (\<lambda>(a, r). (V6 a, r)) (read_ipv6_addr s)) of
        Some (a, []) \<Rightarrow> Some a
      | _ \<Rightarrow> None)"

subsection \<open>Permitted URLs\<close>

text \<open>The views of a parsed \<open>url::Url\<close> that the code reads; \<open>u_query_pairs\<close> is what \<open>query_pairs\<close>
  decodes.\<close>

record url =
  u_text :: string
  u_scheme :: string
  u_username :: string
  u_password :: "string option"
  u_host :: "string option"
  u_port :: "nat option"
  u_path :: string
  u_query :: "string option"
  u_query_pairs :: "(string \<times> string) list"
  u_fragment :: "string option"

definition is_public_domain_name :: "string \<Rightarrow> bool" where
  "is_public_domain_name value =
     (if value = [] \<or> 253 < length value \<or> contains_sub value ''..'' \<or> CHR ''.'' \<notin> set value
         \<or> \<not> list_all (\<lambda>c. is_ascii_alphanumeric c \<or> c = CHR ''.'' \<or> c = CHR ''-'') value then False
      else
        let labels = split_on (CHR ''.'') value in
        if list_ex (\<lambda>l. l = [] \<or> 63 < length l \<or> starts_with l ''-'' \<or> ends_with l ''-'') labels then False
        else to_ascii_lowercase (last labels) \<notin> {''localhost'', ''local'', ''lan'', ''home'', ''internal'',
               ''invalid'', ''test'', ''example''}
             \<and> to_ascii_lowercase value \<notin> {''example.com'', ''example.net'', ''example.org''})"

definition is_allowed_avatar_url :: "url \<Rightarrow> string \<Rightarrow> bool" where
  "is_allowed_avatar_url u host =
     (if host = ''www.gravatar.com'' then
        (case strip_prefix (u_path u) ''/avatar/'' of
           None \<Rightarrow> False
         | Some hash \<Rightarrow>
             if length hash \<noteq> 32 \<or> \<not> list_all is_ascii_hexdigit hash then False
             else length (u_query_pairs u) = 2 \<and> (''d'', ''blank'') \<in> set (u_query_pairs u)
                  \<and> (''s'', ''128'') \<in> set (u_query_pairs u))
      else if host \<noteq> ''icons.duckduckgo.com'' \<or> u_query u \<noteq> None then False
      else (case Option.bind (strip_prefix (u_path u) ''/ip3/'') (\<lambda>p. strip_suffix p ''.ico'') of
              None \<Rightarrow> False
            | Some domain \<Rightarrow> is_public_domain_name domain))"

definition validate_avatar_url :: "(string \<Rightarrow> url option) \<Rightarrow> string \<Rightarrow> rpc_error + url" where
  "validate_avatar_url parse_url input =
     (let value = trim input in
      if value = [] \<or> 2048 < length value \<or> list_ex is_control_char (utf8_chars value)
      then Inl (invalid_params ''invalid avatar URL'')
      else
        bind_r (ok_or (parse_url value) (invalid_params ''invalid avatar URL'')) (\<lambda>u.
        bind_r (ok_or (map_option to_ascii_lowercase (u_host u)) (invalid_params ''invalid avatar URL host'')) (\<lambda>host.
        if u_scheme u = ''https'' \<and> u_username u = [] \<and> u_password u = None \<and> u_port u = Some 443
           \<and> u_fragment u = None \<and> parse_ip_addr host = None \<and> is_allowed_avatar_url u host
        then Inr u
        else Inl (invalid_params ''avatar URL is not from a supported HTTPS image host''))))"

subsection \<open>Image types\<close>

definition detect_avatar_content_type :: "string \<Rightarrow> string option" where
  "detect_avatar_content_type bytes =
     (if starts_with bytes [CHR 0x89, CHR ''P'', CHR ''N'', CHR ''G'', CR, LF, CHR 0x1A, LF] then Some ''image/png''
      else if starts_with bytes [CHR 0xFF, CHR 0xD8, CHR 0xFF] then Some ''image/jpeg''
      else if starts_with bytes ''GIF87a'' \<or> starts_with bytes ''GIF89a'' then Some ''image/gif''
      else if 12 \<le> length bytes \<and> starts_with bytes ''RIFF'' \<and> take 4 (drop 8 bytes) = ''WEBP'' then Some ''image/webp''
      else if starts_with bytes [NUL, NUL, CHR 0x01, NUL] then Some ''image/x-icon''
      else None)"

subsection \<open>The cache and the fetch\<close>

text \<open>A file of the private cache: \<open>f_age\<close> is the time since its last change in seconds, when that is not in the
  future.\<close>

record cached_file =
  f_regular :: bool
  f_uid :: nat
  f_mode :: nat
  f_bytes :: string
  f_age :: "nat option"

record avatar_fetched =
  av_path :: string
  av_content_type :: string
  av_size :: nat
  av_cached :: bool

definition MAX_AVATAR_BYTES :: nat where "MAX_AVATAR_BYTES = 512 * 1024"
definition AVATAR_CACHE_TTL :: nat where "AVATAR_CACHE_TTL = 7 * 24 * 60 * 60"

text \<open>\<open>uid\<close> is \<open>current_uid()\<close>; a mode with a bit of the group or of others is refused.
  The I/O errors of \<open>symlink_metadata\<close> and of \<open>read\<close> are arguments.\<close>

definition read_cached_avatar ::
    "nat \<Rightarrow> string \<Rightarrow> string + cached_file option \<Rightarrow> string option \<Rightarrow> string + avatar_fetched option" where
  "read_cached_avatar uid path file read_error =
     (case file of
        Inl m \<Rightarrow> Inl m
      | Inr None \<Rightarrow> Inr None
      | Inr (Some f) \<Rightarrow>
          if \<not> f_regular f \<or> f_uid f \<noteq> uid \<or> f_mode f mod 64 \<noteq> 0 \<or> MAX_AVATAR_BYTES < length (f_bytes f)
          then Inl ''avatar cache file is not private, regular, and bounded''
          else if \<not> (case f_age f of None \<Rightarrow> False | Some age \<Rightarrow> age \<le> AVATAR_CACHE_TTL) then Inr None
          else if read_error \<noteq> None then Inl (the read_error)
          else (case detect_avatar_content_type (f_bytes f) of
                  None \<Rightarrow> Inr None
                | Some content_type \<Rightarrow> Inr (Some \<lparr>av_path = path, av_content_type = content_type,
                    av_size = length (f_bytes f), av_cached = True\<rparr>)))"

record http_response =
  hr_success :: bool
  hr_content_length :: "nat option"
  hr_chunks :: "(unit + string) list"

text \<open>What the daemon may ask of its surroundings. \<open>en_resolve\<close> is the DNS lookup, \<open>en_get\<close> the request
  to the addresses it is given, \<open>en_cache_key\<close> the name \<open>Uuid::new_v5\<close> gives a URL, \<open>en_write\<close> whether the
  cache can be written.\<close>

record avatar_env =
  en_parse_url :: "string \<Rightarrow> url option"
  en_resolve :: "string \<Rightarrow> ip_addr list option"
  en_get :: "ip_addr list \<Rightarrow> url \<Rightarrow> http_response option"
  en_cache_key :: "string \<Rightarrow> string"
  en_uid :: nat
  en_client :: bool
  en_stat_error :: "string option"
  en_read_error :: "string option"
  en_write :: bool

record avatar_world =
  aw_cache :: "string \<rightharpoonup> cached_file"
  aw_contacted :: "(ip_addr list \<times> url) list"

definition avatar_fetch_error :: "string \<Rightarrow> rpc_error" where
  "avatar_fetch_error msg = rpc_err (-32020) msg"

definition avatar_too_large_error :: rpc_error where
  "avatar_too_large_error = rpc_err (-32021) ''avatar image exceeds the 512 KiB limit''"

fun read_chunks :: "string \<Rightarrow> (unit + string) list \<Rightarrow> rpc_error + string" where
  "read_chunks bytes [] = Inr bytes"
| "read_chunks bytes (Inl _ # cs) = Inl (avatar_fetch_error ''avatar image transfer failed'')"
| "read_chunks bytes (Inr chunk # cs) =
     (if MAX_AVATAR_BYTES - length bytes < length chunk then Inl avatar_too_large_error
      else read_chunks (bytes @ chunk) cs)"

definition avatar_body :: "http_response option \<Rightarrow> rpc_error + (string \<times> string)" where
  "avatar_body response =
     bind_r (ok_or response (avatar_fetch_error ''avatar image is temporarily unavailable'')) (\<lambda>r.
     bind_r (require (hr_success r) (rpc_err (-32023) ''avatar image was not found'')) (\<lambda>_.
     bind_r (require (case hr_content_length r of None \<Rightarrow> True | Some n \<Rightarrow> n \<le> MAX_AVATAR_BYTES) avatar_too_large_error) (\<lambda>_.
     bind_r (read_chunks [] (hr_chunks r)) (\<lambda>bytes.
     bind_r (ok_or (detect_avatar_content_type bytes) (rpc_err (-32022) ''avatar response was not a supported image''))
       (\<lambda>content_type. Inr (bytes, content_type))))))"

definition avatar_cache_path :: "avatar_env \<Rightarrow> string \<Rightarrow> string \<Rightarrow> string" where
  "avatar_cache_path env cache_directory url_text = cache_directory @ ''/'' @ en_cache_key env url_text"

definition fetch_avatar ::
    "avatar_env \<Rightarrow> string \<Rightarrow> string \<Rightarrow> avatar_world \<Rightarrow> (rpc_error + avatar_fetched) \<times> avatar_world" where
  "fetch_avatar env cache_directory value w =
     (case validate_avatar_url (en_parse_url env) value of
        Inl e \<Rightarrow> (Inl e, w)
      | Inr u \<Rightarrow>
          (let path = avatar_cache_path env cache_directory (u_text u) in
           case read_cached_avatar (en_uid env) path
                   (case en_stat_error env of Some m \<Rightarrow> Inl m | None \<Rightarrow> Inr (aw_cache w path)) (en_read_error env) of
             Inl m \<Rightarrow> (Inl (internal_error m), w)
           | Inr (Some cached) \<Rightarrow> (Inr cached, w)
           | Inr None \<Rightarrow>
               (let host = the (u_host u) in
                case en_resolve env host of
                  None \<Rightarrow> (Inl (avatar_fetch_error ''avatar host could not be resolved''), w)
                | Some addresses \<Rightarrow>
                    (let resolved = remdups_adj (sort (filter is_public_ip addresses)) in
                     if resolved = []
                     then (Inl (invalid_params ''avatar host did not resolve to a public address''), w)
                     else if \<not> en_client env then (Inl (avatar_fetch_error ''avatar transport is unavailable''), w)
                     else
                       let w = w\<lparr>aw_contacted := aw_contacted w @ [(resolved, u)]\<rparr> in
                       case avatar_body (en_get env resolved u) of
                         Inl e \<Rightarrow> (Inl e, w)
                       | Inr (bytes, content_type) \<Rightarrow>
                           if \<not> en_write env then (Inl (internal_error ''avatar cache could not be written''), w)
                           else (Inr \<lparr>av_path = path, av_content_type = content_type, av_size = length bytes, av_cached = False\<rparr>,
                                 w\<lparr>aw_cache := (aw_cache w)(path \<mapsto> \<lparr>f_regular = True, f_uid = en_uid env,
                                     f_mode = 384, f_bytes = bytes, f_age = Some 0\<rparr>)\<rparr>)))))"

subsection \<open>The special ranges of IPv4\<close>

text \<open>A block is a base address and a prefix length, as the registries write them.\<close>

definition ipv4_value :: "ipv4 \<Rightarrow> nat" where
  "ipv4_value x = (case x of (a, b, c, d) \<Rightarrow> ((unat a * 256 + unat b) * 256 + unat c) * 256 + unat d)"

definition in_block :: "nat \<Rightarrow> ipv4 \<times> nat \<Rightarrow> bool" where
  "in_block v block = (v div 2 ^ (32 - snd block) = ipv4_value (fst block) div 2 ^ (32 - snd block))"

definition SPECIAL_BLOCKS :: "(ipv4 \<times> nat) list" where
  "SPECIAL_BLOCKS = [((0, 0, 0, 0), 8), ((10, 0, 0, 0), 8), ((100, 64, 0, 0), 10), ((127, 0, 0, 0), 8),
     ((169, 254, 0, 0), 16), ((172, 16, 0, 0), 12), ((192, 0, 0, 0), 24), ((192, 0, 2, 0), 24),
     ((192, 88, 99, 0), 24), ((192, 168, 0, 0), 16), ((198, 18, 0, 0), 15), ((198, 51, 100, 0), 24),
     ((203, 0, 113, 0), 24), ((224, 0, 0, 0), 4), ((240, 0, 0, 0), 4)]"

lemma octet_prefixes:
  fixes a b c d :: nat
  assumes "b < 256" "c < 256" "d < 256"
  defines "v \<equiv> ((a * 256 + b) * 256 + c) * 256 + d"
  shows "v div 2 ^ 28 = a div 16" "v div 2 ^ 24 = a" "v div 2 ^ 22 = a * 4 + b div 64" "v div 2 ^ 20 = a * 16 + b div 16"
    "v div 2 ^ 17 = a * 128 + b div 2" "v div 2 ^ 16 = a * 256 + b" "v div 2 ^ 8 = (a * 256 + b) * 256 + c"
  using assms by (simp_all add: v_def)

lemma mixed_radix:
  fixes q r k a p :: nat
  assumes "q < k" "r < k"
  shows "a * k + q = p * k + r \<longleftrightarrow> a = p \<and> q = r"
proof
  assume eq: "a * k + q = p * k + r"
  then have "(a * k + q) div k = (p * k + r) div k" "(a * k + q) mod k = (p * k + r) mod k" by simp_all
  with assms show "a = p \<and> q = r" by simp
qed simp

lemma div_eq_iff_nat:
  fixes n k q :: nat
  assumes "0 < k"
  shows "n div k = q \<longleftrightarrow> q * k \<le> n \<and> n < Suc q * k"
proof -
  have "n div k = q \<longleftrightarrow> q \<le> n div k \<and> n div k < Suc q" by auto
  then show ?thesis using assms by (simp only: less_eq_div_iff_mult_less_eq div_less_iff_less_mult)
qed

lemma unat_octet: "unat (x :: 8 word) < 256"
  using unsigned_less [of x] by simp

text \<open>C38: an IPv4 address is public exactly when it is in none of the fifteen blocks that the registries reserve for
  special use (this host, private, shared, loopback, link-local, documentation, benchmarking, relay, multicast,
  reserved): the nested comparisons of octets and the prefix arithmetic agree on all addresses.\<close>

theorem public_ipv4_blocks:
  "is_public_ipv4 address \<longleftrightarrow> \<not> list_ex (in_block (ipv4_value address)) SPECIAL_BLOCKS"
proof -
  obtain a b c d where x: "address = (a, b, c, d)" by (cases address)
  define A B C v where "A = unat a" and "B = unat b" and "C = unat c" and v: "v = ipv4_value (a, b, c, d)"
  have bounds: "B < 256" "C < 256" "unat d < 256" "A < 256"
    using unat_octet by (simp_all add: A_def B_def C_def)
  have prefixes: "v div 2 ^ 28 = A div 16" "v div 2 ^ 24 = A" "v div 2 ^ 22 = A * 4 + B div 64" "v div 2 ^ 20 = A * 16 + B div 16"
    "v div 2 ^ 17 = A * 128 + B div 2" "v div 2 ^ 16 = A * 256 + B" "v div 2 ^ 8 = (A * 256 + B) * 256 + C"
    unfolding v ipv4_value_def prod.case A_def [symmetric] B_def [symmetric] C_def [symmetric]
    by (rule octet_prefixes [OF bounds(1-3)])+
  have parts: "A * 4 + B div 64 = 401 \<longleftrightarrow> A = 100 \<and> B div 64 = 1" "A * 16 + B div 16 = 2753 \<longleftrightarrow> A = 172 \<and> B div 16 = 1"
    "A * 128 + B div 2 = 25353 \<longleftrightarrow> A = 198 \<and> B div 2 = 9"
    using mixed_radix [of "B div 64" 4 1 A 100] mixed_radix [of "B div 16" 16 1 A 172] mixed_radix [of "B div 2" 128 9 A 198]
      bounds(1) by (simp_all add: div_less_iff_less_mult)
  have ranges: "B div 64 = 1 \<longleftrightarrow> 64 \<le> B \<and> B \<le> 127" "B div 16 = 1 \<longleftrightarrow> 16 \<le> B \<and> B \<le> 31"
    "B div 2 = 9 \<longleftrightarrow> B = 18 \<or> B = 19" "A div 16 = 14 \<or> A div 16 = 15 \<longleftrightarrow> 224 \<le> A"
    using bounds(4) by (auto simp: div_eq_iff_nat)
  have pairs: "A * 256 + B = 43518 \<longleftrightarrow> A = 169 \<and> B = 254" "A * 256 + B = 49320 \<longleftrightarrow> A = 192 \<and> B = 168"
    "A * 256 + B = 49152 \<longleftrightarrow> A = 192 \<and> B = 0" "A * 256 + B = 49240 \<longleftrightarrow> A = 192 \<and> B = 88"
    "A * 256 + B = 50739 \<longleftrightarrow> A = 198 \<and> B = 51" "A * 256 + B = 51968 \<longleftrightarrow> A = 203 \<and> B = 0"
    using mixed_radix [of B 256 254 A 169] mixed_radix [of B 256 168 A 192] mixed_radix [of B 256 0 A 192]
      mixed_radix [of B 256 88 A 192] mixed_radix [of B 256 51 A 198] mixed_radix [of B 256 0 A 203] bounds(1) by simp_all
  have triples: "(A * 256 + B) * 256 + C = 12582912 \<longleftrightarrow> A * 256 + B = 49152 \<and> C = 0"
    "(A * 256 + B) * 256 + C = 12582914 \<longleftrightarrow> A * 256 + B = 49152 \<and> C = 2"
    "(A * 256 + B) * 256 + C = 12605539 \<longleftrightarrow> A * 256 + B = 49240 \<and> C = 99"
    "(A * 256 + B) * 256 + C = 12989284 \<longleftrightarrow> A * 256 + B = 50739 \<and> C = 100"
    "(A * 256 + B) * 256 + C = 13303921 \<longleftrightarrow> A * 256 + B = 51968 \<and> C = 113"
    using mixed_radix [of C 256 0 "A * 256 + B" 49152] mixed_radix [of C 256 2 "A * 256 + B" 49152]
      mixed_radix [of C 256 99 "A * 256 + B" 49240] mixed_radix [of C 256 100 "A * 256 + B" 50739]
      mixed_radix [of C 256 113 "A * 256 + B" 51968] bounds(2) by simp_all
  have raw: "list_ex (in_block v) SPECIAL_BLOCKS \<longleftrightarrow> v div 2 ^ 24 = 0 \<or> v div 2 ^ 24 = 10 \<or> v div 2 ^ 22 = 401
      \<or> v div 2 ^ 24 = 127 \<or> v div 2 ^ 16 = 43518 \<or> v div 2 ^ 20 = 2753 \<or> v div 2 ^ 8 = 12582912
      \<or> v div 2 ^ 8 = 12582914 \<or> v div 2 ^ 8 = 12605539 \<or> v div 2 ^ 16 = 49320 \<or> v div 2 ^ 17 = 25353
      \<or> v div 2 ^ 8 = 12989284 \<or> v div 2 ^ 8 = 13303921 \<or> (v div 2 ^ 28 = 14 \<or> v div 2 ^ 28 = 15)"
    by (simp add: SPECIAL_BLOCKS_def in_block_def ipv4_value_def)
  have code: "is_public_ipv4 (a, b, c, d) \<longleftrightarrow> \<not> (A = 0 \<or> A = 10 \<or> A = 127 \<or> A = 100 \<and> 64 \<le> B \<and> B \<le> 127
      \<or> A = 169 \<and> B = 254 \<or> A = 172 \<and> 16 \<le> B \<and> B \<le> 31
      \<or> A = 192 \<and> B = 0 \<and> C = 0 \<or> A = 192 \<and> B = 0 \<and> C = 2 \<or> A = 192 \<and> B = 88 \<and> C = 99 \<or> A = 192 \<and> B = 168
      \<or> A = 198 \<and> (B = 18 \<or> B = 19) \<or> A = 198 \<and> B = 51 \<and> C = 100 \<or> A = 203 \<and> B = 0 \<and> C = 113 \<or> 224 \<le> A)"
    by (simp only: is_public_ipv4.simps word_unat_eq_iff word_le_nat_alt A_def B_def C_def) simp
  show ?thesis
    unfolding x v [symmetric] raw prefixes parts triples pairs ranges code by argo
qed

subsection \<open>The special ranges of IPv6\<close>

text \<open>The source says that special ranges are rejected. It rejects all but \<open>2000::/3\<close>, and in it the documentation
  range \<open>2001:db8::/32\<close>; these special ranges of \<open>2000::/3\<close> pass: the 6to4 form of a loopback address, a Teredo
  address, the benchmarking range \<open>2001:2::/48\<close> and the newer documentation range \<open>3fff::/20\<close>.\<close>

theorem special_ipv6_ranges_accepted:
  "is_public_ip (V6 [0x2002, 0x7F00, 1, 0, 0, 0, 0, 0])
   \<and> is_public_ip (V6 [0x2001, 0, 0x7F00, 1, 0, 0, 0, 0])
   \<and> is_public_ip (V6 [0x2001, 2, 0, 0, 0, 0, 0, 1])
   \<and> is_public_ip (V6 [0x3FFF, 1, 0, 0, 0, 0, 0, 1])"
  by (simp add: is_public_ipv6_def to_ipv4_mapped_def)

subsection \<open>What a fetch does\<close>

definition avatar_url_ok :: "url \<Rightarrow> bool" where
  "avatar_url_ok u \<longleftrightarrow> u_scheme u = ''https'' \<and> u_username u = [] \<and> u_password u = None \<and> u_port u = Some 443
     \<and> (\<exists>h. u_host u = Some h \<and> to_ascii_lowercase h \<in> {''www.gravatar.com'', ''icons.duckduckgo.com''})"

lemma validate_avatar_url_ok: "validate_avatar_url p v = Inr u \<Longrightarrow> avatar_url_ok u"
  by (auto simp: validate_avatar_url_def Let_def result_simps avatar_url_ok_def is_allowed_avatar_url_def split: if_splits)

lemma read_chunks_bound:
  "read_chunks b cs = Inr r \<Longrightarrow> length b \<le> MAX_AVATAR_BYTES \<Longrightarrow> length r \<le> MAX_AVATAR_BYTES"
  by (induction b cs rule: read_chunks.induct) (auto split: if_splits)

lemma avatar_body_Inr:
  "avatar_body r = Inr (bytes, ct) \<Longrightarrow> length bytes \<le> MAX_AVATAR_BYTES \<and> detect_avatar_content_type bytes = Some ct"
  by (auto simp: avatar_body_def result_simps dest: read_chunks_bound)

lemma read_cached_avatar_Some:
  "read_cached_avatar uid path f e = Inr (Some a) \<Longrightarrow>
   av_cached a \<and> av_size a \<le> MAX_AVATAR_BYTES \<and> (\<exists>x. f = Inr (Some x) \<and> f_uid x = uid \<and> av_size a = length (f_bytes x)
     \<and> detect_avatar_content_type (f_bytes x) = Some (av_content_type a))"
  by (auto simp: read_cached_avatar_def split: sum.splits option.splits if_splits)

text \<open>The outcomes of a fetch: refused, served from the cache, refused after a connection, or fetched.\<close>

lemma fetch_avatar_cases:
  assumes "fetch_avatar env dir value w = (r, w')"
  obtains (before) e where "r = Inl e" "w' = w"
  | (hit) a where "r = Inr a" "w' = w" "av_cached a" "av_size a \<le> MAX_AVATAR_BYTES"
  | (failed) e addrs u where "r = Inl e" "w' = w\<lparr>aw_contacted := aw_contacted w @ [(addrs, u)]\<rparr>"
      "addrs \<noteq> []" "list_all is_public_ip addrs" "avatar_url_ok u"
  | (fetched) a addrs u bytes where "r = Inr a" "addrs \<noteq> []" "list_all is_public_ip addrs" "avatar_url_ok u"
      "validate_avatar_url (en_parse_url env) value = Inr u"
      "av_path a = avatar_cache_path env dir (u_text u)" "\<not> av_cached a" "av_size a = length bytes"
      "length bytes \<le> MAX_AVATAR_BYTES" "detect_avatar_content_type bytes = Some (av_content_type a)"
      "w' = w\<lparr>aw_contacted := aw_contacted w @ [(addrs, u)],
              aw_cache := (aw_cache w)(av_path a \<mapsto> \<lparr>f_regular = True, f_uid = en_uid env, f_mode = 384,
                f_bytes = bytes, f_age = Some 0\<rparr>)\<rparr>"
proof (cases "validate_avatar_url (en_parse_url env) value")
  case (Inl e)
  with assms show ?thesis by (intro before [of e]) (simp_all add: fetch_avatar_def)
next
  case (Inr u)
  note valid = this
  let ?path = "avatar_cache_path env dir (u_text u)"
  let ?file = "case en_stat_error env of Some m \<Rightarrow> Inl m | None \<Rightarrow> Inr (aw_cache w ?path)"
  show ?thesis
  proof (cases "read_cached_avatar (en_uid env) ?path ?file (en_read_error env)")
    case (Inl m)
    with assms valid show ?thesis by (intro before [of "internal_error m"]) (simp_all add: fetch_avatar_def Let_def)
  next
    case cached: (Inr c)
    show ?thesis
    proof (cases c)
      case (Some a)
      with assms valid cached have "r = Inr a" "w' = w" by (simp_all add: fetch_avatar_def Let_def)
      then show ?thesis using hit read_cached_avatar_Some [OF cached [unfolded Some]] by blast
    next
      case None
      show ?thesis
      proof (cases "en_resolve env (the (u_host u))")
        case None2: None
        with assms valid cached None show ?thesis
          by (intro before [of "avatar_fetch_error ''avatar host could not be resolved''"]) (simp_all add: fetch_avatar_def Let_def)
      next
        case found: (Some addresses)
        let ?addrs = "remdups_adj (sort (filter is_public_ip addresses))"
        have public: "list_all is_public_ip ?addrs" by (simp add: list_all_iff)
        have ok: "avatar_url_ok u" using valid by (rule validate_avatar_url_ok)
        show ?thesis
        proof (cases "?addrs = [] \<or> \<not> en_client env")
          case True
          with assms valid cached None found before show ?thesis
            by (cases "?addrs = []") (auto simp: fetch_avatar_def Let_def)
        next
          case False
          show ?thesis
          proof (cases "avatar_body (en_get env ?addrs u)")
            case (Inl e)
            with assms valid cached None found False failed [of e ?addrs u] public ok show ?thesis
              by (auto simp: fetch_avatar_def Let_def)
          next
            case body: (Inr b)
            obtain bytes ct where b: "b = (bytes, ct)" by (cases b)
            note facts = avatar_body_Inr [OF body [unfolded b]]
            show ?thesis
            proof (cases "en_write env")
              case True
              with assms valid cached None found False body b public ok facts show ?thesis
                by (intro fetched [of "\<lparr>av_path = ?path, av_content_type = ct, av_size = length bytes, av_cached = False\<rparr>" ?addrs u bytes])
                  (auto simp: fetch_avatar_def Let_def)
            next
              case False2: False
              with assms valid cached None found False body b failed [of _ ?addrs u] public ok show ?thesis
                by (auto simp: fetch_avatar_def Let_def)
            qed
          qed
        qed
      qed
    qed
  qed
qed


text \<open>A picture fetched is served from the cache by the next request, without a connection.\<close>

lemma fetched_avatar_is_cached:
  assumes "fetch_avatar env dir value w = (Inr a, w')" "\<not> av_cached a"
    and "en_stat_error env = None" "en_read_error env = None"
  shows "fetch_avatar env dir value w' = (Inr (a\<lparr>av_cached := True\<rparr>), w')"
  using assms(1)
proof (cases rule: fetch_avatar_cases)
  case (fetched a' addrs u bytes)
  then have a: "a = a'" by simp
  have "read_cached_avatar (en_uid env) (av_path a) (Inr (aw_cache w' (av_path a))) None
      = Inr (Some (a\<lparr>av_cached := True\<rparr>))"
    unfolding fetched(11) a using fetched by (simp add: read_cached_avatar_def AVATAR_CACHE_TTL_def)
  then show ?thesis using fetched assms(3,4) by (simp add: fetch_avatar_def Let_def a)
qed (use assms in auto)

definition sample_picture :: string where
  "sample_picture = [CHR 0xFF, CHR 0xD8, CHR 0xFF, CHR ''x'']"

definition sample_avatar_url :: url where
  "sample_avatar_url = \<lparr>u_text = ''https://icons.duckduckgo.com/ip3/a.org.ico'', u_scheme = ''https'', u_username = [],
     u_password = None, u_host = Some ''icons.duckduckgo.com'', u_port = Some 443, u_path = ''/ip3/a.org.ico'',
     u_query = None, u_query_pairs = [], u_fragment = None\<rparr>"

definition sample_avatar_env :: avatar_env where
  "sample_avatar_env = \<lparr>en_parse_url = (\<lambda>s. Some (sample_avatar_url\<lparr>u_text := s\<rparr>)),
     en_resolve = (\<lambda>_. Some [V4 (127, 0, 0, 1), V4 (52, 1, 2, 3)]),
     en_get = (\<lambda>_ _. Some \<lparr>hr_success = True, hr_content_length = None, hr_chunks = [Inr sample_picture]\<rparr>),
     en_cache_key = (\<lambda>s. show_nat (length s)), en_uid = 1000, en_client = True, en_stat_error = None,
     en_read_error = None, en_write = True\<rparr>"

definition sample_avatar_world :: avatar_world where
  "sample_avatar_world = \<lparr>aw_cache = Map.empty, aw_contacted = []\<rparr>"

definition sample_fetch :: "(rpc_error + avatar_fetched) \<times> avatar_world" where
  "sample_fetch = fetch_avatar sample_avatar_env ''/c'' ''https://icons.duckduckgo.com/ip3/a.org.ico'' sample_avatar_world"

lemma sample_url_valid:
  "validate_avatar_url (en_parse_url sample_avatar_env) ''https://icons.duckduckgo.com/ip3/a.org.ico'' = Inr sample_avatar_url"
proof -
  let ?t = "''https://icons.duckduckgo.com/ip3/a.org.ico''" and ?h = "''icons.duckduckgo.com''"
  have "trim ?t = ?t" by (rule trim_plain) (simp add: byte_of_def)
  moreover have "utf8_chars ?t = map (\<lambda>c. [c]) ?t" by (rule utf8_chars_ascii) (simp add: byte_of_def)
  then have "\<not> list_ex is_control_char (utf8_chars ?t)" by (simp add: is_control_char_def is_ascii_control_def byte_of_def)
  moreover have "to_ascii_lowercase ?h = ?h" by (simp add: to_ascii_lowercase_def ascii_defs)
  moreover have "parse_ip_addr ?h = None"
    by (simp add: parse_ip_addr_def read_ipv4_addr_def read_octet_def read_separator_def read_number_def digit_in_def
        ascii_defs read_ipv6_addr_def read_groups.simps [of 8 0] read_given_char_def)
  moreover have "is_allowed_avatar_url sample_avatar_url ?h"
    by (simp add: is_allowed_avatar_url_def sample_avatar_url_def strip_prefix_def strip_suffix_def starts_with_def
        ends_with_def is_public_domain_name_def contains_sub_def ascii_defs to_ascii_lowercase_def)
  ultimately show ?thesis
    by (simp add: validate_avatar_url_def sample_avatar_env_def sample_avatar_url_def Let_def)
qed

lemma sample_addresses:
  "remdups_adj (sort (filter is_public_ip [V4 (127, 0, 0, 1), V4 (52, 1, 2, 3)])) = [V4 (52, 1, 2, 3)]"
  by simp

lemma sample_body:
  "avatar_body (Some \<lparr>hr_success = True, hr_content_length = None, hr_chunks = [Inr sample_picture]\<rparr>) = Inr (sample_picture, ''image/jpeg'')"
  by (simp add: avatar_body_def sample_picture_def MAX_AVATAR_BYTES_def detect_avatar_content_type_def starts_with_def)

lemma sample_fetch_result:
  "\<exists>a. fst sample_fetch = Inr a \<and> \<not> av_cached a \<and> av_size a = 4 \<and> av_content_type a = ''image/jpeg''"
  "map fst (aw_contacted (snd sample_fetch)) = [[V4 (52, 1, 2, 3)]]"
  unfolding sample_fetch_def fetch_avatar_def sample_url_valid
  using sample_addresses sample_body
  by (simp_all add: Let_def sample_avatar_env_def sample_avatar_world_def read_cached_avatar_def sample_picture_def)


end
