(* ===== verification/Storage_Invariant.thy ===== *)
theory Storage_Invariant
  imports Storage_State
begin

section \<open>The invariant of the database\<close>

text \<open>
  \<open>db_ok\<close> collects what the schema and the operations keep true of the database: primary keys and
  external slots are unique, foreign keys resolve, the search index holds exactly one current entry
  per message, message identifiers are namespaced by their account, states are drawn from their
  fixed vocabularies and the stored instants are representable. One lemma per statement of
  \<open>Storage_State\<close> shows that it keeps the invariant; the operations compose these.
\<close>

definition AUTH_STATES :: "string list" where
  "AUTH_STATES = [''ready'', ''needs_auth'', ''error'']"

definition OPERATION_STATES :: "string list" where
  "OPERATION_STATES = [''pending'', ''succeeded'', ''failed'']"

definition fts_matches :: "message_row list \<Rightarrow> fts_row list \<Rightarrow> bool" where
  "fts_matches ms fts \<longleftrightarrow> keyed fts_message_id fts \<and> set fts = fts_of ` set ms"

definition message_row_ok :: "message_row \<Rightarrow> bool" where
  "message_row_ok r \<longleftrightarrow> is_normalized_message_id (message_account r) (message_key r)
     \<and> valid_ts (ms_timestamp (m_summary (mr_message r)))"

definition task_ok :: "task \<Rightarrow> bool" where
  "task_ok t \<longleftrightarrow> valid_ts (t_created_at t)
     \<and> (case t_due_at t of None \<Rightarrow> True | Some u \<Rightarrow> valid_ts u)"

definition event_ok :: "calendar_event \<Rightarrow> bool" where
  "event_ok e \<longleftrightarrow> valid_ts (e_start_at e) \<and> valid_ts (e_end_at e)"

definition slots_unique :: "('r \<Rightarrow> string) \<Rightarrow> ('r \<Rightarrow> 's) \<Rightarrow> 'r list \<Rightarrow> bool" where
  "slots_unique ext slot rows \<longleftrightarrow> distinct (map slot (filter (\<lambda>r. ext r \<noteq> []) rows))"

definition keys_ok :: "db \<Rightarrow> bool" where
  "keys_ok d \<longleftrightarrow> keyed account_key (d_accounts d) \<and> keyed mailbox_key (d_mailboxes d)
     \<and> keyed sync_key (d_sync_state d) \<and> keyed message_key (d_messages d)
     \<and> keyed t_id (d_tasks d) \<and> keyed e_id (d_events d)
     \<and> keyed op_id (d_operations d) \<and> keyed dr_id (d_drafts d)"

definition refs_ok :: "db \<Rightarrow> bool" where
  "refs_ok d \<longleftrightarrow> (\<forall>r \<in> set (d_messages d). has_account (message_account r) d)
     \<and> (\<forall>m \<in> set (d_mailboxes d). has_account (mb_account_id m) d)
     \<and> (\<forall>s \<in> set (d_sync_state d). has_mailbox (sync_key s) d)
     \<and> (\<forall>r \<in> set (d_drafts d). has_account (dr_account_id r) d)"

definition rows_ok :: "db \<Rightarrow> bool" where
  "rows_ok d \<longleftrightarrow> (\<forall>r \<in> set (d_messages d). message_row_ok r)
     \<and> (\<forall>t \<in> set (d_tasks d). task_ok t) \<and> (\<forall>e \<in> set (d_events d). event_ok e)
     \<and> (\<forall>r \<in> set (d_drafts d). valid_ts (dr_updated_at r))
     \<and> (\<forall>r \<in> set (d_accounts d). ar_auth_state r \<in> set AUTH_STATES)
     \<and> (\<forall>r \<in> set (d_operations d). op_state r \<in> set OPERATION_STATES)"

definition slots_ok :: "db \<Rightarrow> bool" where
  "slots_ok d \<longleftrightarrow> slots_unique t_external_id task_slot (d_tasks d)
     \<and> slots_unique e_external_id event_slot (d_events d)"

definition db_ok :: "db \<Rightarrow> bool" where
  "db_ok d \<longleftrightarrow> keys_ok d \<and> refs_ok d \<and> rows_ok d \<and> slots_ok d
     \<and> fts_matches (d_messages d) (d_messages_fts d) \<and> d_revision d \<le> i64_max"

lemmas db_ok_defs = db_ok_def keys_ok_def refs_ok_def rows_ok_def slots_ok_def
lemmas has_defs = has_account_def has_mailbox_def

lemma db_ok_empty: "db_ok empty_db"
  by (simp add: db_ok_defs empty_db_def slots_unique_def fts_matches_def uint_bounds)

lemma db_okD:
  assumes "db_ok d"
  shows "keyed account_key (d_accounts d)" "keyed mailbox_key (d_mailboxes d)"
    "keyed sync_key (d_sync_state d)" "keyed message_key (d_messages d)"
    "keyed t_id (d_tasks d)" "keyed e_id (d_events d)"
    "keyed op_id (d_operations d)" "keyed dr_id (d_drafts d)"
    "fts_matches (d_messages d) (d_messages_fts d)"
  using assms by (auto simp: db_ok_def keys_ok_def)

subsection \<open>Frame lemmas: replacing one table\<close>

lemma db_ok_set_revision: "db_ok d \<Longrightarrow> n \<le> i64_max \<Longrightarrow> db_ok (d\<lparr>d_revision := n\<rparr>)"
  by (simp add: db_ok_defs has_defs)

lemma db_ok_bump: "db_ok d \<Longrightarrow> bump_revision d = Inr (n, d') \<Longrightarrow> db_ok d'"
  by (auto simp: result_simps intro!: db_ok_set_revision)

lemma db_ok_set_operations:
  "db_ok d \<Longrightarrow> keyed op_id ops \<Longrightarrow> (\<forall>r \<in> set ops. op_state r \<in> set OPERATION_STATES)
     \<Longrightarrow> db_ok (d\<lparr>d_operations := ops\<rparr>)"
  by (simp add: db_ok_defs has_defs)

lemma db_ok_set_drafts:
  "db_ok d \<Longrightarrow> keyed dr_id ds
     \<Longrightarrow> (\<forall>r \<in> set ds. valid_ts (dr_updated_at r) \<and> has_account (dr_account_id r) d)
     \<Longrightarrow> db_ok (d\<lparr>d_drafts := ds\<rparr>)"
  by (simp add: db_ok_defs has_defs)

lemma db_ok_set_tasks:
  "db_ok d \<Longrightarrow> keyed t_id ts \<Longrightarrow> (\<forall>t \<in> set ts. task_ok t)
     \<Longrightarrow> slots_unique t_external_id task_slot ts \<Longrightarrow> db_ok (d\<lparr>d_tasks := ts\<rparr>)"
  by (simp add: db_ok_defs has_defs)

lemma db_ok_set_events:
  "db_ok d \<Longrightarrow> keyed e_id es \<Longrightarrow> (\<forall>e \<in> set es. event_ok e)
     \<Longrightarrow> slots_unique e_external_id event_slot es \<Longrightarrow> db_ok (d\<lparr>d_events := es\<rparr>)"
  by (simp add: db_ok_defs has_defs)

lemma db_ok_set_messages:
  "db_ok d \<Longrightarrow> keyed message_key ms
     \<Longrightarrow> (\<forall>r \<in> set ms. message_row_ok r \<and> has_account (message_account r) d)
     \<Longrightarrow> fts_matches ms fts \<Longrightarrow> db_ok (d\<lparr>d_messages := ms, d_messages_fts := fts\<rparr>)"
  by (simp add: db_ok_defs has_defs)

lemma db_ok_set_accounts:
  "db_ok d \<Longrightarrow> keyed account_key as \<Longrightarrow> (\<forall>r \<in> set as. ar_auth_state r \<in> set AUTH_STATES)
     \<Longrightarrow> (\<And>a. has_account a d \<Longrightarrow> has_row account_key a as) \<Longrightarrow> db_ok (d\<lparr>d_accounts := as\<rparr>)"
  by (simp add: db_ok_defs has_defs)

lemma db_ok_set_mailboxes:
  "db_ok d \<Longrightarrow> keyed mailbox_key ms \<Longrightarrow> (\<forall>m \<in> set ms. has_account (mb_account_id m) d)
     \<Longrightarrow> (\<And>k. has_mailbox k d \<Longrightarrow> has_row mailbox_key k ms) \<Longrightarrow> db_ok (d\<lparr>d_mailboxes := ms\<rparr>)"
  by (simp add: db_ok_defs has_defs)

lemma db_ok_set_sync_state:
  "db_ok d \<Longrightarrow> keyed sync_key ss \<Longrightarrow> (\<forall>s \<in> set ss. has_mailbox (sync_key s) d)
     \<Longrightarrow> db_ok (d\<lparr>d_sync_state := ss\<rparr>)"
  by (simp add: db_ok_defs has_defs)

subsection \<open>The search index follows the messages\<close>

lemma fts_of_id [simp]: "fts_message_id (fts_of r) = message_key r"
  by (simp add: fts_of_def message_key_def Let_def)

lemma fts_unchanged: "\<not> fts_content_changed old new \<Longrightarrow> fts_of old = fts_of new"
  by (simp add: fts_content_changed_def fts_of_def Let_def)

lemma fts_delete_matches:
  assumes "fts_matches ms fts" and "keyed message_key ms" and "old \<in> set ms"
  shows "fts_matches (delete_rows (\<lambda>r. message_key r = message_key old) ms)
     (fts_delete_trigger old fts)"
  using assms unfolding fts_matches_def fts_delete_trigger_def by auto

lemma fts_insert_matches:
  assumes "fts_matches ms fts" and "\<not> has_row message_key (message_key new) ms"
  shows "fts_matches (ms @ [new]) (fts_insert_trigger new fts)"
proof -
  have "message_key new \<notin> fts_message_id ` set fts"
    using assms by (auto simp: fts_matches_def has_row_iff)
  with assms show ?thesis
    by (auto simp: fts_matches_def fts_insert_trigger_def keyed_def image_iff)
qed

lemma fts_update_matches:
  assumes m: "fts_matches ms fts" and k: "keyed message_key ms"
    and old: "find_row message_key i ms = Some old" and key: "message_key (f old) = i"
  shows "fts_matches (update_row message_key i f ms) (fts_update_trigger old (f old) fts)"
proof -
  have old': "old \<in> set ms" "message_key old = i" using old by (auto dest: find_row_SomeD)
  have uniq: "r = old" if "r \<in> set ms" "message_key r = i" for r
    using that old' k by (auto simp: keyed_def distinct_map inj_on_def)
  have rows: "set (update_row message_key i f ms) = {r \<in> set ms. message_key r \<noteq> i} \<union> {f old}"
  proof -
    have "(\<exists>r \<in> set ms. message_key r = i \<and> x = f r) \<longleftrightarrow> x = f old" for x
      using old' uniq by blast
    then show ?thesis by (auto simp: mem_update_row)
  qed
  show ?thesis
  proof (cases "fts_content_changed old (f old)")
    case True
    have fk: "keyed fts_message_id fts" and fs: "set fts = fts_of ` set ms"
      using m by (auto simp: fts_matches_def)
    have "set (delete_rows (\<lambda>x. fts_message_id x = i) fts) =
        fts_of ` {r \<in> set ms. message_key r \<noteq> i}"
      using fs by auto
    moreover have "keyed fts_message_id (delete_rows (\<lambda>x. fts_message_id x = i) fts)"
      using fk ..
    ultimately show ?thesis
      using True old' key
      by (auto simp: fts_matches_def fts_update_trigger_def fts_insert_trigger_def
          fts_delete_trigger_def rows keyed_def)
  next
    case False
    define rest where "rest = {r \<in> set ms. message_key r \<noteq> i}"
    have ms: "set ms = rest \<union> {old}"
      unfolding rest_def using old' uniq by blast
    have "fts_of ` set (update_row message_key i f ms) = fts_of ` set ms"
      unfolding rows rest_def [symmetric] unfolding ms using fts_unchanged [OF False] by simp
    with m False show ?thesis by (simp add: fts_matches_def fts_update_trigger_def)
  qed
qed

lemma set_fold_fts_delete:
  "set (fold fts_delete_trigger olds fts) =
     {f \<in> set fts. fts_message_id f \<notin> message_key ` set olds}"
  by (induction olds arbitrary: fts) (auto simp: fts_delete_trigger_def)

lemma keyed_fold_fts_delete:
  "keyed fts_message_id fts \<Longrightarrow> keyed fts_message_id (fold fts_delete_trigger olds fts)"
  by (induction olds arbitrary: fts) (auto simp: fts_delete_trigger_def)

lemma fts_deletes_match:
  assumes "fts_matches ms fts" and "keyed message_key ms"
  shows "fts_matches (delete_rows p ms) (fold fts_delete_trigger (filter p ms) fts)"
proof -
  have inj: "r = r'" if "r \<in> set ms" "r' \<in> set ms" "message_key r = message_key r'" for r r'
    using that assms(2) by (auto simp: keyed_def distinct_map inj_on_def)
  have "set (fold fts_delete_trigger (filter p ms) fts) = fts_of ` set (delete_rows p ms)"
    using assms(1) by (auto simp: fts_matches_def set_fold_fts_delete dest: inj)
  then show ?thesis
    using assms(1) by (simp add: fts_matches_def keyed_fold_fts_delete)
qed

subsection \<open>Each statement keeps the invariant\<close>

lemma db_ok_upsert_message:
  assumes ok: "db_ok d" and up: "upsert_message merge new d = Inr d'"
    and new: "message_row_ok new"
    and merge: "\<And>old. message_key old = message_key new \<Longrightarrow>
      message_key (merge old new) = message_key new \<and>
      message_account (merge old new) = message_account new \<and> message_row_ok (merge old new)"
  shows "db_ok d'"
proof -
  let ?ms = "upsert_row message_key merge new (d_messages d)"
  let ?fts = "case find_row message_key (message_key new) (d_messages d) of
                 None \<Rightarrow> fts_insert_trigger new (d_messages_fts d)
               | Some old \<Rightarrow> fts_update_trigger old (merge old new) (d_messages_fts d)"
  have acct: "has_account (message_account new) d"
    and d': "d' = d\<lparr>d_messages := ?ms, d_messages_fts := ?fts\<rparr>"
    using up by (auto simp: upsert_message_def result_simps)
  have k: "keyed message_key (d_messages d)" and m: "fts_matches (d_messages d) (d_messages_fts d)"
    using db_okD [OF ok] by auto
  have "keyed message_key ?ms" using k merge by (intro keyed_upsert_row) auto
  moreover have "\<forall>r \<in> set ?ms. message_row_ok r \<and> has_account (message_account r) d"
    using ok acct new merge by (auto simp: mem_upsert_row db_ok_defs)
  moreover have "fts_matches ?ms ?fts"
  proof (cases "find_row message_key (message_key new) (d_messages d)")
    case None
    then have "\<not> has_row message_key (message_key new) (d_messages d)"
      by (simp add: find_row_None_iff)
    with None m show ?thesis by (simp add: upsert_row_def fts_insert_matches)
  next
    case (Some old)
    then have "has_row message_key (message_key new) (d_messages d)"
      by (auto simp: has_row_iff dest: find_row_SomeD)
    moreover have "message_key old = message_key new" using Some by (auto dest: find_row_SomeD)
    ultimately show ?thesis
      using Some merge fts_update_matches [OF m k Some, of "\<lambda>old. merge old new"]
      by (simp add: upsert_row_def)
  qed
  ultimately show ?thesis using ok d' by (simp add: db_ok_set_messages)
qed

lemma db_ok_update_message:
  assumes ok: "db_ok d"
    and f: "\<And>r. message_key (f r) = message_key r \<and> message_account (f r) = message_account r
      \<and> (message_row_ok r \<longrightarrow> message_row_ok (f r))"
  shows "db_ok (update_message i f d)"
proof (cases "find_row message_key i (d_messages d)")
  case None
  with ok show ?thesis by (simp add: update_message_def)
next
  case (Some old)
  have k: "keyed message_key (d_messages d)" and m: "fts_matches (d_messages d) (d_messages_fts d)"
    using db_okD [OF ok] by auto
  have "message_key (f old) = i" using Some f by (auto dest: find_row_SomeD)
  then have "fts_matches (update_row message_key i f (d_messages d))
      (fts_update_trigger old (f old) (d_messages_fts d))"
    by (rule fts_update_matches [OF m k Some])
  moreover have "keyed message_key (update_row message_key i f (d_messages d))"
    using k f by (intro keyed_update_row) auto
  moreover have "\<forall>r \<in> set (update_row message_key i f (d_messages d)).
      message_row_ok r \<and> has_account (message_account r) d"
    using ok f by (auto simp: mem_update_row db_ok_defs)
  ultimately show ?thesis using ok Some by (simp add: update_message_def db_ok_set_messages)
qed

lemma db_ok_delete_messages:
  assumes ok: "db_ok d"
  shows "db_ok (delete_messages p d)"
  unfolding delete_messages_def
proof (rule db_ok_set_messages [OF ok])
  show "keyed message_key (delete_rows p (d_messages d))"
    using db_okD(4) [OF ok] by (rule keyed_delete_rows)
  show "\<forall>r \<in> set (delete_rows p (d_messages d)). message_row_ok r \<and> has_account (message_account r) d"
    using ok by (simp add: db_ok_defs)
  show "fts_matches (delete_rows p (d_messages d))
      (fold fts_delete_trigger (filter p (d_messages d)) (d_messages_fts d))"
    using db_okD(9,4) [OF ok] by (rule fts_deletes_match)
qed

lemma slots_unique_upsert:
  assumes s: "slots_unique ext slot rows" and k: "keyed key rows"
    and free: "ext new \<noteq> [] \<Longrightarrow> \<forall>x \<in> set rows. key x \<noteq> key new \<longrightarrow> slot x \<noteq> slot new"
    and merge: "\<And>old. ext (merge old new) = ext new \<and> slot (merge old new) = slot new"
  shows "slots_unique ext slot (upsert_row key merge new rows)"
proof (cases "has_row key (key new) rows")
  case False
  then have "\<forall>x \<in> set rows. key x \<noteq> key new" by (auto simp: has_row_iff)
  with s free False show ?thesis
    by (auto simp: slots_unique_def upsert_row_def)
next
  case True
  have "slots_unique ext slot (update_row key (key new) (\<lambda>old. merge old new) rows)"
    using s k free
  proof (induction rows)
    case (Cons x xs)
    have IH: "slots_unique ext slot (update_row key (key new) (\<lambda>old. merge old new) xs)"
      using Cons by (auto simp: slots_unique_def keyed_def split: if_splits)
    show ?case
    proof (cases "key x = key new")
      case True
      then have no: "\<forall>y \<in> set xs. key y \<noteq> key new"
        using Cons.prems(2) by (force simp: keyed_def image_iff)
      then have "update_row key (key new) (\<lambda>old. merge old new) xs = xs"
        by (simp add: update_row_def map_idI)
      with True no IH Cons.prems(3) merge show ?thesis
        by (auto simp: slots_unique_def update_row_def)
    next
      case False
      then have "ext x \<noteq> [] \<Longrightarrow> slot x \<notin> slot ` {y \<in> set xs. ext y \<noteq> []}"
        using Cons.prems(1) by (auto simp: slots_unique_def)
      moreover have "ext new \<noteq> [] \<Longrightarrow> slot x \<noteq> slot new" using Cons.prems(3) False by simp
      ultimately show ?thesis
        using IH False merge by (auto simp: slots_unique_def update_row_def)
    qed
  qed (simp add: slots_unique_def update_row_def)
  with True show ?thesis by (simp add: upsert_row_def)
qed

lemma slots_unique_delete:
  "slots_unique ext slot rows \<Longrightarrow> slots_unique ext slot (delete_rows p rows)"
  by (induction rows) (auto simp: slots_unique_def delete_rows_def)

lemma db_ok_upsert_task:
  assumes ok: "db_ok d" and up: "upsert_task_row t d = Inr d'" and t: "task_ok t"
  shows "db_ok d'"
proof -
  have free: "t_external_id t \<noteq> [] \<Longrightarrow>
      \<forall>x \<in> set (d_tasks d). t_id x \<noteq> t_id t \<longrightarrow> task_slot x \<noteq> task_slot t"
    and d': "d' = d\<lparr>d_tasks := upsert_row t_id merge_task t (d_tasks d)\<rparr>"
    using up by (auto simp: upsert_task_row_def list_ex_iff split: if_splits)
  have "slots_unique t_external_id task_slot (upsert_row t_id merge_task t (d_tasks d))"
    using ok free by (intro slots_unique_upsert)
      (auto simp: db_ok_defs merge_task_def task_slot_def)
  moreover have "keyed t_id (upsert_row t_id merge_task t (d_tasks d))"
    using db_okD [OF ok] by (intro keyed_upsert_row) (auto simp: merge_task_def)
  moreover have "\<forall>x \<in> set (upsert_row t_id merge_task t (d_tasks d)). task_ok x"
    using ok t by (auto simp: mem_upsert_row db_ok_defs merge_task_def task_ok_def)
  ultimately show ?thesis using ok d' by (simp add: db_ok_set_tasks)
qed

lemma db_ok_upsert_event:
  assumes ok: "db_ok d" and up: "upsert_event_row e d = Inr d'" and e: "event_ok e"
  shows "db_ok d'"
proof -
  have free: "e_external_id e \<noteq> [] \<Longrightarrow>
      \<forall>x \<in> set (d_events d). e_id x \<noteq> e_id e \<longrightarrow> event_slot x \<noteq> event_slot e"
    and d': "d' = d\<lparr>d_events := upsert_row e_id merge_event e (d_events d)\<rparr>"
    using up by (auto simp: upsert_event_row_def list_ex_iff split: if_splits)
  have "slots_unique e_external_id event_slot (upsert_row e_id merge_event e (d_events d))"
    using ok free by (intro slots_unique_upsert) (auto simp: db_ok_defs merge_event_def)
  moreover have "keyed e_id (upsert_row e_id merge_event e (d_events d))"
    using db_okD [OF ok] by (intro keyed_upsert_row) (auto simp: merge_event_def)
  moreover have "\<forall>x \<in> set (upsert_row e_id merge_event e (d_events d)). event_ok x"
    using ok e by (auto simp: mem_upsert_row db_ok_defs merge_event_def)
  ultimately show ?thesis using ok d' by (simp add: db_ok_set_events)
qed

lemma db_ok_delete_tasks: "db_ok d \<Longrightarrow> db_ok (d\<lparr>d_tasks := delete_rows p (d_tasks d)\<rparr>)"
  by (rule db_ok_set_tasks) (simp_all add: db_ok_defs slots_unique_delete keyed_delete_rows)

lemma db_ok_delete_events: "db_ok d \<Longrightarrow> db_ok (d\<lparr>d_events := delete_rows p (d_events d)\<rparr>)"
  by (rule db_ok_set_events) (simp_all add: db_ok_defs slots_unique_delete keyed_delete_rows)

lemma db_ok_delete_operations:
  "db_ok d \<Longrightarrow> db_ok (d\<lparr>d_operations := delete_rows p (d_operations d)\<rparr>)"
  by (rule db_ok_set_operations) (simp_all add: db_ok_defs keyed_delete_rows)

lemma db_ok_insert_operation:
  assumes ok: "db_ok d" and ins: "insert_operation r d = Inr d'"
    and st: "op_state r \<in> set OPERATION_STATES"
  shows "db_ok d'"
proof -
  have free: "\<not> has_row op_id (op_id r) (d_operations d)"
    and d': "d' = d\<lparr>d_operations := d_operations d @ [r]\<rparr>"
    using ins by (auto simp: insert_operation_def split: if_splits)
  have "keyed op_id (d_operations d @ [r])"
    using db_okD(7) [OF ok] free by (auto simp: keyed_def has_row_iff)
  with ok st show ?thesis unfolding d' by (intro db_ok_set_operations) (auto simp: db_ok_defs)
qed

lemma db_ok_update_operation:
  assumes "db_ok d" and "\<And>r. op_id (f r) = op_id r"
    and "\<And>r. op_state r \<in> set OPERATION_STATES \<Longrightarrow> op_state (f r) \<in> set OPERATION_STATES"
  shows "db_ok (d\<lparr>d_operations := update_row op_id i f (d_operations d)\<rparr>)"
  using assms by (intro db_ok_set_operations keyed_update_row) (auto simp: db_ok_defs mem_update_row)

lemma db_ok_delete_mailboxes: "db_ok d \<Longrightarrow> db_ok (delete_mailboxes p d)"
proof -
  assume ok: "db_ok d"
  let ?ss = "delete_rows (\<lambda>s. list_ex (\<lambda>m. p m \<and> mailbox_key m = sync_key s) (d_mailboxes d))
    (d_sync_state d)"
  have ss: "has_row mailbox_key (sync_key s) (delete_rows p (d_mailboxes d))" if "s \<in> set ?ss" for s
  proof -
    have "has_mailbox (sync_key s) d" using ok that by (auto simp: db_ok_defs)
    then obtain m where m: "m \<in> set (d_mailboxes d)" "mailbox_key m = sync_key s"
      by (auto simp: has_mailbox_def has_row_iff)
    then have "\<not> p m" using that by (auto simp: list_ex_iff)
    with m show ?thesis by (auto simp: has_row_iff)
  qed
  have "keyed sync_key ?ss" using db_okD(3) [OF ok] by (rule keyed_delete_rows)
  moreover have "keyed mailbox_key (delete_rows p (d_mailboxes d))"
    using db_okD(2) [OF ok] by (rule keyed_delete_rows)
  ultimately show "db_ok (delete_mailboxes p d)"
    using ok ss by (auto simp: db_ok_defs has_defs delete_mailboxes_def)
qed

lemma delete_messages_frame [simp]:
  "d_accounts (delete_messages p d) = d_accounts d"
  "d_mailboxes (delete_messages p d) = d_mailboxes d"
  "d_sync_state (delete_messages p d) = d_sync_state d"
  "d_drafts (delete_messages p d) = d_drafts d"
  "d_tasks (delete_messages p d) = d_tasks d"
  "d_events (delete_messages p d) = d_events d"
  "d_operations (delete_messages p d) = d_operations d"
  "d_revision (delete_messages p d) = d_revision d"
  "d_messages (delete_messages p d) = delete_rows p (d_messages d)"
  by (simp_all add: delete_messages_def)

lemma delete_mailboxes_frame [simp]:
  "d_accounts (delete_mailboxes p d) = d_accounts d"
  "d_messages (delete_mailboxes p d) = d_messages d"
  "d_messages_fts (delete_mailboxes p d) = d_messages_fts d"
  "d_drafts (delete_mailboxes p d) = d_drafts d"
  "d_tasks (delete_mailboxes p d) = d_tasks d"
  "d_events (delete_mailboxes p d) = d_events d"
  "d_operations (delete_mailboxes p d) = d_operations d"
  "d_revision (delete_mailboxes p d) = d_revision d"
  "d_mailboxes (delete_mailboxes p d) = delete_rows p (d_mailboxes d)"
  by (simp_all add: delete_mailboxes_def)

lemma db_ok_delete_account: "db_ok d \<Longrightarrow> db_ok (delete_account_row a d)"
proof -
  assume ok: "db_ok d"
  define d2 where "d2 = delete_mailboxes (\<lambda>m. mb_account_id m = a)
    (delete_messages (\<lambda>r. message_account r = a) d)"
  have ok2: "db_ok d2" unfolding d2_def using ok
    by (intro db_ok_delete_mailboxes db_ok_delete_messages)
  have msgs: "\<forall>r \<in> set (d_messages d2). message_account r \<noteq> a"
    and mbs: "\<forall>m \<in> set (d_mailboxes d2). mb_account_id m \<noteq> a"
    by (simp_all add: d2_def)
  have keep: "has_row account_key b (delete_rows (\<lambda>r. account_key r = a) (d_accounts d2))"
    if "has_account b d2" "b \<noteq> a" for b
    using that by (auto simp: has_account_def has_row_iff)
  have "db_ok (d2\<lparr>d_accounts := delete_rows (\<lambda>r. account_key r = a) (d_accounts d2),
      d_drafts := delete_rows (\<lambda>r. dr_account_id r = a) (d_drafts d2)\<rparr>)"
    using ok2 msgs mbs keep
    by (auto simp: db_ok_defs has_defs keyed_delete_rows)
  then show ?thesis by (simp add: delete_account_row_def d2_def Let_def)
qed

end
