(* ===== verification/Storage_Operations.thy ===== *)
theory Storage_Operations
  imports Storage_Invariant "HOL-Library.Sublist"
begin

section \<open>The operation log\<close>

text \<open>
  The operations of \<open>storage.rs\<close> on the table \<open>operations\<close>: recording a mail action, an
  outgoing message or an agenda mutation before it is sent to a provider, and recording its
  outcome. The clock is an argument (\<open>now\<close>, or \<open>clk n\<close> for the n-th reading where a loop
  reads it), and so is the UUID that the code draws for a new row.

  The lemmas show that a recorded operation starts pending, that a mail action touches the cached
  messages only when its success is recorded and then touches exactly the listed ones, and that an
  agenda operation commits only from the state pending, so at most once.
\<close>

subsection \<open>Payloads\<close>

text \<open>The serde encoding of a mail action: internally tagged, camelCase fields.\<close>

fun mail_action_json :: "mail_action \<Rightarrow> json" where
  "mail_action_json (MarkRead ids read) = JObj [(''kind'', JStr ''mark_read''),
     (''messageIds'', json_strs ids), (''read'', JBool read)]"
| "mail_action_json (Star ids starred) = JObj [(''kind'', JStr ''star''),
     (''messageIds'', json_strs ids), (''starred'', JBool starred)]"
| "mail_action_json (Archive ids) = JObj [(''kind'', JStr ''archive''),
     (''messageIds'', json_strs ids)]"
| "mail_action_json (Trash ids) = JObj [(''kind'', JStr ''trash''),
     (''messageIds'', json_strs ids)]"
| "mail_action_json (Move ids mailbox) = JObj [(''kind'', JStr ''move''),
     (''messageIds'', json_strs ids), (''mailboxId'', JStr mailbox)]"
| "mail_action_json (SetLabels ids labels) = JObj [(''kind'', JStr ''set_labels''),
     (''messageIds'', json_strs ids), (''labels'', json_strs labels)]"

fun action_message_ids :: "mail_action \<Rightarrow> string list" where
  "action_message_ids (MarkRead ids _) = ids"
| "action_message_ids (Star ids _) = ids"
| "action_message_ids (Archive ids) = ids"
| "action_message_ids (Trash ids) = ids"
| "action_message_ids (Move ids _) = ids"
| "action_message_ids (SetLabels ids _) = ids"

definition AGENDA_KINDS :: "string list" where
  "AGENDA_KINDS = [''agenda_task_create'', ''agenda_task_update'', ''agenda_task_complete'',
     ''agenda_task_delete'', ''agenda_event_create'', ''agenda_event_update'',
     ''agenda_event_delete'']"

text \<open>Which account an operation row belongs to, judged from its payload.\<close>

definition payload_names_account :: "json \<Rightarrow> string \<Rightarrow> bool" where
  "payload_names_account p account_id = list_ex
     (\<lambda>field. Option.bind (json_get field p) json_as_str = Some account_id)
     [''accountId'', ''account_id'']"

definition payload_message_ids :: "json \<Rightarrow> string list" where
  "payload_message_ids p = List.map_filter json_as_str (concat
     (List.map_filter (\<lambda>field. Option.bind (json_get field p) json_as_array)
        [''messageIds'', ''message_ids'']))"

definition operation_payload_belongs_to_account :: "string \<Rightarrow> json_text \<Rightarrow> string \<Rightarrow> bool" where
  "operation_payload_belongs_to_account kind payload account_id =
     (case parse_json payload of
        None \<Rightarrow> False
      | Some p \<Rightarrow>
          if kind = ''mail_send'' \<or> kind \<in> set AGENDA_KINDS then payload_names_account p account_id
          else if kind = ''mail_action''
          then list_ex (is_normalized_message_id account_id) (payload_message_ids p)
          else False)"

definition remove_account_operations :: "string \<Rightarrow> db \<Rightarrow> db" where
  "remove_account_operations account_id d = d\<lparr>d_operations := delete_rows
     (\<lambda>r. op_kind r \<in> set ([''mail_action'', ''mail_send''] @ AGENDA_KINDS)
        \<and> operation_payload_belongs_to_account (op_kind r) (op_payload r) account_id)
     (d_operations d)\<rparr>"

subsection \<open>Recording an operation\<close>

definition new_operation :: "string \<Rightarrow> string \<Rightarrow> json \<Rightarrow> int \<Rightarrow> operation" where
  "new_operation uuid kind payload now = \<lparr>op_id = uuid, op_kind = kind,
     op_payload = JsonText payload, op_state = ''pending'', op_created_at = now,
     op_attempted_at = None, op_last_error = None\<rparr>"

definition record_operation ::
    "string \<Rightarrow> string \<Rightarrow> json \<Rightarrow> int \<Rightarrow> db \<Rightarrow> storage_error + ((string \<times> nat) \<times> db)" where
  "record_operation uuid kind payload now d =
     bind_r (insert_operation (new_operation uuid kind payload now) d) (\<lambda>d1.
     bind_r (bump_revision d1) (\<lambda>(rev, d2). Inr ((uuid, rev), d2)))"

definition validate_mail_action :: "mail_action \<Rightarrow> storage_error + unit" where
  "validate_mail_action action =
     bind_r (require (action_message_ids action \<noteq> [])
       (InvalidData ''mail action has no message ids'')) (\<lambda>_.
     case action of
       Move _ mailbox \<Rightarrow> require (trim mailbox \<noteq> [])
         (InvalidData ''mail move has no destination mailbox'')
     | _ \<Rightarrow> Inr ())"

definition apply_mail_action ::
    "string \<Rightarrow> int \<Rightarrow> mail_action \<Rightarrow> db \<Rightarrow> storage_error + ((string \<times> nat) \<times> db)" where
  "apply_mail_action uuid now action d =
     bind_r (validate_mail_action action) (\<lambda>_.
     record_operation uuid ''mail_action'' (mail_action_json action) now d)"

definition queue_outgoing ::
    "string \<Rightarrow> int \<Rightarrow> outgoing_message \<Rightarrow> db \<Rightarrow> storage_error + ((string \<times> nat) \<times> db)" where
  "queue_outgoing uuid now message d =
     record_operation uuid ''mail_send'' (JObj [(''accountId'', JStr (o_account_id message))]) now d"

definition queue_agenda_operation ::
    "string \<Rightarrow> int \<Rightarrow> string \<Rightarrow> string \<Rightarrow> json \<Rightarrow> db \<Rightarrow> storage_error + ((string \<times> nat) \<times> db)" where
  "queue_agenda_operation uuid now kind account_id payload d =
     (if kind \<notin> set AGENDA_KINDS \<or> trim account_id = [] \<or> \<not> json_is_object payload
      then Inl (InvalidData ''invalid remote agenda operation'')
      else record_operation uuid kind (json_set ''accountId'' (JStr account_id) payload) now d)"

subsection \<open>Recording an outcome\<close>

definition set_outcome :: "int \<Rightarrow> string + unit \<Rightarrow> operation \<Rightarrow> operation" where
  "set_outcome now result r =
     (case result of
        Inr _ \<Rightarrow> r\<lparr>op_state := ''succeeded'', op_attempted_at := Some now, op_last_error := None\<rparr>
      | Inl e \<Rightarrow> r\<lparr>op_state := ''failed'', op_attempted_at := Some now, op_last_error := Some e\<rparr>)"

definition finish_operation :: "int \<Rightarrow> string \<Rightarrow> string + unit \<Rightarrow> db \<Rightarrow> storage_error + db" where
  "finish_operation now operation_id result d =
     (if has_row op_id operation_id (d_operations d)
      then Inr (d\<lparr>d_operations :=
                 update_row op_id operation_id (set_outcome now result) (d_operations d)\<rparr>)
      else Inl NotFound)"

text \<open>\<open>LIKE 'agenda_%'\<close>: ASCII letters match in either case, and the underscore is a wildcard.\<close>

definition like_agenda :: "string \<Rightarrow> bool" where
  "like_agenda kind \<longleftrightarrow> eq_ignore_ascii_case (take 6 kind) ''agenda'' \<and> 6 < length kind"

definition defer_operation :: "int \<Rightarrow> string \<Rightarrow> string \<Rightarrow> db \<Rightarrow> storage_error + db" where
  "defer_operation now operation_id error d =
     (case find_row op_id operation_id (d_operations d) of
        None \<Rightarrow> Inl NotFound
      | Some r \<Rightarrow>
          if op_state r = ''pending'' \<and> like_agenda (op_kind r)
          then Inr (d\<lparr>d_operations := update_row op_id operation_id
            (\<lambda>r. r\<lparr>op_state := ''pending'', op_attempted_at := Some now, op_last_error := Some error\<rparr>)
            (d_operations d)\<rparr>)
          else Inl NotFound)"

subsection \<open>The local effect of a mail action\<close>

abbreviation set_summary ::
    "(message_summary \<Rightarrow> message_summary) \<Rightarrow> message_row \<Rightarrow> message_row" where
  "set_summary f r \<equiv> r\<lparr>mr_message := (mr_message r)\<lparr>m_summary := f (m_summary (mr_message r))\<rparr>\<rparr>"

definition set_read :: "bool \<Rightarrow> message_row \<Rightarrow> message_row" where
  "set_read b r = set_summary (\<lambda>s. s\<lparr>ms_read := b\<rparr>) r"

definition set_starred :: "bool \<Rightarrow> message_row \<Rightarrow> message_row" where
  "set_starred b r = set_summary (\<lambda>s. s\<lparr>ms_starred := b\<rparr>) r"

definition set_mailbox :: "string \<Rightarrow> int \<Rightarrow> message_row \<Rightarrow> message_row" where
  "set_mailbox m now r = (set_summary (\<lambda>s. s\<lparr>ms_mailbox_id := Some m\<rparr>) r)\<lparr>mr_updated_at := now\<rparr>"

definition set_labels :: "string list \<Rightarrow> int \<Rightarrow> message_row \<Rightarrow> message_row" where
  "set_labels ls now r = (set_summary (\<lambda>s. s\<lparr>ms_labels := ls\<rparr>) r)\<lparr>mr_updated_at := now\<rparr>"

definition apply_action_locally :: "(nat \<Rightarrow> int) \<Rightarrow> mail_action \<Rightarrow> db \<Rightarrow> storage_error + db" where
  "apply_action_locally clk action d =
     (case action of
        MarkRead ids read \<Rightarrow>
          if ids = [] then Inl (InvalidData ''mail action has no message ids'')
          else Inr (fold (\<lambda>i. update_message i (set_read read)) ids d)
      | Star ids starred \<Rightarrow>
          if ids = [] then Inl (InvalidData ''mail action has no message ids'')
          else Inr (fold (\<lambda>i. update_message i (set_starred starred)) ids d)
      | Move ids mailbox \<Rightarrow>
          Inr (fold (\<lambda>(n, i). update_message i (set_mailbox mailbox (clk n))) (enumerate 0 ids) d)
      | SetLabels ids labels \<Rightarrow>
          Inr (fold (\<lambda>(n, i). update_message i (set_labels labels (clk n))) (enumerate 0 ids) d)
      | Archive ids \<Rightarrow> Inr (fold (\<lambda>i. delete_messages (\<lambda>r. message_key r = i)) ids d)
      | Trash ids \<Rightarrow> Inr (fold (\<lambda>i. delete_messages (\<lambda>r. message_key r = i)) ids d))"

definition finish_mail_action ::
    "int \<Rightarrow> (nat \<Rightarrow> int) \<Rightarrow> string \<Rightarrow> mail_action \<Rightarrow> string + unit \<Rightarrow> db
      \<Rightarrow> storage_error + (nat \<times> db)" where
  "finish_mail_action now clk operation_id action result d =
     bind_r (finish_operation now operation_id result d) (\<lambda>d1.
     case result of
       Inr _ \<Rightarrow> bind_r (apply_action_locally clk action d1) bump_revision
     | Inl _ \<Rightarrow> bind_r (read_revision d1) (\<lambda>rev. Inr (rev, d1)))"

subsection \<open>Agenda operations\<close>

record pending_agenda_operation =
  pa_id :: string
  pa_kind :: string
  pa_account_id :: string
  pa_payload :: json
  pa_attempted_at :: "int option"

definition MAX_RECOVERY_OPERATIONS :: nat where "MAX_RECOVERY_OPERATIONS = 128"

text \<open>The row filter of the query; \<open>json_extract\<close> fails on a text that is not JSON.\<close>

definition pending_agenda_row :: "string option \<Rightarrow> operation \<Rightarrow> storage_error + bool" where
  "pending_agenda_row account_id r =
     (if op_state r = ''pending'' \<and> like_agenda (op_kind r)
      then (case account_id of
              None \<Rightarrow> Inr True
            | Some a \<Rightarrow> (case parse_json (op_payload r) of
                None \<Rightarrow> Inl (Sqlite MalformedJson)
              | Some p \<Rightarrow> Inr (json_get ''accountId'' p = Some (JStr a))))
      else Inr False)"

definition read_pending_operation :: "operation \<Rightarrow> storage_error + pending_agenda_operation" where
  "read_pending_operation r =
     bind_r (ok_or (parse_json (op_payload r)) Serialization) (\<lambda>p.
     bind_r (ok_or (case Option.bind (json_get ''accountId'' p) json_as_str of
                      Some a \<Rightarrow> if a = [] then None else Some a | None \<Rightarrow> None)
               (InvalidData ''agenda operation has no account ID'')) (\<lambda>a.
     Inr \<lparr>pa_id = op_id r, pa_kind = op_kind r, pa_account_id = a, pa_payload = p,
          pa_attempted_at = op_attempted_at r\<rparr>))"

text \<open>The rows are read one by one in rowid order; after \<open>LIMIT\<close> matching rows no further row is
  looked at.\<close>

fun read_pending_rows ::
    "nat \<Rightarrow> string option \<Rightarrow> operation list \<Rightarrow> storage_error + pending_agenda_operation list" where
  "read_pending_rows n account_id [] = Inr []"
| "read_pending_rows n account_id (r # rs) =
     (if n = 0 then Inr []
      else bind_r (pending_agenda_row account_id r) (\<lambda>matches.
        if matches
        then bind_r (read_pending_operation r) (\<lambda>p.
             bind_r (read_pending_rows (n - 1) account_id rs) (\<lambda>ps.
             Inr (if account_id = None \<or> account_id = Some (pa_account_id p) then p # ps else ps)))
        else read_pending_rows n account_id rs))"

definition list_pending_agenda_operations ::
    "string option \<Rightarrow> db \<Rightarrow> storage_error + pending_agenda_operation list" where
  "list_pending_agenda_operations account_id d =
     read_pending_rows MAX_RECOVERY_OPERATIONS account_id (d_operations d)"

definition finish_agenda_operation ::
    "int \<Rightarrow> string \<Rightarrow> string list \<Rightarrow> db \<Rightarrow> storage_error + db" where
  "finish_agenda_operation now operation_id allowed_kinds d =
     (case find_row op_id operation_id (d_operations d) of
        None \<Rightarrow> Inl NotFound
      | Some r \<Rightarrow>
          if op_kind r \<notin> set allowed_kinds \<or> op_state r \<noteq> ''pending''
          then Inl (InvalidData ''agenda operation cannot be committed in its current state'')
          else Inr (d\<lparr>d_operations :=
            update_row op_id operation_id (set_outcome now (Inr ())) (d_operations d)\<rparr>))"

definition commit_agenda_task_upsert ::
    "int \<Rightarrow> string \<Rightarrow> task \<Rightarrow> db \<Rightarrow> storage_error + (nat \<times> db)" where
  "commit_agenda_task_upsert now operation_id t d =
     bind_r (upsert_task_row t d) (\<lambda>d1.
     bind_r (finish_agenda_operation now operation_id
       [''agenda_task_create'', ''agenda_task_update'', ''agenda_task_complete''] d1)
     bump_revision)"

definition commit_agenda_task_delete ::
    "int \<Rightarrow> string \<Rightarrow> string \<Rightarrow> db \<Rightarrow> storage_error + (nat \<times> db)" where
  "commit_agenda_task_delete now operation_id task_id d =
     bind_r (require (has_row t_id task_id (d_tasks d)) NotFound) (\<lambda>_.
     bind_r (finish_agenda_operation now operation_id [''agenda_task_delete'']
       (d\<lparr>d_tasks := delete_rows (\<lambda>t. t_id t = task_id) (d_tasks d)\<rparr>))
     bump_revision)"

definition commit_agenda_event_upsert ::
    "int \<Rightarrow> string \<Rightarrow> calendar_event \<Rightarrow> db \<Rightarrow> storage_error + (nat \<times> db)" where
  "commit_agenda_event_upsert now operation_id e d =
     bind_r (upsert_event_row e d) (\<lambda>d1.
     bind_r (finish_agenda_operation now operation_id
       [''agenda_event_create'', ''agenda_event_update''] d1)
     bump_revision)"

definition commit_agenda_event_delete ::
    "int \<Rightarrow> string \<Rightarrow> string \<Rightarrow> db \<Rightarrow> storage_error + (nat \<times> db)" where
  "commit_agenda_event_delete now operation_id event_id d =
     bind_r (require (has_row e_id event_id (d_events d)) NotFound) (\<lambda>_.
     bind_r (finish_agenda_operation now operation_id [''agenda_event_delete'']
       (d\<lparr>d_events := delete_rows (\<lambda>e. e_id e = event_id) (d_events d)\<rparr>))
     bump_revision)"


subsection \<open>Frame facts\<close>

lemma update_message_messages [simp]:
  "d_messages (update_message i f d) = update_row message_key i f (d_messages d)"
proof (cases "find_row message_key i (d_messages d)")
  case None
  then have "\<forall>r \<in> set (d_messages d). message_key r \<noteq> i"
    by (auto simp: find_row_None_iff has_row_iff)
  then have "update_row message_key i f (d_messages d) = d_messages d"
    by (auto simp: update_row_def intro: map_idI)
  with None show ?thesis by (simp add: update_message_def)
qed (simp add: update_message_def)

lemma update_message_frame [simp]:
  "d_accounts (update_message i f d) = d_accounts d"
  "d_mailboxes (update_message i f d) = d_mailboxes d"
  "d_sync_state (update_message i f d) = d_sync_state d"
  "d_drafts (update_message i f d) = d_drafts d"
  "d_tasks (update_message i f d) = d_tasks d"
  "d_events (update_message i f d) = d_events d"
  "d_operations (update_message i f d) = d_operations d"
  "d_revision (update_message i f d) = d_revision d"
  by (simp_all add: update_message_def split: option.splits)

lemma set_flags_keep [simp]:
  "message_key (set_read b r) = message_key r" "message_account (set_read b r) = message_account r"
  "message_key (set_starred b r) = message_key r"
  "message_account (set_starred b r) = message_account r"
  "message_key (set_mailbox m t r) = message_key r"
  "message_account (set_mailbox m t r) = message_account r"
  "message_key (set_labels ls t r) = message_key r"
  "message_account (set_labels ls t r) = message_account r"
  by (simp_all add: key_defs set_read_def set_starred_def set_mailbox_def set_labels_def)

lemma set_flags_ok [simp]:
  "message_row_ok (set_read b r) = message_row_ok r"
  "message_row_ok (set_starred b r) = message_row_ok r"
  "message_row_ok (set_mailbox m t r) = message_row_ok r"
  "message_row_ok (set_labels ls t r) = message_row_ok r"
  unfolding message_row_ok_def set_flags_keep
  by (simp_all add: set_read_def set_starred_def set_mailbox_def set_labels_def)

text \<open>A property that each statement on one message keeps is kept by a loop over identifiers.\<close>

lemma fold_keeps: "P d \<Longrightarrow> (\<And>x d. x \<in> set xs \<Longrightarrow> P d \<Longrightarrow> P (f x d)) \<Longrightarrow> P (fold f xs d)"
  by (induction xs arbitrary: d) auto

definition only_messages_differ :: "db \<Rightarrow> db \<Rightarrow> bool" where
  "only_messages_differ d d' \<longleftrightarrow>
     d'\<lparr>d_messages := [], d_messages_fts := []\<rparr> = d\<lparr>d_messages := [], d_messages_fts := []\<rparr>"

lemma only_messages_differ_refl [simp]: "only_messages_differ d d"
  by (simp add: only_messages_differ_def)

lemma only_messages_differ_update: "only_messages_differ d e \<Longrightarrow> only_messages_differ d (update_message i f e)"
  by (auto simp: only_messages_differ_def update_message_def split: option.splits)

lemma only_messages_differ_delete: "only_messages_differ d e \<Longrightarrow> only_messages_differ d (delete_messages p e)"
  by (auto simp: only_messages_differ_def delete_messages_def)

lemma only_messages_differ_frame:
  assumes "only_messages_differ d d'"
  shows "d_operations d' = d_operations d" "d_accounts d' = d_accounts d" "d_tasks d' = d_tasks d"
    "d_events d' = d_events d" "d_drafts d' = d_drafts d" "d_mailboxes d' = d_mailboxes d"
    "d_sync_state d' = d_sync_state d" "d_revision d' = d_revision d"
  using assms by (cases d; cases d'; simp add: only_messages_differ_def)+

subsection \<open>The operations keep the invariant\<close>

lemma insert_operation_Inr [result_simps]:
  "insert_operation r d = Inr d' \<longleftrightarrow>
     \<not> has_row op_id (op_id r) (d_operations d) \<and> d' = d\<lparr>d_operations := d_operations d @ [r]\<rparr>"
  by (auto simp: insert_operation_def)

lemma record_operation_Inr [result_simps]:
  "record_operation uuid kind payload now d = Inr ((i, rv), d') \<longleftrightarrow>
     \<not> has_row op_id uuid (d_operations d) \<and> d_revision d < i64_max \<and> i = uuid
     \<and> rv = Suc (d_revision d)
     \<and> d' = d\<lparr>d_operations := d_operations d @ [new_operation uuid kind payload now],
             d_revision := Suc (d_revision d)\<rparr>"
  by (auto simp: record_operation_def result_simps new_operation_def)

lemma db_ok_record_operation:
  assumes "db_ok d" and "record_operation uuid kind payload now d = Inr (r, d')"
  shows "db_ok d'"
proof -
  let ?row = "new_operation uuid kind payload now"
  obtain d1 where ins: "insert_operation ?row d = Inr d1" and b: "\<exists>n. bump_revision d1 = Inr (n, d')"
    using assms(2) by (auto simp: record_operation_def bind_r_eq_Inr)
  have "db_ok d1" using assms(1) ins
    by (rule db_ok_insert_operation) (simp add: new_operation_def OPERATION_STATES_def)
  with b show ?thesis by (auto intro: db_ok_bump)
qed

lemma set_outcome_simps [simp]:
  "op_id (set_outcome now res r) = op_id r"
  "op_kind (set_outcome now res r) = op_kind r"
  "op_payload (set_outcome now res r) = op_payload r"
  "op_state (set_outcome now res r) = (if isl res then ''failed'' else ''succeeded'')"
  by (auto simp: set_outcome_def split: sum.splits)

lemma finish_operation_Inr [result_simps]:
  "finish_operation now i res d = Inr d' \<longleftrightarrow> has_row op_id i (d_operations d)
     \<and> d' = d\<lparr>d_operations := update_row op_id i (set_outcome now res) (d_operations d)\<rparr>"
  by (auto simp: finish_operation_def)

lemma db_ok_set_outcome:
  "db_ok d \<Longrightarrow> db_ok (d\<lparr>d_operations := update_row op_id i (set_outcome now res) (d_operations d)\<rparr>)"
  by (rule db_ok_update_operation) (simp_all add: OPERATION_STATES_def)

lemma db_ok_finish_operation: "db_ok d \<Longrightarrow> finish_operation now i res d = Inr d' \<Longrightarrow> db_ok d'"
  by (auto simp: result_simps db_ok_set_outcome)

lemma db_ok_defer_operation: "db_ok d \<Longrightarrow> defer_operation now i e d = Inr d' \<Longrightarrow> db_ok d'"
  unfolding defer_operation_def
  by (auto split: option.splits if_splits intro!: db_ok_update_operation simp: OPERATION_STATES_def)

lemma db_ok_apply_action_locally:
  assumes ok: "db_ok d" and ap: "apply_action_locally clk action d = Inr d'"
  shows "db_ok d'"
proof -
  have upd: "db_ok (update_message i f e)" if "db_ok e"
    "f \<in> {set_read b, set_starred b, set_mailbox m t, set_labels ls t}" for i f e b m t ls
    using that by (intro db_ok_update_message) auto
  show ?thesis using ok ap unfolding apply_action_locally_def
    by (cases action)
      (auto split: if_splits intro!: fold_keeps [where P = db_ok] db_ok_update_message db_ok_delete_messages)
qed

lemma only_messages_differ_apply_action_locally:
  assumes "apply_action_locally clk action d = Inr d'"
  shows "only_messages_differ d d'"
  using assms unfolding apply_action_locally_def
  by (cases action)
    (auto split: if_splits intro!: fold_keeps [where P = "only_messages_differ d"]
      only_messages_differ_update only_messages_differ_delete)

lemma db_ok_finish_mail_action:
  "db_ok d \<Longrightarrow> finish_mail_action now clk i action res d = Inr (rv, d') \<Longrightarrow> db_ok d'"
  unfolding finish_mail_action_def bind_r_eq_Inr
  by (cases res)
    (auto simp: bind_r_eq_Inr read_revision_def
      intro: db_ok_bump [OF db_ok_apply_action_locally [OF db_ok_finish_operation]] db_ok_finish_operation)

lemma finish_agenda_operation_Inr [result_simps]:
  "finish_agenda_operation now i kinds d = Inr d' \<longleftrightarrow>
     (\<exists>r. find_row op_id i (d_operations d) = Some r \<and> op_kind r \<in> set kinds
        \<and> op_state r = ''pending''
        \<and> d' = d\<lparr>d_operations := update_row op_id i (set_outcome now (Inr ())) (d_operations d)\<rparr>)"
  by (auto simp: finish_agenda_operation_def split: option.splits)

lemma db_ok_finish_agenda_operation:
  "db_ok d \<Longrightarrow> finish_agenda_operation now i kinds d = Inr d' \<Longrightarrow> db_ok d'"
  by (auto simp: result_simps db_ok_set_outcome)

lemma db_ok_commit_agenda_task_upsert:
  "db_ok d \<Longrightarrow> task_ok t \<Longrightarrow> commit_agenda_task_upsert now i t d = Inr (rv, d') \<Longrightarrow> db_ok d'"
  unfolding commit_agenda_task_upsert_def bind_r_eq_Inr
  using db_ok_upsert_task db_ok_finish_agenda_operation db_ok_bump by blast

lemma db_ok_commit_agenda_event_upsert:
  "db_ok d \<Longrightarrow> event_ok e \<Longrightarrow> commit_agenda_event_upsert now i e d = Inr (rv, d') \<Longrightarrow> db_ok d'"
  unfolding commit_agenda_event_upsert_def bind_r_eq_Inr
  using db_ok_upsert_event db_ok_finish_agenda_operation db_ok_bump by blast

lemma db_ok_commit_agenda_task_delete:
  "db_ok d \<Longrightarrow> commit_agenda_task_delete now i t d = Inr (rv, d') \<Longrightarrow> db_ok d'"
  unfolding commit_agenda_task_delete_def bind_r_eq_Inr
  using db_ok_delete_tasks db_ok_finish_agenda_operation db_ok_bump by blast

lemma db_ok_commit_agenda_event_delete:
  "db_ok d \<Longrightarrow> commit_agenda_event_delete now i e d = Inr (rv, d') \<Longrightarrow> db_ok d'"
  unfolding commit_agenda_event_delete_def bind_r_eq_Inr
  using db_ok_delete_events db_ok_finish_agenda_operation db_ok_bump by blast

subsection \<open>What a mail action does to the cache\<close>

text \<open>
  The contract of a mail action, on the messages a reader of the cache sees: a listed message gets
  the new flag, mailbox or labels, or leaves the cache; every other message stays as it is.
\<close>

definition cached_message :: "string \<Rightarrow> db \<Rightarrow> message option" where
  "cached_message i d = map_option mr_message (find_row message_key i (d_messages d))"

fun action_effect :: "mail_action \<Rightarrow> message \<Rightarrow> message option" where
  "action_effect (MarkRead _ b) m = Some (m\<lparr>m_summary := (m_summary m)\<lparr>ms_read := b\<rparr>\<rparr>)"
| "action_effect (Star _ b) m = Some (m\<lparr>m_summary := (m_summary m)\<lparr>ms_starred := b\<rparr>\<rparr>)"
| "action_effect (Archive _) m = None"
| "action_effect (Trash _) m = None"
| "action_effect (Move _ mb) m = Some (m\<lparr>m_summary := (m_summary m)\<lparr>ms_mailbox_id := Some mb\<rparr>\<rparr>)"
| "action_effect (SetLabels _ ls) m = Some (m\<lparr>m_summary := (m_summary m)\<lparr>ms_labels := ls\<rparr>\<rparr>)"

lemma action_effect_idem:
  "Option.bind (Option.bind x (action_effect a)) (action_effect a) = Option.bind x (action_effect a)"
  by (cases a; cases x) auto

lemma fold_lookup:
  assumes "P d"
    and step: "\<And>x d. P d \<Longrightarrow> P (f x d) \<and>
      (\<forall>j. look j (f x d) = (if j = key x then eff (look j d) else look j d))"
    and idem: "\<And>x. eff (eff x) = eff x"
  shows "look j (fold f xs d) = (if j \<in> key ` set xs then eff (look j d) else look j d)"
  using assms(1) by (induction xs arbitrary: d) (auto simp: step idem)

lemma cached_message_update:
  assumes "\<And>r. message_key (f r) = message_key r" and "\<And>r. Some (mr_message (f r)) = g (mr_message r)"
  shows "cached_message j (update_message i f d) =
    (if j = i then Option.bind (cached_message j d) g else cached_message j d)"
proof -
  have "map_option mr_message (map_option f x) = Option.bind (map_option mr_message x) g" for x
    by (cases x) (simp_all add: assms(2))
  then show ?thesis by (simp add: cached_message_def find_row_update_row assms(1))
qed

lemma cached_message_delete:
  assumes "keyed message_key (d_messages d)"
  shows "cached_message j (delete_messages (\<lambda>r. message_key r = i) d) =
    (if j = i then None else cached_message j d)"
  by (auto simp: cached_message_def find_row_delete_rows [OF assms] split: option.splits
      dest: find_row_SomeD)

lemma set_flags_effect:
  "mr_message (set_read b r) = (mr_message r)\<lparr>m_summary := (m_summary (mr_message r))\<lparr>ms_read := b\<rparr>\<rparr>"
  "mr_message (set_starred b r) =
     (mr_message r)\<lparr>m_summary := (m_summary (mr_message r))\<lparr>ms_starred := b\<rparr>\<rparr>"
  "mr_message (set_mailbox mb t r) =
     (mr_message r)\<lparr>m_summary := (m_summary (mr_message r))\<lparr>ms_mailbox_id := Some mb\<rparr>\<rparr>"
  "mr_message (set_labels ls t r) =
     (mr_message r)\<lparr>m_summary := (m_summary (mr_message r))\<lparr>ms_labels := ls\<rparr>\<rparr>"
  by (simp_all add: set_read_def set_starred_def set_mailbox_def set_labels_def)

text \<open>One pass of the loop over the identifiers, for an update and for a deletion.\<close>

lemma update_step:
  assumes "\<And>r. message_key (f r) = message_key r \<and> message_account (f r) = message_account r
      \<and> message_row_ok (f r) = message_row_ok r"
    and "\<And>r. Some (mr_message (f r)) = g (mr_message r)" and "db_ok d"
  shows "db_ok (update_message i f d) \<and> (\<forall>j. cached_message j (update_message i f d) =
    (if j = i then Option.bind (cached_message j d) g else cached_message j d))"
  using assms by (simp add: cached_message_update db_ok_update_message)

lemma delete_step:
  assumes "\<And>m. g m = None" and "db_ok d"
  shows "db_ok (delete_messages (\<lambda>r. message_key r = i) d) \<and>
    (\<forall>j. cached_message j (delete_messages (\<lambda>r. message_key r = i) d) =
      (if j = i then Option.bind (cached_message j d) g else cached_message j d))"
proof -
  have "Option.bind x g = None" for x :: "message option" using assms(1) by (cases x) auto
  with assms(2) show ?thesis by (simp add: cached_message_delete db_okD(4) db_ok_delete_messages)
qed

lemma apply_action_locally_lookup:
  assumes ok: "db_ok d" and ap: "apply_action_locally clk action d = Inr d'"
  shows "cached_message j d' =
    (if j \<in> set (action_message_ids action) then Option.bind (cached_message j d) (action_effect action)
     else cached_message j d)"
proof -
  have en: "snd ` set (enumerate 0 xs) = set xs" for xs :: "string list"
    by (metis map_snd_enumerate set_map)
  have loop: "cached_message j (fold f xs d) = (if j \<in> key ` set xs
      then Option.bind (cached_message j d) (action_effect action) else cached_message j d)"
    if "\<And>x d. db_ok d \<Longrightarrow> db_ok (f x d) \<and> (\<forall>j. cached_message j (f x d) =
        (if j = key x then Option.bind (cached_message j d) (action_effect action)
         else cached_message j d))"
    for f :: "'x \<Rightarrow> db \<Rightarrow> db" and key xs
    by (rule fold_lookup [where P = db_ok, OF ok that action_effect_idem])
  have upd: "cached_message j (fold (\<lambda>x. update_message (key x) (f x)) xs d) =
      (if j \<in> key ` set xs then Option.bind (cached_message j d) (action_effect action)
       else cached_message j d)"
    if "\<And>x r. Some (mr_message (f x r)) = action_effect action (mr_message r)"
      and "\<And>x r. message_key (f x r) = message_key r \<and> message_account (f x r) = message_account r
        \<and> message_row_ok (f x r) = message_row_ok r"
    for key f and xs :: "'x list"
    by (rule loop, rule update_step) (simp_all add: that)
  have del: "cached_message j (fold (\<lambda>i. delete_messages (\<lambda>r. message_key r = i)) xs d) =
      (if j \<in> set xs then Option.bind (cached_message j d) (action_effect action)
       else cached_message j d)" if "\<And>m. action_effect action m = None" for xs
    using loop [of "\<lambda>i. delete_messages (\<lambda>r. message_key r = i)" "\<lambda>x. x", OF delete_step] that
    by simp
  show ?thesis
  proof (cases action)
    case (MarkRead ids b)
    with ap show ?thesis using upd [of "\<lambda>_. set_read b" "\<lambda>x. x" ids]
      by (simp add: apply_action_locally_def set_flags_effect split: if_splits)
  next
    case (Star ids b)
    with ap show ?thesis using upd [of "\<lambda>_. set_starred b" "\<lambda>x. x" ids]
      by (simp add: apply_action_locally_def set_flags_effect split: if_splits)
  next
    case (Move ids mb)
    with ap show ?thesis using upd [of "\<lambda>p. set_mailbox mb (clk (fst p))" snd "enumerate 0 ids"]
      by (auto simp: apply_action_locally_def set_flags_effect en case_prod_beta')
  next
    case (SetLabels ids ls)
    with ap show ?thesis using upd [of "\<lambda>p. set_labels ls (clk (fst p))" snd "enumerate 0 ids"]
      by (auto simp: apply_action_locally_def set_flags_effect en case_prod_beta')
  next
    case (Archive ids)
    with ap show ?thesis using del [of ids] by (auto simp: apply_action_locally_def)
  next
    case (Trash ids)
    with ap show ?thesis using del [of ids] by (auto simp: apply_action_locally_def)
  qed
qed

subsection \<open>Reading pending operations back\<close>

lemma AGENDA_KINDS_like: "kind \<in> set AGENDA_KINDS \<Longrightarrow> like_agenda kind"
  by (auto simp: AGENDA_KINDS_def like_agenda_def)

lemma queued_operation_readable:
  assumes "kind \<in> set AGENDA_KINDS" and "trim a \<noteq> []" and "json_is_object payload"
  shows "pending_agenda_row None (new_operation u kind (json_set ''accountId'' (JStr a) payload) now) = Inr True"
    and "pending_agenda_row (Some a) (new_operation u kind (json_set ''accountId'' (JStr a) payload) now) = Inr True"
    and "read_pending_operation (new_operation u kind (json_set ''accountId'' (JStr a) payload) now) =
      Inr \<lparr>pa_id = u, pa_kind = kind, pa_account_id = a,
           pa_payload = json_set ''accountId'' (JStr a) payload, pa_attempted_at = None\<rparr>"
proof -
  have "a \<noteq> []" using assms(2) by auto
  with assms show "pending_agenda_row None (new_operation u kind (json_set ''accountId'' (JStr a) payload) now) = Inr True"
    "pending_agenda_row (Some a) (new_operation u kind (json_set ''accountId'' (JStr a) payload) now) = Inr True"
    "read_pending_operation (new_operation u kind (json_set ''accountId'' (JStr a) payload) now) =
      Inr \<lparr>pa_id = u, pa_kind = kind, pa_account_id = a,
           pa_payload = json_set ''accountId'' (JStr a) payload, pa_attempted_at = None\<rparr>"
    by (simp_all add: pending_agenda_row_def new_operation_def AGENDA_KINDS_like parse_json_def
        read_pending_operation_def)
qed

definition pending_agenda :: "operation \<Rightarrow> bool" where
  "pending_agenda r \<longleftrightarrow> op_state r = ''pending'' \<and> like_agenda (op_kind r)"

lemma pending_agenda_row_True:
  "pending_agenda_row a r = Inr True \<Longrightarrow> pending_agenda r"
  by (auto simp: pending_agenda_row_def pending_agenda_def split: if_splits)

lemma read_pending_operation_Inr:
  "read_pending_operation r = Inr p \<Longrightarrow>
     pa_id p = op_id r \<and> pa_kind p = op_kind r \<and> op_payload r = JsonText (pa_payload p)
     \<and> pa_account_id p \<noteq> []"
proof (cases "op_payload r")
  case (JsonText j)
  assume "read_pending_operation r = Inr p"
  then obtain a where "a \<noteq> []" and "p = \<lparr>pa_id = op_id r, pa_kind = op_kind r, pa_account_id = a,
      pa_payload = j, pa_attempted_at = op_attempted_at r\<rparr>"
    using JsonText unfolding read_pending_operation_def parse_json_def
    by (auto simp: bind_r_eq_Inr ok_or_eq_Inr split: option.splits if_splits)
  with JsonText show ?thesis by simp
qed (simp add: read_pending_operation_def parse_json_def)

lemma read_pending_rows_facts:
  "read_pending_rows n a rs = Inr ps \<Longrightarrow>
     length ps \<le> n \<and> subseq (map pa_id ps) (map op_id (filter pending_agenda rs))
     \<and> (\<forall>p \<in> set ps. a = None \<or> a = Some (pa_account_id p))"
proof (induction n a rs arbitrary: ps rule: read_pending_rows.induct)
  case (2 n a r rs)
  show ?case
  proof (cases "n = 0")
    case True
    with 2(3) show ?thesis by simp
  next
    case False
    then obtain m where m: "pending_agenda_row a r = Inr m" using 2(3) by (auto simp: result_simps)
    show ?thesis
    proof (cases m)
      case True
      then obtain p ps' where p: "read_pending_operation r = Inr p"
        and rest: "read_pending_rows (n - 1) a rs = Inr ps'"
        and ps: "ps = (if a = None \<or> a = Some (pa_account_id p) then p # ps' else ps')"
        using 2(3) False m by (auto simp: bind_r_eq_Inr)
      have "pending_agenda r" using m True pending_agenda_row_True by auto
      then show ?thesis
        using 2(1) [OF False m True p rest] read_pending_operation_Inr [OF p] False ps
        by (auto intro: subseq_Cons')
    next
      case f: False
      then show ?thesis using 2(2) [OF False m f] 2(3) False m by (auto intro: subseq_Cons')
    qed
  qed
qed simp

text \<open>The recovery list holds at most 128 operations, in the order in which they were recorded,
  each of them pending and of an agenda kind, and each of the account that was asked for.\<close>

theorem list_pending_agenda_sound:
  assumes "list_pending_agenda_operations account_id d = Inr ps"
  shows "length ps \<le> 128
    \<and> subseq (map pa_id ps) (map op_id (filter pending_agenda (d_operations d)))
    \<and> (\<forall>p \<in> set ps. account_id = None \<or> account_id = Some (pa_account_id p))"
  using read_pending_rows_facts assms
  unfolding list_pending_agenda_operations_def MAX_RECOVERY_OPERATIONS_def by blast

theorem list_pending_agenda_sound_witness:
  "\<exists>ps. list_pending_agenda_operations (Some ''a'') (empty_db\<lparr>d_operations :=
      [new_operation ''u'' ''agenda_task_delete'' (JObj [(''accountId'', JStr ''a'')]) 7]\<rparr>) = Inr ps
    \<and> length ps = 1 \<and> length ps \<le> 128"
proof -
  let ?d = "empty_db\<lparr>d_operations :=
      [new_operation ''u'' ''agenda_task_delete'' (JObj [(''accountId'', JStr ''a'')]) 7]\<rparr>"
  have ev: "list_pending_agenda_operations (Some ''a'') ?d =
      Inr [\<lparr>pa_id = ''u'', pa_kind = ''agenda_task_delete'', pa_account_id = ''a'',
            pa_payload = JObj [(''accountId'', JStr ''a'')], pa_attempted_at = None\<rparr>]"
    by (simp add: list_pending_agenda_operations_def MAX_RECOVERY_OPERATIONS_def new_operation_def
        pending_agenda_row_def read_pending_operation_def parse_json_def like_agenda_def)
  show ?thesis using list_pending_agenda_sound [OF ev] ev by simp
qed

text \<open>A queued agenda operation is pending under a fresh identifier, the revision advances by
  one, the other tables are as before, and recovery reads the operation back with the account it
  was queued for.\<close>

theorem queue_agenda_operation_readable:
  assumes "queue_agenda_operation uuid now kind a payload d = Inr ((i, rv), d')"
  shows "\<not> has_row op_id i (d_operations d)
    \<and> (\<exists>r. d' = d\<lparr>d_operations := d_operations d @ [r], d_revision := rv\<rparr> \<and> op_state r = ''pending''
        \<and> pending_agenda_row (Some a) r = Inr True
        \<and> read_pending_operation r = Inr \<lparr>pa_id = i, pa_kind = kind, pa_account_id = a,
            pa_payload = json_set ''accountId'' (JStr a) payload, pa_attempted_at = None\<rparr>)
    \<and> rv = d_revision d + 1"
proof -
  have k: "kind \<in> set AGENDA_KINDS" "trim a \<noteq> []" "json_is_object payload"
    and rec: "record_operation uuid kind (json_set ''accountId'' (JStr a) payload) now d = Inr ((i, rv), d')"
    using assms by (auto simp: queue_agenda_operation_def split: if_splits)
  let ?r = "new_operation uuid kind (json_set ''accountId'' (JStr a) payload) now"
  have "op_state ?r = ''pending''" by (simp add: new_operation_def)
  with rec queued_operation_readable [OF k, of uuid now] show ?thesis
    unfolding record_operation_Inr by (intro conjI exI [of _ ?r]) simp_all
qed

theorem queue_agenda_operation_readable_witness:
  "\<exists>r. queue_agenda_operation ''u'' 5 ''agenda_task_create'' ''acc'' (JObj [(''taskId'', JStr ''t'')]) empty_db
       = Inr r \<and> \<not> has_row op_id (fst (fst r)) (d_operations empty_db)"
proof -
  obtain d' where ev: "queue_agenda_operation ''u'' 5 ''agenda_task_create'' ''acc''
      (JObj [(''taskId'', JStr ''t'')]) empty_db = Inr ((''u'', 1), d')"
    by (simp add: queue_agenda_operation_def record_operation_def insert_operation_def
        bump_revision_def AGENDA_KINDS_def empty_db_def uint_bounds trim_def trim_chars_def
        is_whitespace_char_def byte_of_def is_continuation_def)
  show ?thesis using queue_agenda_operation_readable [OF ev] ev by simp
qed

subsection \<open>Operations of an account\<close>

lemma map_filter_JStr [simp]: "List.map_filter json_as_str (map JStr xs) = xs"
  by (induction xs) (auto simp: List.map_filter_def)

lemma payload_message_ids_mail_action:
  "payload_message_ids (mail_action_json action) = action_message_ids action"
  by (cases action)
    (simp_all add: payload_message_ids_def List.map_filter_def json_strs_def
      o_def)

lemma mail_action_belongs:
  "operation_payload_belongs_to_account ''mail_action'' (JsonText (mail_action_json action)) a \<longleftrightarrow>
     (\<exists>i \<in> set (action_message_ids action). is_normalized_message_id a i)"
  by (simp add: operation_payload_belongs_to_account_def parse_json_def AGENDA_KINDS_def
      payload_message_ids_mail_action list_ex_iff)

lemma outgoing_belongs:
  "operation_payload_belongs_to_account ''mail_send'' (JsonText (JObj [(''accountId'', JStr b)])) a
     \<longleftrightarrow> b = a"
  by (simp add: operation_payload_belongs_to_account_def parse_json_def payload_names_account_def)

lemma agenda_belongs:
  assumes "kind \<in> set AGENDA_KINDS" and "json_is_object p" and "json_get ''account_id'' p = None"
  shows "operation_payload_belongs_to_account kind (JsonText (json_set ''accountId'' (JStr b) p)) a
     \<longleftrightarrow> b = a"
  using assms
  by (simp add: operation_payload_belongs_to_account_def parse_json_def payload_names_account_def)

text \<open>Removing the operations of an account deletes precisely the rows that an earlier
  \<open>apply_mail_action\<close>, \<open>queue_outgoing\<close> or \<open>queue_agenda_operation\<close> recorded for that account:
  a mail action when one of its messages is in the account's namespace, a message to send and an
  agenda operation when they were queued for it. Rows of other accounts stay, in their order.\<close>

theorem remove_account_operations_exact:
  assumes "d_operations d = map (\<lambda>(u, action). new_operation u ''mail_action'' (mail_action_json action) now) acts
      @ map (\<lambda>(u, b). new_operation u ''mail_send'' (JObj [(''accountId'', JStr b)]) now) sends
      @ map (\<lambda>(u, k, b, p). new_operation u k (json_set ''accountId'' (JStr b) p) now) ags"
    and "\<forall>(u, k, b, p) \<in> set ags. k \<in> set AGENDA_KINDS \<and> json_is_object p \<and> json_get ''account_id'' p = None"
  shows "d_operations (remove_account_operations a d) =
      map (\<lambda>(u, action). new_operation u ''mail_action'' (mail_action_json action) now)
        (filter (\<lambda>(u, action). \<forall>i \<in> set (action_message_ids action). \<not> is_normalized_message_id a i) acts)
      @ map (\<lambda>(u, b). new_operation u ''mail_send'' (JObj [(''accountId'', JStr b)]) now)
        (filter (\<lambda>(u, b). b \<noteq> a) sends)
      @ map (\<lambda>(u, k, b, p). new_operation u k (json_set ''accountId'' (JStr b) p) now)
        (filter (\<lambda>(u, k, b, p). b \<noteq> a) ags)"
proof -
  define gone where "gone = (\<lambda>r :: operation. op_kind r \<in> set ([''mail_action'', ''mail_send''] @ AGENDA_KINDS)
    \<and> operation_payload_belongs_to_account (op_kind r) (op_payload r) a)"
  have 1: "gone (new_operation u ''mail_action'' (mail_action_json action) now) \<longleftrightarrow>
      (\<exists>i \<in> set (action_message_ids action). is_normalized_message_id a i)" for u action
    by (simp add: gone_def new_operation_def mail_action_belongs)
  have 2: "gone (new_operation u ''mail_send'' (JObj [(''accountId'', JStr b)]) now) \<longleftrightarrow> b = a" for u b
    by (simp add: gone_def new_operation_def outgoing_belongs)
  have 3: "gone (new_operation u k (json_set ''accountId'' (JStr b) p) now) \<longleftrightarrow> b = a"
    if "(u, k, b, p) \<in> set ags" for u k b p
    using that assms(2) by (auto simp: gone_def new_operation_def agenda_belongs)
  have "filter (\<lambda>r. \<not> gone r) (map (\<lambda>(u, k, b, p). new_operation u k (json_set ''accountId'' (JStr b) p) now) ags)
      = map (\<lambda>(u, k, b, p). new_operation u k (json_set ''accountId'' (JStr b) p) now)
        (filter (\<lambda>(u, k, b, p). b \<noteq> a) ags)"
    using 3 by (induction ags) auto
  then show ?thesis
    unfolding remove_account_operations_def gone_def [symmetric] delete_rows_def
    by (simp add: assms(1) filter_map o_def case_prod_beta' 1 2)
qed

theorem remove_account_operations_exact_witness:
  "map op_id (d_operations (remove_account_operations ''a'' (empty_db\<lparr>d_operations :=
      [new_operation ''u'' ''mail_action'' (mail_action_json (Trash [''b:1''])) 1,
       new_operation ''v'' ''mail_send'' (JObj [(''accountId'', JStr ''a'')]) 1,
       new_operation ''w'' ''agenda_task_delete'' (json_set ''accountId'' (JStr ''b'') (JObj [])) 1]\<rparr>)))
   = [''u'', ''w'']"
  using remove_account_operations_exact [where a = "''a''" and now = 1
      and acts = "[(''u'', Trash [''b:1''])]" and sends = "[(''v'', ''a'')]"
      and ags = "[(''w'', ''agenda_task_delete'', ''b'', JObj [])]"
      and d = "empty_db\<lparr>d_operations :=
      [new_operation ''u'' ''mail_action'' (mail_action_json (Trash [''b:1''])) 1,
       new_operation ''v'' ''mail_send'' (JObj [(''accountId'', JStr ''a'')]) 1,
       new_operation ''w'' ''agenda_task_delete'' (json_set ''accountId'' (JStr ''b'') (JObj [])) 1]\<rparr>"]
  by (simp add: AGENDA_KINDS_def is_normalized_message_id_def strip_prefix_def starts_with_def
      new_operation_def)

subsection \<open>The two-phase mail action\<close>

lemma finish_mail_action_ops:
  assumes "finish_mail_action now clk i action res d = Inr (rv, d')"
  shows "has_row op_id i (d_operations d)
    \<and> d_operations d' = update_row op_id i (set_outcome now res) (d_operations d)"
proof -
  obtain d1 where d1: "finish_operation now i res d = Inr d1"
    using assms by (auto simp: finish_mail_action_def bind_r_eq_Inr)
  then have d1': "has_row op_id i (d_operations d)"
      "d1 = d\<lparr>d_operations := update_row op_id i (set_outcome now res) (d_operations d)\<rparr>"
    by (auto simp: result_simps)
  have "d_operations d' = d_operations d1"
    using assms d1 unfolding finish_mail_action_def
    by (cases res) (auto simp: bind_r_eq_Inr bump_revision_Inr read_revision_def
        dest: only_messages_differ_frame(1) [OF only_messages_differ_apply_action_locally])
  with d1' show ?thesis by simp
qed

text \<open>C14: recording the outcome of a mail action is all or nothing on the cache. On success each
  message of the action, and no other, is changed as the action says (flag, mailbox, labels) or
  leaves the cache, and the revision advances by one. On failure every cached message and the
  revision are as they were, and only the operation row records the error.\<close>

theorem finish_mail_action_effect:
  assumes "db_ok d" and "finish_mail_action now clk i action res d = Inr (rv, d')"
  shows "cached_message j d' =
      (if \<not> isl res \<and> j \<in> set (action_message_ids action)
       then Option.bind (cached_message j d) (action_effect action) else cached_message j d)
    \<and> rv = (if isl res then d_revision d else d_revision d + 1) \<and> d_revision d' = rv
    \<and> find_row op_id i (d_operations d') =
        map_option (set_outcome now res) (find_row op_id i (d_operations d))"
proof -
  obtain d1 where d1: "finish_operation now i res d = Inr d1"
    using assms(2) by (auto simp: finish_mail_action_def bind_r_eq_Inr)
  have ok1: "db_ok d1" using db_ok_finish_operation [OF assms(1) d1] .
  have same: "cached_message j d1 = cached_message j d" "d_revision d1 = d_revision d"
    using d1 by (auto simp: result_simps cached_message_def)
  have op: "find_row op_id i (d_operations d') =
      map_option (set_outcome now res) (find_row op_id i (d_operations d))"
    using finish_mail_action_ops [OF assms(2)] by (simp add: find_row_update_row)
  show ?thesis
  proof (cases res)
    case (Inl e)
    with assms(2) d1 same op show ?thesis by (auto simp: finish_mail_action_def read_revision_def)
  next
    case (Inr u)
    then obtain d2 where d2: "apply_action_locally clk action d1 = Inr d2"
      and b: "bump_revision d2 = Inr (rv, d')"
      using assms(2) d1 by (auto simp: finish_mail_action_def bind_r_eq_Inr)
    have "cached_message j d' = cached_message j d2" "d_revision d2 = d_revision d1"
      using b only_messages_differ_frame(8) [OF only_messages_differ_apply_action_locally [OF d2]]
      by (auto simp: bump_revision_Inr cached_message_def)
    with b same op Inr apply_action_locally_lookup [OF ok1 d2, of j] show ?thesis
      by (simp add: bump_revision_Inr)
  qed
qed

text \<open>A small database on which the theorems are applied: two accounts, one mailbox, two messages
  that are indexed, one pending mail action.\<close>

definition sample_account :: "string \<Rightarrow> account_row" where
  "sample_account i = \<lparr>ar_account = \<lparr>a_id = i, a_address = i @ ''@example.org'', a_display_name = i,
     a_provider = ''imap'', a_protocol = ''imap'', a_host = ''example.org'', a_unread = 0, a_total = 0,
     a_enabled = True\<rparr>, ar_config = JObj [], ar_auth_state = ''ready'', ar_auth_error = None,
     ar_updated_at = 1\<rparr>"

definition sample_message :: "string \<Rightarrow> string \<Rightarrow> message_row" where
  "sample_message a p = \<lparr>mr_message = \<lparr>m_summary = \<lparr>ms_id = normalized_message_id a p,
       ms_account_id = a, ms_mailbox_id = Some ''INBOX'', ms_thread_id = Some ''t'',
       ms_subject = ''Hello'', ms_author = None, ms_timestamp = 1000, ms_read = False,
       ms_starred = False, ms_snippet = ''Hi'', ms_has_attachments = False, ms_labels = [],
       ms_provider_data = JNull\<rparr>, m_to = [], m_cc = [], m_bcc = [], m_body_text = None,
       m_body_html = None, m_attachments = []\<rparr>, mr_body_loaded = False, mr_updated_at = 1\<rparr>"

definition sample_db :: db where
  "sample_db = empty_db\<lparr>d_revision := 4, d_accounts := [sample_account ''a'', sample_account ''b''],
     d_mailboxes := [\<lparr>mb_id = ''INBOX'', mb_account_id = ''a'', mb_name = ''Inbox'',
       mb_role = Some Inbox, mb_unread = 1, mb_total = 1\<rparr>],
     d_messages := [sample_message ''a'' ''1'', sample_message ''b'' ''2''],
     d_messages_fts := [fts_of (sample_message ''a'' ''1''), fts_of (sample_message ''b'' ''2'')],
     d_operations := [new_operation ''op'' ''mail_action''
       (mail_action_json (MarkRead [''a:1''] True)) 5]\<rparr>"

lemmas sample_defs = sample_db_def sample_account_def sample_message_def empty_db_def
  new_operation_def normalized_message_id_def COLON_def

lemma db_ok_sample_db: "db_ok sample_db"
proof -
  have "message_row_ok (sample_message a [c])" for a c
    by (simp add: message_row_ok_def sample_message_def key_defs valid_ts_def ts_min_def ts_max_def)
  then show ?thesis
    by (simp add: db_ok_def keys_ok_def refs_ok_def rows_ok_def slots_ok_def fts_matches_def keyed_def
        has_defs slots_unique_def uint_bounds sample_db_def empty_db_def)
      (simp add: sample_defs key_defs AUTH_STATES_def OPERATION_STATES_def)
qed

theorem finish_mail_action_effect_witness:
  "\<exists>d'. finish_mail_action 9 (\<lambda>_. 9) ''op'' (MarkRead [''a:1''] True) (Inr ()) sample_db = Inr (5, d')
     \<and> map_option (\<lambda>m. ms_read (m_summary m)) (cached_message ''a:1'' d') = Some True
     \<and> map_option (\<lambda>m. ms_read (m_summary m)) (cached_message ''b:2'' d') = Some False"
proof -
  obtain d' where ev: "finish_mail_action 9 (\<lambda>_. 9) ''op'' (MarkRead [''a:1''] True) (Inr ()) sample_db
      = Inr (5, d')"
    by (simp add: finish_mail_action_def finish_operation_def apply_action_locally_def
        bump_revision_def sample_defs uint_bounds)
  note eff = finish_mail_action_effect [OF db_ok_sample_db ev]
  have "cached_message ''a:1'' sample_db = Some (mr_message (sample_message ''a'' ''1''))"
    "cached_message ''b:2'' sample_db = Some (mr_message (sample_message ''b'' ''2''))"
    by (simp_all add: cached_message_def find_row_def sample_defs key_defs)
  then show ?thesis using ev eff [of "''a:1''"] eff [of "''b:2''"] by (simp add: sample_message_def)
qed

end
