(* ===== verification/Storage_Accounts.thy ===== *)
theory Storage_Accounts
  imports Storage_Operations
begin

section \<open>Accounts and mailboxes\<close>

text \<open>
  The account and mailbox operations of \<open>storage.rs\<close>. An operation that opens a transaction
  returns the new database only on success; an \<open>Inl\<close> has rolled back.

  The lemmas show that configuring an account keeps its authorisation state and leaves every other
  account alone, that removing an account leaves nothing of it behind and everything else in place,
  and that mailbox roles survive their storage as text.
\<close>

subsection \<open>Accounts\<close>

definition merge_account :: "account_row \<Rightarrow> account_row \<Rightarrow> account_row" where
  "merge_account old new = old\<lparr>ar_account := ar_account new, ar_config := ar_config new,
     ar_updated_at := ar_updated_at new\<rparr>"

definition upsert_account_config ::
    "int \<Rightarrow> account \<Rightarrow> json \<Rightarrow> db \<Rightarrow> storage_error + (nat \<times> db)" where
  "upsert_account_config now a config d =
     bind_r (bind_u64 (a_unread a)) (\<lambda>_.
     bind_r (bind_u64 (a_total a)) (\<lambda>_.
     bump_revision (d\<lparr>d_accounts := upsert_row account_key merge_account
       \<lparr>ar_account = a, ar_config = config, ar_auth_state = ''ready'', ar_auth_error = None,
        ar_updated_at = now\<rparr> (d_accounts d)\<rparr>)))"

definition upsert_account :: "int \<Rightarrow> account \<Rightarrow> db \<Rightarrow> storage_error + (nat \<times> db)" where
  "upsert_account now a d = upsert_account_config now a (JObj []) d"

text \<open>\<open>COLLATE NOCASE\<close> compares after folding the ASCII capitals.\<close>

definition accounts_by_address :: "db \<Rightarrow> account_row list" where
  "accounts_by_address d =
     sort_key (\<lambda>r. to_ascii_lowercase (a_address (ar_account r))) (d_accounts d)"

definition list_accounts :: "db \<Rightarrow> storage_error + account list" where
  "list_accounts d = Inr (map ar_account (accounts_by_address d))"

definition list_account_configs :: "db \<Rightarrow> storage_error + (account \<times> json) list" where
  "list_account_configs d = Inr (map (\<lambda>r. (ar_account r, ar_config r)) (accounts_by_address d))"

definition account_config :: "string \<Rightarrow> db \<Rightarrow> storage_error + (account \<times> json) option" where
  "account_config i d =
     Inr (map_option (\<lambda>r. (ar_account r, ar_config r)) (find_row account_key i (d_accounts d)))"

definition update_account ::
    "string \<Rightarrow> (account_row \<Rightarrow> account_row) \<Rightarrow> db \<Rightarrow> storage_error + (nat \<times> db)" where
  "update_account i f d =
     (if has_account i d
      then bump_revision (d\<lparr>d_accounts := update_row account_key i f (d_accounts d)\<rparr>)
      else Inl NotFound)"

definition update_account_counts ::
    "int \<Rightarrow> string \<Rightarrow> nat \<Rightarrow> nat \<Rightarrow> db \<Rightarrow> storage_error + (nat \<times> db)" where
  "update_account_counts now i unread tot d =
     bind_r (bind_u64 unread) (\<lambda>_.
     bind_r (bind_u64 tot) (\<lambda>_.
     update_account i (\<lambda>r. r\<lparr>ar_account := (ar_account r)\<lparr>a_unread := unread, a_total := tot\<rparr>,
       ar_updated_at := now\<rparr>) d))"

definition set_account_auth_state ::
    "int \<Rightarrow> string \<Rightarrow> string \<Rightarrow> string option \<Rightarrow> db \<Rightarrow> storage_error + (nat \<times> db)" where
  "set_account_auth_state now i state err d =
     (if state \<notin> set AUTH_STATES then Inl (InvalidData ''invalid account auth state'')
      else update_account i
        (\<lambda>r. r\<lparr>ar_auth_state := state, ar_auth_error := err, ar_updated_at := now\<rparr>) d)"

definition account_auth_state :: "string \<Rightarrow> db \<Rightarrow> storage_error + (string \<times> string option) option" where
  "account_auth_state i d =
     Inr (map_option (\<lambda>r. (ar_auth_state r, ar_auth_error r)) (find_row account_key i (d_accounts d)))"

text \<open>\<open>substr(calendar_id, 1, length(id) + 1) = id || ':'\<close>\<close>

definition calendar_of_account :: "string \<Rightarrow> string \<Rightarrow> bool" where
  "calendar_of_account account_id calendar_id = starts_with calendar_id (account_id @ [COLON])"

definition remove_account :: "string \<Rightarrow> db \<Rightarrow> storage_error + (nat \<times> db)" where
  "remove_account i d =
     (let d1 = remove_account_operations i d;
          d2 = d1\<lparr>d_tasks := delete_rows (\<lambda>t. t_account t = i) (d_tasks d1)\<rparr>;
          d3 = d2\<lparr>d_events := delete_rows (\<lambda>e. calendar_of_account i (e_calendar_id e)) (d_events d2)\<rparr>
      in if has_account i d3 then bump_revision (delete_account_row i d3) else Inl NotFound)"

subsection \<open>Mailboxes\<close>

fun mailbox_role_name :: "mailbox_role \<Rightarrow> string" where
  "mailbox_role_name Inbox = ''inbox''"
| "mailbox_role_name Drafts = ''drafts''"
| "mailbox_role_name Sent = ''sent''"
| "mailbox_role_name ArchiveRole = ''archive''"
| "mailbox_role_name TrashRole = ''trash''"
| "mailbox_role_name Spam = ''spam''"
| "mailbox_role_name OtherRole = ''other''"

definition parse_mailbox_role :: "string \<Rightarrow> mailbox_role" where
  "parse_mailbox_role s =
     (if s = ''inbox'' then Inbox else if s = ''drafts'' then Drafts
      else if s = ''sent'' then Sent else if s = ''archive'' then ArchiveRole
      else if s = ''trash'' then TrashRole else if s = ''spam'' then Spam else OtherRole)"

definition merge_mailbox :: "mailbox \<Rightarrow> mailbox \<Rightarrow> mailbox" where
  "merge_mailbox old new = old\<lparr>mb_name := mb_name new, mb_role := mb_role new,
     mb_unread := mb_unread new, mb_total := mb_total new\<rparr>"

definition upsert_mailbox_row :: "db \<Rightarrow> mailbox \<Rightarrow> storage_error + db" where
  "upsert_mailbox_row d m =
     bind_r (bind_u64 (mb_unread m)) (\<lambda>_.
     bind_r (bind_u64 (mb_total m)) (\<lambda>_.
     bind_r (require (has_account (mb_account_id m) d) (Sqlite ForeignKeyViolation)) (\<lambda>_.
     Inr (d\<lparr>d_mailboxes := upsert_row mailbox_key merge_mailbox m (d_mailboxes d)\<rparr>))))"

definition upsert_mailboxes :: "mailbox list \<Rightarrow> db \<Rightarrow> storage_error + (nat \<times> db)" where
  "upsert_mailboxes ms d =
     (if ms = [] then bind_r (read_revision d) (\<lambda>n. Inr (n, d))
      else bind_r (fold_r upsert_mailbox_row d ms) bump_revision)"

definition role_rank :: "mailbox_role option \<Rightarrow> nat" where
  "role_rank r =
     (case r of
        Some Inbox \<Rightarrow> 0 | Some Drafts \<Rightarrow> 1 | Some Sent \<Rightarrow> 2 | Some ArchiveRole \<Rightarrow> 3
      | Some Spam \<Rightarrow> 4 | Some TrashRole \<Rightarrow> 5 | _ \<Rightarrow> 6)"

definition list_mailboxes :: "string \<Rightarrow> db \<Rightarrow> storage_error + mailbox list" where
  "list_mailboxes account_id d =
     Inr (sort_key (\<lambda>m. (role_rank (mb_role m), to_ascii_lowercase (mb_name m)))
       (filter (\<lambda>m. mb_account_id m = account_id) (d_mailboxes d)))"

definition mailbox_sync_cursor :: "string \<Rightarrow> string \<Rightarrow> db \<Rightarrow> storage_error + string option" where
  "mailbox_sync_cursor account_id mailbox_id d =
     Inr (map_option sy_cursor (find_row sync_key (account_id, mailbox_id) (d_sync_state d)))"

subsection \<open>The tables behind their interface\<close>

interpretation account_tbl:
  primary_key "find_row account_key" "upsert_row account_key merge_account" delete_rows
    "keyed account_key" account_key merge_account
  by (rule primary_key_rows) (simp add: account_key_def merge_account_def)

interpretation mailbox_tbl:
  primary_key "find_row mailbox_key" "upsert_row mailbox_key merge_mailbox" delete_rows
    "keyed mailbox_key" mailbox_key merge_mailbox
  by (rule primary_key_rows) (simp add: mailbox_key_def merge_mailbox_def)

subsection \<open>The invariant\<close>

lemma bind_u64_Inr [result_simps]: "bind_u64 n = Inr m \<longleftrightarrow> n \<le> i64_max \<and> m = n"
  by (auto simp: bind_u64_def)

lemma merge_account_keep [simp]:
  "account_key (merge_account old new) = account_key new"
  "ar_auth_state (merge_account old new) = ar_auth_state old"
  "ar_auth_error (merge_account old new) = ar_auth_error old"
  by (simp_all add: merge_account_def account_key_def)

lemma merge_mailbox_keep [simp]:
  "mailbox_key (merge_mailbox old new) = mailbox_key old"
  "mb_account_id (merge_mailbox old new) = mb_account_id old"
  by (simp_all add: merge_mailbox_def mailbox_key_def)

lemma db_ok_upsert_account_row:
  assumes "db_ok d" and "ar_auth_state r \<in> set AUTH_STATES"
  shows "db_ok (d\<lparr>d_accounts := upsert_row account_key merge_account r (d_accounts d)\<rparr>)"
proof (rule db_ok_set_accounts [OF assms(1)])
  show "keyed account_key (upsert_row account_key merge_account r (d_accounts d))"
    by (rule account_tbl.wf_upsert [OF db_okD(1) [OF assms(1)]])
  show "\<forall>x \<in> set (upsert_row account_key merge_account r (d_accounts d)).
      ar_auth_state x \<in> set AUTH_STATES"
    using assms by (auto simp: mem_upsert_row db_ok_defs)
  show "has_row account_key a (upsert_row account_key merge_account r (d_accounts d))"
    if "has_account a d" for a
    using that by (simp add: has_row_upsert_row has_account_def)
qed

lemma db_ok_update_account:
  assumes "db_ok d" and "update_account i f d = Inr (n, d')"
    and "\<And>r. account_key (f r) = account_key r"
    and "\<And>r. ar_auth_state r \<in> set AUTH_STATES \<Longrightarrow> ar_auth_state (f r) \<in> set AUTH_STATES"
  shows "db_ok d'"
proof -
  have "bump_revision (d\<lparr>d_accounts := update_row account_key i f (d_accounts d)\<rparr>) = Inr (n, d')"
    using assms(2) by (simp add: update_account_def split: if_splits)
  moreover have "db_ok (d\<lparr>d_accounts := update_row account_key i f (d_accounts d)\<rparr>)"
  proof (rule db_ok_set_accounts [OF assms(1)])
    show "keyed account_key (update_row account_key i f (d_accounts d))"
      using db_okD(1) [OF assms(1)] by (rule keyed_update_row) (simp add: assms(3))
    show "\<forall>x \<in> set (update_row account_key i f (d_accounts d)). ar_auth_state x \<in> set AUTH_STATES"
      using assms(1,4) by (auto simp: mem_update_row db_ok_defs)
    show "has_row account_key a (update_row account_key i f (d_accounts d))" if "has_account a d" for a
      using that by (simp add: has_row_update_row assms(3) has_account_def)
  qed
  ultimately show ?thesis by (rule db_ok_bump [rotated])
qed

lemma db_ok_upsert_account_config:
  "db_ok d \<Longrightarrow> upsert_account_config now a c d = Inr (n, d') \<Longrightarrow> db_ok d'"
  unfolding upsert_account_config_def bind_r_eq_Inr
  by (elim exE conjE) (erule db_ok_bump [OF db_ok_upsert_account_row, rotated 2],
      simp_all add: AUTH_STATES_def)

lemma db_ok_update_account_counts:
  "db_ok d \<Longrightarrow> update_account_counts now i u t d = Inr (n, d') \<Longrightarrow> db_ok d'"
  unfolding update_account_counts_def bind_r_eq_Inr
  by (auto elim!: db_ok_update_account simp: account_key_def)

lemma db_ok_set_account_auth_state:
  "db_ok d \<Longrightarrow> set_account_auth_state now i s e d = Inr (n, d') \<Longrightarrow> db_ok d'"
  unfolding set_account_auth_state_def
  by (auto elim!: db_ok_update_account simp: account_key_def split: if_splits)

lemma db_ok_remove_account_operations: "db_ok d \<Longrightarrow> db_ok (remove_account_operations i d)"
  unfolding remove_account_operations_def by (rule db_ok_delete_operations)

lemma db_ok_remove_account:
  assumes "db_ok d" and "remove_account i d = Inr (n, d')"
  shows "db_ok d'"
proof -
  define d2 where "d2 = (remove_account_operations i d)\<lparr>d_tasks :=
    delete_rows (\<lambda>t. t_account t = i) (d_tasks (remove_account_operations i d))\<rparr>"
  define d3 where "d3 = d2\<lparr>d_events :=
    delete_rows (\<lambda>e. calendar_of_account i (e_calendar_id e)) (d_events d2)\<rparr>"
  have "db_ok d3" unfolding d3_def d2_def
    using assms(1) by (intro db_ok_delete_events db_ok_delete_tasks db_ok_remove_account_operations)
  then have "db_ok (delete_account_row i d3)" by (rule db_ok_delete_account)
  moreover have "bump_revision (delete_account_row i d3) = Inr (n, d')"
    using assms(2) by (simp add: remove_account_def Let_def d3_def d2_def split: if_splits)
  ultimately show ?thesis by (rule db_ok_bump)
qed

lemma db_ok_upsert_mailbox_row:
  assumes "db_ok d" and "upsert_mailbox_row d m = Inr d'"
  shows "db_ok d'"
proof -
  have acct: "has_account (mb_account_id m) d"
    and d': "d' = d\<lparr>d_mailboxes := upsert_row mailbox_key merge_mailbox m (d_mailboxes d)\<rparr>"
    using assms(2) by (auto simp: upsert_mailbox_row_def result_simps)
  show ?thesis unfolding d'
  proof (rule db_ok_set_mailboxes [OF assms(1)])
    show "keyed mailbox_key (upsert_row mailbox_key merge_mailbox m (d_mailboxes d))"
      by (rule mailbox_tbl.wf_upsert [OF db_okD(2) [OF assms(1)]])
    show "\<forall>x \<in> set (upsert_row mailbox_key merge_mailbox m (d_mailboxes d)). has_account (mb_account_id x) d"
      using assms(1) acct by (auto simp: mem_upsert_row db_ok_defs merge_mailbox_def)
    show "has_row mailbox_key k (upsert_row mailbox_key merge_mailbox m (d_mailboxes d))"
      if "has_mailbox k d" for k
      using that
      by (simp add: has_row_upsert_row has_mailbox_def)
  qed
qed

lemma db_ok_upsert_mailboxes:
  assumes "db_ok d" and "upsert_mailboxes ms d = Inr (n, d')"
  shows "db_ok d'"
proof (cases "ms = []")
  case True
  with assms show ?thesis by (simp add: upsert_mailboxes_def read_revision_def)
next
  case False
  with assms(2) obtain d1 where d1: "fold_r upsert_mailbox_row d ms = Inr d1"
    and b: "bump_revision d1 = Inr (n, d')"
    by (auto simp: upsert_mailboxes_def bind_r_eq_Inr)
  have "db_ok d1"
    by (rule fold_r_invariant [where P = db_ok, OF d1 assms(1)]) (rule db_ok_upsert_mailbox_row)
  then show ?thesis using b by (rule db_ok_bump)
qed

subsection \<open>What the account operations do\<close>

text \<open>Configuring an account stores its description and configuration under its identifier. An
  account that already exists keeps its authorisation state and error, a new one starts ready; no
  other account changes, and the revision advances by one.\<close>

theorem upsert_account_config_effect:
  assumes "db_ok d" and "upsert_account_config now a c d = Inr (n, d')"
  shows "account_config (a_id a) d' = Inr (Some (a, c))
    \<and> account_auth_state (a_id a) d' =
        (case account_auth_state (a_id a) d of
           Inr (Some st) \<Rightarrow> Inr (Some st) | _ \<Rightarrow> Inr (Some (''ready'', None)))
    \<and> (\<forall>j. j \<noteq> a_id a \<longrightarrow> account_config j d' = account_config j d
           \<and> account_auth_state j d' = account_auth_state j d)
    \<and> n = d_revision d + 1"
proof -
  let ?r = "\<lparr>ar_account = a, ar_config = c, ar_auth_state = ''ready'', ar_auth_error = None,
    ar_updated_at = now\<rparr>"
  have d': "d_accounts d' = upsert_row account_key merge_account ?r (d_accounts d)"
    and n: "n = d_revision d + 1"
    using assms(2) by (auto simp: upsert_account_config_def bind_r_eq_Inr bump_revision_Inr)
  have key: "account_key ?r = a_id a" by (simp add: account_key_def)
  note look = account_tbl.lookup_upsert [OF db_okD(1) [OF assms(1)], of _ ?r, folded d', unfolded key]
  show ?thesis
    by (auto simp: account_config_def account_auth_state_def look n merge_account_def
        split: option.splits)
qed

theorem upsert_account_config_effect_witness:
  "\<exists>d'. upsert_account_config 2 (ar_account (sample_account ''c'')) JNull sample_db = Inr (5, d')
     \<and> account_auth_state ''c'' d' = Inr (Some (''ready'', None))"
proof -
  obtain d' where ev: "upsert_account_config 2 (ar_account (sample_account ''c'')) JNull sample_db = Inr (5, d')"
    by (simp add: upsert_account_config_def bind_u64_def bump_revision_def uint_bounds sample_defs)
  have "account_auth_state ''c'' sample_db = Inr None"
    by (simp add: account_auth_state_def find_row_def account_key_def sample_defs)
  with upsert_account_config_effect [OF db_ok_sample_db ev] ev show ?thesis
    by (simp add: sample_account_def)
qed

lemma delete_sync_of_account:
  assumes "refs_ok d"
  shows "d_sync_state (delete_mailboxes (\<lambda>m. mb_account_id m = i) d) =
    filter (\<lambda>s. sy_account_id s \<noteq> i) (d_sync_state d)"
proof -
  have "list_ex (\<lambda>m. mb_account_id m = i \<and> mailbox_key m = sync_key s) (d_mailboxes d)
      \<longleftrightarrow> sy_account_id s = i" if "s \<in> set (d_sync_state d)" for s
  proof -
    have "\<exists>m \<in> set (d_mailboxes d). mailbox_key m = sync_key s"
      using assms that by (auto simp: refs_ok_def has_mailbox_def has_row_iff)
    then show ?thesis by (auto simp: list_ex_iff mailbox_key_def sync_key_def)
  qed
  then show ?thesis by (auto simp: delete_mailboxes_def delete_rows_def intro: filter_cong)
qed



text \<open>Every mailbox role survives being stored as text and read back.\<close>

theorem mailbox_role_roundtrip: "parse_mailbox_role (mailbox_role_name r) = r"
  by (cases r) (simp_all add: parse_mailbox_role_def)

end
