(* ===== verification/Storage_Messages.thy ===== *)
theory Storage_Messages
  imports Storage_Accounts "HOL-Library.Multiset"
begin

section \<open>Messages: storing, listing, threading\<close>

text \<open>
  The message operations of \<open>storage.rs\<close>. The full text search is SQLite's FTS5 module, which
  is not part of the source: it is the parameter \<open>fts_match\<close>, which for a search text and the
  index gives the matching identifiers or an error. A page cursor is the JSON array of a timestamp
  and an identifier that \<open>serde_json\<close> writes; the model keeps the cursor text abstract through the
  pair of functions \<open>enc\<close> and \<open>dec\<close> that the operations take as arguments.

  The lemmas show the invariant, that a summary never erases a loaded body, that the pages of a
  listing partition the matching messages, and that a thread answer contains the message it was
  asked for, once, in order and within its bound.
\<close>

subsection \<open>Writing messages\<close>

text \<open>The \<open>SET\<close> list of \<open>upsert_messages_with_body_state\<close>.\<close>

definition merge_message :: "message_row \<Rightarrow> message_row \<Rightarrow> message_row" where
  "merge_message old new =
     (let m = mr_message old; n = mr_message new in
      \<lparr>mr_message =
         (if \<not> mr_body_loaded new
          then m\<lparr>m_summary := m_summary n\<rparr> else n),
       mr_body_loaded = (mr_body_loaded old \<or> mr_body_loaded new),
       mr_updated_at = mr_updated_at new\<rparr>)"

definition upsert_one_message :: "int \<Rightarrow> bool \<Rightarrow> db \<Rightarrow> message \<Rightarrow> storage_error + db" where
  "upsert_one_message now body_loaded d m =
     bind_r (require (is_normalized_message_id (ms_account_id (m_summary m)) (ms_id (m_summary m)))
       (InvalidData (''message id '' @ ms_id (m_summary m) @ '' is not namespaced by account ''
          @ ms_account_id (m_summary m)))) (\<lambda>_.
     upsert_message merge_message
       \<lparr>mr_message = m, mr_body_loaded = body_loaded, mr_updated_at = now\<rparr> d)"

definition upsert_messages_with_body_state ::
    "int \<Rightarrow> message list \<Rightarrow> bool \<Rightarrow> db \<Rightarrow> storage_error + (nat \<times> db)" where
  "upsert_messages_with_body_state now ms body_loaded d =
     (if ms = [] then bind_r (read_revision d) (\<lambda>n. Inr (n, d))
      else bind_r (fold_r (upsert_one_message now body_loaded) d ms) bump_revision)"

definition upsert_messages :: "int \<Rightarrow> message list \<Rightarrow> db \<Rightarrow> storage_error + (nat \<times> db)" where
  "upsert_messages now ms d = upsert_messages_with_body_state now ms True d"

definition message_of_summary :: "message_summary \<Rightarrow> message" where
  "message_of_summary s = \<lparr>m_summary = s, m_to = [], m_cc = [], m_bcc = [], m_body_text = None,
     m_body_html = None, m_attachments = []\<rparr>"

definition upsert_message_summaries ::
    "int \<Rightarrow> message_summary list \<Rightarrow> db \<Rightarrow> storage_error + (nat \<times> db)" where
  "upsert_message_summaries now ss d =
     upsert_messages_with_body_state now (map message_of_summary ss) False d"

subsection \<open>Reading messages\<close>

text \<open>\<open>message_summary_from_row\<close>: only the stored timestamp can fail to decode.\<close>

definition message_summary_from_row :: "message_row \<Rightarrow> storage_error + message_summary" where
  "message_summary_from_row r =
     (let s = m_summary (mr_message r)
      in bind_r (timestamp_from_millis (ms_timestamp s)) (\<lambda>t. Inr (s\<lparr>ms_timestamp := t\<rparr>)))"

definition cached_message_from_row :: "message_row \<Rightarrow> storage_error + (message \<times> bool)" where
  "cached_message_from_row r =
     bind_r (message_summary_from_row r) (\<lambda>s.
     Inr ((mr_message r)\<lparr>m_summary := s\<rparr>, mr_body_loaded r))"

definition get_cached_message :: "string \<Rightarrow> db \<Rightarrow> storage_error + (message \<times> bool) option" where
  "get_cached_message i d =
     (case find_row message_key i (d_messages d) of
        None \<Rightarrow> Inr None
      | Some r \<Rightarrow> map_ok Some (cached_message_from_row r))"

subsection \<open>Listing\<close>

definition MAX_PAGE_SIZE :: nat where "MAX_PAGE_SIZE = 200"

definition clamp :: "nat \<Rightarrow> nat \<Rightarrow> nat \<Rightarrow> nat" where
  "clamp lo hi n = max lo (min hi n)"

text \<open>The sort key of a page, \<open>(timestamp_ms, id)\<close>, and its descending order.\<close>

definition page_key :: "message_row \<Rightarrow> int \<times> string" where
  "page_key r = (ms_timestamp (m_summary (mr_message r)), message_key r)"

definition newest_first :: "message_row list \<Rightarrow> message_row list" where
  "newest_first rows = rev (sort_key page_key rows)"

definition message_matches ::
    "message_query \<Rightarrow> (int \<times> string) option \<Rightarrow> string set option \<Rightarrow> message_row \<Rightarrow> bool" where
  "message_matches q after found r \<longleftrightarrow>
     (case q_account_id q of None \<Rightarrow> True | Some a \<Rightarrow> message_account r = a)
     \<and> (case q_mailbox_id q of None \<Rightarrow> True | Some m \<Rightarrow> message_mailbox r = Some m)
     \<and> (q_unread_only q \<longrightarrow> \<not> ms_read (m_summary (mr_message r)))
     \<and> (case after of None \<Rightarrow> True | Some k \<Rightarrow> page_key r < k)
     \<and> (case found of None \<Rightarrow> True | Some ids \<Rightarrow> message_key r \<in> ids)"

definition message_list_query ::
    "message_query \<Rightarrow> (int \<times> string) option \<Rightarrow> string set option \<Rightarrow> nat \<Rightarrow> db \<Rightarrow> message_row list" where
  "message_list_query q after found limit d =
     take limit (newest_first (filter (message_matches q after found) (d_messages d)))"

definition search_text :: "message_query \<Rightarrow> string option" where
  "search_text q = (case q_search q of None \<Rightarrow> None | Some s \<Rightarrow> if trim s = [] then None else Some s)"

definition decode_cursor ::
    "(string \<Rightarrow> (int \<times> string) option) \<Rightarrow> string \<Rightarrow> storage_error + (int \<times> string)" where
  "decode_cursor dec s =
     bind_r (ok_or (dec s) InvalidCursor) (\<lambda>(t, i).
     if i = [] then Inl InvalidCursor else Inr (t, i))"

definition encode_cursor :: "(int \<times> string \<Rightarrow> string) \<Rightarrow> message_summary \<Rightarrow> string" where
  "encode_cursor enc s = enc (ms_timestamp s, ms_id s)"

definition list_messages ::
    "(string \<Rightarrow> fts_row list \<Rightarrow> storage_error + string set) \<Rightarrow> (int \<times> string \<Rightarrow> string)
     \<Rightarrow> (string \<Rightarrow> (int \<times> string) option) \<Rightarrow> message_query \<Rightarrow> db \<Rightarrow> storage_error + message_page" where
  "list_messages fts_match enc dec q d =
     (let limit = clamp 1 MAX_PAGE_SIZE (q_limit q) in
      bind_r (case q_cursor q of None \<Rightarrow> Inr None | Some c \<Rightarrow> map_ok Some (decode_cursor dec c)) (\<lambda>after.
      bind_r (case search_text q of None \<Rightarrow> Inr None
              | Some s \<Rightarrow> map_ok Some (fts_match s (d_messages_fts d))) (\<lambda>found.
      bind_r (collect_r message_summary_from_row
               (message_list_query q after found (limit + 1) d)) (\<lambda>ms.
      let page = take limit ms in
      Inr \<lparr>p_messages = page,
           p_next_cursor = (if limit < length ms \<and> page \<noteq> []
                            then Some (encode_cursor enc (last page)) else None)\<rparr>))))"

text \<open>\<open>TRIM\<close> without a second argument removes spaces only.\<close>

definition sql_trim :: "string \<Rightarrow> string" where
  "sql_trim s = trim_matches (\<lambda>c. c = CHR '' '') s"

definition thread_metadata_backfill_ids ::
    "string \<Rightarrow> string \<Rightarrow> nat \<Rightarrow> db \<Rightarrow> storage_error + string list" where
  "thread_metadata_backfill_ids account_id mailbox_id limit d =
     Inr (take (clamp 1 MAX_PAGE_SIZE limit) (map message_key
       (sort_key (\<lambda>r. (mr_updated_at r, message_key r))
         (filter (\<lambda>r. message_account r = account_id \<and> message_mailbox r = Some mailbox_id
            \<and> (case ms_thread_id (m_summary (mr_message r)) of
                 None \<Rightarrow> True | Some t \<Rightarrow> sql_trim t = []))
           (d_messages d)))))"

subsection \<open>Threads\<close>

definition MAX_THREAD_MESSAGES :: nat where "MAX_THREAD_MESSAGES = 100"

text \<open>
  The partition key of the window: the RFC Message-ID that the provider data carries, or else the
  row's own identifier. \<open>CAST(... AS TEXT)\<close> of a number or boolean is its decimal text; an array
  or object is its JSON text, for which the parameter \<open>text_of\<close> stands.
\<close>

definition copy_key :: "(json \<Rightarrow> string) \<Rightarrow> message_row \<Rightarrow> string" where
  "copy_key text_of r =
     (case json_get ''messageId'' (ms_provider_data (m_summary (mr_message r))) of
        None \<Rightarrow> message_key r
      | Some JNull \<Rightarrow> message_key r
      | Some v \<Rightarrow>
          (let t = sql_trim (case v of JStr s \<Rightarrow> s | _ \<Rightarrow> text_of v)
           in if t = [] then message_key r else t))"

text \<open>\<open>CASE WHEN id=?3 THEN 0 ELSE 1 END, timestamp_ms DESC, id DESC\<close> as an ordered list: the
  requested row first, then the newest.\<close>

definition requested_first :: "string \<Rightarrow> message_row list \<Rightarrow> message_row list" where
  "requested_first i rows =
     filter (\<lambda>r. message_key r = i) rows @ newest_first (filter (\<lambda>r. message_key r \<noteq> i) rows)"

text \<open>Rows of rank 1: the first row of each partition, in the order of the window.\<close>

fun first_per_key :: "('r \<Rightarrow> 'k) \<Rightarrow> 'k list \<Rightarrow> 'r list \<Rightarrow> 'r list" where
  "first_per_key key seen [] = []"
| "first_per_key key seen (r # rs) =
     (if key r \<in> set seen then first_per_key key seen rs
      else r # first_per_key key (key r # seen) rs)"

definition get_thread :: "(json \<Rightarrow> string) \<Rightarrow> string \<Rightarrow> db \<Rightarrow> storage_error + thread_conversation" where
  "get_thread text_of i d =
     bind_r (get_cached_message i d) (\<lambda>cached.
     bind_r (ok_or cached NotFound) (\<lambda>(anchor, _).
     case (case ms_thread_id (m_summary anchor) of
             None \<Rightarrow> None | Some t \<Rightarrow> if trim t = [] then None else Some t) of
       None \<Rightarrow> Inr \<lparr>tc_id = ms_id (m_summary anchor), tc_messages = [m_summary anchor],
                   tc_truncated = False\<rparr>
     | Some t \<Rightarrow>
         bind_r (collect_r message_summary_from_row
           (take (MAX_THREAD_MESSAGES + 1) (first_per_key (copy_key text_of) []
             (requested_first i (filter (\<lambda>r. message_account r = ms_account_id (m_summary anchor)
                \<and> ms_thread_id (m_summary (mr_message r)) = Some t) (d_messages d)))))) (\<lambda>ms.
         Inr \<lparr>tc_id = t,
              tc_messages = sort_key (\<lambda>s. (ms_timestamp s, ms_id s)) (take MAX_THREAD_MESSAGES ms),
              tc_truncated = MAX_THREAD_MESSAGES < length ms\<rparr>)))"

subsection \<open>The invariant\<close>

lemma merge_message_summary [simp]:
  "m_summary (mr_message (merge_message old new)) = m_summary (mr_message new)"
  by (simp add: merge_message_def Let_def)

lemma merge_message_key [simp]:
  "message_key (merge_message old new) = message_key new"
  "message_account (merge_message old new) = message_account new"
  "message_row_ok (merge_message old new) = message_row_ok new"
  by (simp_all add: key_defs message_row_ok_def)

interpretation message_tbl:
  primary_key "find_row message_key" "upsert_row message_key merge_message" delete_rows
    "keyed message_key" message_key merge_message
  by (rule primary_key_rows) simp

lemma upsert_one_message_Inr:
  "upsert_one_message now b d m = Inr d' \<longleftrightarrow>
     is_normalized_message_id (ms_account_id (m_summary m)) (ms_id (m_summary m))
     \<and> upsert_message merge_message \<lparr>mr_message = m, mr_body_loaded = b, mr_updated_at = now\<rparr> d = Inr d'"
  by (auto simp: upsert_one_message_def result_simps)

lemma db_ok_upsert_one_message:
  assumes "db_ok d" and up: "upsert_one_message now b d m = Inr d'"
    and ts: "valid_ts (ms_timestamp (m_summary m))"
  shows "db_ok d'"
proof -
  let ?r = "\<lparr>mr_message = m, mr_body_loaded = b, mr_updated_at = now\<rparr>"
  have "message_row_ok ?r" using up ts by (simp add: upsert_one_message_Inr message_row_ok_def key_defs)
  moreover have stmt: "upsert_message merge_message ?r d = Inr d'"
    using up by (simp add: upsert_one_message_Inr)
  ultimately show ?thesis
    by (intro db_ok_upsert_message [OF assms(1) stmt]) simp_all
qed

lemma db_ok_upsert_messages_with_body_state:
  assumes "db_ok d" and up: "upsert_messages_with_body_state now ms b d = Inr (n, d')"
    and ts: "\<forall>m \<in> set ms. valid_ts (ms_timestamp (m_summary m))"
  shows "db_ok d'"
proof (cases "ms = []")
  case True
  with assms show ?thesis by (simp add: upsert_messages_with_body_state_def read_revision_def)
next
  case False
  with up obtain d1 where d1: "fold_r (upsert_one_message now b) d ms = Inr d1"
    and bump: "bump_revision d1 = Inr (n, d')"
    by (auto simp: upsert_messages_with_body_state_def bind_r_eq_Inr)
  have "db_ok d1"
    by (rule fold_r_invariant [where P = db_ok, OF d1 assms(1)])
      (use ts db_ok_upsert_one_message in blast)
  then show ?thesis using bump by (rule db_ok_bump)
qed

lemma upsert_message_lookup:
  assumes "keyed message_key (d_messages d)" and "upsert_message merge_message r d = Inr d'"
  shows "find_row message_key i (d_messages d') =
    (if i = message_key r
     then Some (case find_row message_key i (d_messages d) of None \<Rightarrow> r | Some old \<Rightarrow> merge_message old r)
     else find_row message_key i (d_messages d))"
    and "keyed message_key (d_messages d')"
proof -
  have d': "d_messages d' = upsert_row message_key merge_message r (d_messages d)"
    using assms(2) by (auto simp: upsert_message_def result_simps)
  show "find_row message_key i (d_messages d') =
    (if i = message_key r
     then Some (case find_row message_key i (d_messages d) of None \<Rightarrow> r | Some old \<Rightarrow> merge_message old r)
     else find_row message_key i (d_messages d))"
    unfolding d' by (rule message_tbl.lookup_upsert [OF assms(1)])
  show "keyed message_key (d_messages d')"
    unfolding d' by (rule message_tbl.wf_upsert [OF assms(1)])
qed

subsection \<open>A summary keeps the body\<close>

definition content_of ::
    "message_row \<Rightarrow> address list \<times> address list \<times> address list \<times> string option \<times> string option
      \<times> attachment list \<times> bool" where
  "content_of r = (let m = mr_message r in
     (m_to m, m_cc m, m_bcc m, m_body_text m, m_body_html m, m_attachments m, mr_body_loaded r))"

definition bodies_kept :: "db \<Rightarrow> db \<Rightarrow> bool" where
  "bodies_kept d d' \<longleftrightarrow> (\<forall>r \<in> set (d_messages d). \<exists>r' \<in> set (d_messages d').
     message_key r' = message_key r \<and> content_of r' = content_of r)"

lemma bodies_kept_refl: "bodies_kept d d"
  by (auto simp: bodies_kept_def)

lemma bodies_kept_trans: "bodies_kept d e \<Longrightarrow> bodies_kept e f \<Longrightarrow> bodies_kept d f"
  unfolding bodies_kept_def by metis

lemma bodies_kept_upsert_summary:
  assumes "upsert_message merge_message r d = Inr d'" and "\<not> mr_body_loaded r"
  shows "bodies_kept d d'"
proof -
  have d': "d_messages d' = upsert_row message_key merge_message r (d_messages d)"
    using assms(1) by (auto simp: upsert_message_def result_simps)
  have content: "content_of (merge_message old r) = content_of old" for old
    using assms(2) by (simp add: content_of_def merge_message_def Let_def)
  have "\<exists>r' \<in> set (d_messages d'). message_key r' = message_key x \<and> content_of r' = content_of x"
    if x: "x \<in> set (d_messages d)" for x
  proof (cases "message_key x = message_key r")
    case True
    with x have "merge_message x r \<in> set (d_messages d')" unfolding d' mem_upsert_row by blast
    with True content show ?thesis by (intro bexI [of _ "merge_message x r"]) simp_all
  next
    case False
    with x have "x \<in> set (d_messages d')" unfolding d' mem_upsert_row by blast
    then show ?thesis by blast
  qed
  then show ?thesis by (simp add: bodies_kept_def)
qed

text \<open>Storing summaries never loses content. Every cached message is still cached, with the
  recipients, bodies, attachments and the loaded mark it had, whatever summaries arrive.\<close>

theorem upsert_message_summaries_keep_bodies:
  assumes "upsert_message_summaries now ss d = Inr (n, d')"
  shows "bodies_kept d d'"
proof (cases "ss = []")
  case True
  with assms show ?thesis
    by (simp add: upsert_message_summaries_def upsert_messages_with_body_state_def read_revision_def
        bodies_kept_refl)
next
  case False
  with assms obtain d1 where d1: "fold_r (upsert_one_message now False) d (map message_of_summary ss) = Inr d1"
    and d': "d_messages d' = d_messages d1"
    by (auto simp: upsert_message_summaries_def upsert_messages_with_body_state_def bind_r_eq_Inr
        bump_revision_Inr)
  have "bodies_kept d d1"
  proof (rule fold_r_invariant [where P = "bodies_kept d", OF d1 bodies_kept_refl])
    fix u m v
    assume "bodies_kept d u" and "upsert_one_message now False u m = Inr v"
    then show "bodies_kept d v"
      by (auto simp: upsert_one_message_Inr elim!: bodies_kept_trans dest!: bodies_kept_upsert_summary)
  qed
  with d' show ?thesis by (simp add: bodies_kept_def)
qed

theorem upsert_message_summaries_keep_bodies_witness:
  "\<exists>d'. upsert_message_summaries 9 [m_summary (mr_message (sample_message ''a'' ''1''))] sample_db = Inr (5, d')
     \<and> bodies_kept sample_db d'"
proof -
  obtain d' where ev: "upsert_message_summaries 9
      [m_summary (mr_message (sample_message ''a'' ''1''))] sample_db = Inr (5, d')"
    by (simp add: upsert_message_summaries_def upsert_messages_with_body_state_def
        upsert_one_message_def upsert_message_def message_of_summary_def bump_revision_def uint_bounds
        has_account_def sample_defs key_defs is_normalized_message_id_def starts_with_def strip_prefix_def)
  show ?thesis using upsert_message_summaries_keep_bodies [OF ev] ev by blast
qed

subsection \<open>Pages\<close>

lemma message_summary_from_row_ok [simp]:
  "message_row_ok r \<Longrightarrow> message_summary_from_row r = Inr (m_summary (mr_message r))"
  by (simp add: message_summary_from_row_def message_row_ok_def Let_def)

lemma set_newest_first [simp]: "set (newest_first rows) = set rows"
  by (simp add: newest_first_def)

lemma newest_first_filter: "newest_first (filter p rows) = filter p (newest_first rows)"
  by (simp add: newest_first_def filter_sort [symmetric] rev_filter)

lemma newest_first_strict:
  assumes "keyed message_key rows"
  shows "sorted_wrt (\<lambda>x y. page_key y < page_key x) (newest_first rows)"
proof -
  have "distinct (map message_key (sort_key page_key rows))"
    using assms by (simp add: keyed_def distinct_map)
  then have "distinct (map page_key (sort_key page_key rows))"
    by (auto simp: distinct_map inj_on_def page_key_def)
  then have "sorted_wrt (<) (map page_key (sort_key page_key rows))"
    by (simp add: strict_sorted_iff)
  then show ?thesis by (simp add: newest_first_def sorted_wrt_rev sorted_wrt_map)
qed

lemma filter_after_nth:
  assumes "sorted_wrt (\<lambda>x y. (f y :: 'b :: linorder) < f x) xs" and "k < length xs"
  shows "filter (\<lambda>x. f x < f (xs ! k)) xs = drop (Suc k) xs"
proof -
  have split: "xs = take k xs @ xs ! k # drop (Suc k) xs" using assms(2) by (rule id_take_nth_drop)
  have "sorted_wrt (\<lambda>x y. f y < f x) (take k xs @ xs ! k # drop (Suc k) xs)"
    using assms(1) split by simp
  then have early: "\<forall>x \<in> set (take k xs). \<not> f x < f (xs ! k)"
    and late: "\<forall>x \<in> set (drop (Suc k) xs). f x < f (xs ! k)"
    by (auto simp: sorted_wrt_append dest: less_imp_not_less)
  have "filter (\<lambda>x. f x < f (xs ! k)) (take k xs @ xs ! k # drop (Suc k) xs) = drop (Suc k) xs"
    using early late by (simp add: filter_empty_conv filter_id_conv)
  then show ?thesis using split by simp
qed

text \<open>
  The specification of a listing: every matching message after the cursor, newest first, without
  the page bound.
\<close>

definition listing ::
    "(string \<Rightarrow> fts_row list \<Rightarrow> storage_error + string set) \<Rightarrow> (string \<Rightarrow> (int \<times> string) option)
     \<Rightarrow> message_query \<Rightarrow> db \<Rightarrow> storage_error + message_summary list" where
  "listing fts_match dec q d =
     bind_r (case q_cursor q of None \<Rightarrow> Inr None | Some c \<Rightarrow> map_ok Some (decode_cursor dec c)) (\<lambda>after.
     bind_r (case search_text q of None \<Rightarrow> Inr None
             | Some s \<Rightarrow> map_ok Some (fts_match s (d_messages_fts d))) (\<lambda>found.
     Inr (map (\<lambda>r. m_summary (mr_message r))
       (newest_first (filter (message_matches q after found) (d_messages d))))))"

abbreviation page_limit :: "message_query \<Rightarrow> nat" where
  "page_limit q \<equiv> clamp 1 MAX_PAGE_SIZE (q_limit q)"

lemma page_limit_pos: "1 \<le> page_limit q"
  by (simp add: clamp_def)

lemma last_take:
  assumes "1 \<le> n" and "n < length xs"
  shows "last (take n xs) = xs ! (n - 1)" and "take n xs \<noteq> []"
proof -
  show ne: "take n xs \<noteq> []" using assms by (cases xs) auto
  then show "last (take n xs) = xs ! (n - 1)" using assms by (simp add: last_conv_nth)
qed

lemma rows_ok_matching:
  "db_ok d \<Longrightarrow> r \<in> set (take n (newest_first (filter p (d_messages d)))) \<Longrightarrow> message_row_ok r"
  using in_set_takeD by (fastforce simp: db_ok_defs)

lemma list_messages_listing:
  assumes "db_ok d"
  shows "list_messages fts_match enc dec q d = map_ok (\<lambda>all.
    \<lparr>p_messages = take (page_limit q) all,
     p_next_cursor = (if page_limit q < length all
       then Some (encode_cursor enc (all ! (page_limit q - 1))) else None)\<rparr>) (listing fts_match dec q d)"
proof -
  have page: "bind_r (collect_r message_summary_from_row (message_list_query q after found (page_limit q + 1) d))
      (\<lambda>ms. Inr \<lparr>p_messages = take (page_limit q) ms,
         p_next_cursor = (if page_limit q < length ms \<and> take (page_limit q) ms \<noteq> []
           then Some (encode_cursor enc (last (take (page_limit q) ms))) else None)\<rparr>) =
    (let all = map (\<lambda>r. m_summary (mr_message r))
       (newest_first (filter (message_matches q after found) (d_messages d)))
     in Inr \<lparr>p_messages = take (page_limit q) all,
         p_next_cursor = (if page_limit q < length all
           then Some (encode_cursor enc (all ! (page_limit q - 1))) else None)\<rparr>)" for after found
  proof -
    let ?rows = "newest_first (filter (message_matches q after found) (d_messages d))"
    let ?all = "map (\<lambda>r. m_summary (mr_message r)) ?rows"
    have "collect_r message_summary_from_row (message_list_query q after found (page_limit q + 1) d) =
        Inr (map (\<lambda>r. m_summary (mr_message r)) (take (page_limit q + 1) ?rows))"
      unfolding message_list_query_def
      by (rule collect_r_total) (rule message_summary_from_row_ok, rule rows_ok_matching [OF assms])
    then have ms: "collect_r message_summary_from_row (message_list_query q after found (page_limit q + 1) d) =
        Inr (take (page_limit q + 1) ?all)" by (simp add: take_map)
    have tk: "take (page_limit q) (take (page_limit q + 1) ?all) = take (page_limit q) ?all"
      by (simp add: min_def)
    note lt = last_take [OF page_limit_pos, of q ?all]
    then show ?thesis
      unfolding ms bind_r.simps tk Let_def by (auto simp: min_def not_less)
  qed
  show ?thesis
    unfolding list_messages_def listing_def Let_def page [unfolded Let_def]
    by (cases "case q_cursor q of None \<Rightarrow> Inr None | Some c \<Rightarrow> map_ok Some (decode_cursor dec c)";
        cases "case search_text q of None \<Rightarrow> Inr None
             | Some s \<Rightarrow> map_ok Some (fts_match s (d_messages_fts d))") simp_all
qed

lemma message_matches_set_cursor [simp]:
  "message_matches (q\<lparr>q_cursor := c\<rparr>) = message_matches q"
  "search_text (q\<lparr>q_cursor := c\<rparr>) = search_text q"
  by (simp_all add: fun_eq_iff message_matches_def search_text_def)

lemma listing_continues:
  assumes ok: "db_ok d" and dec: "\<And>k. dec (enc k) = Some k"
    and all: "listing fts_match dec q d = Inr all" and k: "k < length all"
  shows "listing fts_match dec (q\<lparr>q_cursor := Some (encode_cursor enc (all ! k))\<rparr>) d = Inr (drop (Suc k) all)"
proof -
  obtain after found where
      after: "(case q_cursor q of None \<Rightarrow> Inr None | Some c \<Rightarrow> map_ok Some (decode_cursor dec c)) = Inr after"
    and found: "(case search_text q of None \<Rightarrow> Inr None
             | Some s \<Rightarrow> map_ok Some (fts_match s (d_messages_fts d))) = Inr found"
    and all': "all = map (\<lambda>r. m_summary (mr_message r))
        (newest_first (filter (message_matches q after found) (d_messages d)))"
    using all by (auto simp: listing_def bind_r_eq_Inr)
  define rows where "rows = newest_first (filter (message_matches q after found) (d_messages d))"
  have kr: "k < length rows" using k all' by (simp add: rows_def)
  have mem: "rows ! k \<in> set (d_messages d)" "message_matches q after found (rows ! k)"
    using nth_mem [OF kr] by (auto simp: rows_def)
  have ok_row: "message_row_ok (rows ! k)" using ok mem by (auto simp: db_ok_defs)
  then have ne: "message_key (rows ! k) \<noteq> []"
    by (auto simp: message_row_ok_def is_normalized_message_id_iff normalized_message_id_def)
  have cur: "encode_cursor enc (all ! k) = enc (page_key (rows ! k))"
    using kr by (simp add: encode_cursor_def all' rows_def [symmetric] page_key_def message_key_def)
  have decoded: "decode_cursor dec (enc (page_key (rows ! k))) = Inr (page_key (rows ! k))"
    using ne by (simp add: decode_cursor_def dec page_key_def)
  have after_k: "filter (message_matches q (Some (page_key (rows ! k))) found) (d_messages d) =
      filter (\<lambda>r. page_key r < page_key (rows ! k)) (filter (message_matches q after found) (d_messages d))"
    using mem(2) by (auto simp: message_matches_def filter_filter split: option.splits
        intro!: filter_cong dest: less_trans)
  have "sorted_wrt (\<lambda>x y. page_key y < page_key x) rows"
    unfolding rows_def using db_okD(4) [OF ok]
    by (intro newest_first_strict) (simp add: keyed_def distinct_map_filter)
  then have "filter (\<lambda>r. page_key r < page_key (rows ! k)) rows = drop (Suc k) rows"
    by (rule filter_after_nth) (rule kr)
  moreover have "newest_first (filter (message_matches q (Some (page_key (rows ! k))) found) (d_messages d)) =
      filter (\<lambda>r. page_key r < page_key (rows ! k)) rows"
    unfolding after_k newest_first_filter [of "\<lambda>r. page_key r < page_key (rows ! k)"]
    by (simp only: rows_def)
  ultimately have "newest_first (filter (message_matches q (Some (page_key (rows ! k))) found) (d_messages d)) =
      drop (Suc k) rows"
    by simp
  then show ?thesis
    unfolding cur listing_def by (simp add: decoded found all' rows_def [symmetric] drop_map)
qed

text \<open>A client that follows the cursors until there is none.\<close>

fun all_pages ::
    "nat \<Rightarrow> (message_query \<Rightarrow> storage_error + message_page) \<Rightarrow> message_query
      \<Rightarrow> (storage_error + message_summary list) option" where
  "all_pages 0 lst q = None"
| "all_pages (Suc n) lst q =
     (case lst q of
        Inl e \<Rightarrow> Some (Inl e)
      | Inr p \<Rightarrow>
          (case p_next_cursor p of
             None \<Rightarrow> Some (Inr (p_messages p))
           | Some c \<Rightarrow> map_option (map_ok (\<lambda>rest. p_messages p @ rest))
               (all_pages n lst (q\<lparr>q_cursor := Some c\<rparr>))))"

text \<open>C28: following the cursors of \<open>mail.list\<close> returns every matching message exactly once, newest
  first, whatever the page size, and needs no more pages than there are messages (plus the last).
  The cursor codec is that of \<open>serde_json\<close>: what it encodes it decodes.\<close>

theorem pages_partition_listing:
  assumes "db_ok d" and "\<And>k. dec (enc k) = Some k" and "listing fts_match dec q d = Inr all"
    and "length all < n"
  shows "all_pages n (\<lambda>q. list_messages fts_match enc dec q d) q = Some (Inr all)"
  using assms(3,4)
proof (induction n arbitrary: q all)
  case (Suc n)
  let ?L = "page_limit q"
  have p: "list_messages fts_match enc dec q d = Inr \<lparr>p_messages = take ?L all,
      p_next_cursor = (if ?L < length all then Some (encode_cursor enc (all ! (?L - 1))) else None)\<rparr>"
    using list_messages_listing [OF assms(1), of fts_match enc dec q] Suc.prems(1) by simp
  show ?case
  proof (cases "?L < length all")
    case False
    with p show ?thesis by simp
  next
    case True
    let ?q = "q\<lparr>q_cursor := Some (encode_cursor enc (all ! (?L - 1)))\<rparr>"
    have "?L - 1 < length all" "Suc (?L - 1) = ?L" using True page_limit_pos [of q] by simp_all
    from listing_continues [OF assms(1,2) Suc.prems(1) this(1), unfolded this(2)]
    have rest: "listing fts_match dec ?q d = Inr (drop ?L all)" .
    have "length (drop ?L all) < n" using Suc.prems(2) True page_limit_pos [of q] by simp
    from Suc.IH [OF rest this] p True show ?thesis by simp
  qed
qed simp

text \<open>A cursor codec to apply the theorem with: the timestamp in decimal, a colon, the identifier.\<close>

definition show_int :: "int \<Rightarrow> string" where
  "show_int t = (if t < 0 then CHR ''-'' # show_nat (nat (- t)) else show_nat (nat t))"

definition sample_enc :: "int \<times> string \<Rightarrow> string" where
  "sample_enc k = show_int (fst k) @ COLON # snd k"

definition sample_dec :: "string \<Rightarrow> (int \<times> string) option" where
  "sample_dec s = (case split_once s COLON of
     None \<Rightarrow> None
   | Some (t, i) \<Rightarrow>
       (case t of
          [] \<Rightarrow> None
        | c # ds \<Rightarrow> if c = CHR ''-'' then Some (- int (digits_val 0 ds), i)
                  else Some (int (digits_val 0 t), i)))"

lemma sample_dec_enc: "sample_dec (sample_enc k) = Some k"
proof -
  obtain t i where k: "k = (t, i)" by (cases k)
  have colon: "COLON \<notin> set (show_nat n)" "CHR ''-'' \<notin> set (show_nat n)" for n
    by (simp_all add: not_digit_notin_show_nat COLON_def ascii_defs)
  then have "COLON \<notin> set (show_int t)"
    by (auto simp: show_int_def COLON_def)
  then have split: "split_once (sample_enc k) COLON = Some (show_int t, i)"
    by (simp add: sample_enc_def split_once_append k)
  show ?thesis
  proof (cases "t < 0")
    case True
    then show ?thesis by (simp add: sample_dec_def split [unfolded k] show_int_def digits_val_show_nat k)
  next
    case False
    obtain c ds where s: "show_nat (nat t) = c # ds" by (cases "show_nat (nat t)") auto
    have "c \<noteq> CHR ''-''" using colon(2) [of "nat t"] s by auto
    moreover have "digits_val 0 (c # ds) = nat t" using digits_val_show_nat [of "nat t"] s by simp
    ultimately show ?thesis using False s
      by (simp add: sample_dec_def split [unfolded k] show_int_def k del: digits_val.simps)
  qed
qed

theorem pages_partition_listing_witness:
  "\<exists>all. all_pages 3 (\<lambda>q. list_messages (\<lambda>_ _. Inr {}) sample_enc sample_dec q sample_db)
      (default_query\<lparr>q_limit := 1\<rparr>) = Some (Inr all) \<and> map ms_id all = [''b:2'', ''a:1'']"
proof -
  have ev: "listing (\<lambda>_ _. Inr {}) sample_dec (default_query\<lparr>q_limit := 1\<rparr>) sample_db =
    Inr (map (\<lambda>r. m_summary (mr_message r)) [sample_message ''b'' ''2'', sample_message ''a'' ''1''])"
    by (simp add: listing_def default_query_def search_text_def sample_db_def empty_db_def
        message_matches_def newest_first_def page_key_def)
      (simp add: sample_defs key_defs)
  show ?thesis using pages_partition_listing [OF db_ok_sample_db sample_dec_enc ev, of 3]
    by (simp add: sample_defs)
qed

subsection \<open>Threads\<close>

lemma first_per_key_subset: "set (first_per_key key seen rs) \<subseteq> set rs"
  by (induction key seen rs rule: first_per_key.induct) auto

lemma first_per_key_fresh: "r \<in> set (first_per_key key seen rs) \<Longrightarrow> key r \<notin> set seen"
  by (induction key seen rs rule: first_per_key.induct) (auto split: if_splits)

lemma first_per_key_distinct: "distinct (map key (first_per_key key seen rs))"
  by (induction key seen rs rule: first_per_key.induct) (auto dest: first_per_key_fresh)

lemma first_per_key_covers:
  "r \<in> set rs \<Longrightarrow> key r \<in> set seen \<or> key r \<in> key ` set (first_per_key key seen rs)"
  by (induction key seen rs rule: first_per_key.induct) auto

lemma requested_first_head:
  assumes "r \<in> set rows" and "message_key r = i"
  obtains x xs where "requested_first i rows = x # xs" and "message_key x = i"
proof -
  obtain x xs where "filter (\<lambda>r. message_key r = i) rows = x # xs"
    using assms by (cases "filter (\<lambda>r. message_key r = i) rows") (auto simp: filter_empty_conv)
  moreover from this have "message_key x = i"
    by (metis (mono_tags, lifting) filter_eq_ConsD)
  ultimately show thesis by (intro that [of x]) (simp_all add: requested_first_def)
qed

lemma set_requested_first [simp]: "set (requested_first i rows) = set rows"
  by (auto simp: requested_first_def)

lemma get_cached_message_ok:
  assumes "db_ok d"
  shows "get_cached_message i d =
    Inr (map_option (\<lambda>r. (mr_message r, mr_body_loaded r)) (find_row message_key i (d_messages d)))"
proof -
  have "message_row_ok r" if "find_row message_key i (d_messages d) = Some r" for r
    using that assms by (auto simp: db_ok_defs dest: find_row_SomeD)
  then show ?thesis
    by (auto simp: get_cached_message_def cached_message_from_row_def split: option.splits)
qed

text \<open>What a conversation answer promises: the rows it shows, one per physical copy key.\<close>

definition conversation_of ::
    "(json \<Rightarrow> string) \<Rightarrow> string \<Rightarrow> message_row list \<Rightarrow> message_row list \<Rightarrow> bool" where
  "conversation_of text_of i table rows \<longleftrightarrow>
     set rows \<subseteq> set table \<and> distinct (map (copy_key text_of) rows)
     \<and> (\<exists>anchor \<in> set rows. message_key anchor = i \<and>
          (\<forall>r \<in> set rows. message_account r = message_account anchor
             \<and> ms_thread_id (m_summary (mr_message r)) = ms_thread_id (m_summary (mr_message anchor))))"

lemma thread_rows:
  assumes anchor: "anchor \<in> set table" "message_key anchor = i" and t: "ms_thread_id (m_summary (mr_message anchor)) = Some t"
    and keyed: "keyed message_key table"
  defines "sel \<equiv> filter (\<lambda>r. message_account r = message_account anchor
      \<and> ms_thread_id (m_summary (mr_message r)) = Some t) table"
  shows "conversation_of text_of i table (take (Suc n) (first_per_key (copy_key text_of) [] (requested_first i sel)))"
proof -
  have "anchor \<in> set sel" using anchor t by (simp add: sel_def)
  then obtain x xs where rf: "requested_first i sel = x # xs" and key: "message_key x = i"
    using anchor(2) by (rule requested_first_head)
  define rows where "rows = take (Suc n) (first_per_key (copy_key text_of) [] (requested_first i sel))"
  have x: "x \<in> set rows" by (simp add: rows_def rf)
  have mem: "r \<in> set sel" if "r \<in> set rows" for r
  proof -
    have "r \<in> set (first_per_key (copy_key text_of) [] (requested_first i sel))"
      using that unfolding rows_def by (rule in_set_takeD)
    then show ?thesis using first_per_key_subset [of "copy_key text_of" "[]" "requested_first i sel"] by auto
  qed
  have sel: "r \<in> set table \<and> message_account r = message_account anchor
      \<and> ms_thread_id (m_summary (mr_message r)) = Some t" if "r \<in> set rows" for r
    using mem [OF that] by (simp add: sel_def)
  have "x = anchor"
    using key anchor keyed sel [OF x] by (auto simp: keyed_def distinct_map inj_on_def)
  have "distinct (map (copy_key text_of) rows)"
    using first_per_key_distinct [of "copy_key text_of"]
    by (simp add: rows_def take_map [symmetric] distinct_take)
  moreover have "set rows \<subseteq> set table" using sel by blast
  moreover have "\<forall>r \<in> set rows. message_account r = message_account anchor
      \<and> ms_thread_id (m_summary (mr_message r)) = ms_thread_id (m_summary (mr_message anchor))"
    using sel t by simp
  ultimately show ?thesis
    using x anchor(2) unfolding rows_def [symmetric] conversation_of_def \<open>x = anchor\<close> by blast
qed

lemma get_thread_found:
  assumes "db_ok d" and anchor: "find_row message_key i (d_messages d) = Some anchor"
  shows "get_thread text_of i d =
    (case (case ms_thread_id (m_summary (mr_message anchor)) of
             None \<Rightarrow> None | Some t \<Rightarrow> if trim t = [] then None else Some t) of
       None \<Rightarrow> Inr \<lparr>tc_id = ms_id (m_summary (mr_message anchor)),
         tc_messages = [m_summary (mr_message anchor)], tc_truncated = False\<rparr>
     | Some t \<Rightarrow> bind_r (collect_r message_summary_from_row
           (take (MAX_THREAD_MESSAGES + 1) (first_per_key (copy_key text_of) []
             (requested_first i (filter (\<lambda>r. message_account r = message_account anchor
                \<and> ms_thread_id (m_summary (mr_message r)) = Some t) (d_messages d)))))) (\<lambda>ms.
         Inr \<lparr>tc_id = t,
              tc_messages = sort_key (\<lambda>s. (ms_timestamp s, ms_id s)) (take MAX_THREAD_MESSAGES ms),
              tc_truncated = MAX_THREAD_MESSAGES < length ms\<rparr>))"
  unfolding get_thread_def get_cached_message_ok [OF assms(1)] anchor message_account_def [of anchor]
  by simp

text \<open>\<open>mail.thread\<close> answers for a cached message with at most 100 messages of its conversation,
  oldest first. The requested message itself is always among them, all of them are cached rows of
  its account and thread, and of the physical copies of one mail only one is shown.\<close>

theorem get_thread_conversation:
  assumes "db_ok d" and "get_thread text_of i d = Inr tc"
  shows "\<exists>rows. conversation_of text_of i (d_messages d) rows \<and> length rows \<le> 100
    \<and> mset (tc_messages tc) = mset (map (\<lambda>r. m_summary (mr_message r)) rows)
    \<and> sorted (map (\<lambda>s. (ms_timestamp s, ms_id s)) (tc_messages tc))"
proof -
  obtain anchor where anchor: "find_row message_key i (d_messages d) = Some anchor"
    using assms by (auto simp: get_thread_def get_cached_message_ok bind_r_eq_Inr ok_or_eq_Inr)
  then have mem: "anchor \<in> set (d_messages d)" "message_key anchor = i" by (auto dest: find_row_SomeD)
  let ?tid = "ms_thread_id (m_summary (mr_message anchor))"
  note run = get_thread_found [OF assms(1) anchor, of text_of]
  show ?thesis
  proof (cases "case ?tid of None \<Rightarrow> None | Some t \<Rightarrow> if trim t = [] then None else Some t")
    case None
    then have "tc_messages tc = [m_summary (mr_message anchor)]" using assms(2) run by auto
    moreover have "conversation_of text_of i (d_messages d) [anchor]"
      using mem by (simp add: conversation_of_def)
    ultimately show ?thesis by (intro exI [of _ "[anchor]"]) simp
  next
    case (Some t)
    then have t: "?tid = Some t" by (auto split: option.splits if_splits)
    define all where "all = first_per_key (copy_key text_of) []
             (requested_first i (filter (\<lambda>r. message_account r = message_account anchor
                \<and> ms_thread_id (m_summary (mr_message r)) = Some t) (d_messages d)))"
    define rows where "rows = take MAX_THREAD_MESSAGES all"
    have conv: "conversation_of text_of i (d_messages d) (take (Suc n) all)" for n
      unfolding all_def by (rule thread_rows [OF mem t db_okD(4) [OF assms(1)]])
    have "message_row_ok r" if "r \<in> set (take (MAX_THREAD_MESSAGES + 1) all)" for r
      using that conv [of MAX_THREAD_MESSAGES] assms(1) by (auto simp: conversation_of_def db_ok_defs)
    then have "collect_r message_summary_from_row (take (MAX_THREAD_MESSAGES + 1) all) =
        Inr (map (\<lambda>r. m_summary (mr_message r)) (take (MAX_THREAD_MESSAGES + 1) all))"
      by (intro collect_r_total) simp
    then have "tc_messages tc = sort_key (\<lambda>s. (ms_timestamp s, ms_id s))
        (map (\<lambda>r. m_summary (mr_message r)) rows)"
      using assms(2) run Some by (auto simp: all_def [symmetric] rows_def take_map min_def)
    moreover have "conversation_of text_of i (d_messages d) rows"
      using conv [of 99] by (simp add: rows_def MAX_THREAD_MESSAGES_def)
    ultimately show ?thesis
      by (intro exI [of _ rows]) (simp add: rows_def MAX_THREAD_MESSAGES_def)
  qed
qed

theorem get_thread_conversation_witness:
  "\<exists>tc. get_thread (\<lambda>_. []) ''a:1'' sample_db = Inr tc \<and> length (tc_messages tc) \<le> 100"
proof -
  have row: "find_row message_key ''a:1'' (d_messages sample_db) = Some (sample_message ''a'' ''1'')"
    by (simp add: find_row_def sample_defs key_defs)
  have "trim ''t'' \<noteq> []"
    by (simp add: trim_def trim_chars_def is_whitespace_char_def byte_of_def is_continuation_def)
  moreover have "filter (\<lambda>r. message_account r = message_account (sample_message ''a'' ''1'')
      \<and> ms_thread_id (m_summary (mr_message r)) = Some ''t'') (d_messages sample_db) =
    [sample_message ''a'' ''1'']"
    by (simp add: sample_defs message_account_def)
  moreover have "message_row_ok (sample_message ''a'' ''1'')"
    by (simp add: message_row_ok_def sample_message_def key_defs valid_ts_def ts_min_def ts_max_def)
  moreover have "ms_thread_id (m_summary (mr_message (sample_message ''a'' ''1''))) = Some ''t''"
    by (simp add: sample_message_def)
  ultimately obtain tc where ev: "get_thread (\<lambda>_. []) ''a:1'' sample_db = Inr tc"
    unfolding get_thread_found [OF db_ok_sample_db row]
    by (simp add: requested_first_def newest_first_def MAX_THREAD_MESSAGES_def)
  obtain rows :: "message_row list" where len: "length rows \<le> 100"
    and eq: "mset (tc_messages tc) = mset (map (\<lambda>r. m_summary (mr_message r)) rows)"
    using get_thread_conversation [OF db_ok_sample_db ev] by blast
  have "length (tc_messages tc) \<le> 100" using mset_eq_length [OF eq] len by simp
  with ev show ?thesis by blast
qed

end
