(* ===== verification/Storage_Sync.thy ===== *)
theory Storage_Sync
  imports Storage_Messages
begin

section \<open>Committing a synchronisation page\<close>

text \<open>
  \<open>apply_mailbox_sync_page\<close> of \<open>storage.rs\<close>: the summaries of one page, the removals and the
  provider cursor are written in one transaction. The lemmas give the complete effect on the table
  of messages and on the cursor: what the page lists is cached as listed, what it removes is gone,
  a reset replaces the whole mailbox, and no row of another mailbox moves.
\<close>

definition merge_synced_message :: "message_row \<Rightarrow> message_row \<Rightarrow> message_row" where
  "merge_synced_message old new =
     old\<lparr>mr_message := (mr_message old)\<lparr>m_summary := m_summary (mr_message new)\<rparr>,
         mr_updated_at := mr_updated_at new\<rparr>"

definition sync_upsert :: "int \<Rightarrow> db \<Rightarrow> message_summary \<Rightarrow> storage_error + db" where
  "sync_upsert now d s = upsert_message merge_synced_message
     \<lparr>mr_message = message_of_summary s, mr_body_loaded = False, mr_updated_at = now\<rparr> d"

definition in_mailbox :: "string \<Rightarrow> string \<Rightarrow> message_row \<Rightarrow> bool" where
  "in_mailbox a mb r \<longleftrightarrow> message_account r = a \<and> message_mailbox r = Some mb"

definition sync_cursor_ok :: "string \<Rightarrow> bool" where
  "sync_cursor_ok c \<longleftrightarrow> c \<noteq> [] \<and> length c \<le> 1024 \<and> NUL \<notin> set c"

definition merge_sync :: "sync_row \<Rightarrow> sync_row \<Rightarrow> sync_row" where
  "merge_sync old new = old\<lparr>sy_cursor := sy_cursor new, sy_updated_at := sy_updated_at new\<rparr>"

definition validate_sync_page :: "string \<Rightarrow> string \<Rightarrow> mailbox_sync_page \<Rightarrow> storage_error + unit" where
  "validate_sync_page a mb page =
     bind_r (require (list_all (\<lambda>m. ms_account_id m = a \<and> ms_mailbox_id m = Some mb
         \<and> is_normalized_message_id a (ms_id m)) (sp_messages page))
       (InvalidData ''mailbox sync page contains a message outside its account or mailbox'')) (\<lambda>_.
     bind_r (require (list_all (\<lambda>i. is_normalized_message_id a i
         \<and> \<not> list_ex (\<lambda>m. ms_id m = i) (sp_messages page)) (sp_removed_message_ids page))
       (InvalidData ''mailbox sync removal is outside its account or also returned as present'')) (\<lambda>_.
     require (case sp_cursor page of None \<Rightarrow> True | Some c \<Rightarrow> sync_cursor_ok c)
       (InvalidData ''mailbox sync cursor is invalid'')))"

definition reset_mailbox :: "string \<Rightarrow> string \<Rightarrow> db \<Rightarrow> db" where
  "reset_mailbox a mb d =
     (let d1 = delete_messages (in_mailbox a mb) d
      in d1\<lparr>d_sync_state := delete_rows (\<lambda>s. sync_key s = (a, mb)) (d_sync_state d1)\<rparr>)"

definition store_cursor :: "int \<Rightarrow> string \<Rightarrow> string \<Rightarrow> string option \<Rightarrow> db \<Rightarrow> db" where
  "store_cursor now a mb cursor d =
     (case cursor of
        None \<Rightarrow> d
      | Some c \<Rightarrow> d\<lparr>d_sync_state := upsert_row sync_key merge_sync
          \<lparr>sy_account_id = a, sy_mailbox_id = mb, sy_cursor = c, sy_updated_at = now\<rparr>
          (d_sync_state d)\<rparr>)"

definition apply_mailbox_sync_page ::
    "int \<Rightarrow> int \<Rightarrow> string \<Rightarrow> string \<Rightarrow> mailbox_sync_page \<Rightarrow> db \<Rightarrow> storage_error + (nat \<times> db)" where
  "apply_mailbox_sync_page now now' a mb page d =
     bind_r (validate_sync_page a mb page) (\<lambda>_.
     if \<not> sp_reset page \<and> sp_messages page = [] \<and> sp_removed_message_ids page = []
        \<and> sp_cursor page = None
     then bind_r (read_revision d) (\<lambda>n. Inr (n, d))
     else
       bind_r (require (has_mailbox (a, mb) d) NotFound) (\<lambda>_.
       bind_r (require (list_all (\<lambda>i. case find_row message_key i (d_messages d) of
             None \<Rightarrow> True | Some r \<Rightarrow> in_mailbox a mb r) (sp_removed_message_ids page))
         (InvalidData ''mailbox sync removal targets a different account or mailbox'')) (\<lambda>_.
       let d1 = (if sp_reset page then reset_mailbox a mb d else d);
           d2 = fold (\<lambda>i. delete_messages (\<lambda>r. message_key r = i \<and> in_mailbox a mb r))
                  (sp_removed_message_ids page) d1
       in bind_r (fold_r (sync_upsert now) d2 (sp_messages page)) (\<lambda>d3.
          bump_revision (store_cursor now' a mb (sp_cursor page) d3)))))"

subsection \<open>The invariant\<close>

interpretation sync_tbl:
  primary_key "find_row sync_key" "upsert_row sync_key merge_sync" delete_rows
    "keyed sync_key" sync_key merge_sync
  by (rule primary_key_rows) (simp add: sync_key_def merge_sync_def)

interpretation synced_message_tbl:
  primary_key "find_row message_key" "upsert_row message_key merge_synced_message" delete_rows
    "keyed message_key" message_key merge_synced_message
  by (rule primary_key_rows) (simp add: message_key_def merge_synced_message_def)

lemma merge_synced_keep [simp]:
  "message_key (merge_synced_message old new) = message_key new"
  "message_account (merge_synced_message old new) = message_account new"
  "message_mailbox (merge_synced_message old new) = message_mailbox new"
  "message_row_ok (merge_synced_message old new) = message_row_ok new"
  by (simp_all add: key_defs message_row_ok_def merge_synced_message_def)

lemma db_ok_sync_upsert:
  assumes "db_ok d" and up: "sync_upsert now d s = Inr d'"
    and "is_normalized_message_id (ms_account_id s) (ms_id s)" and "valid_ts (ms_timestamp s)"
  shows "db_ok d'"
  using up unfolding sync_upsert_def
  by (rule db_ok_upsert_message [OF assms(1)])
    (simp_all add: assms message_row_ok_def key_defs message_of_summary_def merge_synced_message_def)

lemma db_ok_reset_mailbox: "db_ok d \<Longrightarrow> db_ok (reset_mailbox a mb d)"
proof -
  assume "db_ok d"
  then have ok: "db_ok (delete_messages (in_mailbox a mb) d)" by (rule db_ok_delete_messages)
  show ?thesis unfolding reset_mailbox_def Let_def
    by (rule db_ok_set_sync_state [OF ok])
      (use ok in \<open>auto simp: db_ok_defs has_defs intro: keyed_delete_rows\<close>)
qed

lemma db_ok_store_cursor:
  assumes "db_ok d" and "has_mailbox (a, mb) d"
  shows "db_ok (store_cursor now a mb c d)"
proof (cases c)
  case None
  with assms show ?thesis by (simp add: store_cursor_def)
next
  case (Some t)
  let ?r = "\<lparr>sy_account_id = a, sy_mailbox_id = mb, sy_cursor = t, sy_updated_at = now\<rparr>"
  have "keyed sync_key (upsert_row sync_key merge_sync ?r (d_sync_state d))"
    by (rule sync_tbl.wf_upsert [OF db_okD(3) [OF assms(1)]])
  moreover have "\<forall>s \<in> set (upsert_row sync_key merge_sync ?r (d_sync_state d)). has_mailbox (sync_key s) d"
  proof -
    have "has_mailbox (sync_key s) d" if "s \<in> set (d_sync_state d)" for s
      using assms(1) that by (simp add: db_ok_defs)
    moreover have "sync_key (merge_sync old ?r) = sync_key old" for old
      by (simp add: merge_sync_def sync_key_def)
    ultimately show ?thesis using assms(2) by (auto simp: mem_upsert_row sync_key_def)
  qed
  ultimately show ?thesis
    using assms(1) Some by (simp add: store_cursor_def db_ok_set_sync_state)
qed

lemma sync_upsert_frame:
  assumes "sync_upsert now d s = Inr d'"
  shows "d' = d\<lparr>d_messages := d_messages d', d_messages_fts := d_messages_fts d'\<rparr>"
  using assms by (auto simp: sync_upsert_def upsert_message_def result_simps)

lemma sync_upserts_frame:
  assumes "fold_r (sync_upsert now) d ss = Inr d'"
  shows "only_messages_differ d d'"
proof (rule fold_r_invariant [where P = "only_messages_differ d", OF assms only_messages_differ_refl])
  fix u x v
  assume "only_messages_differ d u" and "sync_upsert now u x = Inr v"
  then show "only_messages_differ d v"
    by (auto simp: only_messages_differ_def sync_upsert_def upsert_message_def result_simps)
qed

subsection \<open>The effect\<close>

lemma sync_upserts_lookup:
  assumes "fold_r (sync_upsert now) d ss = Inr d'" and "keyed message_key (d_messages d)"
  shows "(j \<notin> ms_id ` set ss \<longrightarrow> find_row message_key j (d_messages d') = find_row message_key j (d_messages d))
    \<and> (j \<in> ms_id ` set ss \<longrightarrow> (\<exists>s \<in> set ss. ms_id s = j \<and>
         map_option (\<lambda>r. m_summary (mr_message r)) (find_row message_key j (d_messages d')) = Some s))"
  using assms
proof (induction ss arbitrary: d)
  case (Cons s ss)
  let ?r = "\<lparr>mr_message = message_of_summary s, mr_body_loaded = False, mr_updated_at = now\<rparr>"
  from Cons.prems(1) obtain d1 where d1: "sync_upsert now d s = Inr d1"
    and rest: "fold_r (sync_upsert now) d1 ss = Inr d'" by (auto simp: bind_r_eq_Inr)
  have m: "d_messages d1 = upsert_row message_key merge_synced_message ?r (d_messages d)"
    using d1 by (auto simp: sync_upsert_def upsert_message_def result_simps)
  have key: "message_key ?r = ms_id s" by (simp add: message_key_def message_of_summary_def)
  have k1: "keyed message_key (d_messages d1)"
    unfolding m by (rule synced_message_tbl.wf_upsert [OF Cons.prems(2)])
  note look = synced_message_tbl.lookup_upsert [OF Cons.prems(2), of _ ?r, folded m, unfolded key]
  have "map_option (\<lambda>r. m_summary (mr_message r)) (find_row message_key (ms_id s) (d_messages d1)) = Some s"
    by (auto simp: look merge_synced_message_def message_of_summary_def split: option.splits)
  with Cons.IH [OF rest k1] look show ?case by (cases "j = ms_id s"; cases "j \<in> ms_id ` set ss") auto
qed simp

lemma removals_lookup:
  assumes "keyed message_key (d_messages d)"
  shows "keyed message_key (d_messages (fold (\<lambda>i. delete_messages (\<lambda>r. message_key r = i \<and> p r)) is d))
    \<and> find_row message_key j (d_messages (fold (\<lambda>i. delete_messages (\<lambda>r. message_key r = i \<and> p r)) is d)) =
      (case find_row message_key j (d_messages d) of
         None \<Rightarrow> None | Some r \<Rightarrow> if j \<in> set is \<and> p r then None else Some r)"
  using assms
proof (induction "is" arbitrary: d)
  case (Cons i "is")
  let ?d = "delete_messages (\<lambda>r. message_key r = i \<and> p r) d"
  have k: "keyed message_key (d_messages ?d)" using Cons.prems by (simp add: keyed_delete_rows)
  have "find_row message_key j (d_messages ?d) = (case find_row message_key j (d_messages d) of
      None \<Rightarrow> None | Some r \<Rightarrow> if j = i \<and> p r then None else Some r)"
    by (auto simp: find_row_delete_rows [OF Cons.prems] split: option.splits dest: find_row_SomeD)
  with Cons.IH [OF k] show ?case by (auto split: option.splits)
qed (simp split: option.splits)

lemma apply_sync_page_Inr:
  assumes "apply_mailbox_sync_page now now' a mb page d = Inr (n, d')"
    and "sp_reset page \<or> sp_messages page \<noteq> [] \<or> sp_removed_message_ids page \<noteq> [] \<or> sp_cursor page \<noteq> None"
  obtains d1 d2 d3 where
    "validate_sync_page a mb page = Inr ()" "has_mailbox (a, mb) d"
    "\<forall>i \<in> set (sp_removed_message_ids page). \<forall>r.
       find_row message_key i (d_messages d) = Some r \<longrightarrow> in_mailbox a mb r"
    "d1 = (if sp_reset page then reset_mailbox a mb d else d)"
    "d2 = fold (\<lambda>i. delete_messages (\<lambda>r. message_key r = i \<and> in_mailbox a mb r))
       (sp_removed_message_ids page) d1"
    "fold_r (sync_upsert now) d2 (sp_messages page) = Inr d3"
    "bump_revision (store_cursor now' a mb (sp_cursor page) d3) = Inr (n, d')"
  using assms unfolding apply_mailbox_sync_page_def Let_def
  by (auto simp: bind_r_eq_Inr require_eq_Inr list_all_iff split: if_splits option.splits)

lemma validated_page:
  assumes "validate_sync_page a mb page = Inr ()"
  shows "s \<in> set (sp_messages page) \<Longrightarrow> is_normalized_message_id (ms_account_id s) (ms_id s)
      \<and> ms_account_id s = a \<and> ms_mailbox_id s = Some mb"
    and "i \<in> set (sp_removed_message_ids page) \<Longrightarrow> i \<notin> ms_id ` set (sp_messages page)"
  using assms by (auto simp: validate_sync_page_def bind_r_eq_Inr require_eq_Inr list_all_iff list_ex_iff)

lemma fold_delete_frame:
  "only_messages_differ d (fold (\<lambda>i. delete_messages (p i)) is d)"
  by (rule fold_keeps) (simp_all add: only_messages_differ_delete)

lemma db_ok_apply_mailbox_sync_page:
  assumes ok: "db_ok d" and ap: "apply_mailbox_sync_page now now' a mb page d = Inr (n, d')"
    and ts: "\<forall>s \<in> set (sp_messages page). valid_ts (ms_timestamp s)"
  shows "db_ok d'"
proof (cases "sp_reset page \<or> sp_messages page \<noteq> [] \<or> sp_removed_message_ids page \<noteq> [] \<or> sp_cursor page \<noteq> None")
  case False
  with ap ok show ?thesis by (auto simp: apply_mailbox_sync_page_def bind_r_eq_Inr read_revision_def)
next
  case True
  from ap True obtain d1 d2 d3 where v: "validate_sync_page a mb page = Inr ()"
    and mbx: "has_mailbox (a, mb) d" and d1: "d1 = (if sp_reset page then reset_mailbox a mb d else d)"
    and d2: "d2 = fold (\<lambda>i. delete_messages (\<lambda>r. message_key r = i \<and> in_mailbox a mb r))
       (sp_removed_message_ids page) d1"
    and d3: "fold_r (sync_upsert now) d2 (sp_messages page) = Inr d3"
    and b: "bump_revision (store_cursor now' a mb (sp_cursor page) d3) = Inr (n, d')"
    by (rule apply_sync_page_Inr)
  have "db_ok d1" using ok by (simp add: d1 db_ok_reset_mailbox)
  then have "db_ok d2" unfolding d2 by (rule fold_keeps) (rule db_ok_delete_messages)
  then have "db_ok d3"
    by (rule fold_r_invariant [where P = db_ok, OF d3])
      (use ts validated_page(1) [OF v] db_ok_sync_upsert in blast)
  moreover have "d_mailboxes d3 = d_mailboxes d"
    using only_messages_differ_frame(6) [OF sync_upserts_frame [OF d3]]
      only_messages_differ_frame(6) [OF fold_delete_frame [where p = "\<lambda>i r. message_key r = i \<and> in_mailbox a mb r"]]
    by (simp add: d2 d1 reset_mailbox_def Let_def)
  ultimately have "db_ok (store_cursor now' a mb (sp_cursor page) d3)"
    using mbx by (intro db_ok_store_cursor) (simp_all add: has_mailbox_def)
  then show ?thesis using b by (rule db_ok_bump)
qed

text \<open>C9: a committed page and its cursor move together. Afterwards every summary of the page is
  cached as the page has it, every removed identifier is gone, a reset leaves no older row of the
  mailbox, every other row of the store is untouched, and the stored cursor is the page's (an absent
  cursor keeps the old one, or none after a reset).\<close>

theorem sync_page_effect:
  assumes "db_ok d" and "apply_mailbox_sync_page now now' a mb page d = Inr (n, d')"
    and "sp_reset page \<or> sp_messages page \<noteq> [] \<or> sp_removed_message_ids page \<noteq> [] \<or> sp_cursor page \<noteq> None"
  shows "(if j \<in> ms_id ` set (sp_messages page)
      then \<exists>s \<in> set (sp_messages page). ms_id s = j \<and>
        map_option m_summary (cached_message j d') = Some s
      else cached_message j d' =
        (case find_row message_key j (d_messages d) of
           None \<Rightarrow> None
         | Some r \<Rightarrow> if j \<in> set (sp_removed_message_ids page) \<or> (sp_reset page \<and> in_mailbox a mb r)
                    then None else Some (mr_message r)))
    \<and> mailbox_sync_cursor a mb d' =
        (case sp_cursor page of
           Some c \<Rightarrow> Inr (Some c)
         | None \<Rightarrow> if sp_reset page then Inr None else mailbox_sync_cursor a mb d)
    \<and> n = d_revision d + 1"
proof -
  from assms(2,3) obtain d1 d2 d3 where v: "validate_sync_page a mb page = Inr ()"
    and tgt: "\<forall>i \<in> set (sp_removed_message_ids page). \<forall>r.
       find_row message_key i (d_messages d) = Some r \<longrightarrow> in_mailbox a mb r"
    and d1: "d1 = (if sp_reset page then reset_mailbox a mb d else d)"
    and d2: "d2 = fold (\<lambda>i. delete_messages (\<lambda>r. message_key r = i \<and> in_mailbox a mb r))
       (sp_removed_message_ids page) d1"
    and d3: "fold_r (sync_upsert now) d2 (sp_messages page) = Inr d3"
    and b: "bump_revision (store_cursor now' a mb (sp_cursor page) d3) = Inr (n, d')"
    by (rule apply_sync_page_Inr)
  have "db_ok d1" using assms(1) by (simp add: d1 db_ok_reset_mailbox)
  note k1 = db_okD(4) [OF this]
  have m1: "find_row message_key j (d_messages d1) = (case find_row message_key j (d_messages d) of
      None \<Rightarrow> None | Some r \<Rightarrow> if sp_reset page \<and> in_mailbox a mb r then None else Some r)"
    by (auto simp: d1 reset_mailbox_def Let_def find_row_delete_rows [OF db_okD(4) [OF assms(1)]]
        split: option.splits)
  note m2 = removals_lookup [OF k1, of "in_mailbox a mb" "sp_removed_message_ids page" j, folded d2]
  note m3 = sync_upserts_lookup [OF d3 conjunct1 [OF m2], of j]
  have sync: "d_sync_state d3 = d_sync_state d1" "d_revision d3 = d_revision d"
    using only_messages_differ_frame(7,8) [OF sync_upserts_frame [OF d3]]
      only_messages_differ_frame(7,8) [OF fold_delete_frame [where p = "\<lambda>i r. message_key r = i \<and> in_mailbox a mb r"]]
    by (simp_all add: d2 d1 reset_mailbox_def Let_def)
  have d': "d_messages d' = d_messages d3" "d_sync_state d' = d_sync_state (store_cursor now' a mb (sp_cursor page) d3)"
    and n: "n = d_revision d + 1"
    using b sync(2) by (auto simp: bump_revision_Inr store_cursor_def split: option.splits)
  have k3: "keyed sync_key (d_sync_state d3)" using db_okD(3) [OF \<open>db_ok d1\<close>] sync by simp
  have cur1: "find_row sync_key (a, mb) (d_sync_state d1) =
      (if sp_reset page then None else find_row sync_key (a, mb) (d_sync_state d))"
    using sync_tbl.lookup_removed [OF db_okD(3) [OF assms(1)], of "(a, mb)"]
    by (simp add: d1 reset_mailbox_def Let_def)
  have cur: "mailbox_sync_cursor a mb d' = (case sp_cursor page of
       Some c \<Rightarrow> Inr (Some c) | None \<Rightarrow> if sp_reset page then Inr None else mailbox_sync_cursor a mb d)"
    using sync_tbl.lookup_upsert [OF k3, of "(a, mb)"] cur1 sync(1)
    by (auto simp: mailbox_sync_cursor_def d'(2) store_cursor_def sync_key_def merge_sync_def
        split: option.splits)
  have old: "find_row message_key j (d_messages d2) = (case find_row message_key j (d_messages d) of
       None \<Rightarrow> None
     | Some r \<Rightarrow> if j \<in> set (sp_removed_message_ids page) \<or> (sp_reset page \<and> in_mailbox a mb r)
                then None else Some r)"
    using conjunct2 [OF m2] m1 tgt by (auto split: option.splits)
  show ?thesis
    using m3 cur n old
    by (auto simp: cached_message_def d'(1) option.map_comp o_def split: option.splits)
qed

theorem sync_page_effect_witness:
  "\<exists>d'. apply_mailbox_sync_page 7 8 ''a'' ''INBOX'' \<lparr>sp_messages = [], sp_removed_message_ids = [''a:1''],
      sp_cursor = Some ''9'', sp_reset = False\<rparr> sample_db = Inr (5, d')
    \<and> cached_message ''a:1'' d' = None \<and> mailbox_sync_cursor ''a'' ''INBOX'' d' = Inr (Some ''9'')"
proof -
  let ?page = "\<lparr>sp_messages = [], sp_removed_message_ids = [''a:1''], sp_cursor = Some ''9'',
      sp_reset = False\<rparr>"
  obtain d' where ev: "apply_mailbox_sync_page 7 8 ''a'' ''INBOX'' ?page sample_db = Inr (5, d')"
    by (simp add: apply_mailbox_sync_page_def validate_sync_page_def sync_cursor_ok_def NUL_def
        has_mailbox_def find_row_def bump_revision_def store_cursor_def is_normalized_message_id_def
        strip_prefix_def starts_with_def in_mailbox_def)
      (simp add: sample_defs key_defs mailbox_key_def uint_bounds in_mailbox_def)
  show ?thesis using sync_page_effect [OF db_ok_sample_db ev, of "''a:1''"] ev
    by (simp split: option.splits)
qed

end
