(* ===== verification/Storage_Agenda.thy ===== *)
theory Storage_Agenda
  imports Storage_Sync
begin

section \<open>Tasks, calendar events, drafts and the dashboard\<close>

text \<open>
  The remaining operations of \<open>storage.rs\<close>. The lemmas show that they keep the invariant, that a
  task keeps the creation time of its first insertion, that replacing the remote agenda of an
  account leaves local tasks and every other account alone, and that the dashboard shows what the
  single listings show.
\<close>

subsection \<open>Drafts\<close>

record draft_record =
  df_draft_id :: string
  df_message :: outgoing_message
  df_updated_at :: int

definition merge_draft :: "draft_row \<Rightarrow> draft_row \<Rightarrow> draft_row" where
  "merge_draft old new = new"

definition save_draft ::
    "string \<Rightarrow> int \<Rightarrow> string option \<Rightarrow> outgoing_message \<Rightarrow> db
      \<Rightarrow> storage_error + (((string \<times> int) \<times> nat) \<times> db)" where
  "save_draft uuid now draft_id m d =
     (let i = (case draft_id of Some x \<Rightarrow> x | None \<Rightarrow> uuid) in
      bind_r (require (has_account (o_account_id m) d) (Sqlite ForeignKeyViolation)) (\<lambda>_.
      bind_r (bump_revision (d\<lparr>d_drafts := upsert_row dr_id merge_draft
          \<lparr>dr_id = i, dr_account_id = o_account_id m, dr_message = m, dr_updated_at = now\<rparr>
          (d_drafts d)\<rparr>)) (\<lambda>(n, d').
      Inr (((i, now), n), d'))))"

definition draft_record_from_row :: "draft_row \<Rightarrow> storage_error + draft_record" where
  "draft_record_from_row r =
     bind_r (timestamp_from_millis (dr_updated_at r)) (\<lambda>t.
     Inr \<lparr>df_draft_id = dr_id r, df_message = dr_message r, df_updated_at = t\<rparr>)"

definition list_drafts :: "string option \<Rightarrow> db \<Rightarrow> storage_error + draft_record list" where
  "list_drafts account_id d =
     collect_r draft_record_from_row (rev (sort_key (\<lambda>r. (dr_updated_at r, dr_id r))
       (filter (\<lambda>r. account_id = None \<or> account_id = Some (dr_account_id r)) (d_drafts d))))"

definition get_draft :: "string \<Rightarrow> db \<Rightarrow> storage_error + draft_record" where
  "get_draft i d =
     (case find_row dr_id i (d_drafts d) of
        None \<Rightarrow> Inl NotFound | Some r \<Rightarrow> draft_record_from_row r)"

definition delete_draft :: "string \<Rightarrow> db \<Rightarrow> storage_error + (nat \<times> db)" where
  "delete_draft i d =
     (if has_row dr_id i (d_drafts d)
      then bump_revision (d\<lparr>d_drafts := delete_rows (\<lambda>r. dr_id r = i) (d_drafts d)\<rparr>)
      else Inl NotFound)"

subsection \<open>Tasks\<close>

definition task_from_row :: "task \<Rightarrow> storage_error + task" where
  "task_from_row t =
     bind_r (case t_due_at t of None \<Rightarrow> Inr None
             | Some u \<Rightarrow> map_ok Some (timestamp_from_millis u)) (\<lambda>due.
     bind_r (timestamp_from_millis (t_created_at t)) (\<lambda>created.
     Inr (t\<lparr>t_due_at := due, t_created_at := created\<rparr>)))"

text \<open>\<open>ORDER BY done, due_at IS NULL, due_at, created_at, id\<close>\<close>

definition task_order :: "task \<Rightarrow> bool \<times> bool \<times> int \<times> int \<times> string" where
  "task_order t = (t_done t, t_due_at t = None,
     (case t_due_at t of None \<Rightarrow> 0 | Some u \<Rightarrow> u), t_created_at t, t_id t)"

definition list_tasks :: "bool \<Rightarrow> db \<Rightarrow> storage_error + task list" where
  "list_tasks include_done d =
     collect_r task_from_row (sort_key task_order (filter (\<lambda>t. include_done \<or> \<not> t_done t) (d_tasks d)))"

definition get_task :: "string \<Rightarrow> db \<Rightarrow> storage_error + task" where
  "get_task i d = (case find_row t_id i (d_tasks d) of None \<Rightarrow> Inl NotFound | Some t \<Rightarrow> task_from_row t)"

definition upsert_task :: "task \<Rightarrow> db \<Rightarrow> storage_error + (nat \<times> db)" where
  "upsert_task t d = bind_r (upsert_task_row t d) bump_revision"

definition complete_task :: "string \<Rightarrow> bool \<Rightarrow> db \<Rightarrow> storage_error + (nat \<times> db)" where
  "complete_task i b d =
     (if has_row t_id i (d_tasks d)
      then bump_revision (d\<lparr>d_tasks := update_row t_id i (\<lambda>t. t\<lparr>t_done := b\<rparr>) (d_tasks d)\<rparr>)
      else Inl NotFound)"

definition delete_task :: "string \<Rightarrow> db \<Rightarrow> storage_error + (nat \<times> db)" where
  "delete_task i d =
     (if has_row t_id i (d_tasks d)
      then bump_revision (d\<lparr>d_tasks := delete_rows (\<lambda>t. t_id t = i) (d_tasks d)\<rparr>)
      else Inl NotFound)"

subsection \<open>Events\<close>

definition event_from_row :: "calendar_event \<Rightarrow> storage_error + calendar_event" where
  "event_from_row e =
     bind_r (timestamp_from_millis (e_start_at e)) (\<lambda>s.
     bind_r (timestamp_from_millis (e_end_at e)) (\<lambda>u.
     Inr (e\<lparr>e_start_at := s, e_end_at := u\<rparr>)))"

definition upsert_events :: "calendar_event list \<Rightarrow> db \<Rightarrow> storage_error + (nat \<times> db)" where
  "upsert_events es d =
     (if es = [] then bind_r (read_revision d) (\<lambda>n. Inr (n, d))
      else bind_r (fold_r (\<lambda>d e. upsert_event_row e d) d es) bump_revision)"

definition delete_event :: "string \<Rightarrow> db \<Rightarrow> storage_error + (nat \<times> db)" where
  "delete_event i d =
     (if has_row e_id i (d_events d)
      then bump_revision (d\<lparr>d_events := delete_rows (\<lambda>e. e_id e = i) (d_events d)\<rparr>)
      else Inl NotFound)"

definition get_event :: "string \<Rightarrow> db \<Rightarrow> storage_error + calendar_event" where
  "get_event i d = (case find_row e_id i (d_events d) of None \<Rightarrow> Inl NotFound | Some e \<Rightarrow> event_from_row e)"

definition overlaps :: "int \<Rightarrow> int \<Rightarrow> calendar_event \<Rightarrow> bool" where
  "overlaps start end e \<longleftrightarrow> e_start_at e < end \<and> start \<le> e_end_at e"

definition list_events :: "int \<Rightarrow> int \<Rightarrow> db \<Rightarrow> storage_error + calendar_event list" where
  "list_events start end d =
     collect_r event_from_row (sort_key (\<lambda>e. (e_start_at e, e_id e))
       (filter (overlaps start end) (d_events d)))"

subsection \<open>Replacing the remote agenda of an account\<close>

definition remote_task_of :: "string \<Rightarrow> task \<Rightarrow> bool" where
  "remote_task_of a t \<longleftrightarrow> t_account t = a \<and> t_source t \<in> {''google_tasks'', ''microsoft_todo''}"

definition replace_remote_agenda ::
    "string \<Rightarrow> int \<Rightarrow> int \<Rightarrow> task list \<Rightarrow> calendar_event list \<Rightarrow> db \<Rightarrow> storage_error + (nat \<times> db)" where
  "replace_remote_agenda a start end ts es d =
     (if list_ex (\<lambda>t. t_account t \<noteq> a) ts
         \<or> list_ex (\<lambda>e. \<not> (case strip_prefix (e_calendar_id e) a of
               None \<Rightarrow> False | Some rest \<Rightarrow> starts_with rest [COLON])) es
      then Inl (InvalidData ''remote agenda page is not scoped to its account'')
      else
        (let d1 = d\<lparr>d_tasks := delete_rows (remote_task_of a) (d_tasks d)\<rparr>;
             d2 = d1\<lparr>d_events := delete_rows (\<lambda>e. calendar_of_account a (e_calendar_id e)
                       \<and> overlaps start end e) (d_events d1)\<rparr>
         in bind_r (fold_r (\<lambda>d t. upsert_task_row t d) d2 ts) (\<lambda>d3.
            bind_r (fold_r (\<lambda>d e. upsert_event_row e d) d3 es) bump_revision)))"

subsection \<open>The dashboard\<close>

record dashboard_snapshot =
  ds_revision :: nat
  ds_accounts :: "account list"
  ds_recent_mail :: "message_summary list"
  ds_tasks :: "task list"
  ds_events :: "calendar_event list"

definition day_ms :: int where "day_ms = 86400000"

definition dashboard_snapshot_of ::
    "(string \<Rightarrow> fts_row list \<Rightarrow> storage_error + string set) \<Rightarrow> (int \<times> string \<Rightarrow> string)
     \<Rightarrow> (string \<Rightarrow> (int \<times> string) option) \<Rightarrow> int \<Rightarrow> db \<Rightarrow> storage_error + dashboard_snapshot" where
  "dashboard_snapshot_of fts_match enc dec now d =
     bind_r (list_accounts d) (\<lambda>accounts.
     bind_r (list_messages fts_match enc dec (default_query\<lparr>q_limit := 30\<rparr>) d) (\<lambda>page.
     bind_r (list_tasks True d) (\<lambda>tasks.
     bind_r (list_events (now - day_ms) (now + 14 * day_ms) d) (\<lambda>events.
     bind_r (read_revision d) (\<lambda>n.
     Inr \<lparr>ds_revision = n, ds_accounts = accounts, ds_recent_mail = p_messages page,
          ds_tasks = tasks, ds_events = events\<rparr>)))))"

subsection \<open>The invariant\<close>

interpretation task_tbl:
  primary_key "find_row t_id" "upsert_row t_id merge_task" delete_rows "keyed t_id" t_id merge_task
  by (rule primary_key_rows) (simp add: merge_task_def)

interpretation event_tbl:
  primary_key "find_row e_id" "upsert_row e_id merge_event" delete_rows "keyed e_id" e_id merge_event
  by (rule primary_key_rows) (simp add: merge_event_def)

interpretation draft_tbl:
  primary_key "find_row dr_id" "upsert_row dr_id merge_draft" delete_rows "keyed dr_id" dr_id merge_draft
  by (rule primary_key_rows) (simp add: merge_draft_def)

lemma db_ok_save_draft:
  assumes "db_ok d" and "save_draft uuid now i m d = Inr (r, d')" and "valid_ts now"
  shows "db_ok d'"
proof -
  let ?i = "case i of Some x \<Rightarrow> x | None \<Rightarrow> uuid"
  let ?r = "\<lparr>dr_id = ?i, dr_account_id = o_account_id m, dr_message = m, dr_updated_at = now\<rparr>"
  have acct: "has_account (o_account_id m) d"
    and b: "\<exists>n. bump_revision (d\<lparr>d_drafts := upsert_row dr_id merge_draft ?r (d_drafts d)\<rparr>) = Inr (n, d')"
    using assms(2) by (auto simp: save_draft_def Let_def bind_r_eq_Inr require_eq_Inr)
  have "keyed dr_id (upsert_row dr_id merge_draft ?r (d_drafts d))"
    by (rule draft_tbl.wf_upsert [OF db_okD(8) [OF assms(1)]])
  moreover have "\<forall>x \<in> set (upsert_row dr_id merge_draft ?r (d_drafts d)).
      valid_ts (dr_updated_at x) \<and> has_account (dr_account_id x) d"
    using assms(1,3) acct by (auto simp: mem_upsert_row merge_draft_def db_ok_defs)
  ultimately have "db_ok (d\<lparr>d_drafts := upsert_row dr_id merge_draft ?r (d_drafts d)\<rparr>)"
    using assms(1) by (simp add: db_ok_set_drafts)
  with b show ?thesis by (auto intro: db_ok_bump)
qed

lemma db_ok_delete_draft: "db_ok d \<Longrightarrow> delete_draft i d = Inr (n, d') \<Longrightarrow> db_ok d'"
proof -
  assume ok: "db_ok d" and del: "delete_draft i d = Inr (n, d')"
  have "keyed dr_id (delete_rows (\<lambda>r. dr_id r = i) (d_drafts d))"
    by (rule draft_tbl.wf_remove [OF db_okD(8) [OF ok]])
  moreover have "\<forall>x \<in> set (delete_rows (\<lambda>r. dr_id r = i) (d_drafts d)).
      valid_ts (dr_updated_at x) \<and> has_account (dr_account_id x) d"
    using ok by (simp add: db_ok_defs)
  ultimately have "db_ok (d\<lparr>d_drafts := delete_rows (\<lambda>r. dr_id r = i) (d_drafts d)\<rparr>)"
    using ok by (simp add: db_ok_set_drafts)
  then show ?thesis using del by (auto simp: delete_draft_def intro: db_ok_bump split: if_splits)
qed

lemma db_ok_upsert_task_op: "db_ok d \<Longrightarrow> task_ok t \<Longrightarrow> upsert_task t d = Inr (n, d') \<Longrightarrow> db_ok d'"
  unfolding upsert_task_def bind_r_eq_Inr using db_ok_upsert_task db_ok_bump by blast

lemma slots_unique_done:
  "slots_unique t_external_id task_slot (update_row t_id i (\<lambda>t. t\<lparr>t_done := b\<rparr>) ts) =
     slots_unique t_external_id task_slot ts"
proof -
  have "map task_slot (filter (\<lambda>r. t_external_id r \<noteq> []) (update_row t_id i (\<lambda>t. t\<lparr>t_done := b\<rparr>) ts)) =
      map task_slot (filter (\<lambda>r. t_external_id r \<noteq> []) ts)"
    by (induction ts) (auto simp: update_row_def task_slot_def)
  then show ?thesis by (simp add: slots_unique_def)
qed

lemma db_ok_complete_task: "db_ok d \<Longrightarrow> complete_task i b d = Inr (n, d') \<Longrightarrow> db_ok d'"
proof -
  assume ok: "db_ok d" and c: "complete_task i b d = Inr (n, d')"
  have "keyed t_id (update_row t_id i (\<lambda>t. t\<lparr>t_done := b\<rparr>) (d_tasks d))"
    using db_okD(5) [OF ok] by (rule keyed_update_row) simp
  moreover have "\<forall>x \<in> set (update_row t_id i (\<lambda>t. t\<lparr>t_done := b\<rparr>) (d_tasks d)). task_ok x"
    using ok by (auto simp: mem_update_row db_ok_defs task_ok_def)
  ultimately have "db_ok (d\<lparr>d_tasks := update_row t_id i (\<lambda>t. t\<lparr>t_done := b\<rparr>) (d_tasks d)\<rparr>)"
    using ok by (intro db_ok_set_tasks) (simp_all add: slots_unique_done db_ok_defs)
  then show ?thesis using c by (auto simp: complete_task_def intro: db_ok_bump split: if_splits)
qed

lemma db_ok_delete_task: "db_ok d \<Longrightarrow> delete_task i d = Inr (n, d') \<Longrightarrow> db_ok d'"
  by (auto simp: delete_task_def intro: db_ok_bump [OF db_ok_delete_tasks] split: if_splits)

lemma db_ok_delete_event: "db_ok d \<Longrightarrow> delete_event i d = Inr (n, d') \<Longrightarrow> db_ok d'"
  by (auto simp: delete_event_def intro: db_ok_bump [OF db_ok_delete_events] split: if_splits)

lemma db_ok_event_loop:
  assumes "fold_r (\<lambda>d e. upsert_event_row e d) d es = Inr d'" and "db_ok d" and "\<forall>e \<in> set es. event_ok e"
  shows "db_ok d'"
  by (rule fold_r_invariant [where P = db_ok, OF assms(1,2)])
    (use assms(3) db_ok_upsert_event in blast)

lemma db_ok_task_loop:
  assumes "fold_r (\<lambda>d t. upsert_task_row t d) d ts = Inr d'" and "db_ok d" and "\<forall>t \<in> set ts. task_ok t"
  shows "db_ok d'"
  by (rule fold_r_invariant [where P = db_ok, OF assms(1,2)])
    (use assms(3) db_ok_upsert_task in blast)

lemma db_ok_upsert_events:
  "db_ok d \<Longrightarrow> \<forall>e \<in> set es. event_ok e \<Longrightarrow> upsert_events es d = Inr (n, d') \<Longrightarrow> db_ok d'"
  by (auto simp: upsert_events_def bind_r_eq_Inr read_revision_def
      intro: db_ok_bump [OF db_ok_event_loop] split: if_splits)

lemma db_ok_replace_remote_agenda:
  assumes "db_ok d" and r: "replace_remote_agenda a start end ts es d = Inr (n, d')"
    and "\<forall>t \<in> set ts. task_ok t" and "\<forall>e \<in> set es. event_ok e"
  shows "db_ok d'"
proof -
  define d2 where "d2 = (let d1 = d\<lparr>d_tasks := delete_rows (remote_task_of a) (d_tasks d)\<rparr>
    in d1\<lparr>d_events := delete_rows (\<lambda>e. calendar_of_account a (e_calendar_id e) \<and> overlaps start end e)
         (d_events d1)\<rparr>)"
  have "db_ok d2" unfolding d2_def Let_def
    using assms(1) by (intro db_ok_delete_events db_ok_delete_tasks)
  moreover obtain d3 d4 where "fold_r (\<lambda>d t. upsert_task_row t d) d2 ts = Inr d3"
      "fold_r (\<lambda>d e. upsert_event_row e d) d3 es = Inr d4" "bump_revision d4 = Inr (n, d')"
    using r by (auto simp: replace_remote_agenda_def d2_def Let_def bind_r_eq_Inr split: if_splits)
  ultimately show ?thesis
    using assms(3,4) db_ok_task_loop db_ok_event_loop db_ok_bump by blast
qed

subsection \<open>What the operations do\<close>

text \<open>A saved draft is read back as it was saved, under its own identifier or the fresh one, and
  no other draft changes.\<close>

theorem draft_roundtrip:
  assumes "db_ok d" and "save_draft uuid now i m d = Inr (((j, t), n), d')" and "valid_ts now"
  shows "get_draft j d' = Inr \<lparr>df_draft_id = j, df_message = m, df_updated_at = now\<rparr>
    \<and> j = (case i of Some x \<Rightarrow> x | None \<Rightarrow> uuid) \<and> (\<forall>k. k \<noteq> j \<longrightarrow> get_draft k d' = get_draft k d)"
proof -
  let ?r = "\<lparr>dr_id = j, dr_account_id = o_account_id m, dr_message = m, dr_updated_at = now\<rparr>"
  have j: "j = (case i of Some x \<Rightarrow> x | None \<Rightarrow> uuid)"
    and d': "d_drafts d' = upsert_row dr_id merge_draft ?r (d_drafts d)"
    using assms(2) by (auto simp: save_draft_def Let_def bind_r_eq_Inr bump_revision_Inr)
  note look = draft_tbl.lookup_upsert [OF db_okD(8) [OF assms(1)], of _ ?r, folded d']
  show ?thesis
    using assms(3) j
    by (auto simp: get_draft_def look merge_draft_def draft_record_from_row_def split: option.splits)
qed

theorem draft_roundtrip_witness:
  "\<exists>d'. get_draft ''x'' d' = Inr \<lparr>df_draft_id = ''x'', df_message = \<lparr>o_draft_id = None,
      o_account_id = ''a'', o_to = [], o_cc = [], o_bcc = [], o_subject = ''s'', o_body_text = None,
      o_body_html = None, o_in_reply_to = None\<rparr>, df_updated_at = 3\<rparr>"
proof -
  let ?m = "\<lparr>o_draft_id = None, o_account_id = ''a'', o_to = [], o_cc = [], o_bcc = [],
      o_subject = ''s'', o_body_text = None, o_body_html = None, o_in_reply_to = None\<rparr>"
  obtain d' where ev: "save_draft ''u'' 3 (Some ''x'') ?m sample_db = Inr (((''x'', 3), 5), d')"
    by (simp add: save_draft_def Let_def has_account_def bump_revision_def sample_defs account_key_def uint_bounds)
  have "valid_ts 3" by (simp add: valid_ts_def ts_min_def ts_max_def)
  from draft_roundtrip [OF db_ok_sample_db ev this] show ?thesis by blast
qed

lemma task_loop:
  assumes "fold_r (\<lambda>d t. upsert_task_row t d) d ts = Inr d'"
  shows "d' = d\<lparr>d_tasks := fold (upsert_row t_id merge_task) ts (d_tasks d)\<rparr>"
  using assms
proof (induction ts arbitrary: d)
  case (Cons t ts)
  then obtain d1 where "upsert_task_row t d = Inr d1" and rest: "fold_r (\<lambda>d t. upsert_task_row t d) d1 ts = Inr d'"
    by (auto simp: bind_r_eq_Inr)
  then have "d1 = d\<lparr>d_tasks := upsert_row t_id merge_task t (d_tasks d)\<rparr>"
    by (simp add: upsert_task_row_def split: if_splits)
  with Cons.IH [OF rest] show ?case by simp
qed simp

lemma event_loop:
  assumes "fold_r (\<lambda>d e. upsert_event_row e d) d es = Inr d'"
  shows "d' = d\<lparr>d_events := fold (upsert_row e_id merge_event) es (d_events d)\<rparr>"
  using assms
proof (induction es arbitrary: d)
  case (Cons t es)
  then obtain d1 where "upsert_event_row t d = Inr d1" and rest: "fold_r (\<lambda>d e. upsert_event_row e d) d1 es = Inr d'"
    by (auto simp: bind_r_eq_Inr)
  then have "d1 = d\<lparr>d_events := upsert_row e_id merge_event t (d_events d)\<rparr>"
    by (simp add: upsert_event_row_def split: if_splits)
  with Cons.IH [OF rest] show ?case by simp
qed simp

text \<open>C33: replacing the remote agenda of an account is a replacement. What the provider returned is
  stored; of the account's older remote tasks and of its events in the window nothing else is left;
  tasks of other accounts or kept locally and all other events are untouched.\<close>

theorem replace_remote_agenda_effect:
  assumes "db_ok d" and "replace_remote_agenda a start end ts es d = Inr (n, d')"
  shows "(if j \<in> t_id ` set ts then find_row t_id j (d_tasks d') \<noteq> None
      else find_row t_id j (d_tasks d') =
        (case find_row t_id j (d_tasks d) of
           None \<Rightarrow> None | Some t \<Rightarrow> if remote_task_of a t then None else Some t))
    \<and> (if k \<in> e_id ` set es then find_row e_id k (d_events d') \<noteq> None
      else find_row e_id k (d_events d') =
        (case find_row e_id k (d_events d) of
           None \<Rightarrow> None
         | Some e \<Rightarrow> if calendar_of_account a (e_calendar_id e) \<and> overlaps start end e then None else Some e))
    \<and> (\<forall>t \<in> set ts. t_account t = a) \<and> (\<forall>e \<in> set es. calendar_of_account a (e_calendar_id e))
    \<and> n = d_revision d + 1"
proof -
  let ?T = "delete_rows (remote_task_of a) (d_tasks d)"
  let ?E = "delete_rows (\<lambda>e. calendar_of_account a (e_calendar_id e) \<and> overlaps start end e) (d_events d)"
  obtain d3 d4 where l1: "fold_r (\<lambda>d t. upsert_task_row t d) (d\<lparr>d_tasks := ?T, d_events := ?E\<rparr>) ts = Inr d3"
    and l2: "fold_r (\<lambda>d e. upsert_event_row e d) d3 es = Inr d4" and b: "bump_revision d4 = Inr (n, d')"
    using assms(2) by (auto simp: replace_remote_agenda_def Let_def bind_r_eq_Inr split: if_splits)
  have scoped: "(\<forall>t \<in> set ts. t_account t = a) \<and> (\<forall>e \<in> set es. calendar_of_account a (e_calendar_id e))"
    using assms(2) unfolding replace_remote_agenda_def
    by (fastforce simp: list_ex_iff calendar_of_account_def starts_with_iff strip_prefix_eq_Some
        split: if_splits option.splits)
  have d': "d_tasks d' = fold (upsert_row t_id merge_task) ts ?T"
      "d_events d' = fold (upsert_row e_id merge_event) es ?E" "n = d_revision d + 1"
    using b unfolding event_loop [OF l2] task_loop [OF l1] by (simp_all add: bump_revision_Inr)
  have kt: "keyed t_id ?T" and ke: "keyed e_id ?E"
    using db_okD(5,6) [OF assms(1)] by (auto intro: keyed_delete_rows)
  have "find_row t_id j (d_tasks d') \<noteq> None" if "j \<in> t_id ` set ts"
    using that task_tbl.lookup_upserts_mem [OF kt] by (auto simp: d')
  moreover have "find_row t_id j (d_tasks d') = find_row t_id j ?T" if "j \<notin> t_id ` set ts"
    using that task_tbl.lookup_other_upserts [OF kt, of ts j] by (auto simp: d')
  moreover have "find_row e_id k (d_events d') \<noteq> None" if "k \<in> e_id ` set es"
    using that event_tbl.lookup_upserts_mem [OF ke] by (auto simp: d')
  moreover have "find_row e_id k (d_events d') = find_row e_id k ?E" if "k \<notin> e_id ` set es"
    using that event_tbl.lookup_other_upserts [OF ke, of es k] by (auto simp: d')
  ultimately show ?thesis
    using scoped d'(3) find_row_delete_rows [OF db_okD(5) [OF assms(1)], of j "remote_task_of a"]
      find_row_delete_rows [OF db_okD(6) [OF assms(1)], of k]
    by presburger
qed

definition sample_task :: "string \<Rightarrow> string \<Rightarrow> string \<Rightarrow> task" where
  "sample_task i src a = \<lparr>t_id = i, t_title = ''T'', t_description = [], t_done = False, t_due_at = None,
     t_created_at = 5, t_source = src, t_external_id = i, t_account = a\<rparr>"

lemma db_ok_sample_tasks:
  "db_ok (sample_db\<lparr>d_tasks := [sample_task ''x'' ''google_tasks'' ''a'', sample_task ''l'' ''local'' []]\<rparr>)"
  by (rule db_ok_set_tasks [OF db_ok_sample_db])
    (simp_all add: keyed_def sample_task_def task_ok_def valid_ts_def ts_min_def ts_max_def
      slots_unique_def task_slot_def)

theorem replace_remote_agenda_effect_witness:
  "\<exists>d'. replace_remote_agenda ''a'' 0 10 [sample_task ''y'' ''google_tasks'' ''a''] []
      (sample_db\<lparr>d_tasks := [sample_task ''x'' ''google_tasks'' ''a'', sample_task ''l'' ''local'' []]\<rparr>) = Inr (5, d')
    \<and> find_row t_id ''x'' (d_tasks d') = None \<and> find_row t_id ''y'' (d_tasks d') \<noteq> None"
proof -
  let ?d = "sample_db\<lparr>d_tasks := [sample_task ''x'' ''google_tasks'' ''a'', sample_task ''l'' ''local'' []]\<rparr>"
  obtain d' where ev: "replace_remote_agenda ''a'' 0 10 [sample_task ''y'' ''google_tasks'' ''a''] [] ?d = Inr (5, d')"
    by (simp add: replace_remote_agenda_def sample_task_def remote_task_of_def upsert_task_row_def
        bump_revision_def delete_rows_def task_slot_def)
      (simp add: sample_db_def empty_db_def uint_bounds)
  note eff = replace_remote_agenda_effect [OF db_ok_sample_tasks ev]
  have "find_row t_id ''x'' (d_tasks ?d) = Some (sample_task ''x'' ''google_tasks'' ''a'')"
    by (simp add: find_row_def sample_task_def)
  then show ?thesis using ev eff [of "''x''"] eff [of "''y''"]
    by (simp add: sample_task_def remote_task_of_def)
qed

lemma task_from_row_ok: "task_ok t \<Longrightarrow> task_from_row t = Inr t"
  by (simp add: task_from_row_def task_ok_def split: option.splits)

lemma event_from_row_ok: "event_ok e \<Longrightarrow> event_from_row e = Inr e"
  by (simp add: event_from_row_def event_ok_def)

lemma collect_r_id: "(\<And>x. x \<in> set xs \<Longrightarrow> f x = Inr x) \<Longrightarrow> collect_r f xs = Inr xs"
  using collect_r_total [of xs f "\<lambda>x. x"] by simp

text \<open>The dashboard of a consistent database never fails, needs no search, and shows the
  accounts, the 30 newest messages, all tasks in their order and the events of the window.\<close>

theorem dashboard_snapshot_total:
  assumes "db_ok d"
  shows "dashboard_snapshot_of fts_match enc dec now d = Inr
    \<lparr>ds_revision = d_revision d, ds_accounts = map ar_account (accounts_by_address d),
     ds_recent_mail = take 30 (map (\<lambda>r. m_summary (mr_message r)) (newest_first (d_messages d))),
     ds_tasks = sort_key task_order (d_tasks d),
     ds_events = sort_key (\<lambda>e. (e_start_at e, e_id e))
       (filter (overlaps (now - day_ms) (now + 14 * day_ms)) (d_events d))\<rparr>"
proof -
  let ?q = "default_query\<lparr>q_limit := 30\<rparr>"
  have q: "listing fts_match dec ?q d = Inr (map (\<lambda>r. m_summary (mr_message r)) (newest_first (d_messages d)))"
    by (simp add: listing_def default_query_def search_text_def message_matches_def)
  have lim: "clamp (Suc 0) MAX_PAGE_SIZE 30 = 30" by (simp add: clamp_def MAX_PAGE_SIZE_def)
  have ts: "list_tasks True d = Inr (sort_key task_order (d_tasks d))"
    using assms by (auto simp: list_tasks_def db_ok_defs intro!: collect_r_id task_from_row_ok)
  have es: "list_events s u d = Inr (sort_key (\<lambda>e. (e_start_at e, e_id e)) (filter (overlaps s u) (d_events d)))" for s u
    using assms by (auto simp: list_events_def db_ok_defs intro!: collect_r_id event_from_row_ok)
  show ?thesis
    by (simp add: dashboard_snapshot_of_def list_accounts_def read_revision_def ts es
        list_messages_listing [OF assms] q lim del: message_query.update_convs)
qed

theorem dashboard_snapshot_total_witness:
  "\<exists>s. dashboard_snapshot_of (\<lambda>_ _. Inr {}) sample_enc sample_dec 0 sample_db = Inr s \<and> ds_revision s = 4"
  using dashboard_snapshot_total [OF db_ok_sample_db] by (simp add: sample_db_def)

end
