(* ===== verification/Storage_Jobs.thy ===== *)
theory Storage_Jobs
  imports Storage_Agenda
begin

section \<open>The database worker\<close>

text \<open>
  \<open>Database\<close> in \<open>storage.rs\<close> sends each operation as a job to one worker thread, which runs
  them in order on the \<open>Repository\<close>. \<open>job\<close> has one constructor for each operation that writes;
  \<open>exec_job\<close> runs it. An operation that fails has dropped its transaction, so \<open>run_job\<close> keeps the
  database. The worker is a step relation over the database and its bounded queue.

  The locale \<open>preserved\<close> states what it takes for a property to hold along every execution; it is
  interpreted for the invariant of the database, for the revision counter and for operations that
  have left the state pending.
\<close>

datatype job =
    UpsertAccountConfig int account json
  | UpdateAccountCounts int string nat nat
  | SetAccountAuthState int string string "string option"
  | RemoveAccount string
  | UpsertMailboxes "mailbox list"
  | ApplyMailboxSyncPage int int string string mailbox_sync_page
  | UpsertMessages int "message list"
  | UpsertMessageSummaries int "message_summary list"
  | ApplyMailAction string int mail_action
  | FinishOperation int string "string + unit"
  | FinishMailAction int "nat \<Rightarrow> int" string mail_action "string + unit"
  | QueueOutgoing string int outgoing_message
  | SaveDraft string int "string option" outgoing_message
  | DeleteDraft string
  | UpsertTask task
  | CompleteTask string bool
  | DeleteTask string
  | UpsertEvents "calendar_event list"
  | DeleteEvent string
  | ReplaceRemoteAgenda string int int "task list" "calendar_event list"
  | QueueAgendaOperation string int string string json
  | DeferOperation int string string
  | CommitTaskUpsert int string task
  | CommitTaskDelete int string string
  | CommitEventUpsert int string calendar_event
  | CommitEventDelete int string string

fun exec_job :: "job \<Rightarrow> db \<Rightarrow> storage_error + db" where
  "exec_job (UpsertAccountConfig now a c) d = map_ok snd (upsert_account_config now a c d)"
| "exec_job (UpdateAccountCounts now i u t) d = map_ok snd (update_account_counts now i u t d)"
| "exec_job (SetAccountAuthState now i s e) d = map_ok snd (set_account_auth_state now i s e d)"
| "exec_job (RemoveAccount i) d = map_ok snd (remove_account i d)"
| "exec_job (UpsertMailboxes ms) d = map_ok snd (upsert_mailboxes ms d)"
| "exec_job (ApplyMailboxSyncPage now now' a mb p) d = map_ok snd (apply_mailbox_sync_page now now' a mb p d)"
| "exec_job (UpsertMessages now ms) d = map_ok snd (upsert_messages now ms d)"
| "exec_job (UpsertMessageSummaries now ss) d = map_ok snd (upsert_message_summaries now ss d)"
| "exec_job (ApplyMailAction u now a) d = map_ok snd (apply_mail_action u now a d)"
| "exec_job (FinishOperation now i r) d = finish_operation now i r d"
| "exec_job (FinishMailAction now clk i a r) d = map_ok snd (finish_mail_action now clk i a r d)"
| "exec_job (QueueOutgoing u now m) d = map_ok snd (queue_outgoing u now m d)"
| "exec_job (SaveDraft u now i m) d = map_ok snd (save_draft u now i m d)"
| "exec_job (DeleteDraft i) d = map_ok snd (delete_draft i d)"
| "exec_job (UpsertTask t) d = map_ok snd (upsert_task t d)"
| "exec_job (CompleteTask i b) d = map_ok snd (complete_task i b d)"
| "exec_job (DeleteTask i) d = map_ok snd (delete_task i d)"
| "exec_job (UpsertEvents es) d = map_ok snd (upsert_events es d)"
| "exec_job (DeleteEvent i) d = map_ok snd (delete_event i d)"
| "exec_job (ReplaceRemoteAgenda a s e ts es) d = map_ok snd (replace_remote_agenda a s e ts es d)"
| "exec_job (QueueAgendaOperation u now k a p) d = map_ok snd (queue_agenda_operation u now k a p d)"
| "exec_job (DeferOperation now i e) d = defer_operation now i e d"
| "exec_job (CommitTaskUpsert now i t) d = map_ok snd (commit_agenda_task_upsert now i t d)"
| "exec_job (CommitTaskDelete now i t) d = map_ok snd (commit_agenda_task_delete now i t d)"
| "exec_job (CommitEventUpsert now i e) d = map_ok snd (commit_agenda_event_upsert now i e d)"
| "exec_job (CommitEventDelete now i e) d = map_ok snd (commit_agenda_event_delete now i e d)"

definition run_job :: "job \<Rightarrow> db \<Rightarrow> db" where
  "run_job j d = (case exec_job j d of Inl _ \<Rightarrow> d | Inr d' \<Rightarrow> d')"

definition run_jobs :: "job list \<Rightarrow> db \<Rightarrow> db" where
  "run_jobs js d = fold run_job js d"

text \<open>The instants a job carries come from \<open>DateTime<Utc>\<close> values.\<close>

fun job_ok :: "job \<Rightarrow> bool" where
  "job_ok (ApplyMailboxSyncPage now now' a mb p) = (\<forall>s \<in> set (sp_messages p). valid_ts (ms_timestamp s))"
| "job_ok (UpsertMessages now ms) = (\<forall>m \<in> set ms. valid_ts (ms_timestamp (m_summary m)))"
| "job_ok (UpsertMessageSummaries now ss) = (\<forall>s \<in> set ss. valid_ts (ms_timestamp s))"
| "job_ok (SaveDraft u now i m) = valid_ts now"
| "job_ok (UpsertTask t) = task_ok t"
| "job_ok (UpsertEvents es) = (\<forall>e \<in> set es. event_ok e)"
| "job_ok (ReplaceRemoteAgenda a s e ts es) = ((\<forall>t \<in> set ts. task_ok t) \<and> (\<forall>e \<in> set es. event_ok e))"
| "job_ok (CommitTaskUpsert now i t) = task_ok t"
| "job_ok (CommitEventUpsert now i e) = event_ok e"
| "job_ok _ = True"

text \<open>The identifier that a job draws for a new operation row.\<close>

fun job_uuid :: "job \<Rightarrow> string option" where
  "job_uuid (ApplyMailAction u now a) = Some u"
| "job_uuid (QueueOutgoing u now m) = Some u"
| "job_uuid (QueueAgendaOperation u now k a p) = Some u"
| "job_uuid _ = None"

text \<open>The operation that a job commits.\<close>

fun commit_id :: "job \<Rightarrow> string option" where
  "commit_id (CommitTaskUpsert now i t) = Some i"
| "commit_id (CommitTaskDelete now i t) = Some i"
| "commit_id (CommitEventUpsert now i e) = Some i"
| "commit_id (CommitEventDelete now i e) = Some i"
| "commit_id _ = None"

subsection \<open>What every execution preserves\<close>

locale preserved =
  fixes exec :: "'j \<Rightarrow> 'd \<Rightarrow> 'e + 'd"
    and inv :: "'d \<Rightarrow> bool"
    and admissible :: "'j \<Rightarrow> bool"
  assumes exec_inv: "inv d \<Longrightarrow> admissible j \<Longrightarrow> exec j d = Inr d' \<Longrightarrow> inv d'"
begin

lemma run_inv: "inv d \<Longrightarrow> admissible j \<Longrightarrow> inv (case exec j d of Inl _ \<Rightarrow> d | Inr d' \<Rightarrow> d')"
  using exec_inv by (auto split: sum.splits)

lemma runs_inv:
  "inv d \<Longrightarrow> \<forall>j \<in> set js. admissible j \<Longrightarrow>
     inv (fold (\<lambda>j d. case exec j d of Inl _ \<Rightarrow> d | Inr d' \<Rightarrow> d') js d)"
proof (induction js arbitrary: d)
  case (Cons j js)
  then show ?case using run_inv [of d j] by simp
qed simp

end

lemma db_ok_upsert_message_summaries:
  "db_ok d \<Longrightarrow> upsert_message_summaries now ss d = Inr (n, d') \<Longrightarrow>
     \<forall>s \<in> set ss. valid_ts (ms_timestamp s) \<Longrightarrow> db_ok d'"
  unfolding upsert_message_summaries_def
  by (erule (1) db_ok_upsert_messages_with_body_state) (simp add: message_of_summary_def)

lemma exec_job_ok:
  assumes "db_ok d" and "job_ok j" and "exec_job j d = Inr d'"
  shows "db_ok d'"
  using assms
  by (cases j)
    (auto simp: map_ok_eq_Inr upsert_messages_def apply_mail_action_def queue_outgoing_def
      queue_agenda_operation_def bind_r_eq_Inr
      split: if_splits
      elim: db_ok_upsert_account_config db_ok_update_account_counts db_ok_set_account_auth_state
        db_ok_remove_account db_ok_upsert_mailboxes db_ok_apply_mailbox_sync_page
        db_ok_upsert_messages_with_body_state db_ok_upsert_message_summaries db_ok_record_operation db_ok_finish_operation
        db_ok_finish_mail_action db_ok_save_draft db_ok_delete_draft db_ok_upsert_task_op
        db_ok_complete_task db_ok_delete_task db_ok_upsert_events db_ok_delete_event
        db_ok_replace_remote_agenda db_ok_defer_operation db_ok_commit_agenda_task_upsert
        db_ok_commit_agenda_task_delete db_ok_commit_agenda_event_upsert
        db_ok_commit_agenda_event_delete)

interpretation db_inv: preserved exec_job db_ok job_ok
  by unfold_locales (rule exec_job_ok)

subsection \<open>The revision and the operation log\<close>

text \<open>The part of the state that orders clients' views: the revision and the operations.\<close>

definition log_of :: "db \<Rightarrow> nat \<times> operation list" where
  "log_of d = (d_revision d, d_operations d)"

lemma log_of_only_messages: "only_messages_differ d d' \<Longrightarrow> log_of d' = log_of d"
  by (simp add: log_of_def only_messages_differ_frame)

lemma log_of_upsert_mailboxes: "fold_r upsert_mailbox_row d ms = Inr d' \<Longrightarrow> log_of d' = log_of d"
  by (erule fold_r_invariant [where P = "\<lambda>e. log_of e = log_of d"])
    (auto simp: upsert_mailbox_row_def log_of_def bind_r_eq_Inr)

lemma log_of_upsert_message: "upsert_message merge r d = Inr d' \<Longrightarrow> log_of d' = log_of d"
  by (auto simp: upsert_message_def log_of_def bind_r_eq_Inr)

lemma log_of_upsert_messages: "fold_r (upsert_one_message now b) d ms = Inr d' \<Longrightarrow> log_of d' = log_of d"
  by (erule fold_r_invariant [where P = "\<lambda>e. log_of e = log_of d"])
    (auto simp: upsert_one_message_Inr log_of_upsert_message)

lemma log_of_sync:
  assumes "apply_mailbox_sync_page now now' a mb page d = Inr (n, d')"
  shows "d_operations d' = d_operations d \<and> d_revision d \<le> d_revision d'"
proof (cases "sp_reset page \<or> sp_messages page \<noteq> [] \<or> sp_removed_message_ids page \<noteq> [] \<or> sp_cursor page \<noteq> None")
  case False
  with assms show ?thesis by (auto simp: apply_mailbox_sync_page_def bind_r_eq_Inr read_revision_def)
next
  case True
  from assms True obtain d1 d2 d3 where
    d1: "d1 = (if sp_reset page then reset_mailbox a mb d else d)"
    and d2: "d2 = fold (\<lambda>i. delete_messages (\<lambda>r. message_key r = i \<and> in_mailbox a mb r))
       (sp_removed_message_ids page) d1"
    and d3: "fold_r (sync_upsert now) d2 (sp_messages page) = Inr d3"
    and b: "bump_revision (store_cursor now' a mb (sp_cursor page) d3) = Inr (n, d')"
    by (rule apply_sync_page_Inr)
  have "log_of d3 = log_of d2" by (rule log_of_only_messages [OF sync_upserts_frame [OF d3]])
  also have "\<dots> = log_of d1" unfolding d2
    by (rule log_of_only_messages)
      (rule fold_delete_frame [where p = "\<lambda>i r. message_key r = i \<and> in_mailbox a mb r"])
  also have "\<dots> = log_of d" by (simp add: d1 reset_mailbox_def Let_def log_of_def)
  finally show ?thesis
    using b by (auto simp: bump_revision_Inr store_cursor_def log_of_def split: option.splits)
qed

lemma log_of_agenda:
  assumes "replace_remote_agenda a s e ts es d = Inr (n, d')"
  shows "d_operations d' = d_operations d \<and> d_revision d \<le> d_revision d'"
  using assms unfolding replace_remote_agenda_def Let_def
  by (auto simp: bind_r_eq_Inr bump_revision_Inr dest!: task_loop event_loop split: if_splits)

lemma log_of_events:
  "upsert_events es d = Inr (n, d') \<Longrightarrow> d_operations d' = d_operations d \<and> d_revision d \<le> d_revision d'"
  unfolding upsert_events_def
  by (auto simp: bind_r_eq_Inr bump_revision_Inr read_revision_def dest!: event_loop split: if_splits)

lemma log_of_messages:
  "upsert_messages_with_body_state now ms b d = Inr (n, d') \<Longrightarrow>
     d_operations d' = d_operations d \<and> d_revision d \<le> d_revision d'"
  unfolding upsert_messages_with_body_state_def
  by (auto simp: bind_r_eq_Inr bump_revision_Inr read_revision_def log_of_def
      dest!: log_of_upsert_messages split: if_splits)

lemma log_of_mailboxes:
  "upsert_mailboxes ms d = Inr (n, d') \<Longrightarrow> d_operations d' = d_operations d \<and> d_revision d \<le> d_revision d'"
  unfolding upsert_mailboxes_def
  by (auto simp: bind_r_eq_Inr bump_revision_Inr read_revision_def log_of_def
      dest!: log_of_upsert_mailboxes split: if_splits)

lemma log_of_finish_mail_action:
  assumes "finish_mail_action now clk i a res d = Inr (n, d')"
  shows "d_revision d \<le> d_revision d'"
proof (cases res)
  case (Inr u)
  with assms obtain d1 d2 where "finish_operation now i res d = Inr d1"
    and d2: "apply_action_locally clk a d1 = Inr d2" and b: "bump_revision d2 = Inr (n, d')"
    by (auto simp: finish_mail_action_def bind_r_eq_Inr)
  then show ?thesis
    using only_messages_differ_frame(8) [OF only_messages_differ_apply_action_locally [OF d2]]
    by (auto simp: finish_operation_Inr bump_revision_Inr)
qed (use assms in \<open>auto simp: finish_mail_action_def bind_r_eq_Inr finish_operation_Inr read_revision_def\<close>)

lemma log_of_remove:
  assumes "remove_account i d = Inr (n, d')"
  shows "set (d_operations d') \<subseteq> set (d_operations d) \<and> d_revision d \<le> d_revision d'"
  using assms unfolding remove_account_def Let_def delete_account_row_def
  by (auto simp: bump_revision_Inr remove_account_operations_def split: if_splits)

definition not_pending :: "string \<Rightarrow> db \<Rightarrow> bool" where
  "not_pending i d \<longleftrightarrow> (\<forall>r \<in> set (d_operations d). op_id r = i \<longrightarrow> op_state r \<noteq> ''pending'')"

lemmas log_facts = log_of_sync log_of_agenda log_of_events log_of_messages log_of_mailboxes

lemma not_pending_update:
  "not_pending i d \<Longrightarrow> (\<And>r. op_id (f r) = op_id r) \<Longrightarrow>
     (\<And>r. op_state (f r) = ''pending'' \<Longrightarrow> op_state r = ''pending'') \<Longrightarrow>
     d_operations d' = update_row op_id k f (d_operations d) \<Longrightarrow> not_pending i d'"
  unfolding not_pending_def by (force simp: mem_update_row)

lemma not_pending_subset:
  "not_pending i d \<Longrightarrow> set (d_operations d') \<subseteq> set (d_operations d) \<Longrightarrow> not_pending i d'"
  by (auto simp: not_pending_def)

text \<open>The jobs that do not touch the operation table, and those that do.\<close>

fun writes_log :: "job \<Rightarrow> bool" where
  "writes_log (RemoveAccount i) = True"
| "writes_log (ApplyMailAction u now a) = True"
| "writes_log (FinishOperation now i r) = True"
| "writes_log (FinishMailAction now clk i a r) = True"
| "writes_log (QueueOutgoing u now m) = True"
| "writes_log (QueueAgendaOperation u now k a p) = True"
| "writes_log (DeferOperation now i e) = True"
| "writes_log (CommitTaskUpsert now i t) = True"
| "writes_log (CommitTaskDelete now i t) = True"
| "writes_log (CommitEventUpsert now i e) = True"
| "writes_log (CommitEventDelete now i e) = True"
| "writes_log _ = False"

lemma exec_job_quiet:
  assumes "exec_job j d = Inr d'" and "\<not> writes_log j"
  shows "d_operations d' = d_operations d \<and> d_revision d \<le> d_revision d'"
  using assms
  by (cases j)
    (auto simp: map_ok_eq_Inr bind_r_eq_Inr bump_revision_Inr upsert_account_config_def
      update_account_counts_def update_account_def set_account_auth_state_def upsert_messages_def
      upsert_message_summaries_def save_draft_def delete_draft_def upsert_task_def upsert_task_row_def
      complete_task_def delete_task_def delete_event_def Let_def dest: log_facts split: if_splits)

lemma commit_Inr:
  "commit_agenda_task_upsert now i t d = Inr (n, d') \<Longrightarrow>
     \<exists>r. find_row op_id i (d_operations d) = Some r \<and> op_state r = ''pending''
       \<and> d_operations d' = update_row op_id i (set_outcome now (Inr ())) (d_operations d)
       \<and> d_revision d \<le> d_revision d'"
  "commit_agenda_task_delete now i tid d = Inr (n, d') \<Longrightarrow>
     \<exists>r. find_row op_id i (d_operations d) = Some r \<and> op_state r = ''pending''
       \<and> d_operations d' = update_row op_id i (set_outcome now (Inr ())) (d_operations d)
       \<and> d_revision d \<le> d_revision d'"
  "commit_agenda_event_upsert now i e d = Inr (n, d') \<Longrightarrow>
     \<exists>r. find_row op_id i (d_operations d) = Some r \<and> op_state r = ''pending''
       \<and> d_operations d' = update_row op_id i (set_outcome now (Inr ())) (d_operations d)
       \<and> d_revision d \<le> d_revision d'"
  "commit_agenda_event_delete now i eid d = Inr (n, d') \<Longrightarrow>
     \<exists>r. find_row op_id i (d_operations d) = Some r \<and> op_state r = ''pending''
       \<and> d_operations d' = update_row op_id i (set_outcome now (Inr ())) (d_operations d)
       \<and> d_revision d \<le> d_revision d'"
  unfolding commit_agenda_task_upsert_def commit_agenda_task_delete_def
    commit_agenda_event_upsert_def commit_agenda_event_delete_def
  by (auto simp: bind_r_eq_Inr bump_revision_Inr finish_agenda_operation_Inr upsert_task_row_def
      upsert_event_row_def require_eq_Inr split: if_splits)

lemma commit_job_Inr:
  assumes "exec_job j d = Inr d'" and "commit_id j = Some i"
  shows "\<exists>now r. find_row op_id i (d_operations d) = Some r \<and> op_state r = ''pending''
       \<and> d_operations d' = update_row op_id i (set_outcome now (Inr ())) (d_operations d)
       \<and> d_revision d \<le> d_revision d'"
  using assms by (cases j) (auto simp: map_ok_eq_Inr dest!: commit_Inr)

lemma exec_job_revision:
  assumes "exec_job j d = Inr d'"
  shows "d_revision d \<le> d_revision d'"
proof (cases "writes_log j")
  case False
  with exec_job_quiet [OF assms] show ?thesis by simp
next
  case True
  show ?thesis
  proof (cases "commit_id j")
    case (Some i)
    with commit_job_Inr [OF assms] show ?thesis by blast
  next
    case None
    with assms True show ?thesis
      by (cases j)
        (auto simp: map_ok_eq_Inr apply_mail_action_def queue_outgoing_def queue_agenda_operation_def
          bind_r_eq_Inr record_operation_Inr finish_operation_Inr defer_operation_def
          dest: log_of_remove log_of_finish_mail_action split: if_splits option.splits)
  qed
qed

lemma not_pending_recorded:
  "record_operation u k p now d = Inr (r, d') \<Longrightarrow> u \<noteq> i \<Longrightarrow> not_pending i d \<Longrightarrow> not_pending i d'"
  by (cases r) (auto simp: record_operation_Inr not_pending_def new_operation_def)

lemma not_pending_outcome:
  assumes "not_pending i d" and "d_operations d' = update_row op_id k (set_outcome now res) (d_operations d)"
  shows "not_pending i d'"
  using assms(1) by (rule not_pending_update [OF _ _ _ assms(2)]) (auto split: if_splits)

lemma not_pending_set_outcome:
  "not_pending i d \<Longrightarrow>
     not_pending i (d\<lparr>d_operations := update_row op_id k (set_outcome now res) (d_operations d)\<rparr>)"
  by (rule not_pending_outcome) simp_all

lemma not_pending_defer:
  assumes "defer_operation now k e d = Inr d'" and "not_pending i d" and "db_ok d"
  shows "not_pending i d'"
proof -
  obtain r where r: "find_row op_id k (d_operations d) = Some r" "op_state r = ''pending''"
    and d': "d_operations d' = update_row op_id k
      (\<lambda>r. r\<lparr>op_state := ''pending'', op_attempted_at := Some now, op_last_error := Some e\<rparr>) (d_operations d)"
    using assms(1) by (auto simp: defer_operation_def split: option.splits if_splits)
  have "k \<noteq> i" using r assms(2) by (auto simp: not_pending_def dest: find_row_SomeD)
  then show ?thesis
    using assms(2) unfolding not_pending_def d' by (auto simp: mem_update_row)
qed

lemma exec_job_not_pending:
  assumes "db_ok d \<and> not_pending i d" and "job_ok j \<and> job_uuid j \<noteq> Some i" and "exec_job j d = Inr d'"
  shows "db_ok d' \<and> not_pending i d'"
proof -
  have np: "not_pending i d" and ok: "db_ok d" using assms(1) by auto
  have "not_pending i d'"
  proof (cases "writes_log j")
    case False
    with exec_job_quiet [OF assms(3)] np show ?thesis by (simp add: not_pending_def)
  next
    case True
    show ?thesis
    proof (cases "commit_id j")
      case (Some k)
      with commit_job_Inr [OF assms(3)] not_pending_outcome [OF np] show ?thesis by blast
    next
      case None
      with assms True np ok show ?thesis
        by (cases j)
          (auto simp: map_ok_eq_Inr apply_mail_action_def queue_outgoing_def queue_agenda_operation_def
            bind_r_eq_Inr finish_operation_Inr not_pending_recorded not_pending_set_outcome
            split: if_splits dest: not_pending_outcome not_pending_defer finish_mail_action_ops
              not_pending_subset [OF _ conjunct1 [OF log_of_remove]])
    qed
  qed
  then show ?thesis using exec_job_ok [OF ok _ assms(3)] assms(2) by simp
qed

interpretation log_inv: preserved exec_job "\<lambda>d. db_ok d \<and> not_pending i d"
    "\<lambda>j. job_ok j \<and> job_uuid j \<noteq> Some i" for i
  by unfold_locales (rule exec_job_not_pending)

interpretation revision_inv: preserved exec_job "\<lambda>d. n \<le> d_revision d" "\<lambda>j. True" for n
  by unfold_locales (use exec_job_revision in \<open>force dest: order_trans\<close>)

lemma run_jobs_fold:
  "run_jobs js d = fold (\<lambda>j d. case exec_job j d of Inl _ \<Rightarrow> d | Inr d' \<Rightarrow> d') js d"
  by (simp add: run_jobs_def run_job_def [abs_def])

subsection \<open>The worker thread and its queue\<close>

record worker =
  w_db :: db
  w_queue :: "job list"

definition QUEUE_CAPACITY :: nat where "QUEUE_CAPACITY = 128"

inductive worker_step :: "worker \<Rightarrow> job option \<Rightarrow> worker \<Rightarrow> bool" where
  send: "length (w_queue w) < QUEUE_CAPACITY \<Longrightarrow> job_ok j \<Longrightarrow>
    worker_step w (Some j) (w\<lparr>w_queue := w_queue w @ [j]\<rparr>)"
| work: "w_queue w = j # js \<Longrightarrow>
    worker_step w None (w\<lparr>w_db := run_job j (w_db w), w_queue := js\<rparr>)"

inductive_cases worker_sendE: "worker_step w (Some j) w'"
inductive_cases worker_workE: "worker_step w None w'"
inductive_simps worker_step_simps: "worker_step w ev w'"

text \<open>An execution from the fresh database, with the jobs in the order in which they were sent.\<close>

inductive worker_run :: "job list \<Rightarrow> worker \<Rightarrow> bool" where
  start: "worker_run [] \<lparr>w_db = empty_db, w_queue = []\<rparr>"
| sent: "worker_run js w \<Longrightarrow> worker_step w (Some j) w' \<Longrightarrow> worker_run (js @ [j]) w'"
| worked: "worker_run js w \<Longrightarrow> worker_step w None w' \<Longrightarrow> worker_run js w'"

lemma run_jobs_snoc: "run_jobs (js @ [j]) d = run_job j (run_jobs js d)"
  by (simp add: run_jobs_def)

lemma worker_run_serial:
  "worker_run js w \<Longrightarrow> \<exists>done. js = done @ w_queue w \<and> w_db w = run_jobs done empty_db
     \<and> (\<forall>j \<in> set js. job_ok j) \<and> length (w_queue w) \<le> QUEUE_CAPACITY"
proof (induction rule: worker_run.induct)
  case start
  then show ?case by (simp add: run_jobs_def)
next
  case (sent js w j w')
  then obtain dn where IH: "js = dn @ w_queue w" "w_db w = run_jobs dn empty_db" "\<forall>j \<in> set js. job_ok j"
    by blast
  from sent.hyps(2) have "length (w_queue w) < QUEUE_CAPACITY" "job_ok j" "w' = w\<lparr>w_queue := w_queue w @ [j]\<rparr>"
    by (auto elim: worker_sendE)
  with IH show ?case by (intro exI [of _ dn]) simp
next
  case (worked js w w')
  then obtain dn where IH: "js = dn @ w_queue w" "w_db w = run_jobs dn empty_db" "\<forall>j \<in> set js. job_ok j"
      "length (w_queue w) \<le> QUEUE_CAPACITY" by blast
  from worked.hyps(2) obtain j rest where "w_queue w = j # rest"
      "w' = w\<lparr>w_db := run_job j (w_db w), w_queue := rest\<rparr>" by (auto elim: worker_workE)
  with IH show ?case by (intro exI [of _ "dn @ [j]"]) (simp add: run_jobs_snoc)
qed

text \<open>C1: every database that the worker can ever reach, whatever jobs are sent to it, in whatever
  order, whether they succeed or fail, satisfies the invariant: keys and external slots are unique,
  foreign keys resolve, the search index holds one current entry per message, and every message is
  in its account's namespace.\<close>

theorem worker_db_ok:
  assumes "worker_run js w"
  shows "db_ok (w_db w)"
proof -
  obtain dn where "js = dn @ w_queue w" "w_db w = run_jobs dn empty_db" "\<forall>j \<in> set js. job_ok j"
    using worker_run_serial [OF assms] by blast
  then show ?thesis
    using db_inv.runs_inv [OF db_ok_empty, of dn] by (simp add: run_jobs_fold)
qed

lemma sample_worker_run:
  "worker_run [RemoveAccount ''a'', UpsertMailboxes []]
     \<lparr>w_db = run_job (RemoveAccount ''a'') empty_db, w_queue = [UpsertMailboxes []]\<rparr>"
proof -
  let ?w1 = "\<lparr>w_db = empty_db, w_queue = [RemoveAccount ''a'']\<rparr>"
  have "worker_run ([] @ [RemoveAccount ''a'']) ?w1"
    by (rule worker_run.sent [OF worker_run.start]) (simp add: worker_step_simps QUEUE_CAPACITY_def)
  then have "worker_run [RemoveAccount ''a''] ?w1" by simp
  then have "worker_run ([RemoveAccount ''a''] @ [UpsertMailboxes []])
      (?w1\<lparr>w_queue := [RemoveAccount ''a'', UpsertMailboxes []]\<rparr>)"
    by (rule worker_run.sent) (simp add: worker_step_simps QUEUE_CAPACITY_def)
  then have "worker_run [RemoveAccount ''a'', UpsertMailboxes []]
      (?w1\<lparr>w_queue := [RemoveAccount ''a'', UpsertMailboxes []]\<rparr>)" by simp
  then show ?thesis by (rule worker_run.worked) (simp add: worker_step_simps)
qed

theorem worker_db_ok_witness: "db_ok (run_job (RemoveAccount ''a'') empty_db)"
  using worker_db_ok [OF sample_worker_run] by simp

text \<open>The worker serialises. The database is what the jobs produce when they run one after the
  other in the order in which they were sent, the queue is the rest of that order, and it never
  exceeds the capacity of the channel.\<close>

theorem worker_serialises:
  assumes "worker_run js w"
  shows "w_db w = run_jobs (take (length js - length (w_queue w)) js) empty_db
    \<and> w_queue w = drop (length js - length (w_queue w)) js \<and> length (w_queue w) \<le> 128"
  using worker_run_serial [OF assms] by (auto simp: QUEUE_CAPACITY_def)

theorem worker_serialises_witness:
  "run_job (RemoveAccount ''a'') empty_db = run_jobs [RemoveAccount ''a''] empty_db"
  using worker_serialises [OF sample_worker_run] by simp

text \<open>The revision that clients compare never goes back, whatever jobs run.\<close>

theorem revision_monotone: "d_revision d \<le> d_revision (run_jobs js d)"
  using revision_inv.runs_inv [of "d_revision d" d js] by (simp add: run_jobs_fold)

text \<open>C12: an agenda operation is committed at most once. After a commit has succeeded, no later
  commit of the same operation succeeds, whatever other jobs run in between, as long as no job draws
  the operation's UUID again.\<close>

theorem agenda_commit_once:
  assumes "db_ok d" and "exec_job c d = Inr d'" and "commit_id c = Some i" and "job_ok c"
    and "\<forall>j \<in> set js. job_ok j \<and> job_uuid j \<noteq> Some i" and "commit_id c' = Some i"
  shows "isl (exec_job c' (run_jobs js d'))"
proof (rule ccontr)
  assume "\<not> isl (exec_job c' (run_jobs js d'))"
  then obtain e where e: "exec_job c' (run_jobs js d') = Inr e" by (cases "exec_job c' (run_jobs js d')") auto
  obtain now where ops: "d_operations d' = update_row op_id i (set_outcome now (Inr ())) (d_operations d)"
    using commit_job_Inr [OF assms(2,3)] by blast
  have "not_pending i d'"
    unfolding not_pending_def
  proof (intro ballI impI)
    fix r
    assume "r \<in> set (d_operations d')" and "op_id r = i"
    then obtain r0 where "r = set_outcome now (Inr ()) r0" unfolding ops mem_update_row by blast
    then show "op_state r \<noteq> ''pending''" by simp
  qed
  moreover have "db_ok d'" by (rule exec_job_ok [OF assms(1,4,2)])
  ultimately have "not_pending i (run_jobs js d')"
    using log_inv.runs_inv [of d' i js] assms(5) by (simp add: run_jobs_fold)
  moreover obtain r where "find_row op_id i (d_operations (run_jobs js d')) = Some r" "op_state r = ''pending''"
    using commit_job_Inr [OF e assms(6)] by blast
  ultimately show False by (auto simp: not_pending_def dest: find_row_SomeD)
qed

definition sample_agenda_db :: db where
  "sample_agenda_db = sample_db\<lparr>d_operations := [new_operation ''op'' ''agenda_task_create'' (JObj []) 5]\<rparr>"

lemma db_ok_sample_agenda_db: "db_ok sample_agenda_db"
  unfolding sample_agenda_db_def
  by (rule db_ok_set_operations [OF db_ok_sample_db])
    (simp_all add: keyed_def new_operation_def OPERATION_STATES_def)

theorem agenda_commit_once_witness:
  "\<exists>d'. exec_job (CommitTaskUpsert 6 ''op'' (sample_task ''t'' ''google_tasks'' ''a'')) sample_agenda_db = Inr d'
     \<and> isl (exec_job (CommitTaskDelete 7 ''op'' ''t'') (run_jobs [FinishOperation 8 ''op'' (Inr ())] d'))"
proof -
  obtain d' where ev: "exec_job (CommitTaskUpsert 6 ''op'' (sample_task ''t'' ''google_tasks'' ''a''))
      sample_agenda_db = Inr d'"
    by (simp add: commit_agenda_task_upsert_def upsert_task_row_def finish_agenda_operation_def
        sample_agenda_db_def find_row_def new_operation_def)
      (simp add: bump_revision_def sample_db_def empty_db_def uint_bounds)
  have "task_ok (sample_task ''t'' ''google_tasks'' ''a'')"
    by (simp add: sample_task_def task_ok_def valid_ts_def ts_min_def ts_max_def)
  then show ?thesis
    using agenda_commit_once [OF db_ok_sample_agenda_db ev, of "''op''" "[FinishOperation 8 ''op'' (Inr ())]"
        "CommitTaskDelete 7 ''op'' ''t''"] ev by simp
qed

end
