(* ===== verification/Html_Css.thy ===== *)
theory Html_Css
  imports Rust_Strings
begin

section \<open>Sanitising the presentation of HTML mail\<close>

text \<open>
  The pure functions of \<open>daemon.rs\<close> that clean a message's HTML before any client sees it. The crate
  \<open>ammonia\<close> cleans the element structure and is the parameter of \<open>sanitize_html_body\<close>; what QuickMail
  decides itself is which style declarations, selectors, colours and dimensions survive. A string is
  its UTF-8 bytes, and a cursor into the input is the rest of the input behind it.
\<close>

definition COMMENT_OPEN :: string where "COMMENT_OPEN = [CHR ''/'', CHR 0x2A]"
definition COMMENT_CLOSE :: string where "COMMENT_CLOSE = [CHR 0x2A, CHR ''/'']"

subsection \<open>Legacy attributes\<close>

definition is_hex_color :: "string \<Rightarrow> bool" where
  "is_hex_color hex \<longleftrightarrow> length hex \<in> {3, 4, 6, 8} \<and> list_all is_ascii_hexdigit hex"

definition is_color_name :: "string \<Rightarrow> bool" where
  "is_color_name v \<longleftrightarrow> v \<noteq> [] \<and> length v \<le> 32 \<and> list_all (\<lambda>c. is_ascii_alphabetic c \<or> c = CHR ''-'') v"

definition is_safe_legacy_color :: "string \<Rightarrow> bool" where
  "is_safe_legacy_color value =
     (let v = trim value in
      case strip_prefix v ''#'' of Some hex \<Rightarrow> is_hex_color hex | None \<Rightarrow> is_color_name v)"

definition is_bounded_ascii_integer :: "string \<Rightarrow> nat \<Rightarrow> bool" where
  "is_bounded_ascii_integer number maximum \<longleftrightarrow> number \<noteq> [] \<and> list_all is_ascii_digit number
     \<and> (case parse_uint u32_max number of None \<Rightarrow> False | Some n \<Rightarrow> n \<le> maximum)"

definition is_safe_legacy_dimension :: "string \<Rightarrow> bool" where
  "is_safe_legacy_dimension value =
     (let v = trim value in
      if eq_ignore_ascii_case v ''auto'' then True
      else case strip_suffix v ''%'' of
        Some number \<Rightarrow> is_bounded_ascii_integer number 1000
      | None \<Rightarrow>
          (let lowercase = to_ascii_lowercase v in
           is_bounded_ascii_integer (case strip_suffix lowercase ''px'' of Some n \<Rightarrow> n | None \<Rightarrow> lowercase) 16384))"

definition is_safe_legacy_alignment :: "string \<Rightarrow> bool" where
  "is_safe_legacy_alignment value \<longleftrightarrow>
     to_ascii_lowercase (trim value) \<in> {''left'', ''right'', ''center'', ''justify'', ''char'', ''middle''}"

subsection \<open>Style declarations\<close>

definition SAFE_CSS_PROPERTIES :: "string list" where
  "SAFE_CSS_PROPERTIES = [
    ''background'', ''background-color'', ''border'', ''border-bottom'', ''border-bottom-color'',
    ''border-bottom-style'', ''border-bottom-width'', ''border-collapse'', ''border-color'',
    ''border-left'', ''border-left-color'', ''border-left-style'', ''border-left-width'',
    ''border-right'', ''border-right-color'', ''border-right-style'', ''border-right-width'',
    ''border-style'', ''border-top'', ''border-top-color'', ''border-top-style'', ''border-top-width'',
    ''border-width'', ''box-sizing'', ''color'', ''direction'', ''display'', ''float'', ''font'',
    ''font-family'', ''font-kerning'', ''font-size'', ''font-style'', ''font-variant'',
    ''font-weight'', ''height'', ''letter-spacing'', ''line-height'', ''margin-bottom'',
    ''margin-left'', ''margin-right'', ''margin-top'', ''max-height'', ''max-width'', ''min-height'',
    ''min-width'', ''object-fit'', ''overflow'', ''overflow-wrap'', ''overflow-x'', ''overflow-y'',
    ''padding'', ''padding-bottom'', ''padding-left'', ''padding-right'', ''padding-top'',
    ''table-layout'', ''text-align'', ''text-decoration'', ''text-indent'', ''text-overflow'',
    ''text-transform'', ''vertical-align'', ''white-space'', ''width'', ''word-break'', ''word-wrap'',
    ''word-spacing'']"

definition trim_end :: "string \<Rightarrow> string" where
  "trim_end s = concat (rev (dropWhile is_whitespace_char (rev (utf8_chars s))))"

definition without_important :: "string \<Rightarrow> string option" where
  "without_important lowercase =
     Option.bind (strip_suffix lowercase ''important'') (\<lambda>prefix.
     map_option trim_end (strip_suffix (trim_end prefix) ''!''))"

definition is_color_call :: "string \<Rightarrow> string \<Rightarrow> bool" where
  "is_color_call color f \<longleftrightarrow>
     (case Option.bind (strip_prefix color f) (\<lambda>a. Option.bind (strip_prefix a ''('') (\<lambda>b. strip_suffix b '')'')) of
        None \<Rightarrow> False
      | Some arguments \<Rightarrow> arguments \<noteq> [] \<and> list_all (\<lambda>c. is_ascii_digit c \<or> is_ascii_whitespace c
            \<or> c \<in> {CHR ''+'', CHR ''-'', CHR ''.'', CHR '','', CHR ''%'', CHR ''/''}) arguments)"

definition is_pure_css_color :: "string \<Rightarrow> bool" where
  "is_pure_css_color value =
     (let lowercase = to_ascii_lowercase (trim value);
          color = (case without_important lowercase of Some c \<Rightarrow> c | None \<Rightarrow> lowercase)
      in case strip_prefix color ''#'' of
           Some hex \<Rightarrow> is_hex_color hex
         | None \<Rightarrow> is_color_name color
             \<or> list_ex (is_color_call color) [''rgb'', ''rgba'', ''hsl'', ''hsla''])"

text \<open>\<open>char::to_lowercase\<close>, as far as a search for ASCII text can see it: only the Kelvin sign and the
  dotted capital I have an ASCII letter in their lower case.\<close>

definition lower_scalar :: "string \<Rightarrow> string" where
  "lower_scalar ch =
     (if ch = [CHR 0xE2, CHR 0x84, CHR 0xAA] then ''k''
      else if ch = [CHR 0xC4, CHR 0xB0] then [CHR ''i'', CHR 0xCC, CHR 0x87]
      else to_ascii_lowercase ch)"

definition compact_value :: "string \<Rightarrow> string" where
  "compact_value value =
     concat (map lower_scalar (filter (\<lambda>ch. case ch of [c] \<Rightarrow> \<not> is_ascii_whitespace c | _ \<Rightarrow> True) (utf8_chars value)))"

definition FORBIDDEN_CSS :: "string list" where
  "FORBIDDEN_CSS = [''url('', ''image-set('', ''cross-fade('', ''expression('', ''javascript:'', ''-moz-binding'']"

definition forbidden_css_byte :: "char \<Rightarrow> bool" where
  "forbidden_css_byte c \<longleftrightarrow> is_ascii_control c \<and> c \<notin> {TAB, CR, LF}
     \<or> c \<in> {CHR ''&'', BACKSLASH, CHR ''<'', CHR ''>'', CHR ''{'', CHR ''}'', CHR ''@''}"

definition safe_css_value :: "string \<Rightarrow> bool" where
  "safe_css_value value \<longleftrightarrow> value \<noteq> [] \<and> length value \<le> 2048 \<and> \<not> list_ex forbidden_css_byte value
     \<and> \<not> list_ex (contains_sub (compact_value value)) FORBIDDEN_CSS"

text \<open>A decimal number as its digits and the count of those behind the point. \<open>f64\<close> rounds to nearest, so
  a number compares at most the integer \<open>m\<close> when it is at most half a unit in the last place above.\<close>

definition css_number :: "string \<Rightarrow> (nat \<times> nat) option" where
  "css_number s =
     (let whole = takeWhile is_ascii_digit s; rest = dropWhile is_ascii_digit s in
      case rest of
        [] \<Rightarrow> if whole = [] then None else Some (digits_val 0 whole, 0)
      | _ # frac \<Rightarrow> if CHR ''.'' \<in> set frac \<or> (whole = [] \<and> frac = []) then None
                    else Some (digits_val 0 (whole @ frac), length frac))"

fun floor_log2 :: "nat \<Rightarrow> nat" where
  "floor_log2 m = (if m < 2 then 0 else Suc (floor_log2 (m div 2)))"

declare floor_log2.simps [simp del]

definition f64_at_most :: "nat \<times> nat \<Rightarrow> nat \<Rightarrow> bool" where
  "f64_at_most x m \<longleftrightarrow> (case x of (n, d) \<Rightarrow>
     n * 2 ^ (53 - floor_log2 m) \<le> (m * 2 ^ (53 - floor_log2 m) + 1) * 10 ^ d)"

definition css_unit_maximum :: "string \<Rightarrow> nat option" where
  "css_unit_maximum unit =
     (if unit \<in> {[], ''px'', ''q''} then Some 16384
      else if unit \<in> {''%'', ''vw'', ''vh'', ''vmin'', ''vmax''} then Some 1000
      else if unit \<in> {''em'', ''rem'', ''lh'', ''rlh'', ''pc''} then Some 1024
      else if unit \<in> {''ex'', ''ch'', ''cap'', ''ic''} then Some 2048
      else if unit = ''pt'' then Some 12288
      else if unit = ''in'' then Some 170
      else if unit = ''cm'' then Some 430
      else if unit = ''mm'' then Some 4300
      else None)"

definition safe_css_dimension :: "string \<Rightarrow> bool" where
  "safe_css_dimension value =
     (let lowercase = to_ascii_lowercase (trim value);
          v = (case strip_suffix lowercase ''!important'' of Some p \<Rightarrow> trim_end p | None \<Rightarrow> lowercase) in
      if v \<in> {''auto'', ''none'', ''inherit'', ''initial'', ''unset'', ''revert'', ''min-content'', ''max-content'',
          ''fit-content'', ''stretch''} then True
      else
        let number = takeWhile (\<lambda>c. is_ascii_digit c \<or> c = CHR ''.'') v;
            unit = dropWhile (\<lambda>c. is_ascii_digit c \<or> c = CHR ''.'') v in
        number \<noteq> [] \<and>
        (case css_number number of
           None \<Rightarrow> False
         | Some x \<Rightarrow> (case css_unit_maximum unit of None \<Rightarrow> False | Some m \<Rightarrow> f64_at_most x m)))"

definition safe_css_property_value :: "string \<Rightarrow> string \<Rightarrow> bool" where
  "safe_css_property_value property value \<longleftrightarrow> safe_css_value value
     \<and> (property \<in> {''width'', ''height'', ''min-width'', ''min-height'', ''max-width'', ''max-height''}
          \<longrightarrow> safe_css_dimension value)"

definition keep_declaration :: "string \<Rightarrow> (string \<times> string) option" where
  "keep_declaration declaration =
     (case split_once declaration (CHR '':'') of
        None \<Rightarrow> None
      | Some (p, v) \<Rightarrow>
          (let property = to_ascii_lowercase (trim p); value = trim v in
           if property = ''background'' \<and> \<not> is_pure_css_color value then None
           else
             let property = (if property = ''background'' then ''background-color'' else property) in
             if property \<notin> set SAFE_CSS_PROPERTIES \<or> \<not> safe_css_property_value property value then None
             else Some (property, value)))"

definition render_declaration :: "string \<times> string \<Rightarrow> string" where
  "render_declaration d = fst d @ '':'' @ snd d"

definition sanitize_css_declarations :: "string \<Rightarrow> string" where
  "sanitize_css_declarations input =
     join_with '';'' (map render_declaration (List.map_filter keep_declaration (take 256 (split_on (CHR '';'') input))))"

subsection \<open>Style sheets\<close>

definition safe_css_selector :: "string \<Rightarrow> bool" where
  "safe_css_selector selector \<longleftrightarrow> selector \<noteq> [] \<and> length selector \<le> 1024
     \<and> list_all (\<lambda>c. is_ascii_alphanumeric c \<or> c \<in> set ''_#.*,:>+~[]()=-''
          \<or> c \<in> {DQUOTE, CHR 0x27, CHR '' '', TAB, CR, LF}) selector"

function strip_comments :: "string \<Rightarrow> string option" where
  "strip_comments input =
     (case find_sub input COMMENT_OPEN of
        None \<Rightarrow> Some input
      | Some start \<Rightarrow>
          (case find_sub (drop (start + 2) input) COMMENT_CLOSE of
             None \<Rightarrow> None
           | Some off \<Rightarrow> map_option (\<lambda>r. take start input @ '' '' @ r) (strip_comments (drop (start + 2 + off + 2) input))))"
  by pat_completeness auto
termination
proof (relation "measure length", goal_cases)
  case (2 input start off)
  then have "start + 2 \<le> length input" using find_sub_Some [of input COMMENT_OPEN start] by (simp add: COMMENT_OPEN_def)
  then show ?case by simp
qed simp

declare strip_comments.simps [simp del]

definition strip_css_comments :: "string \<Rightarrow> string option" where
  "strip_css_comments input =
     (case strip_comments input of
        None \<Rightarrow> None
      | Some out \<Rightarrow> if contains_sub out COMMENT_CLOSE then None else Some out)"

text \<open>The position of the brace that closes the one the text starts with.\<close>

fun brace_scan :: "nat \<Rightarrow> char option \<Rightarrow> nat \<Rightarrow> string \<Rightarrow> nat option" where
  "brace_scan depth q position [] = None"
| "brace_scan depth (Some q) position (b # s) =
     (if b = BACKSLASH then (case s of [] \<Rightarrow> None | _ # t \<Rightarrow> brace_scan depth (Some q) (position + 2) t)
      else brace_scan depth (if b = q then None else Some q) (position + 1) s)"
| "brace_scan depth None position (b # s) =
     (if b = CHR 0x27 \<or> b = DQUOTE then brace_scan depth (Some b) (position + 1) s
      else if b = CHR ''{'' then brace_scan (depth + 1) None (position + 1) s
      else if b = CHR ''}'' then
        (if depth = 0 then None else if depth = 1 then Some position
         else brace_scan (depth - 1) None (position + 1) s)
      else brace_scan depth None (position + 1) s)"

definition matching_css_brace :: "string \<Rightarrow> nat option" where
  "matching_css_brace from_open = brace_scan 0 None 0 from_open"

text \<open>\<open>before\<close> is the byte in front of the cursor.\<close>

function normalize_selector_from :: "char option \<Rightarrow> string \<Rightarrow> string" where
  "normalize_selector_from before s =
     (case s of
        [] \<Rightarrow> []
      | c # r \<Rightarrow>
          if eq_ignore_ascii_case (take 4 s) ''body''
            \<and> (case before of None \<Rightarrow> True | Some b \<Rightarrow> is_ascii_whitespace b \<or> b \<in> {CHR '','', CHR ''>'', CHR ''+'', CHR ''~''})
            \<and> (case drop 4 s of [] \<Rightarrow> True | d # _ \<Rightarrow> \<not> (is_ascii_alphanumeric d \<or> d = CHR ''_'' \<or> d = CHR ''-''))
          then ''.quickmail-body'' @ normalize_selector_from (Some (s ! 3)) (drop 4 s)
          else c # normalize_selector_from (Some c) r)"
  by pat_completeness auto
termination
  by (relation "measure (\<lambda>(_, s). length s)") auto

declare normalize_selector_from.simps [simp del]

definition normalize_email_selector :: "string \<Rightarrow> string" where
  "normalize_email_selector s = normalize_selector_from None s"

definition trim_start :: "string \<Rightarrow> string" where
  "trim_start s = concat (dropWhile is_whitespace_char (utf8_chars s))"

definition MAX_SAFE_STYLESHEET_BYTES :: nat where "MAX_SAFE_STYLESHEET_BYTES = 256 * 1024"

definition render_rule :: "string \<times> string \<Rightarrow> string" where
  "render_rule r = fst r @ ''{'' @ snd r @ ''}''"

text \<open>One pass of the loop for each unit of fuel; the rules kept so far are written after \<open>output\<close>.\<close>

fun stylesheet_rules :: "nat \<Rightarrow> string \<Rightarrow> string \<Rightarrow> string" where
  "stylesheet_rules 0 output rest = output"
| "stylesheet_rules (Suc fuel) output rest =
     (let before = takeWhile (\<lambda>c. c \<noteq> CHR ''{'') rest; from_open = dropWhile (\<lambda>c. c \<noteq> CHR ''{'') rest in
      if from_open = [] then output
      else (case matching_css_brace from_open of
              None \<Rightarrow> output
            | Some close \<Rightarrow>
                (let selector = normalize_email_selector (trim before);
                     after = drop (close + 1) from_open in
                 if starts_with (trim_start selector) ''@'' then stylesheet_rules fuel output after
                 else
                   let sanitized = sanitize_css_declarations (take (close - 1) (drop 1 from_open)) in
                   if safe_css_selector selector \<and> sanitized \<noteq> []
                   then (if MAX_SAFE_STYLESHEET_BYTES < length output + (length selector + length sanitized + 2) then output
                         else stylesheet_rules fuel (output @ render_rule (selector, sanitized)) after)
                   else stylesheet_rules fuel output after)))"

definition sanitize_stylesheet :: "string \<Rightarrow> string" where
  "sanitize_stylesheet input =
     (if MAX_SAFE_STYLESHEET_BYTES < length input then []
      else (case strip_css_comments input of None \<Rightarrow> [] | Some stripped \<Rightarrow> stylesheet_rules 2048 [] stripped))"

text \<open>\<open>find_ascii_case_insensitive\<close> from the start of the text.\<close>

fun find_ci :: "string \<Rightarrow> string \<Rightarrow> nat option" where
  "find_ci needle [] = None"
| "find_ci needle (c # s) =
     (if needle = [] then None
      else if eq_ignore_ascii_case (take (length needle) (c # s)) needle then Some 0
      else map_option Suc (find_ci needle s))"

definition find_char :: "char \<Rightarrow> string \<Rightarrow> nat option" where
  "find_char c s = (if c \<in> set s then Some (length (takeWhile (\<lambda>x. x \<noteq> c) s)) else None)"

lemma find_ci_Some: "find_ci n s = Some i \<Longrightarrow> n \<noteq> [] \<and> s \<noteq> [] \<and> i + length n \<le> length s"
proof (induction n s arbitrary: i rule: find_ci.induct)
  case (2 needle c s)
  have "length needle \<le> length (c # s)" if "eq_ignore_ascii_case (take (length needle) (c # s)) needle"
    using that [unfolded eq_ignore_ascii_case_def, THEN arg_cong [where f = length]] by simp
  with 2 show ?case by (fastforce split: if_splits)
qed simp

lemma find_ci_less: "find_ci n s = Some i \<Longrightarrow> i < length s"
  using find_ci_Some [of n s i] by (cases n) auto

function sanitize_stylesheet_blocks :: "string \<Rightarrow> string" where
  "sanitize_stylesheet_blocks html =
     (case find_ci ''<style'' html of
        None \<Rightarrow> html
      | Some start \<Rightarrow> take start html @
          (case find_char (CHR ''>'') (drop start html) of
             None \<Rightarrow> []
           | Some o1 \<Rightarrow>
               (let inner = drop (start + o1 + 1) html in
                case find_ci ''</style'' inner of
                  None \<Rightarrow> []
                | Some close_start \<Rightarrow>
                    (case find_char (CHR ''>'') (drop close_start inner) of
                       None \<Rightarrow> []
                     | Some o2 \<Rightarrow>
                         (let stylesheet = sanitize_stylesheet (take close_start inner) in
                          if stylesheet = [] then [] else ''<style>'' @ stylesheet @ ''</style>'') @
                         sanitize_stylesheet_blocks (drop (close_start + o2 + 1) inner)))))"
  by pat_completeness auto
termination
  by (relation "measure length") (auto dest!: find_ci_less)

declare sanitize_stylesheet_blocks.simps [simp del]

subsection \<open>The attribute filter of the HTML sanitizer\<close>

text \<open>\<open>url_scheme\<close> is the scheme of a value that \<open>ammonia::Url::parse\<close> accepts.\<close>

definition html_attribute_filter ::
    "(string \<Rightarrow> string option) \<Rightarrow> string \<Rightarrow> string \<Rightarrow> string \<Rightarrow> string option" where
  "html_attribute_filter url_scheme element attribute value =
     (if element = ''img'' \<and> attribute = ''src'' then
        (case url_scheme value of
           Some scheme \<Rightarrow> if scheme \<in> {''http'', ''https''} then Some value else None
         | None \<Rightarrow> None)
      else if attribute = ''style'' then
        (let sanitized = sanitize_css_declarations value in if sanitized = [] then None else Some sanitized)
      else if attribute = ''bgcolor'' \<and> \<not> is_safe_legacy_color value then None
      else if attribute \<in> {''width'', ''height''} \<and> \<not> is_safe_legacy_dimension value then None
      else if attribute = ''align'' \<and> \<not> is_safe_legacy_alignment value then None
      else if attribute \<in> {''class'', ''id'', ''data-ogsc'', ''data-ogsb''}
           \<and> (1024 < length value \<or> list_ex (\<lambda>c. \<not> (is_ascii_alphanumeric c
                 \<or> c \<in> {CHR ''_'', CHR ''-'', CHR ''.'', CHR '':'', CHR '' '', TAB, CR, LF})) value) then None
      else Some value)"

subsection \<open>The body element\<close>

text \<open>The attribute value at the cursor of \<open>extract_html_attribute\<close>, behind the name: \<open>None\<close> when the
  name is not one of an attribute with a value, and the scan goes on; \<open>Some r\<close> when the scan ends with \<open>r\<close>.\<close>

definition attribute_value :: "string \<Rightarrow> string option option" where
  "attribute_value behind =
     (case dropWhile is_ascii_whitespace behind of
        [] \<Rightarrow> None
      | e # r \<Rightarrow>
          if e \<noteq> CHR ''='' then None
          else (case dropWhile is_ascii_whitespace r of
                  [] \<Rightarrow> Some None
                | q # v \<Rightarrow>
                    if q = DQUOTE \<or> q = CHR 0x27
                    then Some (if q \<in> set v then Some (takeWhile (\<lambda>c. c \<noteq> q) v) else None)
                    else (let w = takeWhile (\<lambda>c. \<not> (is_ascii_whitespace c \<or> c = CHR ''>'' \<or> c = CHR ''/'')) (q # v)
                          in Some (if w = [] then None else Some w))))"

function attribute_scan :: "string \<Rightarrow> char option \<Rightarrow> string \<Rightarrow> string option" where
  "attribute_scan name before tag =
     (case find_ci name tag of
        None \<Rightarrow> None
      | Some start \<Rightarrow>
          (let before_byte = (if start = 0 then before else Some (tag ! (start - 1)));
               behind = drop (start + length name) tag;
               before_ok = (case before_byte of None \<Rightarrow> True | Some b \<Rightarrow> is_ascii_whitespace b \<or> b = CHR ''<'');
               after_ok = (case behind of [] \<Rightarrow> True
                           | d # _ \<Rightarrow> is_ascii_whitespace d \<or> d \<in> {CHR ''='', CHR ''>'', CHR ''/''});
               next_scan = attribute_scan name (Some (tag ! (start + length name - 1))) behind in
           if \<not> before_ok \<or> \<not> after_ok then next_scan
           else (case attribute_value behind of None \<Rightarrow> next_scan | Some r \<Rightarrow> r)))"
  by pat_completeness auto
termination
  by (relation "measure (\<lambda>(_, _, t). length t)") (auto dest: find_ci_Some)

declare attribute_scan.simps [simp del]

definition extract_html_attribute :: "string \<Rightarrow> string \<Rightarrow> string option" where
  "extract_html_attribute tag name = attribute_scan name None tag"

definition escape_html_attribute :: "string \<Rightarrow> string" where
  "escape_html_attribute value =
     replace_char (CHR ''>'') ''&gt;'' (replace_char (CHR ''<'') ''&lt;''
       (replace_char DQUOTE ''&quot;'' (replace_char (CHR ''&'') ''&amp;'' value)))"

definition option_filter :: "('a \<Rightarrow> bool) \<Rightarrow> 'a option \<Rightarrow> 'a option" where
  "option_filter p o1 = (case o1 of Some x \<Rightarrow> if p x then Some x else None | None \<Rightarrow> None)"

definition body_classes :: "string \<Rightarrow> string" where
  "body_classes opening =
     (case option_filter (\<lambda>v. length v \<le> 512 \<and> list_all (\<lambda>c. is_ascii_alphanumeric c
          \<or> c \<in> {CHR ''_'', CHR ''-'', CHR '' '', TAB, CR, LF}) v) (extract_html_attribute opening ''class'') of
        Some v \<Rightarrow> v | None \<Rightarrow> [])"

definition body_style :: "string \<Rightarrow> string" where
  "body_style opening =
     (let style = (case option_filter (\<lambda>v. length v \<le> 16 * 1024) (extract_html_attribute opening ''style'') of
                     Some v \<Rightarrow> v | None \<Rightarrow> []) in
      case option_filter (\<lambda>v. is_safe_legacy_color v \<and> \<not> contains_sub (to_ascii_lowercase style) ''background-color'')
             (extract_html_attribute opening ''bgcolor'') of
        None \<Rightarrow> style
      | Some color \<Rightarrow>
          style @ (if trim style \<noteq> [] \<and> \<not> ends_with (trim_end style) '';'' then '';'' else [])
                @ ''background-color:'' @ trim color)"

definition body_div :: "string \<Rightarrow> string" where
  "body_div opening =
     ''<div class='' @ [DQUOTE] @ ''quickmail-body''
       @ (if trim (body_classes opening) = [] then []
          else '' '' @ escape_html_attribute (trim (body_classes opening)))
       @ [DQUOTE]
       @ (if trim (body_style opening) = [] then []
          else '' style='' @ [DQUOTE] @ escape_html_attribute (trim (body_style opening)) @ [DQUOTE])
       @ ''>''"

definition preserve_body_presentation :: "string \<Rightarrow> string" where
  "preserve_body_presentation html =
     (case find_ci ''<body'' html of
        None \<Rightarrow> html
      | Some start \<Rightarrow>
          (case find_char (CHR ''>'') (drop start html) of
             None \<Rightarrow> html
           | Some o1 \<Rightarrow>
               (let inner = drop (start + o1 + 1) html in
                case find_ci ''</body'' inner of
                  None \<Rightarrow> html
                | Some close_start \<Rightarrow>
                    (case find_char (CHR ''>'') (drop close_start inner) of
                       None \<Rightarrow> html
                     | Some o2 \<Rightarrow>
                         take start html @ body_div (take (o1 + 1) (drop start html))
                           @ take close_start inner @ ''</div>'' @ drop (close_start + o2 + 1) inner))))"

definition sanitize_html_body :: "(string \<Rightarrow> string) \<Rightarrow> string \<Rightarrow> string" where
  "sanitize_html_body clean html = sanitize_stylesheet_blocks (clean (preserve_body_presentation html))"

subsection \<open>Cleaning declarations twice\<close>

lemma split_on_join_with:
  "ps \<noteq> [] \<Longrightarrow> \<forall>p \<in> set ps. c \<notin> set p \<Longrightarrow> split_on c (join_with [c] ps) = ps"
proof (induction ps)
  case (Cons p ps)
  show ?case
  proof (cases ps)
    case Nil
    with Cons show ?thesis by (simp add: join_with_def split_on_no_sep)
  next
    case (Cons q qs)
    have "join_with [c] (p # ps) = p @ c # join_with [c] ps" by (simp add: join_with_def Cons)
    with Cons.IH Cons.prems Cons show ?thesis by (simp add: split_on_append)
  qed
qed simp

lemma SAFE_CSS_PROPERTIES_bytes:
  "list_all (list_all (\<lambda>c. is_ascii_lower c \<or> c = CHR ''-'')) SAFE_CSS_PROPERTIES"
  by code_simp

lemma safe_property_plain:
  assumes "p \<in> set SAFE_CSS_PROPERTIES"
  shows "trim p = p" "to_ascii_lowercase p = p" "CHR '':'' \<notin> set p" "CHR '';'' \<notin> set p"
    "\<forall>c \<in> set p. is_ascii_lower c \<or> c = CHR ''-''"
proof -
  show bytes: "\<forall>c \<in> set p. is_ascii_lower c \<or> c = CHR ''-''"
    using assms SAFE_CSS_PROPERTIES_bytes by (auto simp: list_all_iff)
  then show "trim p = p" by (intro trim_plain) (auto simp: list_all_iff ascii_defs)
  have "ascii_lower_char c = c" if "c \<in> set p" for c
    using bytes that by (auto simp: ascii_defs)
  then show "to_ascii_lowercase p = p" by (simp add: to_ascii_lowercase_def map_idI)
  show "CHR '':'' \<notin> set p" "CHR '';'' \<notin> set p" using bytes by (auto simp: ascii_defs)
qed

text \<open>What a kept declaration is: a permitted property other than the shorthand \<open>background\<close>, and a trimmed
  value that passes the checks of the property.\<close>

definition kept_declaration :: "string \<times> string \<Rightarrow> bool" where
  "kept_declaration d \<longleftrightarrow> fst d \<in> set SAFE_CSS_PROPERTIES \<and> fst d \<noteq> ''background''
     \<and> safe_css_property_value (fst d) (snd d) \<and> trim (snd d) = snd d \<and> CHR '';'' \<notin> set (snd d)"

lemma keep_declaration_kept:
  assumes "keep_declaration dcl = Some d" "CHR '';'' \<notin> set dcl"
  shows "kept_declaration d"
proof -
  from assms obtain p v where s: "dcl = p @ CHR '':'' # v" and d: "snd d = trim v"
    and "fst d \<in> set SAFE_CSS_PROPERTIES" "safe_css_property_value (fst d) (trim v)" "fst d \<noteq> ''background''"
    by (auto simp: keep_declaration_def Let_def split_once_eq_Some split: option.splits if_splits)
  moreover have "CHR '';'' \<notin> set (trim v)" using assms(2) s set_trim [of v] by auto
  ultimately show ?thesis by (simp add: kept_declaration_def)
qed

lemma keep_declaration_render:
  assumes "kept_declaration d"
  shows "keep_declaration (render_declaration d) = Some d"
proof -
  obtain p v where d: "d = (p, v)" by (cases d)
  have p: "trim p = p" "to_ascii_lowercase p = p" "CHR '':'' \<notin> set p"
    using assms by (auto simp: d kept_declaration_def dest: safe_property_plain)
  then have "split_once (render_declaration d) (CHR '':'') = Some (p, v)"
    by (simp add: d render_declaration_def split_once_append)
  then show ?thesis using assms p by (simp add: keep_declaration_def kept_declaration_def d)
qed

lemma map_filter_kept:
  "\<forall>d \<in> set ds. kept_declaration d \<Longrightarrow> List.map_filter keep_declaration (map render_declaration ds) = ds"
  by (induction ds) (auto simp: List.map_filter_simps keep_declaration_render)

definition kept_declarations :: "string \<Rightarrow> (string \<times> string) list" where
  "kept_declarations input = List.map_filter keep_declaration (take 256 (split_on (CHR '';'') input))"

lemma kept_declarations_kept:
  assumes "d \<in> set (kept_declarations input)"
  shows "kept_declaration d"
proof -
  obtain dcl where "dcl \<in> set (split_on (CHR '';'') input)" "keep_declaration dcl = Some d"
    using assms unfolding kept_declarations_def List.map_filter_def by (auto dest!: in_set_takeD)
  then show ?thesis by (rule keep_declaration_kept [OF _ split_on_pieces_no_sep, rotated])
qed

lemma length_kept_declarations: "length (kept_declarations input) \<le> 256"
proof -
  have "length (List.map_filter f xs) \<le> length xs" for f and xs :: "string list"
    by (simp add: List.map_filter_def)
  from this [of keep_declaration "take 256 (split_on (CHR '';'') input)"] show ?thesis
    unfolding kept_declarations_def by simp
qed

lemma sanitize_as_kept:
  "sanitize_css_declarations input = join_with '';'' (map render_declaration (kept_declarations input))"
  by (simp add: sanitize_css_declarations_def kept_declarations_def)

lemma sanitize_again:
  "sanitize_css_declarations (sanitize_css_declarations input) = sanitize_css_declarations input"
proof -
  let ?ds = "kept_declarations input"
  have "sanitize_css_declarations (join_with '';'' (map render_declaration ?ds)) = join_with '';'' (map render_declaration ?ds)"
  proof (cases "?ds = []")
    case True
    have "sanitize_css_declarations [] = []" by code_simp
    then show ?thesis by (simp add: True join_with_def)
  next
    case False
    have "CHR '';'' \<notin> set (render_declaration d)" if "d \<in> set ?ds" for d
      using kept_declarations_kept [OF that]
      by (auto simp: kept_declaration_def render_declaration_def dest: safe_property_plain)
    then have "split_on (CHR '';'') (join_with '';'' (map render_declaration ?ds)) = map render_declaration ?ds"
      using False by (intro split_on_join_with) auto
    moreover have "take 256 (map render_declaration ?ds) = map render_declaration ?ds"
      using length_kept_declarations [of input] by simp
    ultimately show ?thesis
      using map_filter_kept [of ?ds] kept_declarations_kept [of _ input] by (simp add: sanitize_css_declarations_def)
  qed
  then show ?thesis by (simp add: sanitize_as_kept)
qed

text \<open>Cleaning declarations is idempotent, and every declaration that survives has a permitted property,
  never the shorthand \<open>background\<close> (which could load an image), and a value that passed the checks, at most 256 of them:
  for all input, \<open>sanitize_css_declarations\<close> renders such a list and returns its own output unchanged.\<close>

theorem sanitize_declarations_idempotent:
  "sanitize_css_declarations (sanitize_css_declarations input) = sanitize_css_declarations input
   \<and> (\<exists>ds. sanitize_css_declarations input = join_with '';'' (map render_declaration ds) \<and> length ds \<le> 256
        \<and> list_all kept_declaration ds)"
proof
  show "\<exists>ds. sanitize_css_declarations input = join_with '';'' (map render_declaration ds) \<and> length ds \<le> 256
        \<and> list_all kept_declaration ds"
    using sanitize_as_kept length_kept_declarations kept_declarations_kept by (fastforce simp: list_all_iff)
qed (rule sanitize_again)

subsection \<open>What a style sheet can still say\<close>

definition markup_byte :: "char \<Rightarrow> bool" where
  "markup_byte c \<longleftrightarrow> c \<in> {CHR ''<'', CHR ''&'', CHR ''@'', BACKSLASH}"

definition safe_rule :: "string \<times> string \<Rightarrow> bool" where
  "safe_rule r \<longleftrightarrow> safe_css_selector (fst r) \<and> snd r \<noteq> [] \<and> sanitize_css_declarations (snd r) = snd r"

lemma set_join_with: "c \<in> set (join_with sep ps) \<Longrightarrow> c \<in> set sep \<or> (\<exists>p \<in> set ps. c \<in> set p)"
  by (auto simp: join_with_def split: list.splits if_splits)

lemma declarations_no_markup:
  assumes "c \<in> set (sanitize_css_declarations input)"
  shows "\<not> markup_byte c"
proof -
  from assms consider "c = CHR '';''" | d where "d \<in> set (kept_declarations input)" "c \<in> set (render_declaration d)"
    unfolding sanitize_as_kept by (auto dest!: set_join_with)
  then show ?thesis
  proof cases
    case 2
    have k: "kept_declaration d" using 2(1) by (rule kept_declarations_kept)
    have "\<not> markup_byte c" if "c \<in> set (snd d)"
      using k that by (auto simp: kept_declaration_def safe_css_property_value_def safe_css_value_def
          list_ex_iff forbidden_css_byte_def markup_byte_def)
    moreover have "\<not> markup_byte c" if "c \<in> set (fst d)"
    proof -
      have "is_ascii_lower c \<or> c = CHR ''-''"
        using k that by (auto simp: kept_declaration_def dest: safe_property_plain)
      then show ?thesis by (auto simp: markup_byte_def ascii_defs BACKSLASH_def)
    qed
    moreover have "\<not> markup_byte (CHR '':'')" by (simp add: markup_byte_def BACKSLASH_def)
    ultimately show ?thesis using 2(2) by (auto simp: render_declaration_def)
  qed (simp add: markup_byte_def BACKSLASH_def)
qed

lemma selector_no_markup: "safe_css_selector sel \<Longrightarrow> c \<in> set sel \<Longrightarrow> \<not> markup_byte c"
  by (auto simp: safe_css_selector_def markup_byte_def list_all_iff ascii_defs char_consts)

lemma safe_rule_no_markup:
  assumes "safe_rule r" "c \<in> set (render_rule r)"
  shows "\<not> markup_byte c"
proof -
  from assms(2) consider "c \<in> set (fst r)" | "c \<in> set (sanitize_css_declarations (snd r))" | "c \<in> set ''{}''"
    using assms(1) by (auto simp: render_rule_def safe_rule_def)
  then show ?thesis
  proof cases
    case 1
    with assms(1) show ?thesis by (auto simp: safe_rule_def dest: selector_no_markup)
  next
    case 2
    then show ?thesis by (rule declarations_no_markup)
  qed (auto simp: markup_byte_def BACKSLASH_def)
qed

lemma stylesheet_rules_safe:
  "\<exists>rs. stylesheet_rules fuel acc rest = acc @ concat (map render_rule rs) \<and> length rs \<le> fuel
      \<and> list_all safe_rule rs
      \<and> (length acc \<le> MAX_SAFE_STYLESHEET_BYTES \<longrightarrow> length (stylesheet_rules fuel acc rest) \<le> MAX_SAFE_STYLESHEET_BYTES)"
  (is "?P fuel acc rest")
proof (induction fuel arbitrary: acc rest)
  case (Suc fuel)
  have stop: "?P (Suc fuel) acc rest" if "stylesheet_rules (Suc fuel) acc rest = acc"
    using that by (intro exI [of _ "[]"]) simp
  have skip: "?P (Suc fuel) acc rest" if "stylesheet_rules (Suc fuel) acc rest = stylesheet_rules fuel acc r" for r
    using Suc [of acc r] unfolding that by (metis le_Suc_eq)
  have emit: "?P (Suc fuel) acc rest"
    if eq: "stylesheet_rules (Suc fuel) acc rest = stylesheet_rules fuel (acc @ render_rule (sel, d)) r"
      and safe: "safe_rule (sel, d)" and room: "length acc + (length sel + length d + 2) \<le> MAX_SAFE_STYLESHEET_BYTES" for sel d r
  proof -
    have len: "length (acc @ render_rule (sel, d)) = length acc + (length sel + length d + 2)"
      by (simp add: render_rule_def)
    obtain rs where "stylesheet_rules fuel (acc @ render_rule (sel, d)) r = (acc @ render_rule (sel, d)) @ concat (map render_rule rs)"
      "length rs \<le> fuel" "list_all safe_rule rs" "length (stylesheet_rules fuel (acc @ render_rule (sel, d)) r) \<le> MAX_SAFE_STYLESHEET_BYTES"
      using Suc [of "acc @ render_rule (sel, d)" r] room len by auto
    then show ?thesis unfolding eq using safe by (intro exI [of _ "(sel, d) # rs"]) simp
  qed
  let ?f = "dropWhile (\<lambda>c. c \<noteq> CHR ''{'') rest"
  let ?sel = "normalize_email_selector (trim (takeWhile (\<lambda>c. c \<noteq> CHR ''{'') rest))"
  show ?case
  proof (cases "?f = []")
    case False
    note f = this
    show ?thesis
    proof (cases "matching_css_brace ?f")
      case None
      with f show ?thesis by (intro stop) (auto simp: Let_def)
    next
      case (Some close)
      let ?d = "sanitize_css_declarations (take (close - 1) (drop 1 ?f))"
      let ?after = "drop (close + 1) ?f"
      show ?thesis
      proof (cases "starts_with (trim_start ?sel) ''@'' \<or> \<not> (safe_css_selector ?sel \<and> ?d \<noteq> [])")
        case True
        with f Some show ?thesis by (intro skip [of ?after]) (auto simp: Let_def simp del: One_nat_def)
      next
        case False
        show ?thesis
        proof (cases "MAX_SAFE_STYLESHEET_BYTES < length acc + (length ?sel + length ?d + 2)")
          case True
          with f Some False show ?thesis by (intro stop) (simp add: Let_def del: One_nat_def)
        next
          case room: False
          with f Some False show ?thesis
            by (intro emit [of ?sel ?d ?after]) (auto simp: Let_def safe_rule_def sanitize_again simp del: One_nat_def)
        qed
      qed
    qed
  qed (intro stop, simp)
qed auto


subsection \<open>What the body element can still say\<close>

definition breaks_attribute :: "char \<Rightarrow> bool" where
  "breaks_attribute c \<longleftrightarrow> c \<in> {DQUOTE, CHR ''<'', CHR ''>''}"

lemma replace_char_removes: "c \<notin> set to \<Longrightarrow> c \<notin> set (replace_char c to s)"
  by (auto simp: replace_char_def)

lemma replace_char_other: "c \<noteq> d \<Longrightarrow> d \<notin> set to \<Longrightarrow> d \<notin> set s \<Longrightarrow> d \<notin> set (replace_char c to s)"
  by (auto simp: replace_char_def)

lemma escape_no_break: "c \<in> set (escape_html_attribute v) \<Longrightarrow> \<not> breaks_attribute c"
proof -
  have "CHR ''>'' \<notin> set (escape_html_attribute v)"
    unfolding escape_html_attribute_def by (rule replace_char_removes) simp
  moreover have "CHR ''<'' \<notin> set (escape_html_attribute v)"
    unfolding escape_html_attribute_def by (intro replace_char_other replace_char_removes) simp_all
  moreover have "DQUOTE \<notin> set (escape_html_attribute v)"
    unfolding escape_html_attribute_def by (intro replace_char_other replace_char_removes) (simp_all add: DQUOTE_def)
  ultimately show "c \<in> set (escape_html_attribute v) \<Longrightarrow> \<not> breaks_attribute c"
    by (auto simp: breaks_attribute_def)
qed

lemma find_char_Some: "find_char c s = Some i \<Longrightarrow> i < length s"
  unfolding find_char_def by (metis (mono_tags, lifting) length_append length_greater_0_conv less_add_same_cancel1 option.distinct(1)
      option.inject set_takeWhileD takeWhile_dropWhile_id append_Nil2)

lemma take_take_drop: "xs = take m xs @ take n (drop m xs) @ drop (m + n) xs"
  by (metis add.commute append_take_drop_id drop_drop)

text \<open>C37: the body tag becomes a \<open>div\<close> whose attributes nothing in the message can break out of: either the
  HTML is returned as it is, or the opening and the closing tag alone are replaced, and the class and the
  style written hold no double quote and no angle bracket.\<close>

theorem body_attributes_contained:
  "preserve_body_presentation html = html \<or>
   (\<exists>pre op_tag inner closing post cls sty.
      html = pre @ op_tag @ inner @ closing @ post
      \<and> preserve_body_presentation html
          = pre @ ''<div class='' @ [DQUOTE] @ cls @ [DQUOTE] @ sty @ ''>'' @ inner @ ''</div>'' @ post
      \<and> list_all (\<lambda>c. \<not> breaks_attribute c) cls
      \<and> (sty = [] \<or> (\<exists>v. sty = '' style='' @ [DQUOTE] @ v @ [DQUOTE] \<and> list_all (\<lambda>c. \<not> breaks_attribute c) v)))"
proof (cases "preserve_body_presentation html = html")
  case False
  then obtain start o1 close_start o2 where
    f: "find_ci ''<body'' html = Some start" "find_char (CHR ''>'') (drop start html) = Some o1"
      "find_ci ''</body'' (drop (start + o1 + 1) html) = Some close_start"
      "find_char (CHR ''>'') (drop close_start (drop (start + o1 + 1) html)) = Some o2"
    unfolding preserve_body_presentation_def by (auto simp: Let_def split: option.splits)
  let ?opening = "take (o1 + 1) (drop start html)"
  let ?inner = "take close_start (drop (start + o1 + 1) html)"
  let ?closing = "take (o2 + 1) (drop close_start (drop (start + o1 + 1) html))"
  let ?post = "drop (close_start + o2 + 1) (drop (start + o1 + 1) html)"
  have "html = take start html @ ?opening @ drop (start + o1 + 1) html"
    using take_take_drop [of html start "o1 + 1"] by (simp only: add.assoc)
  moreover have "drop (start + o1 + 1) html = ?inner @ ?closing @ ?post"
    using take_take_drop [of "drop (start + o1 + 1) html" close_start "o2 + 1"] by (simp only: add.assoc)
  ultimately have "html = take start html @ ?opening @ ?inner @ ?closing @ ?post" by simp
  moreover have "preserve_body_presentation html = take start html @ body_div ?opening @ ?inner @ ''</div>'' @ ?post"
    using f by (simp add: preserve_body_presentation_def Let_def)
  moreover have "\<exists>cls sty. body_div op_tag = ''<div class='' @ [DQUOTE] @ cls @ [DQUOTE] @ sty @ ''>''
      \<and> list_all (\<lambda>c. \<not> breaks_attribute c) cls
      \<and> (sty = [] \<or> (\<exists>v. sty = '' style='' @ [DQUOTE] @ v @ [DQUOTE] \<and> list_all (\<lambda>c. \<not> breaks_attribute c) v))" for op_tag
  proof -
    have plain: "list_all (\<lambda>c. \<not> breaks_attribute c) ''quickmail-body''"
      by (simp add: breaks_attribute_def DQUOTE_def)
    have esc: "list_all (\<lambda>c. \<not> breaks_attribute c) (escape_html_attribute v)" for v
      by (auto simp: list_all_iff dest: escape_no_break)
    have sp: "\<not> breaks_attribute (CHR '' '')" by (simp add: breaks_attribute_def DQUOTE_def)
    show ?thesis
      unfolding body_div_def
      by (intro exI [of _ "''quickmail-body'' @ (if trim (body_classes op_tag) = [] then []
              else '' '' @ escape_html_attribute (trim (body_classes op_tag)))"]
            exI [of _ "if trim (body_style op_tag) = [] then []
              else '' style='' @ [DQUOTE] @ escape_html_attribute (trim (body_style op_tag)) @ [DQUOTE]"])
        (use plain esc sp in auto)
  qed
  then obtain cls sty where cs: "body_div ?opening = ''<div class='' @ [DQUOTE] @ cls @ [DQUOTE] @ sty @ ''>''"
      "list_all (\<lambda>c. \<not> breaks_attribute c) cls"
      "sty = [] \<or> (\<exists>v. sty = '' style='' @ [DQUOTE] @ v @ [DQUOTE] \<and> list_all (\<lambda>c. \<not> breaks_attribute c) v)"
    by blast
  ultimately have "html = take start html @ ?opening @ ?inner @ ?closing @ ?post
      \<and> preserve_body_presentation html = take start html @ ''<div class='' @ [DQUOTE] @ cls @ [DQUOTE] @ sty @ ''>''
          @ ?inner @ ''</div>'' @ ?post"
    by (simp only: cs append.assoc simp_thms)
  then show ?thesis using cs(2,3) by blast
qed simp

end
