(* ===== verification/Daemon_Values.thy ===== *)
theory Daemon_Values
  imports Storage_Operations Html_Css Mime_Codec
begin

section \<open>What the daemon checks and reports\<close>

text \<open>
  The functions of \<open>daemon.rs\<close> that decide without touching state: which parameters a handler accepts,
  which code and text an error of the store or of a provider becomes, which counts an account shows, and
  under which name an attachment is offered. The text of an error of SQLite or of the JSON library is the
  parameter \<open>detail\<close>.
\<close>

subsection \<open>Errors\<close>

fun storage_error_text :: "(storage_error \<Rightarrow> string) \<Rightarrow> storage_error \<Rightarrow> string" where
  "storage_error_text detail (Sqlite e) = ''database error: '' @ detail (Sqlite e)"
| "storage_error_text detail (InvalidData m) = ''invalid data in database: '' @ m"
| "storage_error_text detail InvalidCursor = ''invalid page cursor''"
| "storage_error_text detail NotFound = ''resource not found''"
| "storage_error_text detail Serialization = ''serialization error: '' @ detail Serialization"
| "storage_error_text detail WorkerStopped = ''database worker stopped''"

definition storage_rpc_error :: "(storage_error \<Rightarrow> string) \<Rightarrow> storage_error \<Rightarrow> rpc_error" where
  "storage_rpc_error detail err =
     (case err of
        NotFound \<Rightarrow> rpc_err (-32004) ''resource not found''
      | InvalidCursor \<Rightarrow> invalid_params (storage_error_text detail err)
      | InvalidData _ \<Rightarrow> invalid_params (storage_error_text detail err)
      | _ \<Rightarrow> internal_error (storage_error_text detail err))"

definition recovery_storage_error :: "(storage_error \<Rightarrow> string) \<Rightarrow> storage_error \<Rightarrow> provider_error" where
  "recovery_storage_error detail err =
     (case err of
        NotFound \<Rightarrow> ProviderNotFound
      | _ \<Rightarrow> Temporary (''could not commit a recovered agenda operation: '' @ storage_error_text detail err))"

fun provider_error_code :: "provider_error \<Rightarrow> int" where
  "provider_error_code (Authentication _) = -32010"
| "provider_error_code (Unsupported _) = -32005"
| "provider_error_code ProviderNotFound = -32004"
| "provider_error_code (Temporary _) = -32011"
| "provider_error_code (ResourceTooLarge _) = -32013"
| "provider_error_code (ProviderOther _) = -32012"

definition provider_rpc_error :: "provider_error \<Rightarrow> rpc_error" where
  "provider_rpc_error err = rpc_err (provider_error_code err) (provider_error_text err)"

definition is_authentication :: "provider_error \<Rightarrow> bool" where
  "is_authentication err = (case err of Authentication _ \<Rightarrow> True | _ \<Rightarrow> False)"

subsection \<open>Account setup\<close>

record mail_server_setup =
  mss_host :: string
  mss_port :: nat
  mss_security :: string
  mss_username :: string
  mss_password :: string

record account_add_params =
  aap_provider :: string
  aap_address :: string
  aap_display_name :: string
  aap_imap :: "mail_server_setup option"
  aap_smtp :: "mail_server_setup option"

definition brokered_provider_family :: "string \<Rightarrow> string option" where
  "brokered_provider_family provider =
     (if eq_ignore_ascii_case provider ''gmail'' then Some ''gmail''
      else if list_ex (eq_ignore_ascii_case provider) [''outlook'', ''hotmail'', ''microsoft365''] then Some ''microsoft''
      else None)"

definition option_list :: "'a option \<Rightarrow> 'a list" where
  "option_list x = (case x of None \<Rightarrow> [] | Some v \<Rightarrow> [v])"

definition bad_server :: "mail_server_setup \<Rightarrow> bool" where
  "bad_server server \<longleftrightarrow> trim (mss_host server) = [] \<or> trim (mss_username server) = [] \<or> mss_port server = 0
     \<or> mss_security server \<notin> {''tls'', ''starttls'', ''none''}"

definition validate_account_setup :: "account_add_params \<Rightarrow> rpc_error + unit" where
  "validate_account_setup setup =
     (if trim (aap_provider setup) = [] \<or> trim (aap_address setup) = []
      then Inl (invalid_params ''provider and address are required'')
      else if brokered_provider_family (aap_provider setup) = None
              \<and> (aap_imap setup = None \<or> aap_smtp setup = None)
      then Inl (invalid_params ''account setup requires both imap and smtp settings'')
      else if list_ex bad_server (option_list (aap_imap setup) @ option_list (aap_smtp setup))
      then Inl (invalid_params ''invalid mail server settings'')
      else Inr ())"

definition server_config :: "mail_server_setup option \<Rightarrow> json" where
  "server_config server =
     (case server of
        None \<Rightarrow> JNull
      | Some s \<Rightarrow> JObj [(''host'', JStr (mss_host s)), (''port'', JNum (int (mss_port s))),
          (''security'', JStr (mss_security s)), (''username'', JStr (mss_username s))])"

definition nonsecret_account_config :: "account_add_params \<Rightarrow> json" where
  "nonsecret_account_config setup =
     (if brokered_provider_family (aap_provider setup) \<noteq> None
      then JObj [(''provider'', JStr (to_ascii_lowercase (trim (aap_provider setup))))]
      else JObj [(''provider'', JStr (aap_provider setup)), (''imap'', server_config (aap_imap setup)),
             (''smtp'', server_config (aap_smtp setup))])"

definition agenda_account_supported :: "account \<Rightarrow> bool" where
  "agenda_account_supported account \<longleftrightarrow> brokered_provider_family (a_provider account) \<noteq> None
     \<or> eq_ignore_ascii_case (a_protocol account) ''microsoft_graph''"

subsection \<open>Tasks, events and identifiers\<close>

definition agenda_task_source :: "bool \<Rightarrow> string" where
  "agenda_task_source supports_due_time = (if supports_due_time then ''microsoft_todo'' else ''google_tasks'')"

definition is_remote_task :: "task \<Rightarrow> bool" where
  "is_remote_task task \<longleftrightarrow> trim (t_account task) \<noteq> [] \<and> t_source task \<in> {''google_tasks'', ''microsoft_todo''}"

definition bad_title :: "string \<Rightarrow> bool" where
  "bad_title title \<longleftrightarrow> title = [] \<or> 4096 < length title \<or> list_ex (\<lambda>c. c \<in> {NUL, CR, LF}) title"

definition validate_task_mutation :: "task \<Rightarrow> rpc_error + unit" where
  "validate_task_mutation task =
     (if bad_title (trim (t_title task)) then Inl (invalid_params ''invalid task title'')
      else if 64 * 1024 < length (t_description task) \<or> NUL \<in> set (t_description task)
      then Inl (invalid_params ''task description is too large'')
      else if 512 < length (t_account task) \<or> 8 * 1024 < length (t_external_id task)
      then Inl (invalid_params ''invalid task destination'')
      else Inr ())"

definition validate_event_mutation :: "calendar_event \<Rightarrow> rpc_error + unit" where
  "validate_event_mutation event =
     (if bad_title (trim (e_title event)) then Inl (invalid_params ''invalid event title'')
      else if 64 * 1024 < length (e_description event) \<or> NUL \<in> set (e_description event)
      then Inl (invalid_params ''event description is too large'')
      else if 8 * 1024 < length (e_calendar_id event) \<or> e_end_at event \<le> e_start_at event
      then Inl (invalid_params ''invalid event time or calendar'')
      else Inr ())"

definition validate_id_with_limit :: "string \<Rightarrow> string \<Rightarrow> nat \<Rightarrow> rpc_error + unit" where
  "validate_id_with_limit i name max_len =
     (if i = [] \<or> max_len < length i \<or> list_ex (\<lambda>b. b = NUL \<or> b = CHR ''/'' \<or> b = BACKSLASH) i
      then Inl (invalid_params (''invalid '' @ name)) else Inr ())"

definition validate_opaque_id :: "string \<Rightarrow> string \<Rightarrow> rpc_error + unit" where
  "validate_opaque_id i name = validate_id_with_limit i name 512"

definition validate_agenda_id :: "string \<Rightarrow> string \<Rightarrow> rpc_error + unit" where
  "validate_agenda_id i name = validate_id_with_limit i name (8 * 1024)"

definition is_parallel_reader_method :: "string \<Rightarrow> bool" where
  "is_parallel_reader_method rpc_method \<longleftrightarrow> rpc_method \<in>
     {''ping'', ''dashboard.snapshot'', ''accounts.list'', ''mailboxes.list'', ''mail.list'', ''mail.get'',
      ''thread.get'', ''draft.list'', ''draft.get'', ''task.list'', ''calendar.list'', ''avatar.fetch''}"

subsection \<open>Counts\<close>

text \<open>\<open>Iterator::max_by_key\<close> returns the last of the greatest elements.\<close>

fun max_by_key :: "('a \<Rightarrow> nat) \<Rightarrow> 'a list \<Rightarrow> 'a option" where
  "max_by_key f [] = None"
| "max_by_key f (x # xs) =
     (case max_by_key f xs of None \<Rightarrow> Some x | Some y \<Rightarrow> if f y < f x then Some x else Some y)"

definition account_counts_from_mailboxes :: "mailbox list \<Rightarrow> nat \<times> nat" where
  "account_counts_from_mailboxes mailboxes =
     (let found = (case find (\<lambda>m. mb_role m = Some Inbox) mailboxes of
                     Some m \<Rightarrow> Some m
                   | None \<Rightarrow> (case find (\<lambda>m. eq_ignore_ascii_case (mb_name m) ''inbox'') mailboxes of
                       Some m \<Rightarrow> Some m | None \<Rightarrow> max_by_key mb_total mailboxes))
      in case found of None \<Rightarrow> (0, 0) | Some m \<Rightarrow> (mb_unread m, mb_total m))"

subsection \<open>Actions\<close>

fun action_with_ids :: "mail_action \<Rightarrow> string list \<Rightarrow> mail_action" where
  "action_with_ids (MarkRead _ read) message_ids = MarkRead message_ids read"
| "action_with_ids (Star _ starred) message_ids = Star message_ids starred"
| "action_with_ids (Archive _) message_ids = Archive message_ids"
| "action_with_ids (Trash _) message_ids = Trash message_ids"
| "action_with_ids (Move _ mailbox_id) message_ids = Move message_ids mailbox_id"
| "action_with_ids (SetLabels _ labels) message_ids = SetLabels message_ids labels"

subsection \<open>Message HTML\<close>

definition sanitize_message_html :: "(string \<Rightarrow> string) \<Rightarrow> message \<Rightarrow> message" where
  "sanitize_message_html clean msg = msg\<lparr>m_body_html := map_option (sanitize_html_body clean) (m_body_html msg)\<rparr>"

subsection \<open>Attachments\<close>

text \<open>\<open>Path::file_name\<close>: the last component, when it is a normal one.\<close>

definition path_file_name :: "string \<Rightarrow> string option" where
  "path_file_name p =
     (let components = filter (\<lambda>c. c \<noteq> [] \<and> c \<noteq> ''.'') (split_on (CHR ''/'') p)
      in if components = [] \<or> last components = ''..'' then None else Some (last components))"

definition attachment_basename :: "string \<Rightarrow> string" where
  "attachment_basename filename = (case path_file_name filename of Some n \<Rightarrow> n | None \<Rightarrow> ''attachment'')"

definition safe_attachment_name :: "string \<Rightarrow> string" where
  "safe_attachment_name filename =
     (let filtered = concat (take 160 (filter (\<lambda>ch. \<not> is_control_char ch \<and> ch \<noteq> ''/'' \<and> ch \<noteq> [BACKSLASH])
            (utf8_chars (attachment_basename filename))))
      in if trim filtered = [] then ''attachment'' else filtered)"

record attachment_downloaded =
  adl_path :: string
  adl_filename :: string
  adl_content_type :: string
  adl_size :: nat

text \<open>The attachment cache holds one file for each random name. \<open>write_error\<close> is what \<open>ensure_private_directory\<close>
  or the exclusive creation of the file reports.\<close>

definition cache_attachment_with_limit ::
    "string \<Rightarrow> string \<Rightarrow> string option \<Rightarrow> attachment_data \<Rightarrow> nat \<Rightarrow> (string \<rightharpoonup> string) \<Rightarrow>
     (rpc_error + attachment_downloaded) \<times> (string \<rightharpoonup> string)" where
  "cache_attachment_with_limit directory uuid write_error attachment max_bytes files =
     (if max_bytes < length (ad_bytes attachment)
      then (Inl (rpc_err (-32013) ''attachment exceeds the configured size limit''), files)
      else if write_error \<noteq> None then (Inl (internal_error (the write_error)), files)
      else if files uuid \<noteq> None then (Inl (internal_error ''File exists''), files)
      else (Inr \<lparr>adl_path = directory @ ''/'' @ uuid, adl_filename = safe_attachment_name (ad_filename attachment),
               adl_content_type = ad_content_type attachment, adl_size = length (ad_bytes attachment)\<rparr>,
            files(uuid \<mapsto> ad_bytes attachment)))"

definition cache_attachment ::
    "string \<Rightarrow> string \<Rightarrow> string option \<Rightarrow> attachment_data \<Rightarrow> (string \<rightharpoonup> string) \<Rightarrow>
     (rpc_error + attachment_downloaded) \<times> (string \<rightharpoonup> string)" where
  "cache_attachment directory uuid write_error attachment files =
     cache_attachment_with_limit directory uuid write_error attachment MAX_MAIL_ATTACHMENT_BYTES files"

lemma attachment_basename_plain: "CHR ''/'' \<notin> set (attachment_basename f)"
proof (cases "path_file_name f")
  case (Some n)
  then have "n \<in> set (split_on (CHR ''/'') f)"
    by (auto simp: path_file_name_def Let_def split: if_splits dest!: last_in_set)
  then show ?thesis using Some split_on_pieces_no_sep by (simp add: attachment_basename_def)
qed (simp add: attachment_basename_def)

lemma set_filtered_chars: "set (concat (take k (filter P (utf8_chars n)))) \<subseteq> set n"
proof -
  have "set (concat (take k (filter P (utf8_chars n)))) \<subseteq> set (concat (utf8_chars n))"
    by (auto simp del: concat_utf8_chars dest!: in_set_takeD)
  then show ?thesis by simp
qed

lemma safe_attachment_name_plain: "safe_attachment_name f \<noteq> [] \<and> CHR ''/'' \<notin> set (safe_attachment_name f)"
proof -
  let ?P = "\<lambda>ch. \<not> is_control_char ch \<and> ch \<noteq> ''/'' \<and> ch \<noteq> [BACKSLASH]"
  let ?t = "concat (take 160 (filter ?P (utf8_chars (attachment_basename f))))"
  have eq: "safe_attachment_name f = (if trim ?t = [] then ''attachment'' else ?t)"
    by (simp only: safe_attachment_name_def Let_def)
  show ?thesis
  proof (cases "trim ?t = []")
    case False
    then have "?t \<noteq> []" by (metis trim_Nil)
    moreover have "set ?t \<subseteq> set (attachment_basename f)" by (rule set_filtered_chars)
    ultimately show ?thesis unfolding eq using False attachment_basename_plain [of f] by (auto simp del: set_concat)
  qed (simp add: eq)
qed

end
