(* ===== verification/Storage_Bodies.thy ===== *)
theory Storage_Bodies
  imports Storage_Jobs Daemon_Values
begin

section \<open>Trusted bodies\<close>

text \<open>
  The daemon returns a cached body without cleaning it again, because only cleaned HTML enters the cache.
  A body is trusted when the sanitizer produced it; the property that every loaded body is trusted is one
  that every database job keeps, given that the messages it stores with their bodies were cleaned.
\<close>

definition html_trusted :: "(string \<Rightarrow> string) \<Rightarrow> string option \<Rightarrow> bool" where
  "html_trusted clean html \<longleftrightarrow> (case html of None \<Rightarrow> True | Some h \<Rightarrow> h \<in> range (sanitize_html_body clean))"

definition row_trusted :: "(string \<Rightarrow> string) \<Rightarrow> message_row \<Rightarrow> bool" where
  "row_trusted clean r \<longleftrightarrow> (mr_body_loaded r \<longrightarrow> html_trusted clean (m_body_html (mr_message r)))"

definition bodies_trusted :: "(string \<Rightarrow> string) \<Rightarrow> db \<Rightarrow> bool" where
  "bodies_trusted clean d \<longleftrightarrow> (\<forall>r \<in> set (d_messages d). row_trusted clean r)"

fun job_trusted :: "(string \<Rightarrow> string) \<Rightarrow> job \<Rightarrow> bool" where
  "job_trusted clean (UpsertMessages now ms) = (\<forall>m \<in> set ms. html_trusted clean (m_body_html m))"
| "job_trusted clean _ = True"

lemma bodies_trusted_cong: "d_messages d' = d_messages d \<Longrightarrow> bodies_trusted c d' = bodies_trusted c d"
  by (simp add: bodies_trusted_def)

lemma bodies_trusted_subset: "bodies_trusted c d \<Longrightarrow> set (d_messages d') \<subseteq> set (d_messages d) \<Longrightarrow> bodies_trusted c d'"
  by (auto simp: bodies_trusted_def)

lemma bodies_trusted_upsert:
  assumes "bodies_trusted c d" "upsert_message merge r d = Inr d'" "row_trusted c r"
    and "\<And>old. row_trusted c old \<Longrightarrow> row_trusted c (merge old r)"
  shows "bodies_trusted c d'"
  using assms by (auto simp: bodies_trusted_def upsert_message_def result_simps mem_upsert_row)

lemma bodies_trusted_update:
  "bodies_trusted c d \<Longrightarrow> (\<And>r. row_trusted c r \<Longrightarrow> row_trusted c (f r)) \<Longrightarrow> bodies_trusted c (update_message i f d)"
  by (auto simp: bodies_trusted_def mem_update_row)

lemma bodies_trusted_delete: "bodies_trusted c d \<Longrightarrow> bodies_trusted c (delete_messages p d)"
  by (auto simp: bodies_trusted_def delete_messages_def)

lemma row_trusted_flags [simp]:
  "row_trusted c (set_read b r) = row_trusted c r" "row_trusted c (set_starred b r) = row_trusted c r"
  "row_trusted c (set_mailbox m t r) = row_trusted c r" "row_trusted c (set_labels ls t r) = row_trusted c r"
  by (simp_all add: row_trusted_def set_read_def set_starred_def set_mailbox_def set_labels_def)

lemma bodies_trusted_action: "bodies_trusted c d \<Longrightarrow> apply_action_locally clk action d = Inr d' \<Longrightarrow> bodies_trusted c d'"
  unfolding apply_action_locally_def
  by (cases action)
    (auto split: if_splits intro!: fold_keeps [where P = "bodies_trusted c"] bodies_trusted_update bodies_trusted_delete)

lemma row_trusted_merge: "row_trusted c old \<Longrightarrow> row_trusted c new \<Longrightarrow> row_trusted c (merge_message old new)"
  by (cases "mr_body_loaded new") (simp_all add: row_trusted_def merge_message_def Let_def)

lemma row_trusted_merge_synced: "row_trusted c old \<Longrightarrow> row_trusted c (merge_synced_message old new)"
  by (simp add: row_trusted_def merge_synced_message_def)

lemma bodies_trusted_messages:
  assumes "bodies_trusted c d" "upsert_messages_with_body_state now ms b d = Inr (n, d')"
    and "b \<Longrightarrow> \<forall>m \<in> set ms. html_trusted c (m_body_html m)"
  shows "bodies_trusted c d'"
proof (cases "ms = []")
  case True
  with assms show ?thesis by (auto simp: upsert_messages_with_body_state_def result_simps read_revision_def)
next
  case False
  then obtain d1 where d1: "fold_r (upsert_one_message now b) d ms = Inr d1" and b: "bump_revision d1 = Inr (n, d')"
    using assms(2) by (auto simp: upsert_messages_with_body_state_def result_simps)
  have "bodies_trusted c d1"
  proof (rule fold_r_invariant [where P = "bodies_trusted c", OF d1 assms(1)])
    fix u m v
    assume u: "bodies_trusted c u" and m: "m \<in> set ms" and "upsert_one_message now b u m = Inr v"
    then have "upsert_message merge_message \<lparr>mr_message = m, mr_body_loaded = b, mr_updated_at = now\<rparr> u = Inr v"
      by (simp add: upsert_one_message_Inr)
    then show "bodies_trusted c v"
    proof (rule bodies_trusted_upsert [OF u])
      show new: "row_trusted c \<lparr>mr_message = m, mr_body_loaded = b, mr_updated_at = now\<rparr>"
        using assms(3) m by (cases b) (simp_all add: row_trusted_def)
      show "row_trusted c (merge_message old \<lparr>mr_message = m, mr_body_loaded = b, mr_updated_at = now\<rparr>)"
        if "row_trusted c old" for old using that new by (rule row_trusted_merge)
    qed
  qed
  with b show ?thesis by (simp add: bump_revision_Inr bodies_trusted_def)
qed

lemma bodies_trusted_sync:
  assumes ok: "bodies_trusted c d" and ap: "apply_mailbox_sync_page now now' a mb page d = Inr (n, d')"
  shows "bodies_trusted c d'"
proof (cases "sp_reset page \<or> sp_messages page \<noteq> [] \<or> sp_removed_message_ids page \<noteq> [] \<or> sp_cursor page \<noteq> None")
  case False
  with ap ok show ?thesis by (auto simp: apply_mailbox_sync_page_def bind_r_eq_Inr read_revision_def)
next
  case True
  from ap True obtain d1 d2 d3 where d1: "d1 = (if sp_reset page then reset_mailbox a mb d else d)"
    and d2: "d2 = fold (\<lambda>i. delete_messages (\<lambda>r. message_key r = i \<and> in_mailbox a mb r)) (sp_removed_message_ids page) d1"
    and d3: "fold_r (sync_upsert now) d2 (sp_messages page) = Inr d3"
    and b: "bump_revision (store_cursor now' a mb (sp_cursor page) d3) = Inr (n, d')"
    by (rule apply_sync_page_Inr)
  have "bodies_trusted c (reset_mailbox a mb d)"
    using bodies_trusted_delete [OF ok, of "in_mailbox a mb"] by (simp add: reset_mailbox_def Let_def bodies_trusted_def)
  then have "bodies_trusted c d1" using ok by (simp add: d1)
  then have "bodies_trusted c d2" unfolding d2 by (rule fold_keeps) (rule bodies_trusted_delete)
  then have "bodies_trusted c d3"
  proof (rule fold_r_invariant [where P = "bodies_trusted c", OF d3])
    fix u s v
    assume u: "bodies_trusted c u" and "sync_upsert now u s = Inr v"
    then have "upsert_message merge_synced_message
        \<lparr>mr_message = message_of_summary s, mr_body_loaded = False, mr_updated_at = now\<rparr> u = Inr v"
      by (simp add: sync_upsert_def)
    then show "bodies_trusted c v"
      by (rule bodies_trusted_upsert [OF u]) (simp_all add: row_trusted_def [of c "\<lparr>mr_message = _, mr_body_loaded = _, mr_updated_at = _\<rparr>"]
          row_trusted_merge_synced)
  qed
  with b show ?thesis
    by (auto simp: bump_revision_Inr bodies_trusted_def store_cursor_def split: option.splits)
qed

lemma messages_kept_by_agenda:
  "replace_remote_agenda a s e ts es d = Inr (n, d') \<Longrightarrow> d_messages d' = d_messages d"
  unfolding replace_remote_agenda_def Let_def
  by (auto simp: bind_r_eq_Inr bump_revision_Inr dest!: task_loop event_loop split: if_splits)

lemma messages_kept_by_events: "upsert_events es d = Inr (n, d') \<Longrightarrow> d_messages d' = d_messages d"
  unfolding upsert_events_def
  by (auto simp: bind_r_eq_Inr bump_revision_Inr read_revision_def dest!: event_loop split: if_splits)

lemma messages_kept_by_mailboxes: "upsert_mailboxes ms d = Inr (n, d') \<Longrightarrow> d_messages d' = d_messages d"
proof -
  have "d_messages e = d_messages d" if "fold_r upsert_mailbox_row d ms = Inr e" for e
    using that by (rule fold_r_invariant [where P = "\<lambda>e. d_messages e = d_messages d"])
      (auto simp: upsert_mailbox_row_def bind_r_eq_Inr)
  then show "upsert_mailboxes ms d = Inr (n, d') \<Longrightarrow> d_messages d' = d_messages d"
    unfolding upsert_mailboxes_def by (auto simp: bind_r_eq_Inr bump_revision_Inr read_revision_def split: if_splits)
qed

lemma bodies_trusted_finish:
  assumes "bodies_trusted c d" "finish_mail_action now clk i action res d = Inr (n, d')"
  shows "bodies_trusted c d'"
proof (cases res)
  case (Inr u)
  with assms(2) obtain d1 d2 where f: "finish_operation now i res d = Inr d1" and "apply_action_locally clk action d1 = Inr d2"
    and b: "bump_revision d2 = Inr (n, d')" by (auto simp: finish_mail_action_def bind_r_eq_Inr)
  moreover have "bodies_trusted c d1" using assms(1) f by (auto simp: finish_operation_Inr bodies_trusted_def)
  ultimately have "bodies_trusted c d2" using bodies_trusted_action by blast
  then show ?thesis using b by (simp add: bump_revision_Inr bodies_trusted_def)
qed (use assms in \<open>auto simp: finish_mail_action_def bind_r_eq_Inr finish_operation_Inr read_revision_def bodies_trusted_def\<close>)

lemma delete_account_row_messages: "set (d_messages (delete_account_row a d)) \<subseteq> set (d_messages d)"
  by (auto simp: delete_account_row_def Let_def delete_messages_def delete_mailboxes_def)

lemma bodies_trusted_remove:
  assumes "bodies_trusted c d" "remove_account i d = Inr (n, d')"
  shows "bodies_trusted c d'"
proof (rule bodies_trusted_subset [OF assms(1)])
  define e where "e = (remove_account_operations i d)
      \<lparr>d_tasks := delete_rows (\<lambda>t. t_account t = i) (d_tasks d),
       d_events := delete_rows (\<lambda>x. calendar_of_account i (e_calendar_id x)) (d_events d)\<rparr>"
  have "remove_account i d = (if has_account i e then bump_revision (delete_account_row i e) else Inl NotFound)"
    by (simp add: remove_account_def Let_def e_def remove_account_operations_def)
  moreover have "d_messages e = d_messages d" by (simp add: e_def remove_account_operations_def)
  moreover from calculation(1) have "bump_revision (delete_account_row i e) = Inr (n, d')"
    using assms(2) by (simp split: if_splits)
  ultimately show "set (d_messages d') \<subseteq> set (d_messages d)"
    using delete_account_row_messages [of i e] by (simp add: bump_revision_Inr)
qed

fun writes_messages :: "job \<Rightarrow> bool" where
  "writes_messages (RemoveAccount i) = True"
| "writes_messages (ApplyMailboxSyncPage now now' a mb p) = True"
| "writes_messages (UpsertMessages now ms) = True"
| "writes_messages (UpsertMessageSummaries now ss) = True"
| "writes_messages (FinishMailAction now clk i a r) = True"
| "writes_messages _ = False"

lemma exec_job_messages:
  assumes "exec_job j d = Inr d'" and "\<not> writes_messages j"
  shows "d_messages d' = d_messages d"
  using assms
  by (cases j)
    (auto simp: map_ok_eq_Inr bind_r_eq_Inr bump_revision_Inr upsert_account_config_def update_account_counts_def
      update_account_def set_account_auth_state_def save_draft_def delete_draft_def upsert_task_def upsert_task_row_def
      complete_task_def delete_task_def delete_event_def apply_mail_action_def queue_outgoing_def queue_agenda_operation_def
      record_operation_Inr finish_operation_Inr defer_operation_def commit_agenda_task_upsert_def
      commit_agenda_task_delete_def commit_agenda_event_upsert_def commit_agenda_event_delete_def upsert_event_row_def
      finish_agenda_operation_Inr Let_def
      dest: messages_kept_by_agenda messages_kept_by_events messages_kept_by_mailboxes split: if_splits option.splits)

lemma exec_job_trusted:
  assumes "bodies_trusted c d" and "job_trusted c j" and "exec_job j d = Inr d'"
  shows "bodies_trusted c d'"
proof (cases "writes_messages j")
  case True
  then show ?thesis using assms
    by (cases j)
      (auto simp: map_ok_eq_Inr upsert_messages_def upsert_message_summaries_def
        elim: bodies_trusted_messages bodies_trusted_sync bodies_trusted_finish bodies_trusted_remove)
next
  case False
  then show ?thesis using assms exec_job_messages by (simp add: bodies_trusted_def)
qed

interpretation trust_inv: preserved exec_job "bodies_trusted c" "job_trusted c" for c
  by unfold_locales (rule exec_job_trusted)

text \<open>What the daemon relies on: the invariant of the database and trusted bodies.\<close>

definition store_ok :: "(string \<Rightarrow> string) \<Rightarrow> db \<Rightarrow> bool" where
  "store_ok clean d \<longleftrightarrow> db_ok d \<and> bodies_trusted clean d"

lemma exec_store_ok:
  "store_ok c d \<Longrightarrow> exec_job j d = Inr d' \<Longrightarrow> job_ok j \<Longrightarrow> job_trusted c j \<Longrightarrow> store_ok c d'"
  using exec_job_ok exec_job_trusted by (auto simp: store_ok_def)

lemma sanitized_trusted: "html_trusted c (m_body_html (sanitize_message_html c m))"
  by (auto simp: html_trusted_def sanitize_message_html_def split: option.splits)

lemma cached_body_trusted:
  "bodies_trusted c d \<Longrightarrow> get_cached_message i d = Inr (Some (m, True)) \<Longrightarrow> html_trusted c (m_body_html m)"
  by (auto simp: get_cached_message_def cached_message_from_row_def result_simps bodies_trusted_def row_trusted_def
      split: option.splits dest!: find_row_SomeD)

end
