(* ===== verification/Daemon_State.thy ===== *)
theory Daemon_State
  imports Daemon_Values Storage_Jobs Avatars Effects
begin

section \<open>The daemon's state and its surroundings\<close>

text \<open>
  The struct \<open>Daemon\<close> of \<open>daemon.rs\<close> and what its methods call: the database, the provider objects, the
  provider factory and the agenda providers. A method is an \<open>io\<close> over the daemon's state. Every \<open>await\<close> lets
  the other tasks of the daemon run: the environment's \<open>de_others\<close> is what they do before a lock is held or a
  database job runs, and a call of a provider is a function of the whole state, because other tasks go on
  while it is under way. A provider object is a handle of type \<open>'p\<close>, an agenda provider one of type \<open>'g\<close>;
  \<open>dm_world\<close> is everything outside the process.
\<close>

record server_event =
  ev_topic :: string
  ev_method :: string
  ev_params :: json

text \<open>A \<open>HashMap\<close> is the list of its entries in the order of its iteration.\<close>

record ('p, 'w) daemon =
  dm_db :: db
  dm_events :: "server_event list"
  dm_providers :: "(string \<times> 'p) list"
  dm_syncing :: "string set"
  dm_removed :: "string set"
  dm_attachments :: "string \<rightharpoonup> string"
  dm_avatars :: avatar_world
  dm_tasks :: "('p \<times> mailbox list) list"
  dm_shutdown :: bool
  dm_world :: 'w

type_synonym ('p, 'w, 'e, 'a) dio = "(('p, 'w) daemon, 'e, 'a) io"

record agenda_page =
  ap_tasks :: "task list"
  ap_events :: "calendar_event list"

record ('p, 'g, 'w) daemon_env =
  de_others :: "('p, 'w) daemon \<Rightarrow> ('p, 'w) daemon"
  de_now :: "('p, 'w) daemon \<Rightarrow> int"
  de_uuid :: "('p, 'w) daemon \<Rightarrow> string"
  de_detail :: "storage_error \<Rightarrow> string"
  de_clean :: "string \<Rightarrow> string"
  de_json_text :: "json \<Rightarrow> string"
  de_fts_match :: "string \<Rightarrow> fts_row list \<Rightarrow> storage_error + string set"
  de_cursor_text :: "int \<times> string \<Rightarrow> string"
  de_cursor_parse :: "string \<Rightarrow> (int \<times> string) option"
  fa_create :: "account_add_params \<Rightarrow> ('p, 'w, provider_error, 'p) dio"
  fa_restore :: "account \<Rightarrow> json \<Rightarrow> ('p, 'w, provider_error, 'p) dio"
  fa_reauthorize :: "account \<Rightarrow> json \<Rightarrow> ('p, 'w, provider_error, 'p) dio"
  fa_remove :: "string \<Rightarrow> ('p, 'w, provider_error, unit) dio"
  pv_account :: "'p \<Rightarrow> account"
  pv_attachment_retrieval :: "'p \<Rightarrow> bool"
  pv_list_mailboxes :: "'p \<Rightarrow> ('p, 'w, provider_error, mailbox list) dio"
  pv_sync_mailbox :: "'p \<Rightarrow> mailbox_sync_query \<Rightarrow> ('p, 'w, provider_error, mailbox_sync_page) dio"
  pv_get_message :: "'p \<Rightarrow> string \<Rightarrow> ('p, 'w, provider_error, message) dio"
  pv_apply_action :: "'p \<Rightarrow> mail_action \<Rightarrow> ('p, 'w, provider_error, unit) dio"
  pv_send :: "'p \<Rightarrow> outgoing_message \<Rightarrow> ('p, 'w, provider_error, string) dio"
  pv_get_attachment :: "'p \<Rightarrow> string \<Rightarrow> string \<Rightarrow> ('p, 'w, provider_error, attachment_data) dio"
  pv_same :: "'p \<Rightarrow> 'p \<Rightarrow> bool"
  de_purge :: "('p, 'w, rpc_error, nat) dio"
  de_cache_directory :: string
  de_write_error :: "('p, 'w) daemon \<Rightarrow> string option"
  ag_discover :: "account \<Rightarrow> ('p, 'w, provider_error, 'g option) dio"
  ag_supports_due_time :: "'g \<Rightarrow> bool"
  ag_create_task :: "'g \<Rightarrow> task \<Rightarrow> ('p, 'w, provider_error, task) dio"
  ag_update_task :: "'g \<Rightarrow> task \<Rightarrow> ('p, 'w, provider_error, task) dio"
  ag_complete_task :: "'g \<Rightarrow> task \<Rightarrow> bool \<Rightarrow> ('p, 'w, provider_error, task) dio"
  ag_delete_task :: "'g \<Rightarrow> task \<Rightarrow> ('p, 'w, provider_error, unit) dio"
  ag_create_event :: "'g \<Rightarrow> calendar_event \<Rightarrow> ('p, 'w, provider_error, calendar_event) dio"
  ag_update_event :: "'g \<Rightarrow> calendar_event \<Rightarrow> ('p, 'w, provider_error, calendar_event) dio"
  ag_delete_event :: "'g \<Rightarrow> calendar_event \<Rightarrow> ('p, 'w, provider_error, unit) dio"
  ag_sync :: "'g \<Rightarrow> int \<Rightarrow> int \<Rightarrow> ('p, 'w, provider_error, agenda_page) dio"
  de_task_json :: "task \<Rightarrow> json"
  de_event_json :: "calendar_event \<Rightarrow> json"
  de_json_task :: "json \<Rightarrow> task option"
  de_json_event :: "json \<Rightarrow> calendar_event option"
  de_avatars :: avatar_env

subsection \<open>Awaiting\<close>

text \<open>\<open>await_read\<close> and \<open>await_update\<close> take a lock of the daemon's own state; \<open>db_call\<close> is a job of the database
  worker, which reads the clock and draws its identifier when it runs.\<close>

definition await_read :: "('p, 'g, 'w) daemon_env \<Rightarrow> (('p, 'w) daemon \<Rightarrow> 'a) \<Rightarrow> ('p, 'w, 'e, 'a) dio" where
  "await_read env f s = (let s = de_others env s in (Inr (f s), s))"

definition await_update :: "('p, 'g, 'w) daemon_env \<Rightarrow> (('p, 'w) daemon \<Rightarrow> ('p, 'w) daemon) \<Rightarrow> ('p, 'w, 'e, unit) dio" where
  "await_update env f s = (Inr (), f (de_others env s))"

definition await_lock :: "('p, 'g, 'w) daemon_env \<Rightarrow> ('p, 'w, 'e, unit) dio" where
  "await_lock env s = (Inr (), de_others env s)"

definition db_call ::
    "('p, 'g, 'w) daemon_env \<Rightarrow> (int \<Rightarrow> string \<Rightarrow> db \<Rightarrow> storage_error + ('a \<times> db)) \<Rightarrow> ('p, 'w, storage_error, 'a) dio" where
  "db_call env f s =
     (let s = de_others env s in
      case f (de_now env s) (de_uuid env s) (dm_db s) of
        Inl e \<Rightarrow> (Inl e, s)
      | Inr (x, d) \<Rightarrow> (Inr x, s\<lparr>dm_db := d\<rparr>))"

definition db_read :: "('p, 'g, 'w) daemon_env \<Rightarrow> (db \<Rightarrow> storage_error + 'a) \<Rightarrow> ('p, 'w, storage_error, 'a) dio" where
  "db_read env f = db_call env (\<lambda>_ _ d. map_ok (\<lambda>x. (x, d)) (f d))"

definition db_update :: "('p, 'g, 'w) daemon_env \<Rightarrow> (int \<Rightarrow> db \<Rightarrow> storage_error + db) \<Rightarrow> ('p, 'w, storage_error, unit) dio" where
  "db_update env f = db_call env (\<lambda>now _ d. map_ok (Pair ()) (f now d))"

definition storage :: "('p, 'g, 'w) daemon_env \<Rightarrow> ('p, 'w, storage_error, 'a) dio \<Rightarrow> ('p, 'w, rpc_error, 'a) dio" where
  "storage env m = io_map_err (storage_rpc_error (de_detail env)) m"

definition remote :: "('p, 'w, provider_error, 'a) dio \<Rightarrow> ('p, 'w, rpc_error, 'a) dio" where
  "remote m = io_map_err provider_rpc_error m"

text \<open>Keeping a result to look at it.\<close>

definition io_attempt :: "('w, 'e, 'a) io \<Rightarrow> ('w, 'f, 'e + 'a) io" where
  "io_attempt m w = (case m w of (r, w') \<Rightarrow> (Inr r, w'))"

definition publish :: "('p, 'g, 'w) daemon_env \<Rightarrow> string \<Rightarrow> string \<Rightarrow> nat \<Rightarrow> ('p, 'w, 'e, unit) dio" where
  "publish env topic event_method revision s =
     (Inr (), s\<lparr>dm_events := dm_events s @ [\<lparr>ev_topic = topic, ev_method = event_method,
        ev_params = JObj [(''revision'', JNum (int revision)), (''at'', JNum (de_now env s))]\<rparr>]\<rparr>)"

subsection \<open>Finding a provider\<close>

definition provider_not_active :: "string \<Rightarrow> rpc_error" where
  "provider_not_active account_id = rpc_err (-32006) (''provider is not active for account '' @ account_id)"

definition provider_for_account :: "('p, 'g, 'w) daemon_env \<Rightarrow> string \<Rightarrow> ('p, 'w, rpc_error, 'p) dio" where
  "provider_for_account env account_id =
     io_bind (await_read env (\<lambda>s. map_of (dm_providers s) account_id)) (\<lambda>found.
     io_lift (ok_or found (provider_not_active account_id)))"

definition owner_of :: "(string \<times> 'p) list \<Rightarrow> string \<Rightarrow> (string \<times> 'p) option" where
  "owner_of providers message_id =
     max_by_key (\<lambda>x. length (fst x)) (filter (\<lambda>x. is_normalized_message_id (fst x) message_id) providers)"

definition provider_for_message :: "('p, 'g, 'w) daemon_env \<Rightarrow> string \<Rightarrow> ('p, 'w, rpc_error, 'p) dio" where
  "provider_for_message env message_id =
     io_bind (await_read env (\<lambda>s. owner_of (dm_providers s) message_id)) (\<lambda>found.
     io_lift (ok_or (map_option snd found) (rpc_err (-32006) ''no active provider owns this message'')))"

subsection \<open>Invariants and results\<close>

text \<open>\<open>io_post I m Q\<close>: from a state where \<open>I\<close> holds, \<open>m\<close> leaves a state where \<open>I\<close> holds, and a value it returns
  satisfies \<open>Q\<close>.\<close>

definition io_post :: "('w \<Rightarrow> bool) \<Rightarrow> ('w, 'e, 'a) io \<Rightarrow> ('a \<Rightarrow> bool) \<Rightarrow> bool" where
  "io_post I m Q \<longleftrightarrow> (\<forall>s r s'. I s \<longrightarrow> m s = (r, s') \<longrightarrow> I s' \<and> (\<forall>x. r = Inr x \<longrightarrow> Q x))"

lemma io_postD: "io_post I m Q \<Longrightarrow> I s \<Longrightarrow> m s = (r, s') \<Longrightarrow> I s' \<and> (\<forall>x. r = Inr x \<longrightarrow> Q x)"
  by (simp add: io_post_def)

lemma io_post_weaken: "io_post I m P \<Longrightarrow> (\<And>x. P x \<Longrightarrow> Q x) \<Longrightarrow> io_post I m Q"
  by (simp add: io_post_def)

lemma io_post_return: "Q x \<Longrightarrow> io_post I (io_return x) Q"
  by (auto simp: io_post_def io_return_def)

lemma io_post_error: "io_post I (io_error e) Q"
  by (auto simp: io_post_def io_error_def)

lemma io_post_lift: "(\<And>x. r = Inr x \<Longrightarrow> Q x) \<Longrightarrow> io_post I (io_lift r) Q"
  by (auto simp: io_post_def io_lift_def)

lemma io_post_bind:
  assumes m: "io_post I m P" and f: "\<And>x. P x \<Longrightarrow> io_post I (f x) Q"
  shows "io_post I (io_bind m f) Q"
  unfolding io_post_def
proof (intro allI impI)
  fix s r s' assume s: "I s" and run: "io_bind m f s = (r, s')"
  obtain q v where mv: "m s = (q, v)" by (rule prod.exhaust)
  note v = io_postD [OF m s mv]
  show "I s' \<and> (\<forall>x. r = Inr x \<longrightarrow> Q x)"
  proof (cases q)
    case (Inl e)
    with run mv v show ?thesis by (auto simp: io_bind_def)
  next
    case (Inr x)
    with run mv have "f x v = (r, s')" by (simp add: io_bind_def)
    with io_postD [OF f] v Inr show ?thesis by blast
  qed
qed

lemma io_post_map_err: "io_post I m Q \<Longrightarrow> io_post I (io_map_err g m) Q"
  by (fastforce simp: io_post_def io_map_err_def map_err_def split: prod.splits sum.splits)

lemma io_post_attempt: "io_post I m Q \<Longrightarrow> io_post I (io_attempt m) (\<lambda>r. \<forall>x. r = Inr x \<longrightarrow> Q x)"
  by (fastforce simp: io_post_def io_attempt_def split: prod.splits)

lemma io_post_storage: "io_post I m Q \<Longrightarrow> io_post I (storage env m) Q"
  unfolding storage_def by (rule io_post_map_err)

lemma io_post_remote: "io_post I m Q \<Longrightarrow> io_post I (remote m) Q"
  unfolding remote_def by (rule io_post_map_err)

lemmas post_rules = io_post_return io_post_error io_post_lift io_post_storage io_post_remote

subsection \<open>What the surroundings keep\<close>

text \<open>The values that come in from outside: instants are \<open>DateTime<Utc>\<close> values, tasks and events those of the
  data model.\<close>

definition message_ok :: "message \<Rightarrow> bool" where
  "message_ok m \<longleftrightarrow> valid_ts (ms_timestamp (m_summary m))"

definition page_ok :: "mailbox_sync_page \<Rightarrow> bool" where
  "page_ok p \<longleftrightarrow> (\<forall>s \<in> set (sp_messages p). valid_ts (ms_timestamp s))"

definition agenda_page_ok :: "agenda_page \<Rightarrow> bool" where
  "agenda_page_ok p \<longleftrightarrow> (\<forall>t \<in> set (ap_tasks p). task_ok t) \<and> (\<forall>e \<in> set (ap_events p). event_ok e)"

definition anything :: "'a \<Rightarrow> bool" where
  "anything x \<longleftrightarrow> True"

lemma anything [simp]: "anything x"
  by (simp add: anything_def)

text \<open>Surroundings that keep \<open>I\<close>: every task that runs meanwhile and every outside call leaves it true, and the
  values that come in have their types.\<close>

definition env_meets :: "(('p, 'w) daemon \<Rightarrow> bool) \<Rightarrow> ('p, 'g, 'w) daemon_env \<Rightarrow> bool" where
  "env_meets I env \<longleftrightarrow>
     (\<forall>s. I s \<longrightarrow> I (de_others env s)) \<and> (\<forall>s. valid_ts (de_now env s))
     \<and> (\<forall>x. io_post I (fa_create env x) anything) \<and> (\<forall>x y. io_post I (fa_restore env x y) anything)
     \<and> (\<forall>x y. io_post I (fa_reauthorize env x y) anything) \<and> (\<forall>x. io_post I (fa_remove env x) anything)
     \<and> (\<forall>p. io_post I (pv_list_mailboxes env p) anything) \<and> (\<forall>p q. io_post I (pv_sync_mailbox env p q) page_ok)
     \<and> (\<forall>p i. io_post I (pv_get_message env p i) message_ok) \<and> (\<forall>p a. io_post I (pv_apply_action env p a) anything)
     \<and> (\<forall>p m. io_post I (pv_send env p m) anything) \<and> (\<forall>p i a. io_post I (pv_get_attachment env p i a) anything)
     \<and> io_post I (de_purge env) anything \<and> (\<forall>a. io_post I (ag_discover env a) anything)
     \<and> (\<forall>g t. io_post I (ag_create_task env g t) task_ok) \<and> (\<forall>g t. io_post I (ag_update_task env g t) task_ok)
     \<and> (\<forall>g t b. io_post I (ag_complete_task env g t b) task_ok) \<and> (\<forall>g t. io_post I (ag_delete_task env g t) anything)
     \<and> (\<forall>g e. io_post I (ag_create_event env g e) event_ok) \<and> (\<forall>g e. io_post I (ag_update_event env g e) event_ok)
     \<and> (\<forall>g e. io_post I (ag_delete_event env g e) anything) \<and> (\<forall>g a b. io_post I (ag_sync env g a b) agenda_page_ok)"

definition db_inv :: "(db \<Rightarrow> bool) \<Rightarrow> ('p, 'w) daemon \<Rightarrow> bool" where
  "db_inv J s \<longleftrightarrow> J (dm_db s)"

lemma post_provider:
  assumes "env_meets I env"
  shows "io_post I (pv_list_mailboxes env p) anything" "io_post I (pv_sync_mailbox env p q) page_ok"
    "io_post I (pv_get_message env p i) message_ok" "io_post I (pv_apply_action env p act) anything"
    "io_post I (pv_send env p m) anything" "io_post I (pv_get_attachment env p i at) anything"
    "io_post I (de_purge env) anything" "io_post I (fa_create env x) anything" "io_post I (fa_restore env a j) anything"
    "io_post I (fa_reauthorize env a j) anything" "io_post I (fa_remove env i) anything"
  using assms by (simp_all add: env_meets_def)

lemma post_agenda:
  assumes "env_meets I env"
  shows "io_post I (ag_discover env a) anything" "io_post I (ag_create_task env g t) task_ok"
    "io_post I (ag_update_task env g t) task_ok" "io_post I (ag_complete_task env g t b) task_ok"
    "io_post I (ag_delete_task env g t) anything" "io_post I (ag_create_event env g e) event_ok"
    "io_post I (ag_update_event env g e) event_ok" "io_post I (ag_delete_event env g e) anything"
    "io_post I (ag_sync env g from_ts to_ts) agenda_page_ok"
  using assms by (simp_all add: env_meets_def)

lemma env_others: "env_meets I env \<Longrightarrow> I s \<Longrightarrow> I (de_others env s)"
  by (simp add: env_meets_def)

lemma env_now: "env_meets I env \<Longrightarrow> valid_ts (de_now env s)"
  by (simp add: env_meets_def)

lemma post_await:
  assumes "env_meets I env"
  shows "io_post I (await_read env f) anything" "io_post I (await_lock env) anything"
  using env_others [OF assms] by (simp_all add: io_post_def await_read_def await_lock_def Let_def)

lemma post_await_update:
  assumes "env_meets I env" "\<And>s. I s \<Longrightarrow> I (f s)"
  shows "io_post I (await_update env f) anything"
  using env_others [OF assms(1)] assms(2) by (simp add: io_post_def await_update_def)

lemma post_db_call:
  assumes env: "env_meets (db_inv J) env"
    and f: "\<And>now uuid d x d'. J d \<Longrightarrow> valid_ts now \<Longrightarrow> f now uuid d = Inr (x, d') \<Longrightarrow> J d' \<and> Q x"
  shows "io_post (db_inv J) (db_call env f) Q"
  unfolding io_post_def
proof (intro allI impI)
  fix s r s' assume s: "db_inv J s" and run: "db_call env f s = (r, s')"
  let ?s = "de_others env s"
  have inv: "db_inv J ?s" by (rule env_others [OF env s])
  show "db_inv J s' \<and> (\<forall>x. r = Inr x \<longrightarrow> Q x)"
  proof (cases "f (de_now env ?s) (de_uuid env ?s) (dm_db ?s)")
    case (Inl e)
    with run inv show ?thesis by (auto simp: db_call_def Let_def)
  next
    case (Inr xd)
    obtain x d' where xd: "xd = (x, d')" by (cases xd)
    have "J d' \<and> Q x" by (rule f [OF inv [unfolded db_inv_def] env_now [OF env] Inr [unfolded xd]])
    with run Inr xd show ?thesis by (auto simp: db_call_def Let_def db_inv_def)
  qed
qed

lemma post_db_read:
  assumes "env_meets (db_inv J) env" and f: "\<And>d x. J d \<Longrightarrow> f d = Inr x \<Longrightarrow> Q x"
  shows "io_post (db_inv J) (db_read env f) Q"
  unfolding db_read_def
proof (rule post_db_call [OF assms(1)])
  fix d x d'
  assume "J d" "map_ok (\<lambda>x. (x, d)) (f d) = Inr (x, d')"
  then show "J d' \<and> Q x" using f [of d x] by (cases "f d") auto
qed

lemma post_db_update:
  assumes "env_meets (db_inv J) env" and f: "\<And>now d d'. J d \<Longrightarrow> f now d = Inr d' \<Longrightarrow> J d'"
  shows "io_post (db_inv J) (db_update env f) anything"
  unfolding db_update_def
proof (rule post_db_call [OF assms(1)])
  fix now d x d'
  assume "J d" "map_ok (Pair ()) (f now d) = Inr (x, d')"
  then show "J d' \<and> anything x" using f [of d now d'] by (cases "f now d") auto
qed

lemma post_publish: "io_post (db_inv J) (publish env t m r) anything"
  by (auto simp: io_post_def publish_def db_inv_def)

lemma post_provider_for_account: "env_meets I env \<Longrightarrow> io_post I (provider_for_account env a) anything"
  unfolding provider_for_account_def by (rule io_post_bind [OF post_await(1)]) (auto intro: io_post_lift)

lemma post_provider_for_message: "env_meets I env \<Longrightarrow> io_post I (provider_for_message env a) anything"
  unfolding provider_for_message_def by (rule io_post_bind [OF post_await(1)]) (auto intro: io_post_lift)

subsection \<open>Sample surroundings\<close>

text \<open>One account, a provider that answers nothing, an agenda that answers with fixed values, no other tasks.\<close>

definition sample_remote_task :: task where
  "sample_remote_task = \<lparr>t_id = ''t'', t_title = ''T'', t_description = [], t_done = True, t_due_at = None,
     t_created_at = 5, t_source = ''google_tasks'', t_external_id = ''x'', t_account = ''a''\<rparr>"

definition sample_remote_event :: calendar_event where
  "sample_remote_event = \<lparr>e_id = ''e'', e_external_id = ''y'', e_calendar_id = ''a:agenda-calendar-v1.c'',
     e_calendar_name = ''C'', e_title = ''E'', e_description = [], e_start_at = 1, e_end_at = 2, e_all_day = False,
     e_read_only = False\<rparr>"

definition sample_remote_message :: message where
  "sample_remote_message = \<lparr>m_summary = \<lparr>ms_id = ''a:m'', ms_account_id = ''a'', ms_mailbox_id = Some ''INBOX'',
       ms_thread_id = None, ms_subject = ''S'', ms_author = None, ms_timestamp = 5, ms_read = False, ms_starred = False,
       ms_snippet = [], ms_has_attachments = False, ms_labels = [], ms_provider_data = JNull\<rparr>,
     m_to = [], m_cc = [], m_bcc = [], m_body_text = None, m_body_html = Some ''<p>hi</p>'', m_attachments = []\<rparr>"

definition sample_env :: "(unit, unit, unit) daemon_env" where
  "sample_env = \<lparr>de_others = (\<lambda>s. s), de_now = (\<lambda>_. 1000), de_uuid = (\<lambda>s. show_nat (length (d_operations (dm_db s)))),
     de_detail = (\<lambda>_. ''detail''), de_clean = (\<lambda>h. h), de_json_text = (\<lambda>_. []), de_fts_match = (\<lambda>_ _. Inr {}),
     de_cursor_text = (\<lambda>_. []), de_cursor_parse = (\<lambda>_. None),
     fa_create = (\<lambda>_. io_error (Unsupported ''setup'')), fa_restore = (\<lambda>_ _. io_return ()),
     fa_reauthorize = (\<lambda>_ _. io_return ()), fa_remove = (\<lambda>_. io_return ()),
     pv_account = (\<lambda>_. \<lparr>a_id = ''a'', a_address = ''x@y'', a_display_name = [], a_provider = ''gmail'', a_protocol = ''IMAP'',
        a_host = [], a_unread = 0, a_total = 0, a_enabled = True\<rparr>),
     pv_attachment_retrieval = (\<lambda>_. True), pv_list_mailboxes = (\<lambda>_. io_return []),
     pv_sync_mailbox = (\<lambda>_ _. io_return \<lparr>sp_messages = [], sp_removed_message_ids = [], sp_cursor = None, sp_reset = False\<rparr>),
     pv_get_message = (\<lambda>_ _. io_return sample_remote_message), pv_apply_action = (\<lambda>_ _. io_return ()),
     pv_send = (\<lambda>_ _. io_return ''sent''), pv_get_attachment = (\<lambda>_ _ _. io_error ProviderNotFound),
     pv_same = (\<lambda>_ _. True), de_purge = io_return 0, de_cache_directory = ''/c'', de_write_error = (\<lambda>_. None),
     ag_discover = (\<lambda>_. io_return (Some ())), ag_supports_due_time = (\<lambda>_. False),
     ag_create_task = (\<lambda>_ _. io_return sample_remote_task), ag_update_task = (\<lambda>_ _. io_return sample_remote_task),
     ag_complete_task = (\<lambda>_ _ _. io_return sample_remote_task), ag_delete_task = (\<lambda>_ _. io_return ()),
     ag_create_event = (\<lambda>_ _. io_return sample_remote_event), ag_update_event = (\<lambda>_ _. io_return sample_remote_event),
     ag_delete_event = (\<lambda>_ _. io_return ()), ag_sync = (\<lambda>_ _ _. io_return \<lparr>ap_tasks = [], ap_events = []\<rparr>),
     de_task_json = (\<lambda>t. JObj [(''id'', JStr (t_id t))]), de_event_json = (\<lambda>e. JObj [(''id'', JStr (e_id e))]),
     de_json_task = (\<lambda>_. Some sample_remote_task), de_json_event = (\<lambda>_. Some sample_remote_event),
     de_avatars = sample_avatar_env\<rparr>"

definition sample_daemon :: "db \<Rightarrow> (unit, unit) daemon" where
  "sample_daemon d = \<lparr>dm_db = d, dm_events = [], dm_providers = [(''a'', ())], dm_syncing = {}, dm_removed = {},
     dm_attachments = Map.empty, dm_avatars = sample_avatar_world,
     dm_tasks = [], dm_shutdown = False, dm_world = ()\<rparr>"

lemma sample_env_meets: "env_meets I sample_env"
  unfolding env_meets_def sample_env_def
  by (simp add: io_post_def io_return_def io_error_def page_ok_def message_ok_def agenda_page_ok_def task_ok_def event_ok_def
      sample_remote_task_def sample_remote_event_def sample_remote_message_def valid_ts_def ts_min_def ts_max_def)

end
