(* ===== verification/Daemon_Mail.thy ===== *)
theory Daemon_Mail
  imports Storage_Bodies Daemon_State
begin

section \<open>The daemon's mail requests\<close>

text \<open>
  The arms of \<open>dispatch_inner\<close> in \<open>daemon.rs\<close> that read the cache, open, change and send mail, download
  attachments and keep drafts. A handler takes the decoded parameters and returns a \<open>reply\<close>, one constructor
  for each shape of JSON the daemon answers with.
\<close>

datatype reply =
    Pong
  | TopicsReply "string set"
  | SnapshotReply dashboard_snapshot
  | AccountsReply "account list"
  | AccountAdded string nat bool
  | RevisionReply nat
  | AuthReply string
  | MailboxesReply "mailbox list"
  | PageReply message_page
  | MessageReply message
  | ThreadReply thread_conversation
  | ActionReply nat string
  | SentReply string string nat string
  | AttachmentReply attachment_downloaded
  | AvatarReply avatar_fetched
  | DraftSaved string int outgoing_message nat
  | DraftsReply "draft_record list"
  | DraftReply draft_record
  | TasksReply "task list"
  | TaskReply task nat
  | EventsReply "calendar_event list"
  | EventReply calendar_event nat
  | AgendaSynced nat "json list"
  | SyncStarted bool nat

subsection \<open>Reading the cache\<close>

definition handle_dashboard_snapshot :: "('p, 'g, 'w) daemon_env \<Rightarrow> ('p, 'w, rpc_error, reply) dio" where
  "handle_dashboard_snapshot env =
     io_bind (storage env (db_call env (\<lambda>now _ d. map_ok (\<lambda>x. (x, d))
         (dashboard_snapshot_of (de_fts_match env) (de_cursor_text env) (de_cursor_parse env) now d)))) (\<lambda>x.
     io_return (SnapshotReply x))"

definition handle_accounts_list :: "('p, 'g, 'w) daemon_env \<Rightarrow> ('p, 'w, rpc_error, reply) dio" where
  "handle_accounts_list env = io_bind (storage env (db_read env list_accounts)) (\<lambda>x. io_return (AccountsReply x))"

definition handle_mailboxes_list :: "('p, 'g, 'w) daemon_env \<Rightarrow> string \<Rightarrow> ('p, 'w, rpc_error, reply) dio" where
  "handle_mailboxes_list env account_id =
     io_bind (storage env (db_read env (list_mailboxes account_id))) (\<lambda>x. io_return (MailboxesReply x))"

definition cached_page :: "('p, 'g, 'w) daemon_env \<Rightarrow> message_query \<Rightarrow> ('p, 'w, storage_error, message_page) dio" where
  "cached_page env query =
     db_read env (list_messages (de_fts_match env) (de_cursor_text env) (de_cursor_parse env) query)"

definition handle_mail_list :: "('p, 'g, 'w) daemon_env \<Rightarrow> message_query \<Rightarrow> ('p, 'w, rpc_error, reply) dio" where
  "handle_mail_list env query = io_bind (storage env (cached_page env query)) (\<lambda>x. io_return (PageReply x))"

definition handle_thread_get :: "('p, 'g, 'w) daemon_env \<Rightarrow> string \<Rightarrow> ('p, 'w, rpc_error, reply) dio" where
  "handle_thread_get env message_id =
     io_bind (storage env (db_read env (get_thread (de_json_text env) message_id))) (\<lambda>x. io_return (ThreadReply x))"

subsection \<open>Opening a message\<close>

definition refetch :: "('p, 'g, 'w) daemon_env \<Rightarrow> string \<Rightarrow> ('p, 'w, rpc_error, message) dio" where
  "refetch env message_id =
     io_bind (provider_for_message env message_id) (\<lambda>p. remote (pv_get_message env p message_id))"

definition store_fetched :: "('p, 'g, 'w) daemon_env \<Rightarrow> message \<Rightarrow> ('p, 'w, rpc_error, reply) dio" where
  "store_fetched env fetched =
     (let msg = sanitize_message_html (de_clean env) fetched in
      io_bind (storage env (db_call env (\<lambda>now _. upsert_messages now [msg]))) (\<lambda>_.
      io_return (MessageReply msg)))"

text \<open>The answer when the provider fails: an old body cleaned again, when there is one.\<close>

definition stale_reply :: "('p, 'g, 'w) daemon_env \<Rightarrow> (message \<times> bool) option \<Rightarrow> rpc_error \<Rightarrow> ('p, 'w, rpc_error, reply) dio" where
  "stale_reply env cached err =
     (case cached of
        Some (msg, False) \<Rightarrow>
          if m_body_html msg \<noteq> None then io_return (MessageReply (sanitize_message_html (de_clean env) msg))
          else io_error err
      | _ \<Rightarrow> io_error err)"

definition handle_mail_get :: "('p, 'g, 'w) daemon_env \<Rightarrow> string \<Rightarrow> ('p, 'w, rpc_error, reply) dio" where
  "handle_mail_get env message_id =
     io_bind (storage env (db_read env (get_cached_message message_id))) (\<lambda>cached.
     case cached of
       Some (msg, True) \<Rightarrow> io_return (MessageReply msg)
     | _ \<Rightarrow>
         io_bind (io_attempt (refetch env message_id)) (\<lambda>refreshed.
         case refreshed of
           Inr fetched \<Rightarrow> store_fetched env fetched
         | Inl err \<Rightarrow> stale_reply env cached err))"

subsection \<open>Changing mail\<close>

text \<open>The groups in the order in which the map of groups is iterated; the model takes the order of first use.\<close>

fun group_by_owner ::
    "(string \<times> 'p) list \<Rightarrow> string list \<Rightarrow> (string \<times> string list) list \<Rightarrow> provider_error + (string \<times> string list) list" where
  "group_by_owner providers [] grouped = Inr grouped"
| "group_by_owner providers (i # ids) grouped =
     (case owner_of providers i of
        None \<Rightarrow> Inl (ProviderOther (''no provider owns message '' @ i))
      | Some (account_id, _) \<Rightarrow>
          group_by_owner providers ids
            (assoc_set account_id ((case map_of grouped account_id of Some xs \<Rightarrow> xs | None \<Rightarrow> []) @ [i]) grouped))"

fun apply_work :: "('p, 'g, 'w) daemon_env \<Rightarrow> ('p \<times> mail_action) list \<Rightarrow> ('p, 'w, provider_error, unit) dio" where
  "apply_work env [] = io_return ()"
| "apply_work env ((p, a) # work) = io_bind (pv_apply_action env p a) (\<lambda>_. apply_work env work)"

definition apply_provider_action :: "('p, 'g, 'w) daemon_env \<Rightarrow> mail_action \<Rightarrow> ('p, 'w, provider_error, unit) dio" where
  "apply_provider_action env action =
     io_bind (await_read env dm_providers) (\<lambda>providers.
     io_bind (io_lift (group_by_owner providers (action_message_ids action) [])) (\<lambda>grouped.
     apply_work env (map (\<lambda>(account_id, ids). (the (map_of providers account_id), action_with_ids action ids)) grouped)))"

definition outcome_text :: "provider_error + 'a \<Rightarrow> string + unit" where
  "outcome_text r = (case r of Inl e \<Rightarrow> Inl (provider_error_text e) | Inr _ \<Rightarrow> Inr ())"

definition handle_mail_action ::
    "('p, 'g, 'w) daemon_env \<Rightarrow> (nat \<Rightarrow> int) \<Rightarrow> mail_action \<Rightarrow> ('p, 'w, rpc_error, reply) dio" where
  "handle_mail_action env clk action =
     io_bind (storage env (db_call env (\<lambda>now uuid. apply_mail_action uuid now action))) (\<lambda>(operation_id, _).
     io_bind (io_attempt (apply_provider_action env action)) (\<lambda>provider_result.
     io_bind (storage env (db_call env (\<lambda>now _. finish_mail_action now clk operation_id action (outcome_text provider_result)))) (\<lambda>revision.
     io_bind (remote (io_lift provider_result)) (\<lambda>_.
     io_bind (publish env ''mail'' ''mail.changed'' revision) (\<lambda>_.
     io_return (ActionReply revision operation_id))))))"

subsection \<open>Sending\<close>

definition draft_cleanup ::
    "('p, 'g, 'w) daemon_env \<Rightarrow> string option \<Rightarrow> nat \<Rightarrow> ('p, 'w, rpc_error, string \<times> nat) dio" where
  "draft_cleanup env draft_id revision =
     (case draft_id of
        None \<Rightarrow> io_return (''notRequested'', revision)
      | Some i \<Rightarrow>
          io_bind (io_attempt (db_call env (\<lambda>_ _. delete_draft i))) (\<lambda>r.
          case r of
            Inr cleanup_revision \<Rightarrow> io_return (''deleted'', cleanup_revision)
          | Inl NotFound \<Rightarrow> io_return (''notFound'', revision)
          | Inl _ \<Rightarrow> io_return (''failed'', revision)))"

definition handle_mail_send :: "('p, 'g, 'w) daemon_env \<Rightarrow> outgoing_message \<Rightarrow> ('p, 'w, rpc_error, reply) dio" where
  "handle_mail_send env msg =
     io_bind (storage env (db_call env (\<lambda>now uuid. queue_outgoing uuid now msg))) (\<lambda>(operation_id, revision).
     io_bind (provider_for_account env (o_account_id msg)) (\<lambda>p.
     io_bind (io_attempt (pv_send env p msg)) (\<lambda>send_result.
     io_bind (storage env (db_update env (\<lambda>now. finish_operation now operation_id (outcome_text send_result)))) (\<lambda>_.
     io_bind (remote (io_lift send_result)) (\<lambda>message_id.
     io_bind (draft_cleanup env (o_draft_id msg) revision) (\<lambda>(cleanup, revision).
     io_bind (publish env ''mail'' ''mail.changed'' revision) (\<lambda>_.
     io_return (SentReply operation_id message_id revision cleanup))))))))"

subsection \<open>Attachments\<close>

definition still_active :: "('p, 'g, 'w) daemon_env \<Rightarrow> string \<Rightarrow> 'p \<Rightarrow> ('p, 'w) daemon \<Rightarrow> bool" where
  "still_active env account_id p s =
     (case map_of (dm_providers s) account_id of None \<Rightarrow> False | Some active \<Rightarrow> pv_same env active p)"

definition store_attachment :: "('p, 'g, 'w) daemon_env \<Rightarrow> attachment_data \<Rightarrow> ('p, 'w, rpc_error, attachment_downloaded) dio" where
  "store_attachment env att s =
     (case cache_attachment (de_cache_directory env) (de_uuid env s) (de_write_error env s) att (dm_attachments s) of
        (r, files) \<Rightarrow> (r, s\<lparr>dm_attachments := files\<rparr>))"

definition handle_attachment_download :: "('p, 'g, 'w) daemon_env \<Rightarrow> string \<Rightarrow> string \<Rightarrow> ('p, 'w, rpc_error, reply) dio" where
  "handle_attachment_download env message_id attachment_id =
     io_bind (io_lift (validate_opaque_id message_id ''messageId'')) (\<lambda>_.
     io_bind (io_lift (validate_opaque_id attachment_id ''attachmentId'')) (\<lambda>_.
     io_bind (provider_for_message env message_id) (\<lambda>p.
     let account_id = a_id (pv_account env p) in
     io_bind (io_lift (require (pv_attachment_retrieval env p)
        (rpc_err (-32005) ''provider does not support attachment retrieval''))) (\<lambda>_.
     io_bind (remote (pv_get_attachment env p message_id attachment_id)) (\<lambda>att.
     io_bind (await_lock env) (\<lambda>_.
     io_bind (await_read env (still_active env account_id p)) (\<lambda>active.
     io_bind (await_read env (\<lambda>s. account_id \<in> dm_removed s)) (\<lambda>removed.
     if removed \<or> \<not> active
     then io_error (rpc_err (-32004) ''account was removed before attachment download completed'')
     else io_bind (store_attachment env att) (\<lambda>x. io_return (AttachmentReply x))))))))))"

subsection \<open>Drafts\<close>

definition handle_draft_save ::
    "('p, 'g, 'w) daemon_env \<Rightarrow> string option \<Rightarrow> outgoing_message \<Rightarrow> ('p, 'w, rpc_error, reply) dio" where
  "handle_draft_save env draft_id msg =
     io_bind (storage env (db_call env (\<lambda>now uuid. save_draft uuid now draft_id msg))) (\<lambda>((i, updated), revision).
     io_bind (publish env ''mail'' ''mail.changed'' revision) (\<lambda>_.
     io_return (DraftSaved i updated msg revision)))"

definition handle_draft_list :: "('p, 'g, 'w) daemon_env \<Rightarrow> string option \<Rightarrow> ('p, 'w, rpc_error, reply) dio" where
  "handle_draft_list env account_id =
     io_bind (storage env (db_read env (list_drafts account_id))) (\<lambda>x. io_return (DraftsReply x))"

definition handle_draft_get :: "('p, 'g, 'w) daemon_env \<Rightarrow> string \<Rightarrow> ('p, 'w, rpc_error, reply) dio" where
  "handle_draft_get env draft_id =
     io_bind (storage env (db_read env (get_draft draft_id))) (\<lambda>x. io_return (DraftReply x))"

definition handle_draft_delete :: "('p, 'g, 'w) daemon_env \<Rightarrow> string \<Rightarrow> ('p, 'w, rpc_error, reply) dio" where
  "handle_draft_delete env draft_id =
     io_bind (storage env (db_call env (\<lambda>_ _. delete_draft draft_id))) (\<lambda>revision.
     io_bind (publish env ''mail'' ''mail.changed'' revision) (\<lambda>_.
     io_return (RevisionReply revision)))"

subsection \<open>What the handlers keep\<close>

text \<open>A reply with a message carries trusted HTML.\<close>

definition reply_trusted :: "(string \<Rightarrow> string) \<Rightarrow> reply \<Rightarrow> bool" where
  "reply_trusted clean r = (case r of MessageReply m \<Rightarrow> html_trusted clean (m_body_html m) | _ \<Rightarrow> True)"

lemma reply_trusted_simps [simp]:
  "reply_trusted c (MessageReply m) = html_trusted c (m_body_html m)"
  "reply_trusted c (SnapshotReply x1)" "reply_trusted c (AccountsReply x2)" "reply_trusted c (MailboxesReply x3)"
  "reply_trusted c (PageReply x4)" "reply_trusted c (ThreadReply x5)" "reply_trusted c (ActionReply x6 x7)"
  "reply_trusted c (SentReply x8 x9 x10 x11)" "reply_trusted c (AttachmentReply x12)" "reply_trusted c (RevisionReply x13)"
  "reply_trusted c (DraftSaved x14 x15 x16 x17)" "reply_trusted c (DraftsReply x18)" "reply_trusted c (DraftReply x19)"
  "reply_trusted c Pong" "reply_trusted c (TopicsReply x20)" "reply_trusted c (AccountAdded x21 x22 x23)"
  "reply_trusted c (AuthReply x24)" "reply_trusted c (TasksReply x25)" "reply_trusted c (TaskReply x26 x27)"
  "reply_trusted c (EventsReply x28)" "reply_trusted c (EventReply x29 x30)" "reply_trusted c (AgendaSynced x31 x32)"
  "reply_trusted c (SyncStarted x33 x34)" "reply_trusted c (AvatarReply x35)"
  by (simp_all add: reply_trusted_def)

definition handler_ok :: "('p, 'g, 'w) daemon_env \<Rightarrow> ('p, 'w, rpc_error, reply) dio \<Rightarrow> bool" where
  "handler_ok env m \<longleftrightarrow> io_post (db_inv (store_ok (de_clean env))) m (reply_trusted (de_clean env))"

definition env_good :: "('p, 'g, 'w) daemon_env \<Rightarrow> bool" where
  "env_good env \<longleftrightarrow> env_meets (db_inv (store_ok (de_clean env))) env"

lemma post_read:
  "env_good env \<Longrightarrow> io_post (db_inv (store_ok (de_clean env))) (storage env (db_read env f)) anything"
  unfolding env_good_def by (intro io_post_storage post_db_read) simp_all

text \<open>A database call is a job.\<close>

lemma post_job:
  assumes env: "env_good env"
    and job: "\<And>now uuid d x d'. valid_ts now \<Longrightarrow> f now uuid d = Inr (x, d') \<Longrightarrow>
      \<exists>j. exec_job j d = Inr d' \<and> job_ok j \<and> job_trusted (de_clean env) j"
  shows "io_post (db_inv (store_ok (de_clean env))) (db_call env f) anything"
proof (rule post_db_call [OF env [unfolded env_good_def]])
  fix now uuid d x d'
  assume d: "store_ok (de_clean env) d" and "valid_ts now" "f now uuid d = Inr (x, d')"
  with job obtain j where "exec_job j d = Inr d'" "job_ok j" "job_trusted (de_clean env) j" by blast
  with exec_store_ok [OF d] show "store_ok (de_clean env) d' \<and> anything x" by simp
qed

lemma post_update_job:
  assumes env: "env_good env"
    and job: "\<And>now d d'. f now d = Inr d' \<Longrightarrow> \<exists>j. exec_job j d = Inr d' \<and> job_ok j \<and> job_trusted (de_clean env) j"
  shows "io_post (db_inv (store_ok (de_clean env))) (db_update env f) anything"
proof (rule post_db_update [OF env [unfolded env_good_def]])
  fix now d d'
  assume d: "store_ok (de_clean env) d" and "f now d = Inr d'"
  with job obtain j where "exec_job j d = Inr d'" "job_ok j" "job_trusted (de_clean env) j" by blast
  with exec_store_ok [OF d] show "store_ok (de_clean env) d'" by simp
qed

lemma handler_read: "env_good env \<Longrightarrow> (\<And>x. reply_trusted (de_clean env) (g x)) \<Longrightarrow>
    handler_ok env (io_bind (storage env (db_read env f)) (\<lambda>x. io_return (g x)))"
  unfolding handler_ok_def by (rule io_post_bind [OF post_read]) (auto intro: io_post_return)

lemma read_handlers_ok:
  assumes "env_good env"
  shows "handler_ok env (handle_accounts_list env)" "handler_ok env (handle_mailboxes_list env a)"
    "handler_ok env (handle_mail_list env q)" "handler_ok env (handle_thread_get env i)"
    "handler_ok env (handle_draft_list env o1)" "handler_ok env (handle_draft_get env i)"
  unfolding handle_accounts_list_def handle_mailboxes_list_def handle_mail_list_def handle_thread_get_def
    handle_draft_list_def handle_draft_get_def cached_page_def
  by (rule handler_read [OF assms]; simp)+

lemma snapshot_ok: "env_good env \<Longrightarrow> handler_ok env (handle_dashboard_snapshot env)"
  unfolding handler_ok_def handle_dashboard_snapshot_def
  by (rule io_post_bind [where P = anything]) (auto simp: env_good_def result_simps intro!: io_post_storage post_db_call io_post_return)

lemma post_refetch:
  assumes "env_meets I env"
  shows "io_post I (refetch env i) message_ok"
  unfolding refetch_def by (intro io_post_bind [OF post_provider_for_message [OF assms]] io_post_remote post_provider(3) [OF assms])

lemma store_fetched_ok:
  assumes env: "env_good env" and "message_ok m"
  shows "handler_ok env (store_fetched env m)"
  unfolding handler_ok_def store_fetched_def Let_def
proof (rule io_post_bind)
  let ?m = "sanitize_message_html (de_clean env) m"
  show "io_post (db_inv (store_ok (de_clean env))) (storage env (db_call env (\<lambda>now _. upsert_messages now [?m]))) anything"
  proof (rule io_post_storage, rule post_job [OF env])
    fix now uuid d x d'
    assume "upsert_messages now [?m] d = Inr (x, d')"
    then show "\<exists>j. exec_job j d = Inr d' \<and> job_ok j \<and> job_trusted (de_clean env) j"
      using assms(2) sanitized_trusted [of "de_clean env" m]
      by (intro exI [of _ "UpsertMessages now [?m]"]) (simp add: message_ok_def sanitize_message_html_def)
  qed
qed (simp add: io_post_return sanitized_trusted)

lemma stale_reply_ok: "handler_ok env (stale_reply env cached err)"
  unfolding handler_ok_def stale_reply_def
  by (auto simp: sanitized_trusted intro!: io_post_return io_post_error split: option.splits prod.splits bool.splits)

lemma mail_get_ok:
  assumes env: "env_good env"
  shows "handler_ok env (handle_mail_get env i)"
  unfolding handler_ok_def handle_mail_get_def
proof (rule io_post_bind)
  let ?c = "de_clean env"
  note meets = env [unfolded env_good_def]
  show "io_post (db_inv (store_ok ?c)) (storage env (db_read env (get_cached_message i)))
      (\<lambda>r. \<forall>m. r = Some (m, True) \<longrightarrow> html_trusted ?c (m_body_html m))"
    by (intro io_post_storage post_db_read [OF meets]) (auto simp: store_ok_def dest: cached_body_trusted)
  fix cached :: "(message \<times> bool) option"
  assume cached: "\<forall>m. cached = Some (m, True) \<longrightarrow> html_trusted ?c (m_body_html m)"
  have "io_post (db_inv (store_ok ?c)) (case r of Inr fetched \<Rightarrow> store_fetched env fetched | Inl err \<Rightarrow> stale_reply env cached err)
      (reply_trusted ?c)" if "\<forall>m. r = Inr m \<longrightarrow> message_ok m" for r
    using that stale_reply_ok [of env cached] store_fetched_ok [OF env] by (cases r) (auto simp: handler_ok_def)
  then have "io_post (db_inv (store_ok ?c)) (io_bind (io_attempt (refetch env i)) (\<lambda>refreshed.
         case refreshed of Inr fetched \<Rightarrow> store_fetched env fetched | Inl err \<Rightarrow> stale_reply env cached err)) (reply_trusted ?c)"
    by (rule io_post_bind [OF io_post_attempt [OF post_refetch [OF meets]]])
  with cached show "io_post (db_inv (store_ok ?c)) (case cached of Some (msg, True) \<Rightarrow> io_return (MessageReply msg)
       | _ \<Rightarrow> io_bind (io_attempt (refetch env i)) (\<lambda>refreshed.
         case refreshed of Inr fetched \<Rightarrow> store_fetched env fetched | Inl err \<Rightarrow> stale_reply env cached err)) (reply_trusted ?c)"
    by (auto intro!: io_post_return split: option.splits prod.splits bool.splits)
qed

subsection \<open>The other mail handlers\<close>

lemma post_apply_work: "env_meets I env \<Longrightarrow> io_post I (apply_work env work) anything"
  by (induction work) (auto intro!: io_post_return io_post_bind [OF post_provider(4)])

lemma post_apply_provider_action:
  assumes "env_meets I env"
  shows "io_post I (apply_provider_action env action) anything"
  unfolding apply_provider_action_def
  by (intro io_post_bind [OF post_await(1) [OF assms]] io_post_bind [OF io_post_lift [where Q = anything]] post_apply_work [OF assms]) simp

lemma mail_action_ok:
  assumes env: "env_good env"
  shows "handler_ok env (handle_mail_action env clk action)"
proof -
  note meets = env [unfolded env_good_def]
  let ?I = "db_inv (store_ok (de_clean env))"
  have queue: "io_post ?I (storage env (db_call env (\<lambda>now uuid. apply_mail_action uuid now action))) anything"
  proof (rule io_post_storage, rule post_job [OF env])
    fix now uuid d x d' assume "apply_mail_action uuid now action d = Inr (x, d')"
    then show "\<exists>j. exec_job j d = Inr d' \<and> job_ok j \<and> job_trusted (de_clean env) j"
      by (intro exI [of _ "ApplyMailAction uuid now action"]) simp
  qed
  have finish: "io_post ?I (storage env (db_call env (\<lambda>now _. finish_mail_action now clk i action res))) anything" for i res
  proof (rule io_post_storage, rule post_job [OF env])
    fix now uuid d x d' assume "finish_mail_action now clk i action res d = Inr (x, d')"
    then show "\<exists>j. exec_job j d = Inr d' \<and> job_ok j \<and> job_trusted (de_clean env) j"
      by (intro exI [of _ "FinishMailAction now clk i action res"]) simp
  qed
  show ?thesis
    unfolding handler_ok_def handle_mail_action_def
    by (rule io_post_bind [OF queue])
      (auto intro!: io_post_bind [OF io_post_attempt [OF post_apply_provider_action [OF meets]]] io_post_bind [OF finish]
        io_post_bind [OF io_post_remote [OF io_post_lift [where Q = anything]]] io_post_bind [OF post_publish] io_post_return)
qed

lemma post_draft_cleanup:
  assumes env: "env_good env"
  shows "io_post (db_inv (store_ok (de_clean env))) (draft_cleanup env draft_id revision) anything"
proof -
  have "io_post (db_inv (store_ok (de_clean env))) (db_call env (\<lambda>_ _. delete_draft i)) anything" for i
  proof (rule post_job [OF env])
    fix d x d' assume "delete_draft i d = Inr (x, d')"
    then show "\<exists>j. exec_job j d = Inr d' \<and> job_ok j \<and> job_trusted (de_clean env) j"
      by (intro exI [of _ "DeleteDraft i"]) simp
  qed
  then show ?thesis
    unfolding draft_cleanup_def
    by (auto intro!: io_post_return io_post_bind [OF io_post_attempt] split: option.splits sum.splits storage_error.splits)
qed

lemma mail_send_ok:
  assumes env: "env_good env"
  shows "handler_ok env (handle_mail_send env msg)"
proof -
  note meets = env [unfolded env_good_def]
  let ?I = "db_inv (store_ok (de_clean env))"
  have queue: "io_post ?I (storage env (db_call env (\<lambda>now uuid. queue_outgoing uuid now msg))) anything"
  proof (rule io_post_storage, rule post_job [OF env])
    fix now uuid d x d' assume "queue_outgoing uuid now msg d = Inr (x, d')"
    then show "\<exists>j. exec_job j d = Inr d' \<and> job_ok j \<and> job_trusted (de_clean env) j"
      by (intro exI [of _ "QueueOutgoing uuid now msg"]) simp
  qed
  have finish: "io_post ?I (storage env (db_update env (\<lambda>now. finish_operation now i res))) anything" for i res
  proof (rule io_post_storage, rule post_update_job [OF env])
    fix now d d' assume "finish_operation now i res d = Inr d'"
    then show "\<exists>j. exec_job j d = Inr d' \<and> job_ok j \<and> job_trusted (de_clean env) j"
      by (intro exI [of _ "FinishOperation now i res"]) simp
  qed
  show ?thesis
    unfolding handler_ok_def handle_mail_send_def
    by (rule io_post_bind [OF queue])
      (auto intro!: io_post_bind [OF post_provider_for_account [OF meets]] io_post_bind [OF io_post_attempt [OF post_provider(5) [OF meets]]]
        io_post_bind [OF finish] io_post_bind [OF io_post_remote [OF io_post_lift [where Q = anything]]]
        io_post_bind [OF post_draft_cleanup [OF env]] io_post_bind [OF post_publish] io_post_return)
qed

lemma attachment_download_ok:
  assumes env: "env_good env"
  shows "handler_ok env (handle_attachment_download env i a)"
proof -
  note meets = env [unfolded env_good_def]
  have store: "io_post (db_inv J) (store_attachment env att) anything" for J att
    by (auto simp: io_post_def store_attachment_def db_inv_def split: prod.splits)
  show ?thesis
    unfolding handler_ok_def handle_attachment_download_def Let_def
    by (auto intro!: io_post_bind [OF io_post_lift [where Q = anything]] io_post_bind [OF post_provider_for_message [OF meets]]
        io_post_bind [OF io_post_remote [OF post_provider(6) [OF meets]]] io_post_bind [OF post_await(2) [OF meets]]
        io_post_bind [OF post_await(1) [OF meets]] io_post_error io_post_bind [OF store] io_post_return)
qed

lemma draft_save_ok:
  assumes env: "env_good env"
  shows "handler_ok env (handle_draft_save env draft_id msg)"
proof -
  have save: "io_post (db_inv (store_ok (de_clean env)))
      (storage env (db_call env (\<lambda>now uuid. save_draft uuid now draft_id msg))) anything"
  proof (rule io_post_storage, rule post_job [OF env])
    fix now :: int and uuid d x d' assume "valid_ts now" "save_draft uuid now draft_id msg d = Inr (x, d')"
    then show "\<exists>j. exec_job j d = Inr d' \<and> job_ok j \<and> job_trusted (de_clean env) j"
      by (intro exI [of _ "SaveDraft uuid now draft_id msg"]) simp
  qed
  show ?thesis
    unfolding handler_ok_def handle_draft_save_def
    by (rule io_post_bind [OF save]) (auto intro!: io_post_bind [OF post_publish] io_post_return)
qed

lemma draft_delete_ok:
  assumes env: "env_good env"
  shows "handler_ok env (handle_draft_delete env i)"
proof -
  have del: "io_post (db_inv (store_ok (de_clean env))) (storage env (db_call env (\<lambda>_ _. delete_draft i))) anything"
  proof (rule io_post_storage, rule post_job [OF env])
    fix d x d' assume "delete_draft i d = Inr (x, d')"
    then show "\<exists>j. exec_job j d = Inr d' \<and> job_ok j \<and> job_trusted (de_clean env) j"
      by (intro exI [of _ "DeleteDraft i"]) simp
  qed
  show ?thesis
    unfolding handler_ok_def handle_draft_delete_def
    by (rule io_post_bind [OF del]) (auto intro!: io_post_bind [OF post_publish] io_post_return)
qed

end
