(* ===== verification/Daemon_Agenda.thy ===== *)
theory Daemon_Agenda
  imports Daemon_Mail
begin

section \<open>The daemon's tasks and calendar\<close>

text \<open>
  The arms of \<open>dispatch_inner\<close> in \<open>daemon.rs\<close> that change tasks and events, and the recovery of operations that
  an earlier run left pending. A change of a remote item is queued in the operation log before the provider is
  asked and committed with the local change in one transaction afterwards; the recovery asks again for the
  changes that may be asked twice.
\<close>

subsection \<open>Accounts and destinations\<close>

definition agenda_provider_for_account :: "('p, 'g, 'w) daemon_env \<Rightarrow> string \<Rightarrow> ('p, 'w, rpc_error, 'g) dio" where
  "agenda_provider_for_account env account_id =
     io_bind (storage env (db_read env list_accounts)) (\<lambda>accounts.
     io_bind (io_lift (ok_or (find (\<lambda>a. a_id a = account_id) accounts) (invalid_params ''unknown agenda account''))) (\<lambda>account.
     io_bind (remote (ag_discover env account)) (\<lambda>found.
     io_lift (ok_or found (rpc_err (-32007) ''this account does not support QuickMail calendar or tasks'')))))"

definition remote_event_create_account :: "('p, 'g, 'w) daemon_env \<Rightarrow> string \<Rightarrow> ('p, 'w, rpc_error, string option) dio" where
  "remote_event_create_account env calendar_id =
     (if calendar_id = [] \<or> calendar_id = ''local'' then io_return None
      else io_bind (storage env (db_read env list_accounts)) (\<lambda>accounts.
           io_bind (io_lift (ok_or (find (\<lambda>a. a_id a = calendar_id \<and> agenda_account_supported a) accounts)
              (invalid_params ''unknown remote calendar destination''))) (\<lambda>account.
           io_return (Some (a_id account)))))"

definition owns_calendar :: "string \<Rightarrow> account \<Rightarrow> bool" where
  "owns_calendar calendar_id account \<longleftrightarrow> agenda_account_supported account
     \<and> (case strip_prefix calendar_id (a_id account) of
          None \<Rightarrow> False | Some rest \<Rightarrow> starts_with rest '':agenda-calendar-v1.'')"

definition remote_event_account :: "('p, 'g, 'w) daemon_env \<Rightarrow> string \<Rightarrow> ('p, 'w, rpc_error, string option) dio" where
  "remote_event_account env calendar_id =
     io_bind (storage env (db_read env list_accounts)) (\<lambda>accounts.
     io_return (map_option a_id (max_by_key (\<lambda>a. length (a_id a)) (filter (owns_calendar calendar_id) accounts))))"

subsection \<open>A queued change\<close>

definition may_retry :: "provider_error \<Rightarrow> bool" where
  "may_retry e = (case e of Authentication _ \<Rightarrow> True | Temporary _ \<Rightarrow> True | _ \<Rightarrow> False)"

definition record_agenda_operation_error ::
    "('p, 'g, 'w) daemon_env \<Rightarrow> string \<Rightarrow> provider_error \<Rightarrow> bool \<Rightarrow> ('p, 'w, rpc_error, unit) dio" where
  "record_agenda_operation_error env operation_id err safe_to_retry =
     (if safe_to_retry \<and> may_retry err
      then storage env (db_update env (\<lambda>now. defer_operation now operation_id (provider_error_text err)))
      else storage env (db_update env (\<lambda>now. finish_operation now operation_id (Inl (provider_error_text err)))))"

text \<open>The steps that every remote change takes: queue it, ask the provider, note a failure.\<close>

definition queued_change ::
    "('p, 'g, 'w) daemon_env \<Rightarrow> string \<Rightarrow> string \<Rightarrow> json \<Rightarrow> bool \<Rightarrow> ('p, 'w, provider_error, 'a) dio
     \<Rightarrow> ('p, 'w, rpc_error, string \<times> 'a) dio" where
  "queued_change env kind account_id payload safe_to_retry call =
     io_bind (storage env (db_call env (\<lambda>now uuid. queue_agenda_operation uuid now kind account_id payload))) (\<lambda>(operation_id, _).
     io_bind (io_attempt call) (\<lambda>r.
     case r of
       Inr x \<Rightarrow> io_return (operation_id, x)
     | Inl err \<Rightarrow>
         io_bind (record_agenda_operation_error env operation_id err safe_to_retry) (\<lambda>_.
         io_error (provider_rpc_error err))))"

text \<open>A deletion is also done when the provider no longer knows the item.\<close>

definition deletion :: "('p, 'w, provider_error, unit) dio \<Rightarrow> ('p, 'w, provider_error, unit) dio" where
  "deletion call =
     io_bind (io_attempt call) (\<lambda>r. case r of
         Inr _ \<Rightarrow> io_return () | Inl ProviderNotFound \<Rightarrow> io_return () | Inl err \<Rightarrow> io_error err)"

definition agenda_changed :: "('p, 'g, 'w) daemon_env \<Rightarrow> nat \<Rightarrow> reply \<Rightarrow> ('p, 'w, rpc_error, reply) dio" where
  "agenda_changed env revision answer =
     io_bind (publish env ''agenda'' ''agenda.changed'' revision) (\<lambda>_. io_return answer)"

definition fresh_id :: "('p, 'g, 'w) daemon_env \<Rightarrow> string \<Rightarrow> ('p, 'w, 'e, string) dio" where
  "fresh_id env i s = (Inr (if i = [] then de_uuid env s else i), s)"

subsection \<open>Tasks\<close>

definition handle_task_list :: "('p, 'g, 'w) daemon_env \<Rightarrow> bool \<Rightarrow> ('p, 'w, rpc_error, reply) dio" where
  "handle_task_list env include_done =
     io_bind (storage env (db_read env (list_tasks include_done))) (\<lambda>x. io_return (TasksReply x))"

definition handle_task_create :: "('p, 'g, 'w) daemon_env \<Rightarrow> task \<Rightarrow> ('p, 'w, rpc_error, reply) dio" where
  "handle_task_create env requested =
     io_bind (await_lock env) (\<lambda>_.
     io_bind (io_lift (validate_task_mutation requested)) (\<lambda>_.
     io_bind (fresh_id env (t_id requested)) (\<lambda>i.
     let task = requested\<lparr>t_id := i\<rparr> in
     if trim (t_account task) = [] then
       (let task = task\<lparr>t_source := ''local'', t_external_id := []\<rparr> in
        io_bind (storage env (db_call env (\<lambda>_ _. upsert_task task))) (\<lambda>revision.
        agenda_changed env revision (TaskReply task revision)))
     else
       io_bind (agenda_provider_for_account env (t_account task)) (\<lambda>p.
       let task = task\<lparr>t_source := agenda_task_source (ag_supports_due_time env p), t_external_id := []\<rparr> in
       io_bind (queued_change env ''agenda_task_create'' (t_account task) (de_task_json env task) False (ag_create_task env p task))
         (\<lambda>(operation_id, created).
       io_bind (storage env (db_call env (\<lambda>now _. commit_agenda_task_upsert now operation_id created))) (\<lambda>revision.
       agenda_changed env revision (TaskReply created revision)))))))"

definition handle_task_update :: "('p, 'g, 'w) daemon_env \<Rightarrow> task \<Rightarrow> ('p, 'w, rpc_error, reply) dio" where
  "handle_task_update env requested =
     io_bind (await_lock env) (\<lambda>_.
     io_bind (io_lift (validate_task_mutation requested)) (\<lambda>_.
     io_bind (io_lift (validate_agenda_id (t_id requested) ''task ID'')) (\<lambda>_.
     io_bind (storage env (db_read env (get_task (t_id requested)))) (\<lambda>found.
     let task = found\<lparr>t_title := t_title requested, t_description := t_description requested,
           t_done := t_done requested, t_due_at := t_due_at requested\<rparr> in
     if is_remote_task task then
       io_bind (agenda_provider_for_account env (t_account task)) (\<lambda>p.
       io_bind (queued_change env ''agenda_task_update'' (t_account task) (de_task_json env task) True (ag_update_task env p task))
         (\<lambda>(operation_id, updated).
       io_bind (storage env (db_call env (\<lambda>now _. commit_agenda_task_upsert now operation_id updated))) (\<lambda>revision.
       agenda_changed env revision (TaskReply updated revision))))
     else
       io_bind (storage env (db_call env (\<lambda>_ _. upsert_task task))) (\<lambda>revision.
       agenda_changed env revision (TaskReply task revision))))))"

definition handle_task_complete :: "('p, 'g, 'w) daemon_env \<Rightarrow> string \<Rightarrow> bool \<Rightarrow> ('p, 'w, rpc_error, reply) dio" where
  "handle_task_complete env task_id is_done =
     io_bind (await_lock env) (\<lambda>_.
     io_bind (io_lift (validate_agenda_id task_id ''task ID'')) (\<lambda>_.
     io_bind (storage env (db_read env (get_task task_id))) (\<lambda>found.
     let task = found\<lparr>t_done := is_done\<rparr> in
     if is_remote_task task then
       io_bind (agenda_provider_for_account env (t_account task)) (\<lambda>p.
       io_bind (queued_change env ''agenda_task_complete'' (t_account task)
           (JObj [(''taskId'', JStr (t_id task)), (''done'', JBool (t_done task))]) True (ag_complete_task env p task is_done))
         (\<lambda>(operation_id, updated).
       io_bind (storage env (db_call env (\<lambda>now _. commit_agenda_task_upsert now operation_id updated))) (\<lambda>revision.
       agenda_changed env revision (RevisionReply revision))))
     else
       io_bind (storage env (db_call env (\<lambda>_ _. complete_task task_id is_done))) (\<lambda>revision.
       agenda_changed env revision (RevisionReply revision)))))"

definition handle_task_delete :: "('p, 'g, 'w) daemon_env \<Rightarrow> string \<Rightarrow> ('p, 'w, rpc_error, reply) dio" where
  "handle_task_delete env task_id =
     io_bind (await_lock env) (\<lambda>_.
     io_bind (io_lift (validate_agenda_id task_id ''task ID'')) (\<lambda>_.
     io_bind (storage env (db_read env (get_task task_id))) (\<lambda>task.
     if is_remote_task task then
       io_bind (agenda_provider_for_account env (t_account task)) (\<lambda>p.
       io_bind (queued_change env ''agenda_task_delete'' (t_account task) (JObj [(''taskId'', JStr (t_id task))]) True
           (deletion (ag_delete_task env p task))) (\<lambda>(operation_id, _).
       io_bind (storage env (db_call env (\<lambda>now _. commit_agenda_task_delete now operation_id task_id))) (\<lambda>revision.
       agenda_changed env revision (RevisionReply revision))))
     else
       io_bind (storage env (db_call env (\<lambda>_ _. delete_task task_id))) (\<lambda>revision.
       agenda_changed env revision (RevisionReply revision)))))"

subsection \<open>Events\<close>

definition handle_calendar_list :: "('p, 'g, 'w) daemon_env \<Rightarrow> int \<Rightarrow> int \<Rightarrow> ('p, 'w, rpc_error, reply) dio" where
  "handle_calendar_list env start_at end_at =
     io_bind (storage env (db_read env (list_events start_at end_at))) (\<lambda>x. io_return (EventsReply x))"

definition handle_calendar_create :: "('p, 'g, 'w) daemon_env \<Rightarrow> calendar_event \<Rightarrow> ('p, 'w, rpc_error, reply) dio" where
  "handle_calendar_create env requested =
     io_bind (await_lock env) (\<lambda>_.
     io_bind (io_lift (validate_event_mutation requested)) (\<lambda>_.
     io_bind (fresh_id env (e_id requested)) (\<lambda>i.
     let event = requested\<lparr>e_id := i\<rparr> in
     io_bind (remote_event_create_account env (e_calendar_id event)) (\<lambda>destination.
     case destination of
       Some account_id \<Rightarrow>
         io_bind (agenda_provider_for_account env account_id) (\<lambda>p.
         let event = event\<lparr>e_calendar_id := account_id, e_external_id := [], e_read_only := False\<rparr> in
         io_bind (queued_change env ''agenda_event_create'' account_id (de_event_json env event) False (ag_create_event env p event))
           (\<lambda>(operation_id, created).
         io_bind (storage env (db_call env (\<lambda>now _. commit_agenda_event_upsert now operation_id created))) (\<lambda>revision.
         agenda_changed env revision (EventReply created revision))))
     | None \<Rightarrow>
         (let event = event\<lparr>e_calendar_id := (if trim (e_calendar_id event) = [] then ''local'' else e_calendar_id event),
                e_calendar_name := (if trim (e_calendar_name event) = [] then ''Local'' else e_calendar_name event),
                e_external_id := [], e_read_only := False\<rparr> in
          io_bind (storage env (db_call env (\<lambda>_ _. upsert_events [event]))) (\<lambda>revision.
          agenda_changed env revision (EventReply event revision)))))))"

definition read_only_calendar :: rpc_error where
  "read_only_calendar = invalid_params ''this calendar is read-only''"

definition handle_calendar_update :: "('p, 'g, 'w) daemon_env \<Rightarrow> calendar_event \<Rightarrow> ('p, 'w, rpc_error, reply) dio" where
  "handle_calendar_update env requested =
     io_bind (await_lock env) (\<lambda>_.
     io_bind (io_lift (validate_event_mutation requested)) (\<lambda>_.
     io_bind (io_lift (validate_agenda_id (e_id requested) ''event ID'')) (\<lambda>_.
     io_bind (storage env (db_read env (get_event (e_id requested)))) (\<lambda>found.
     io_bind (io_lift (require (\<not> e_read_only found) read_only_calendar)) (\<lambda>_.
     let event = found\<lparr>e_title := e_title requested, e_description := e_description requested,
           e_start_at := e_start_at requested, e_end_at := e_end_at requested, e_all_day := e_all_day requested\<rparr> in
     io_bind (remote_event_account env (e_calendar_id event)) (\<lambda>destination.
     case destination of
       Some account_id \<Rightarrow>
         io_bind (agenda_provider_for_account env account_id) (\<lambda>p.
         io_bind (queued_change env ''agenda_event_update'' account_id (de_event_json env event) True (ag_update_event env p event))
           (\<lambda>(operation_id, updated).
         io_bind (storage env (db_call env (\<lambda>now _. commit_agenda_event_upsert now operation_id updated))) (\<lambda>revision.
         agenda_changed env revision (EventReply updated revision))))
     | None \<Rightarrow>
         io_bind (storage env (db_call env (\<lambda>_ _. upsert_events [event]))) (\<lambda>revision.
         agenda_changed env revision (EventReply event revision))))))))"

definition handle_calendar_delete :: "('p, 'g, 'w) daemon_env \<Rightarrow> string \<Rightarrow> ('p, 'w, rpc_error, reply) dio" where
  "handle_calendar_delete env event_id =
     io_bind (await_lock env) (\<lambda>_.
     io_bind (io_lift (validate_agenda_id event_id ''event ID'')) (\<lambda>_.
     io_bind (storage env (db_read env (get_event event_id))) (\<lambda>event.
     io_bind (io_lift (require (\<not> e_read_only event) read_only_calendar)) (\<lambda>_.
     io_bind (remote_event_account env (e_calendar_id event)) (\<lambda>destination.
     case destination of
       Some account_id \<Rightarrow>
         io_bind (agenda_provider_for_account env account_id) (\<lambda>p.
         io_bind (queued_change env ''agenda_event_delete'' account_id (JObj [(''eventId'', JStr (e_id event))]) True
             (deletion (ag_delete_event env p event))) (\<lambda>(operation_id, _).
         io_bind (storage env (db_call env (\<lambda>now _. commit_agenda_event_delete now operation_id event_id))) (\<lambda>revision.
         agenda_changed env revision (RevisionReply revision))))
     | None \<Rightarrow>
         io_bind (storage env (db_call env (\<lambda>_ _. delete_event event_id))) (\<lambda>revision.
         agenda_changed env revision (RevisionReply revision)))))))"

subsection \<open>What the handlers keep\<close>

lemma post_exec:
  assumes env: "env_good env"
    and "\<And>now uuid d x d'. valid_ts now \<Longrightarrow> f now uuid d = Inr (x, d') \<Longrightarrow> exec_job (j now uuid) d = Inr d'"
    and "\<And>now uuid. valid_ts now \<Longrightarrow> job_ok (j now uuid) \<and> job_trusted (de_clean env) (j now uuid)"
  shows "io_post (db_inv (store_ok (de_clean env))) (storage env (db_call env f)) anything"
  using assms(2,3) by (intro io_post_storage post_job [OF env]) blast

lemma post_exec_update:
  assumes env: "env_good env"
    and "\<And>now d d'. f now d = Inr d' \<Longrightarrow> exec_job (j now) d = Inr d'"
    and "\<And>now. job_ok (j now) \<and> job_trusted (de_clean env) (j now)"
  shows "io_post (db_inv (store_ok (de_clean env))) (storage env (db_update env f)) anything"
  using assms(2,3) by (intro io_post_storage post_update_job [OF env]) blast

text \<open>The database calls of the agenda handlers.\<close>

lemma post_agenda_jobs:
  assumes env: "env_good env"
  defines "I \<equiv> db_inv (store_ok (de_clean env))"
  shows "task_ok t \<Longrightarrow> io_post I (storage env (db_call env (\<lambda>_ _. upsert_task t))) anything"
    and "io_post I (storage env (db_call env (\<lambda>_ _. complete_task i b))) anything"
    and "io_post I (storage env (db_call env (\<lambda>_ _. delete_task i))) anything"
    and "event_ok e \<Longrightarrow> io_post I (storage env (db_call env (\<lambda>_ _. upsert_events [e]))) anything"
    and "io_post I (storage env (db_call env (\<lambda>_ _. delete_event i))) anything"
    and "task_ok t \<Longrightarrow> io_post I (storage env (db_call env (\<lambda>now _. commit_agenda_task_upsert now oid t))) anything"
    and "io_post I (storage env (db_call env (\<lambda>now _. commit_agenda_task_delete now oid i))) anything"
    and "event_ok e \<Longrightarrow> io_post I (storage env (db_call env (\<lambda>now _. commit_agenda_event_upsert now oid e))) anything"
    and "io_post I (storage env (db_call env (\<lambda>now _. commit_agenda_event_delete now oid i))) anything"
    and "io_post I (storage env (db_call env (\<lambda>now uuid. queue_agenda_operation uuid now k a pl))) anything"
    and "io_post I (storage env (db_update env (\<lambda>now. defer_operation now oid m))) anything"
    and "io_post I (storage env (db_update env (\<lambda>now. finish_operation now oid r))) anything"
  unfolding I_def
  by (rule post_exec [OF env, where j = "\<lambda>_ _. UpsertTask t"], simp_all)
    (rule post_exec [OF env, where j = "\<lambda>_ _. CompleteTask i b"]
       post_exec [OF env, where j = "\<lambda>_ _. DeleteTask i"]
       post_exec [OF env, where j = "\<lambda>_ _. UpsertEvents [e]"]
       post_exec [OF env, where j = "\<lambda>_ _. DeleteEvent i"]
       post_exec [OF env, where j = "\<lambda>now _. CommitTaskUpsert now oid t"]
       post_exec [OF env, where j = "\<lambda>now _. CommitTaskDelete now oid i"]
       post_exec [OF env, where j = "\<lambda>now _. CommitEventUpsert now oid e"]
       post_exec [OF env, where j = "\<lambda>now _. CommitEventDelete now oid i"]
       post_exec [OF env, where j = "\<lambda>now uuid. QueueAgendaOperation uuid now k a pl"]
       post_exec_update [OF env, where j = "\<lambda>now. DeferOperation now oid m"]
       post_exec_update [OF env, where j = "\<lambda>now. FinishOperation now oid r"], simp, simp)+

lemma post_agenda_provider:
  assumes env: "env_good env"
  shows "io_post (db_inv (store_ok (de_clean env))) (agenda_provider_for_account env a) anything"
  unfolding agenda_provider_for_account_def
  by (intro io_post_bind [OF post_read [OF env]] io_post_bind [OF io_post_lift [where Q = anything]]
      io_post_bind [OF io_post_remote [OF post_agenda(1) [OF env [unfolded env_good_def]]]] io_post_lift) simp_all

lemma post_remote_account:
  assumes env: "env_good env"
  shows "io_post (db_inv (store_ok (de_clean env))) (remote_event_create_account env c) anything"
    and "io_post (db_inv (store_ok (de_clean env))) (remote_event_account env c) anything"
  unfolding remote_event_create_account_def remote_event_account_def
  by (auto intro!: io_post_bind [OF post_read [OF env]] io_post_bind [OF io_post_lift [where Q = anything]] io_post_return)

lemma post_queued_change:
  assumes env: "env_good env" and call: "io_post (db_inv (store_ok (de_clean env))) call Q"
  shows "io_post (db_inv (store_ok (de_clean env))) (queued_change env k a pl safe call) (\<lambda>(i, x). Q x)"
  unfolding queued_change_def record_agenda_operation_error_def
proof (rule io_post_bind [OF post_agenda_jobs(10) [OF env]], clarify)
  fix i n
  show "io_post (db_inv (store_ok (de_clean env))) (io_bind (io_attempt call) (\<lambda>r. case r of
       Inr x \<Rightarrow> io_return (i, x)
     | Inl err \<Rightarrow> io_bind
         (if safe \<and> may_retry err
          then storage env (db_update env (\<lambda>now. defer_operation now i (provider_error_text err)))
          else storage env (db_update env (\<lambda>now. finish_operation now i (Inl (provider_error_text err)))))
         (\<lambda>_. io_error (provider_rpc_error err)))) (\<lambda>(i, x). Q x)"
    by (rule io_post_bind [OF io_post_attempt [OF call]])
      (auto intro!: io_post_return io_post_error io_post_bind [OF post_agenda_jobs(11) [OF env]]
        io_post_bind [OF post_agenda_jobs(12) [OF env]] split: sum.splits)
qed

lemma post_deletion: "io_post I call anything \<Longrightarrow> io_post I (deletion call) anything"
  unfolding deletion_def
  by (rule io_post_bind [OF io_post_attempt]) (auto intro: io_post_return io_post_error split: sum.splits provider_error.splits)

lemma post_agenda_changed: "reply_trusted c answer \<Longrightarrow> io_post (db_inv J) (agenda_changed env revision answer) (reply_trusted c)"
  unfolding agenda_changed_def by (rule io_post_bind [OF post_publish]) (rule io_post_return)

lemma post_fresh_id: "io_post I (fresh_id env i) anything"
  by (simp add: io_post_def fresh_id_def)

lemma get_task_ok: "get_task i d = Inr t \<Longrightarrow> task_ok t"
  by (auto simp: get_task_def task_from_row_def task_ok_def timestamp_from_millis_def result_simps
      split: option.splits if_splits)

lemma get_event_ok: "get_event i d = Inr e \<Longrightarrow> event_ok e"
  by (auto simp: get_event_def event_from_row_def event_ok_def timestamp_from_millis_def result_simps
      split: option.splits if_splits)

lemma post_get_item:
  assumes env: "env_good env"
  shows "io_post (db_inv (store_ok (de_clean env))) (storage env (db_read env (get_task i))) task_ok"
    and "io_post (db_inv (store_ok (de_clean env))) (storage env (db_read env (get_event i))) event_ok"
  using env unfolding env_good_def
  by (auto intro!: io_post_storage post_db_read dest: get_task_ok get_event_ok)

lemma agenda_lists_ok:
  assumes "env_good env"
  shows "handler_ok env (handle_task_list env b)" "handler_ok env (handle_calendar_list env start_at end_at)"
  unfolding handle_task_list_def handle_calendar_list_def by (rule handler_read [OF assms]; simp)+

text \<open>The steps that every handler starts with.\<close>

lemma post_checked:
  assumes "env_meets I env" "io_post I m Q"
  shows "io_post I (io_bind (await_lock env) (\<lambda>_. io_bind (io_lift check) (\<lambda>_. m))) Q"
  using assms by (intro io_post_bind [OF post_await(2)] io_post_bind [OF io_post_lift [where Q = anything]]) simp_all

lemma task_create_ok:
  assumes env: "env_good env" and ok: "task_ok requested"
  shows "handler_ok env (handle_task_create env requested)"
  unfolding handler_ok_def handle_task_create_def
proof (rule post_checked [OF env [unfolded env_good_def]], rule io_post_bind [OF post_fresh_id])
  fix i
  let ?c = "de_clean env" and ?t = "requested\<lparr>t_id := i\<rparr>"
  note ag = post_agenda [OF env [unfolded env_good_def]]
  have "task_ok (?t\<lparr>t_source := ''local'', t_external_id := []\<rparr>)" using ok by (simp add: task_ok_def)
  then show "io_post (db_inv (store_ok ?c)) (let task = ?t in
     if trim (t_account task) = [] then
       (let task = task\<lparr>t_source := ''local'', t_external_id := []\<rparr> in
        io_bind (storage env (db_call env (\<lambda>_ _. upsert_task task))) (\<lambda>revision.
        agenda_changed env revision (TaskReply task revision)))
     else
       io_bind (agenda_provider_for_account env (t_account task)) (\<lambda>p.
       let task = task\<lparr>t_source := agenda_task_source (ag_supports_due_time env p), t_external_id := []\<rparr> in
       io_bind (queued_change env ''agenda_task_create'' (t_account task) (de_task_json env task) False (ag_create_task env p task))
         (\<lambda>(operation_id, created).
       io_bind (storage env (db_call env (\<lambda>now _. commit_agenda_task_upsert now operation_id created))) (\<lambda>revision.
       agenda_changed env revision (TaskReply created revision))))) (reply_trusted ?c)"
    by (auto simp: Let_def intro!: io_post_bind [OF post_agenda_jobs(1) [OF env]] io_post_bind [OF post_agenda_provider [OF env]]
        io_post_bind [OF post_queued_change [OF env ag(2)]] io_post_bind [OF post_agenda_jobs(6) [OF env]] post_agenda_changed)
qed

lemma task_update_ok:
  assumes env: "env_good env" and ok: "task_ok requested"
  shows "handler_ok env (handle_task_update env requested)"
proof -
  note ag = post_agenda [OF env [unfolded env_good_def]]
  have ok': "task_ok (found\<lparr>t_title := x, t_description := y, t_done := z, t_due_at := t_due_at requested\<rparr>)"
    if "task_ok found" for found x y z using that ok by (simp add: task_ok_def)
  show ?thesis
    unfolding handler_ok_def handle_task_update_def
    by (rule post_checked [OF env [unfolded env_good_def]])
      (auto simp: Let_def ok' intro!: io_post_bind [OF io_post_lift [where Q = anything]] io_post_bind [OF post_get_item(1) [OF env]]
        io_post_bind [OF post_agenda_jobs(1) [OF env]] io_post_bind [OF post_agenda_provider [OF env]]
        io_post_bind [OF post_queued_change [OF env ag(3)]] io_post_bind [OF post_agenda_jobs(6) [OF env]] post_agenda_changed)
qed

lemma task_complete_ok:
  assumes env: "env_good env"
  shows "handler_ok env (handle_task_complete env i b)"
proof -
  note ag = post_agenda [OF env [unfolded env_good_def]]
  show ?thesis
    unfolding handler_ok_def handle_task_complete_def
    by (rule post_checked [OF env [unfolded env_good_def]])
      (auto simp: Let_def intro!: io_post_bind [OF post_get_item(1) [OF env]]
        io_post_bind [OF post_agenda_jobs(2) [OF env]] io_post_bind [OF post_agenda_provider [OF env]]
        io_post_bind [OF post_queued_change [OF env ag(4)]] io_post_bind [OF post_agenda_jobs(6) [OF env]] post_agenda_changed)
qed

lemma task_delete_ok:
  assumes env: "env_good env"
  shows "handler_ok env (handle_task_delete env i)"
proof -
  note ag = post_agenda [OF env [unfolded env_good_def]]
  show ?thesis
    unfolding handler_ok_def handle_task_delete_def
    by (rule post_checked [OF env [unfolded env_good_def]])
      (auto simp: Let_def intro!: io_post_bind [OF post_get_item(1) [OF env]]
        io_post_bind [OF post_agenda_jobs(3) [OF env]] io_post_bind [OF post_agenda_provider [OF env]]
        io_post_bind [OF post_queued_change [OF env post_deletion [OF ag(5)]]] io_post_bind [OF post_agenda_jobs(7) [OF env]]
        post_agenda_changed)
qed

lemma calendar_create_ok:
  assumes env: "env_good env" and ok: "event_ok requested"
  shows "handler_ok env (handle_calendar_create env requested)"
proof -
  note ag = post_agenda [OF env [unfolded env_good_def]]
  have ok': "event_ok e" if "e_start_at e = e_start_at requested" "e_end_at e = e_end_at requested" for e
    using ok that by (simp add: event_ok_def)
  show ?thesis
    unfolding handler_ok_def handle_calendar_create_def
    by (rule post_checked [OF env [unfolded env_good_def]])
      (auto simp: Let_def ok' intro!: io_post_bind [OF post_fresh_id] io_post_bind [OF post_remote_account(1) [OF env]]
        io_post_bind [OF post_agenda_jobs(4) [OF env]] io_post_bind [OF post_agenda_provider [OF env]]
        io_post_bind [OF post_queued_change [OF env ag(6)]] io_post_bind [OF post_agenda_jobs(8) [OF env]] post_agenda_changed
        split: option.splits)
qed

lemma calendar_update_ok:
  assumes env: "env_good env" and ok: "event_ok requested"
  shows "handler_ok env (handle_calendar_update env requested)"
proof -
  note ag = post_agenda [OF env [unfolded env_good_def]]
  have ok': "event_ok (found\<lparr>e_title := x, e_description := y, e_start_at := e_start_at requested, e_end_at := e_end_at requested, e_all_day := b\<rparr>)" for found x y b
    using ok by (simp add: event_ok_def)
  show ?thesis
    unfolding handler_ok_def handle_calendar_update_def
    by (rule post_checked [OF env [unfolded env_good_def]])
      (auto simp: Let_def ok' intro!: io_post_bind [OF io_post_lift [where Q = anything]] io_post_bind [OF post_get_item(2) [OF env]]
        io_post_bind [OF post_remote_account(2) [OF env]]
        io_post_bind [OF post_agenda_jobs(4) [OF env]] io_post_bind [OF post_agenda_provider [OF env]]
        io_post_bind [OF post_queued_change [OF env ag(7)]] io_post_bind [OF post_agenda_jobs(8) [OF env]] post_agenda_changed
        split: option.splits)
qed

lemma calendar_delete_ok:
  assumes env: "env_good env"
  shows "handler_ok env (handle_calendar_delete env i)"
proof -
  note ag = post_agenda [OF env [unfolded env_good_def]]
  show ?thesis
    unfolding handler_ok_def handle_calendar_delete_def
    by (rule post_checked [OF env [unfolded env_good_def]])
      (auto simp: Let_def intro!: io_post_bind [OF io_post_lift [where Q = anything]] io_post_bind [OF post_get_item(2) [OF env]]
        io_post_bind [OF post_remote_account(2) [OF env]]
        io_post_bind [OF post_agenda_jobs(5) [OF env]] io_post_bind [OF post_agenda_provider [OF env]]
        io_post_bind [OF post_queued_change [OF env post_deletion [OF ag(8)]]] io_post_bind [OF post_agenda_jobs(9) [OF env]]
        post_agenda_changed split: option.splits)
qed

end
