(* ===== verification/Daemon_Recovery.thy ===== *)
theory Daemon_Recovery
  imports Daemon_Agenda
begin

section \<open>Recovering interrupted changes of the agenda\<close>

text \<open>
  \<open>recover_pending_agenda_operations\<close> of \<open>daemon.rs\<close>: what becomes of the changes that a crash or a failing provider
  left pending. An update, a completion or a deletion is asked again, a creation never, because it could
  have reached the provider.
\<close>

definition AGENDA_RETRY_BACKOFF_MS :: int where "AGENDA_RETRY_BACKOFF_MS = 30000"

definition recovery :: "('p, 'g, 'w) daemon_env \<Rightarrow> ('p, 'w, storage_error, 'a) dio \<Rightarrow> ('p, 'w, provider_error, 'a) dio" where
  "recovery env m = io_map_err (recovery_storage_error (de_detail env)) m"

definition recovery_provider :: "('p, 'g, 'w) daemon_env \<Rightarrow> string \<Rightarrow> ('p, 'w, provider_error, 'g) dio" where
  "recovery_provider env account_id =
     io_bind (recovery env (db_read env list_accounts)) (\<lambda>accounts.
     io_bind (io_lift (ok_or (find (\<lambda>a. a_id a = account_id) accounts) ProviderNotFound)) (\<lambda>account.
     io_bind (ag_discover env account) (\<lambda>found.
     io_lift (ok_or found (Unsupported ''calendar and tasks for this account'')))))"

definition payload_str :: "string \<Rightarrow> json \<Rightarrow> string option" where
  "payload_str key payload = Option.bind (json_get key payload) json_as_str"

definition payload_bool :: "string \<Rightarrow> json \<Rightarrow> bool option" where
  "payload_bool key payload = Option.bind (json_get key payload) json_as_bool"

definition retry_task_update :: "('p, 'g, 'w) daemon_env \<Rightarrow> 'g \<Rightarrow> pending_agenda_operation \<Rightarrow> ('p, 'w, provider_error, nat) dio" where
  "retry_task_update env p op =
     io_bind (io_lift (ok_or (de_json_task env (pa_payload op)) (ProviderOther ''queued task update has invalid data''))) (\<lambda>task.
     io_bind (ag_update_task env p task) (\<lambda>updated.
     recovery env (db_call env (\<lambda>now _. commit_agenda_task_upsert now (pa_id op) updated))))"

definition retry_task_complete :: "('p, 'g, 'w) daemon_env \<Rightarrow> 'g \<Rightarrow> pending_agenda_operation \<Rightarrow> ('p, 'w, provider_error, nat) dio" where
  "retry_task_complete env p op =
     io_bind (io_lift (ok_or (payload_str ''taskId'' (pa_payload op)) (ProviderOther ''queued task completion has no task ID''))) (\<lambda>task_id.
     io_bind (io_lift (ok_or (payload_bool ''done'' (pa_payload op)) (ProviderOther ''queued task completion has no state''))) (\<lambda>is_done.
     io_bind (recovery env (db_read env (get_task task_id))) (\<lambda>task.
     io_bind (ag_complete_task env p (task\<lparr>t_done := is_done\<rparr>) is_done) (\<lambda>updated.
     recovery env (db_call env (\<lambda>now _. commit_agenda_task_upsert now (pa_id op) updated))))))"

text \<open>The item is gone already: the operation is finished.\<close>

definition already_deleted :: "('p, 'g, 'w) daemon_env \<Rightarrow> string \<Rightarrow> ('p, 'w, provider_error, nat) dio" where
  "already_deleted env operation_id =
     io_bind (recovery env (db_update env (\<lambda>now. finish_operation now operation_id (Inr ())))) (\<lambda>_.
     recovery env (db_read env read_revision))"

definition retry_task_delete :: "('p, 'g, 'w) daemon_env \<Rightarrow> 'g \<Rightarrow> pending_agenda_operation \<Rightarrow> ('p, 'w, provider_error, nat) dio" where
  "retry_task_delete env p op =
     io_bind (io_lift (ok_or (payload_str ''taskId'' (pa_payload op)) (ProviderOther ''queued task deletion has no task ID''))) (\<lambda>task_id.
     io_bind (io_attempt (db_read env (get_task task_id))) (\<lambda>r.
     case r of
       Inr task \<Rightarrow>
         io_bind (deletion (ag_delete_task env p task)) (\<lambda>_.
         recovery env (db_call env (\<lambda>now _. commit_agenda_task_delete now (pa_id op) task_id)))
     | Inl NotFound \<Rightarrow> already_deleted env (pa_id op)
     | Inl err \<Rightarrow> io_error (recovery_storage_error (de_detail env) err)))"

definition retry_event_update :: "('p, 'g, 'w) daemon_env \<Rightarrow> 'g \<Rightarrow> pending_agenda_operation \<Rightarrow> ('p, 'w, provider_error, nat) dio" where
  "retry_event_update env p op =
     io_bind (io_lift (ok_or (de_json_event env (pa_payload op)) (ProviderOther ''queued calendar update has invalid data''))) (\<lambda>event.
     io_bind (ag_update_event env p event) (\<lambda>updated.
     recovery env (db_call env (\<lambda>now _. commit_agenda_event_upsert now (pa_id op) updated))))"

definition retry_event_delete :: "('p, 'g, 'w) daemon_env \<Rightarrow> 'g \<Rightarrow> pending_agenda_operation \<Rightarrow> ('p, 'w, provider_error, nat) dio" where
  "retry_event_delete env p op =
     io_bind (io_lift (ok_or (payload_str ''eventId'' (pa_payload op)) (ProviderOther ''queued calendar deletion has no event ID''))) (\<lambda>event_id.
     io_bind (io_attempt (db_read env (get_event event_id))) (\<lambda>r.
     case r of
       Inr event \<Rightarrow>
         io_bind (deletion (ag_delete_event env p event)) (\<lambda>_.
         recovery env (db_call env (\<lambda>now _. commit_agenda_event_delete now (pa_id op) event_id)))
     | Inl NotFound \<Rightarrow> already_deleted env (pa_id op)
     | Inl err \<Rightarrow> io_error (recovery_storage_error (de_detail env) err)))"

definition is_create :: "string \<Rightarrow> bool" where
  "is_create kind \<longleftrightarrow> kind \<in> {''agenda_task_create'', ''agenda_event_create''}"

definition recover_operation ::
    "('p, 'g, 'w) daemon_env \<Rightarrow> pending_agenda_operation \<Rightarrow> ('p, 'w, provider_error, nat) dio" where
  "recover_operation env op =
     (if is_create (pa_kind op)
      then io_error (ProviderOther ''an interrupted create was reconciled instead of replayed to avoid a duplicate'')
      else io_bind (recovery_provider env (pa_account_id op)) (\<lambda>p.
        if pa_kind op = ''agenda_task_update'' then retry_task_update env p op
        else if pa_kind op = ''agenda_task_complete'' then retry_task_complete env p op
        else if pa_kind op = ''agenda_task_delete'' then retry_task_delete env p op
        else if pa_kind op = ''agenda_event_update'' then retry_event_update env p op
        else if pa_kind op = ''agenda_event_delete'' then retry_event_delete env p op
        else io_error (ProviderOther ''queued agenda operation has an unsupported kind'')))"

record recovery_error =
  rv_account_id :: string
  rv_operation_id :: string
  rv_message :: string
  rv_retryable :: bool

definition recovery_error_json :: "recovery_error \<Rightarrow> json" where
  "recovery_error_json e = JObj [(''accountId'', JStr (rv_account_id e)), (''operationId'', JStr (rv_operation_id e)),
     (''message'', JStr (rv_message e)), (''retryable'', JBool (rv_retryable e))]"

fun recover_loop ::
    "('p, 'g, 'w) daemon_env \<Rightarrow> int \<Rightarrow> pending_agenda_operation list \<Rightarrow> string set \<Rightarrow> recovery_error list
     \<Rightarrow> ('p, 'w, rpc_error, recovery_error list) dio" where
  "recover_loop env retry_cutoff [] blocked errors = io_return errors"
| "recover_loop env retry_cutoff (op # ops) blocked errors =
     (if pa_account_id op \<in> blocked then recover_loop env retry_cutoff ops blocked errors
      else if (case pa_attempted_at op of None \<Rightarrow> False | Some t \<Rightarrow> retry_cutoff < t)
      then recover_loop env retry_cutoff ops (insert (pa_account_id op) blocked) errors
      else
        io_bind (io_attempt (recover_operation env op)) (\<lambda>r.
        case r of
          Inr revision \<Rightarrow>
            io_bind (publish env ''agenda'' ''agenda.changed'' revision) (\<lambda>_.
            recover_loop env retry_cutoff ops blocked errors)
        | Inl err \<Rightarrow>
            (let retryable = (\<not> is_create (pa_kind op) \<and> may_retry err);
                 entry = \<lparr>rv_account_id = pa_account_id op, rv_operation_id = pa_id op,
                          rv_message = provider_error_text err, rv_retryable = retryable\<rparr> in
             if retryable
             then io_bind (storage env (db_update env (\<lambda>now. defer_operation now (pa_id op) (provider_error_text err)))) (\<lambda>_.
                  recover_loop env retry_cutoff ops (insert (pa_account_id op) blocked) (errors @ [entry]))
             else io_bind (storage env (db_update env (\<lambda>now. finish_operation now (pa_id op) (Inl (provider_error_text err))))) (\<lambda>_.
                  recover_loop env retry_cutoff ops blocked (errors @ [entry])))))"

definition recover_pending_agenda_operations ::
    "('p, 'g, 'w) daemon_env \<Rightarrow> string option \<Rightarrow> ('p, 'w, rpc_error, recovery_error list) dio" where
  "recover_pending_agenda_operations env account_id =
     io_bind (await_lock env) (\<lambda>_.
     io_bind (storage env (db_read env (list_pending_agenda_operations account_id))) (\<lambda>operations.
     (\<lambda>s. recover_loop env (de_now env s - AGENDA_RETRY_BACKOFF_MS) operations {} [] s)))"

subsection \<open>What the recovery keeps\<close>

text \<open>The jobs a recovery sends, and an invariant of the database that they keep.\<close>

fun recovery_job :: "job \<Rightarrow> bool" where
  "recovery_job (CommitTaskUpsert now i t) = task_ok t"
| "recovery_job (CommitTaskDelete now i t) = True"
| "recovery_job (CommitEventUpsert now i e) = event_ok e"
| "recovery_job (CommitEventDelete now i e) = True"
| "recovery_job (FinishOperation now i r) = True"
| "recovery_job (DeferOperation now i m) = True"
| "recovery_job _ = False"

definition recovery_keeps :: "(db \<Rightarrow> bool) \<Rightarrow> bool" where
  "recovery_keeps J \<longleftrightarrow> preserved exec_job J recovery_job"

lemma preserved_weaken: "preserved exec J adm \<Longrightarrow> (\<And>j. adm' j \<Longrightarrow> adm j) \<Longrightarrow> preserved exec J adm'"
  unfolding preserved_def by blast

lemma recovery_keeps_store: "recovery_keeps (store_ok c)"
proof -
  have "job_ok j \<and> job_trusted c j" if "recovery_job j" for j using that by (cases j) auto
  then show ?thesis unfolding recovery_keeps_def preserved_def using exec_store_ok by blast
qed

definition settled :: "string \<Rightarrow> db \<Rightarrow> bool" where
  "settled i d \<longleftrightarrow> db_ok d \<and> not_pending i d"

lemma recovery_keeps_settled: "recovery_keeps (settled i)"
proof -
  have "job_ok j \<and> job_uuid j \<noteq> Some i" if "recovery_job j" for j using that by (cases j) auto
  then show ?thesis
    unfolding recovery_keeps_def settled_def by (rule preserved_weaken [OF log_inv.preserved_axioms]) simp
qed

lemma recovery_keeps_db_ok: "recovery_keeps db_ok"
proof -
  have "job_ok j" if "recovery_job j" for j using that by (cases j) auto
  then show ?thesis unfolding recovery_keeps_def by (rule preserved_weaken [OF db_inv.preserved_axioms])
qed

lemma post_recovery_call:
  assumes env: "env_meets (db_inv J) env" and J: "recovery_keeps J"
    and "\<And>now uuid d x d'. f now uuid d = Inr (x, d') \<Longrightarrow> exec_job (j now) d = Inr d'" "\<And>now. recovery_job (j now)"
  shows "io_post (db_inv J) (recovery env (db_call env f)) anything"
  unfolding recovery_def
proof (rule io_post_map_err, rule post_db_call [OF env])
  fix now uuid d x d' assume "J d" "f now uuid d = Inr (x, d')"
  with assms(3,4) J show "J d' \<and> anything x"
    unfolding recovery_keeps_def preserved_def by (metis anything)
qed

lemma post_recovery_update:
  assumes env: "env_meets (db_inv J) env" and J: "recovery_keeps J"
    and "\<And>now d d'. f now d = Inr d' \<Longrightarrow> exec_job (j now) d = Inr d'" "\<And>now. recovery_job (j now)"
  shows "io_post (db_inv J) (io_map_err g (db_update env f)) anything"
proof (rule io_post_map_err, rule post_db_update [OF env])
  fix now d d' assume "J d" "f now d = Inr d'"
  with assms(3,4) J show "J d'" unfolding recovery_keeps_def preserved_def by metis
qed

lemma post_recovery_jobs:
  assumes "env_meets (db_inv J) env" "recovery_keeps J"
  shows "task_ok t \<Longrightarrow> io_post (db_inv J) (recovery env (db_call env (\<lambda>now _. commit_agenda_task_upsert now oid t))) anything"
    and "io_post (db_inv J) (recovery env (db_call env (\<lambda>now _. commit_agenda_task_delete now oid i))) anything"
    and "event_ok e \<Longrightarrow> io_post (db_inv J) (recovery env (db_call env (\<lambda>now _. commit_agenda_event_upsert now oid e))) anything"
    and "io_post (db_inv J) (recovery env (db_call env (\<lambda>now _. commit_agenda_event_delete now oid i))) anything"
    and "io_post (db_inv J) (io_map_err g (db_update env (\<lambda>now. finish_operation now oid r))) anything"
    and "io_post (db_inv J) (io_map_err g (db_update env (\<lambda>now. defer_operation now oid m))) anything"
  by (rule post_recovery_call [OF assms, where j = "\<lambda>now. CommitTaskUpsert now oid t"], simp_all)
    (rule post_recovery_call [OF assms, where j = "\<lambda>now. CommitTaskDelete now oid i"]
      post_recovery_call [OF assms, where j = "\<lambda>now. CommitEventUpsert now oid e"]
      post_recovery_call [OF assms, where j = "\<lambda>now. CommitEventDelete now oid i"]
      post_recovery_update [OF assms, where j = "\<lambda>now. FinishOperation now oid r"]
      post_recovery_update [OF assms, where j = "\<lambda>now. DeferOperation now oid m"], simp, simp)+

lemma post_recovery_read:
  "env_meets (db_inv J) env \<Longrightarrow> io_post (db_inv J) (recovery env (db_read env f)) anything"
  unfolding recovery_def by (intro io_post_map_err post_db_read) simp_all

lemma post_recovery_provider:
  assumes env: "env_meets (db_inv J) env"
  shows "io_post (db_inv J) (recovery_provider env a) anything"
  unfolding recovery_provider_def
  by (intro io_post_bind [OF post_recovery_read [OF env]] io_post_bind [OF io_post_lift [where Q = anything]]
      io_post_bind [OF post_agenda(1) [OF env]] io_post_lift) simp_all

lemma post_already_deleted:
  assumes "env_meets (db_inv J) env" "recovery_keeps J"
  shows "io_post (db_inv J) (already_deleted env i) anything"
  unfolding already_deleted_def recovery_def [of _ "db_update _ _"]
  by (rule io_post_bind [OF post_recovery_jobs(5) [OF assms]]) (rule post_recovery_read [OF assms(1)])

lemma post_retries:
  assumes env: "env_meets (db_inv J) env" and J: "recovery_keeps J"
  shows "io_post (db_inv J) (retry_task_update env p op) anything"
    and "io_post (db_inv J) (retry_task_complete env p op) anything"
    and "io_post (db_inv J) (retry_task_delete env p op) anything"
    and "io_post (db_inv J) (retry_event_update env p op) anything"
    and "io_post (db_inv J) (retry_event_delete env p op) anything"
proof -
  note jobs = post_recovery_jobs [OF env J] and ag = post_agenda [OF env]
  have read: "io_post (db_inv J) (io_attempt (db_read env f)) anything" for f :: "db \<Rightarrow> storage_error + 'x"
    by (rule io_post_weaken [OF io_post_attempt [OF post_db_read [OF env, where Q = anything]]]) simp_all
  show "io_post (db_inv J) (retry_task_update env p op) anything"
    unfolding retry_task_update_def
    by (auto intro!: io_post_bind [OF io_post_lift [where Q = anything]] io_post_bind [OF ag(3)] jobs(1))
  show "io_post (db_inv J) (retry_task_complete env p op) anything"
    unfolding retry_task_complete_def
    by (auto intro!: io_post_bind [OF io_post_lift [where Q = anything]] io_post_bind [OF post_recovery_read [OF env]]
        io_post_bind [OF ag(4)] jobs(1))
  show "io_post (db_inv J) (retry_event_update env p op) anything"
    unfolding retry_event_update_def
    by (auto intro!: io_post_bind [OF io_post_lift [where Q = anything]] io_post_bind [OF ag(7)] jobs(3))
  show "io_post (db_inv J) (retry_task_delete env p op) anything"
    unfolding retry_task_delete_def
    by (auto intro!: io_post_bind [OF io_post_lift [where Q = anything]] io_post_bind [OF read] io_post_error
        io_post_bind [OF post_deletion [OF ag(5)]] jobs(2) post_already_deleted [OF env J] split: sum.splits storage_error.splits)
  show "io_post (db_inv J) (retry_event_delete env p op) anything"
    unfolding retry_event_delete_def
    by (auto intro!: io_post_bind [OF io_post_lift [where Q = anything]] io_post_bind [OF read] io_post_error
        io_post_bind [OF post_deletion [OF ag(8)]] jobs(4) post_already_deleted [OF env J] split: sum.splits storage_error.splits)
qed

lemma post_recover_operation:
  assumes "env_meets (db_inv J) env" "recovery_keeps J"
  shows "io_post (db_inv J) (recover_operation env op) anything"
  unfolding recover_operation_def
  by (auto intro!: io_post_error io_post_bind [OF post_recovery_provider [OF assms(1)]] post_retries [OF assms])

lemma post_recover_loop:
  assumes env: "env_meets (db_inv J) env" and J: "recovery_keeps J"
  shows "io_post (db_inv J) (recover_loop env cutoff ops blocked errors) anything"
proof (induction ops arbitrary: blocked errors)
  case (Cons op ops)
  have op: "io_post (db_inv J) (io_attempt (recover_operation env op)) anything"
    by (rule io_post_weaken [OF io_post_attempt [OF post_recover_operation [OF env J]]]) simp
  have rest: "io_post (db_inv J) (recover_loop env cutoff ops b e) (\<lambda>_. True)" for b e
    using Cons by (simp add: io_post_def)
  show ?case
    by (auto simp: Let_def storage_def rest Cons intro!: io_post_bind [OF op] io_post_bind [OF post_publish]
        io_post_bind [OF post_recovery_jobs(5) [OF env J]] io_post_bind [OF post_recovery_jobs(6) [OF env J]] split: sum.splits)
qed (simp add: io_post_return)

lemma post_recovery:
  assumes env: "env_meets (db_inv J) env" and J: "recovery_keeps J"
  shows "io_post (db_inv J) (recover_pending_agenda_operations env a) anything"
  unfolding recover_pending_agenda_operations_def storage_def
proof (intro io_post_bind [OF post_await(2) [OF env]] io_post_bind [OF io_post_map_err [OF post_db_read [OF env, where Q = anything]]])
  fix ops
  show "io_post (db_inv J) (\<lambda>s. recover_loop env (de_now env s - AGENDA_RETRY_BACKOFF_MS) ops {} [] s) anything"
    using post_recover_loop [OF env J, of _ ops "{}" "[]"] unfolding io_post_def by blast
qed simp

subsection \<open>What the recovery settles\<close>

text \<open>\<open>io_lands I m P\<close>: from a state with \<open>I\<close>, \<open>m\<close> returns only in states with \<open>P\<close>.\<close>

definition io_lands :: "('w \<Rightarrow> bool) \<Rightarrow> ('w, 'e, 'a) io \<Rightarrow> ('w \<Rightarrow> bool) \<Rightarrow> bool" where
  "io_lands I m P \<longleftrightarrow> (\<forall>s x s'. I s \<longrightarrow> m s = (Inr x, s') \<longrightarrow> P s')"

lemma io_landsD: "io_lands I m P \<Longrightarrow> I s \<Longrightarrow> m s = (Inr x, s') \<Longrightarrow> P s'"
  by (simp add: io_lands_def)

lemma io_lands_later:
  assumes m: "io_post I m Q" and f: "\<And>x. Q x \<Longrightarrow> io_lands I (f x) P"
  shows "io_lands I (io_bind m f) P"
  unfolding io_lands_def io_bind_Inr using io_postD [OF m] io_landsD [OF f] by blast

lemma io_lands_first:
  assumes m: "io_lands I m P" and f: "\<And>x. io_post P (f x) anything"
  shows "io_lands I (io_bind m f) P"
  unfolding io_lands_def io_bind_Inr using io_landsD [OF m] io_postD [OF f] by blast

lemma io_lands_map_err: "io_lands I m P \<Longrightarrow> io_lands I (io_map_err g m) P"
  by (simp add: io_lands_def io_map_err_Inr)

lemma io_lands_error: "io_lands I (io_error e) P"
  by (simp add: io_lands_def)

lemma lands_db_call:
  assumes env: "env_meets (db_inv db_ok) env"
    and f: "\<And>now uuid d x d'. db_ok d \<Longrightarrow> f now uuid d = Inr (x, d') \<Longrightarrow> settled i d'"
  shows "io_lands (db_inv db_ok) (db_call env f) (db_inv (settled i))"
  unfolding io_lands_def
proof (intro allI impI)
  fix s x s' assume s: "db_inv db_ok s" and run: "db_call env f s = (Inr x, s')"
  have "db_ok (dm_db (de_others env s))" using env_others [OF env s] by (simp add: db_inv_def)
  with run f show "db_inv (settled i) s'"
    by (auto simp: db_call_def Let_def db_inv_def split: sum.splits)
qed

lemma settled_outcome: "d_operations d' = update_row op_id i (set_outcome now r) (d_operations d) \<Longrightarrow> not_pending i d'"
proof -
  assume eq: "d_operations d' = update_row op_id i (set_outcome now r) (d_operations d)"
  have "op_state x \<noteq> ''pending''" if "x \<in> set (update_row op_id i (set_outcome now r) rows)" "op_id x = i" for x rows
  proof -
    from that obtain r0 where "x = set_outcome now r r0" unfolding mem_update_row by blast
    then show ?thesis by (cases r) (simp_all add: set_outcome_def)
  qed
  then show "not_pending i d'" unfolding not_pending_def eq by blast
qed

lemma settled_commits:
  assumes "db_ok d"
  shows "task_ok t \<Longrightarrow> commit_agenda_task_upsert now i t d = Inr (n, d') \<Longrightarrow> settled i d'"
    and "commit_agenda_task_delete now i t' d = Inr (n, d') \<Longrightarrow> settled i d'"
    and "event_ok e \<Longrightarrow> commit_agenda_event_upsert now i e d = Inr (n, d') \<Longrightarrow> settled i d'"
    and "commit_agenda_event_delete now i e' d = Inr (n, d') \<Longrightarrow> settled i d'"
    and "finish_operation now i r d = Inr d' \<Longrightarrow> settled i d'"
proof -
  show "settled i d'" if "task_ok t" "commit_agenda_task_upsert now i t d = Inr (n, d')"
    unfolding settled_def
    using db_ok_commit_agenda_task_upsert [OF assms] that commit_Inr(1) [OF that(2)] settled_outcome by blast
  show "settled i d'" if "commit_agenda_task_delete now i t' d = Inr (n, d')"
    unfolding settled_def
    using db_ok_commit_agenda_task_delete [OF assms] that commit_Inr(2) [OF that(1)] settled_outcome by blast
  show "settled i d'" if "event_ok e" "commit_agenda_event_upsert now i e d = Inr (n, d')"
    unfolding settled_def
    using db_ok_commit_agenda_event_upsert [OF assms] that commit_Inr(3) [OF that(2)] settled_outcome by blast
  show "settled i d'" if "commit_agenda_event_delete now i e' d = Inr (n, d')"
    unfolding settled_def
    using db_ok_commit_agenda_event_delete [OF assms] that commit_Inr(4) [OF that(1)] settled_outcome by blast
  show "settled i d'" if "finish_operation now i r d = Inr d'"
  proof -
    have "d_operations d' = update_row op_id i (set_outcome now r) (d_operations d)" using that by (auto simp: finish_operation_Inr)
    then show ?thesis unfolding settled_def using db_ok_finish_operation [OF assms that] settled_outcome by blast
  qed
qed

lemma lands_finish:
  assumes env: "env_meets (db_inv db_ok) env"
  shows "io_lands (db_inv db_ok) (db_update env (\<lambda>now. finish_operation now i r)) (db_inv (settled i))"
  unfolding db_update_def
  by (rule lands_db_call [OF env]) (auto simp: map_ok_eq_Inr dest: settled_commits(5))

lemma lands_already_deleted:
  assumes "env_meets (db_inv db_ok) env" "env_meets (db_inv (settled i)) env"
  shows "io_lands (db_inv db_ok) (already_deleted env i) (db_inv (settled i))"
  unfolding already_deleted_def recovery_def [of _ "db_update _ _"]
  by (rule io_lands_first [OF io_lands_map_err [OF lands_finish [OF assms(1)]]]) (rule post_recovery_read [OF assms(2)])

lemma lands_commits:
  assumes env: "env_meets (db_inv db_ok) env"
  shows "task_ok t \<Longrightarrow> io_lands (db_inv db_ok) (recovery env (db_call env (\<lambda>now _. commit_agenda_task_upsert now i t))) (db_inv (settled i))"
    and "io_lands (db_inv db_ok) (recovery env (db_call env (\<lambda>now _. commit_agenda_task_delete now i t'))) (db_inv (settled i))"
    and "event_ok e \<Longrightarrow> io_lands (db_inv db_ok) (recovery env (db_call env (\<lambda>now _. commit_agenda_event_upsert now i e))) (db_inv (settled i))"
    and "io_lands (db_inv db_ok) (recovery env (db_call env (\<lambda>now _. commit_agenda_event_delete now i e'))) (db_inv (settled i))"
  unfolding recovery_def
  by (intro io_lands_map_err lands_db_call [OF env]; erule (2) settled_commits(1) | intro io_lands_map_err lands_db_call [OF env];
      erule (1) settled_commits(2) | intro io_lands_map_err lands_db_call [OF env]; erule (2) settled_commits(3)
      | intro io_lands_map_err lands_db_call [OF env]; erule (1) settled_commits(4))+

lemma lands_retries:
  assumes env: "env_meets (db_inv db_ok) env" and env': "env_meets (db_inv (settled (pa_id op))) env"
  defines "S \<equiv> db_inv (settled (pa_id op))"
  shows "io_lands (db_inv db_ok) (retry_task_update env p op) S" "io_lands (db_inv db_ok) (retry_task_complete env p op) S"
    "io_lands (db_inv db_ok) (retry_event_update env p op) S" "io_lands (db_inv db_ok) (retry_task_delete env p op) S"
    "io_lands (db_inv db_ok) (retry_event_delete env p op) S"
proof -
  note ag = post_agenda [OF env] and commits = lands_commits [OF env] and gone = lands_already_deleted [OF env env']
  have read: "io_post (db_inv db_ok) (io_attempt (db_read env f)) anything" for f :: "db \<Rightarrow> storage_error + 'x"
    by (rule io_post_weaken [OF io_post_attempt [OF post_db_read [OF env, where Q = anything]]]) simp_all
  show "io_lands (db_inv db_ok) (retry_task_update env p op) S"
    unfolding retry_task_update_def S_def
    by (auto intro!: io_lands_later [OF io_post_lift [where Q = anything]] io_lands_later [OF ag(3)] commits(1))
  show "io_lands (db_inv db_ok) (retry_task_complete env p op) S"
    unfolding retry_task_complete_def S_def
    by (auto intro!: io_lands_later [OF io_post_lift [where Q = anything]] io_lands_later [OF post_recovery_read [OF env]]
        io_lands_later [OF ag(4)] commits(1))
  show "io_lands (db_inv db_ok) (retry_event_update env p op) S"
    unfolding retry_event_update_def S_def
    by (auto intro!: io_lands_later [OF io_post_lift [where Q = anything]] io_lands_later [OF ag(7)] commits(3))
  show "io_lands (db_inv db_ok) (retry_task_delete env p op) S"
    unfolding retry_task_delete_def S_def
    by (auto intro!: io_lands_later [OF io_post_lift [where Q = anything]] io_lands_later [OF read] io_lands_error
        io_lands_later [OF post_deletion [OF ag(5)]] commits(2) gone split: sum.splits storage_error.splits)
  show "io_lands (db_inv db_ok) (retry_event_delete env p op) S"
    unfolding retry_event_delete_def S_def
    by (auto intro!: io_lands_later [OF io_post_lift [where Q = anything]] io_lands_later [OF read] io_lands_error
        io_lands_later [OF post_deletion [OF ag(8)]] commits(4) gone split: sum.splits storage_error.splits)
qed

lemma lands_recover_operation:
  assumes env: "env_meets (db_inv db_ok) env" and env': "env_meets (db_inv (settled (pa_id op))) env"
  shows "io_lands (db_inv db_ok) (recover_operation env op) (db_inv (settled (pa_id op)))"
  unfolding recover_operation_def
  using lands_retries [OF env env']
  by (auto intro!: io_lands_error io_lands_later [OF post_recovery_provider [OF env]])

definition in_backoff :: "int \<Rightarrow> pending_agenda_operation \<Rightarrow> bool" where
  "in_backoff cutoff op \<longleftrightarrow> (case pa_attempted_at op of None \<Rightarrow> False | Some t \<Rightarrow> cutoff < t)"

definition settled_or_waits ::
    "int \<Rightarrow> pending_agenda_operation list \<Rightarrow> string set \<Rightarrow> recovery_error list \<Rightarrow> db \<Rightarrow> pending_agenda_operation \<Rightarrow> bool" where
  "settled_or_waits cutoff ops blocked errors d op \<longleftrightarrow>
     settled (pa_id op) d \<or> pa_account_id op \<in> blocked
     \<or> (\<exists>op' \<in> set ops. pa_account_id op' = pa_account_id op \<and> in_backoff cutoff op')
     \<or> (\<exists>e \<in> set errors. rv_account_id e = pa_account_id op \<and> rv_retryable e)"

lemma recover_loop_settles:
  assumes env: "env_meets (db_inv db_ok) env"
    and own: "\<And>op. op \<in> set ops \<Longrightarrow> env_meets (db_inv (settled (pa_id op))) env"
    and ok: "db_ok (dm_db s)" and run: "recover_loop env cutoff ops blocked errors s = (Inr errors', s')"
  shows "set errors \<subseteq> set errors' \<and> (\<forall>op \<in> set ops. settled_or_waits cutoff ops blocked errors' (dm_db s') op)"
  using own ok run
proof (induction ops arbitrary: blocked errors s)
  case Nil
  then show ?case by (simp add: io_return_Inr)
next
  case (Cons op ops)
  note run = Cons.prems(3)
  have own: "\<And>x. x \<in> set ops \<Longrightarrow> env_meets (db_inv (settled (pa_id x))) env" using Cons.prems(1) by simp
  have ih: "set e \<subseteq> set errors' \<and> (\<forall>x \<in> set ops. settled_or_waits cutoff ops b errors' (dm_db s') x)"
    if "db_ok (dm_db t)" "recover_loop env cutoff ops b e t = (Inr errors', s')" for t b e
    by (rule Cons.IH [OF own that])
  have more: "settled_or_waits cutoff (op # ops) blocked errors' (dm_db s') x"
    if "settled_or_waits cutoff ops b errors' (dm_db s') x"
      "\<forall>a \<in> b. a \<in> blocked \<or> a = pa_account_id op \<and> (in_backoff cutoff op \<or> (\<exists>e \<in> set errors'. rv_account_id e = a \<and> rv_retryable e))"
    for x b using that unfolding settled_or_waits_def by (metis list.set_intros(1,2))
  show ?case
  proof (cases "pa_account_id op \<in> blocked \<or> in_backoff cutoff op")
    case True
    let ?b = "if pa_account_id op \<in> blocked then blocked else insert (pa_account_id op) blocked"
    have "recover_loop env cutoff ops ?b errors s = (Inr errors', s')"
      using run True by (auto simp: in_backoff_def split: if_splits)
    from ih [OF Cons.prems(2) this] True show ?thesis
      by (auto intro: more simp: settled_or_waits_def split: if_splits)
  next
    case False
    then have "pa_account_id op \<notin> blocked" "\<not> in_backoff cutoff op" by auto
    then obtain r s1 where op: "recover_operation env op s = (r, s1)"
      and rest: "(case r of
          Inr revision \<Rightarrow>
            io_bind (publish env ''agenda'' ''agenda.changed'' revision) (\<lambda>_.
            recover_loop env cutoff ops blocked errors)
        | Inl err \<Rightarrow>
            (let retryable = (\<not> is_create (pa_kind op) \<and> may_retry err);
                 entry = \<lparr>rv_account_id = pa_account_id op, rv_operation_id = pa_id op,
                          rv_message = provider_error_text err, rv_retryable = retryable\<rparr> in
             if retryable
             then io_bind (storage env (db_update env (\<lambda>now. defer_operation now (pa_id op) (provider_error_text err)))) (\<lambda>_.
                  recover_loop env cutoff ops (insert (pa_account_id op) blocked) (errors @ [entry]))
             else io_bind (storage env (db_update env (\<lambda>now. finish_operation now (pa_id op) (Inl (provider_error_text err))))) (\<lambda>_.
                  recover_loop env cutoff ops blocked (errors @ [entry])))) s1 = (Inr errors', s')"
      using run by (auto simp: in_backoff_def io_bind_Inr io_attempt_def split: prod.splits)
    have s1: "db_inv db_ok s1"
      using io_postD [OF post_recover_operation [OF env recovery_keeps_db_ok] _ op] Cons.prems(2) by (simp add: db_inv_def)
    have own': "env_meets (db_inv (settled (pa_id op))) env" using Cons.prems(1) by simp
    have stays: "settled (pa_id op) (dm_db s')"
      if "settled (pa_id op) (dm_db s2)" "recover_loop env cutoff ops b e s2 = (Inr errors', s')" for s2 b e
      using io_postD [OF post_recover_loop [OF own' recovery_keeps_settled] _ that(2)] that(1) by (simp add: db_inv_def)
    show ?thesis
    proof (cases r)
      case (Inr revision)
      define s2 where "s2 = snd (publish env ''agenda'' ''agenda.changed'' revision s1 :: (rpc_error + unit) \<times> ('a, 'b) daemon)"
      have s2: "dm_db s2 = dm_db s1" "recover_loop env cutoff ops blocked errors s2 = (Inr errors', s')"
        using rest Inr by (simp_all add: io_bind_def publish_def s2_def)
      have "settled (pa_id op) (dm_db s1)"
        using io_landsD [OF lands_recover_operation [OF env own'] _ op [unfolded Inr]] Cons.prems(2) by (simp add: db_inv_def)
      then have "settled (pa_id op) (dm_db s')" using stays [OF _ s2(2)] s2(1) by simp
      moreover have "db_ok (dm_db s2)" using s1 s2(1) by (simp add: db_inv_def)
      ultimately show ?thesis using ih [OF _ s2(2)] more [of blocked] by (auto simp: settled_or_waits_def [of _ _ _ _ _ op])
    next
      case (Inl err)
      let ?entry = "\<lambda>b. \<lparr>rv_account_id = pa_account_id op, rv_operation_id = pa_id op,
                          rv_message = provider_error_text err, rv_retryable = b\<rparr>"
      show ?thesis
      proof (cases "\<not> is_create (pa_kind op) \<and> may_retry err")
        case True
        then obtain u s2 where d: "storage env (db_update env (\<lambda>now. defer_operation now (pa_id op) (provider_error_text err))) s1 = (Inr u, s2)"
          and l: "recover_loop env cutoff ops (insert (pa_account_id op) blocked) (errors @ [?entry True]) s2 = (Inr errors', s')"
          using rest Inl by (auto simp: Let_def io_bind_Inr)
        have "db_ok (dm_db s2)"
          using io_postD [OF post_recovery_jobs(6) [OF env recovery_keeps_db_ok] s1 d [unfolded storage_def]] by (simp add: db_inv_def)
        note facts = ih [OF this l]
        then have "?entry True \<in> set errors'" by auto
        then have "\<exists>e \<in> set errors'. rv_account_id e = pa_account_id op \<and> rv_retryable e" by force
        with facts show ?thesis
          using more [of "insert (pa_account_id op) blocked"] by (auto simp: settled_or_waits_def [of _ _ _ _ _ op])
      next
        case False
        then obtain u s2 e where d: "storage env (db_update env (\<lambda>now. finish_operation now (pa_id op) (Inl (provider_error_text err)))) s1 = (Inr u, s2)"
          and l: "recover_loop env cutoff ops blocked (errors @ [e]) s2 = (Inr errors', s')"
          using rest Inl by (auto simp: Let_def io_bind_Inr)
        have "settled (pa_id op) (dm_db s2)"
          using io_landsD [OF io_lands_map_err [OF lands_finish [OF env]] s1 d [unfolded storage_def]] by (simp add: db_inv_def)
        moreover from this have "settled (pa_id op) (dm_db s')" using stays l by blast
        ultimately show ?thesis
          using ih [OF _ l] more [of blocked] by (auto simp: settled_or_waits_def [of _ _ _ _ _ op] settled_def [of _ "dm_db s2"])
      qed
    qed
  qed
qed

text \<open>C13: a recovery leaves nothing hanging. Let the other tasks and the providers keep the database's invariant and
  never make an operation pending again that has left that state. When a recovery returns, every operation it
  listed is no longer pending, or its account waits: for the retry interval of an operation of that account, or
  because the recovery just reported a retryable failure of that account. So no operation is stuck for ever
  while the provider answers.\<close>

theorem recovery_settles:
  assumes env: "env_meets (db_inv db_ok) env" and ok: "db_ok (dm_db s)"
    and ops: "list_pending_agenda_operations account_id (dm_db (de_others env (de_others env s))) = Inr ops"
    and own: "\<forall>op \<in> set ops. env_meets (db_inv (settled (pa_id op))) env"
    and run: "recover_pending_agenda_operations env account_id s = (Inr errors, s')"
  shows "\<forall>op \<in> set ops. not_pending (pa_id op) (dm_db s')
     \<or> (\<exists>op' \<in> set ops. pa_account_id op' = pa_account_id op
          \<and> in_backoff (de_now env (de_others env (de_others env s)) - AGENDA_RETRY_BACKOFF_MS) op')
     \<or> (\<exists>e \<in> set errors. rv_account_id e = pa_account_id op \<and> rv_retryable e)"
proof -
  let ?s = "de_others env (de_others env s)"
  have same: "?s\<lparr>dm_db := dm_db ?s\<rparr> = ?s" by simp
  have "recover_loop env (de_now env ?s - AGENDA_RETRY_BACKOFF_MS) ops {} [] ?s = (Inr errors, s')"
    using run ops by (simp add: recover_pending_agenda_operations_def io_bind_def await_lock_def storage_def io_map_err_def
        db_read_def db_call_def Let_def)
  moreover have "db_inv db_ok ?s" using ok by (intro env_others [OF env]) (simp add: db_inv_def)
  ultimately show ?thesis
    using recover_loop_settles [OF env] own by (fastforce simp: settled_or_waits_def settled_def db_inv_def)
qed

definition sample_operations_db :: db where
  "sample_operations_db = sample_db\<lparr>d_operations :=
     [new_operation ''op'' ''agenda_task_create'' (JObj [(''accountId'', JStr ''a'')]) 5]\<rparr>"

lemma db_ok_sample_operations: "db_ok sample_operations_db"
  unfolding sample_operations_db_def
  by (rule db_ok_set_operations [OF db_ok_sample_db]) (simp_all add: keyed_def new_operation_def OPERATION_STATES_def)

definition sample_recovery :: "(rpc_error + recovery_error list) \<times> (unit, unit) daemon" where
  "sample_recovery = recover_pending_agenda_operations sample_env None (sample_daemon sample_operations_db)"

lemma single_recovery_error:
  "x = (Inr [r], y) \<Longrightarrow> \<exists>errors. fst x = Inr errors \<and> map rv_retryable errors = [rv_retryable r]"
  by simp

theorem recovery_settles_witness:
  "\<exists>errors. fst sample_recovery = Inr errors \<and> map rv_retryable errors = [False] \<and> not_pending ''op'' (dm_db (snd sample_recovery))"
proof -
  have ops: "list_pending_agenda_operations None (dm_db (sample_daemon sample_operations_db))
      = Inr [\<lparr>pa_id = ''op'', pa_kind = ''agenda_task_create'', pa_account_id = ''a'',
              pa_payload = JObj [(''accountId'', JStr ''a'')], pa_attempted_at = None\<rparr>]"
    by (simp add: sample_daemon_def sample_operations_db_def list_pending_agenda_operations_def MAX_RECOVERY_OPERATIONS_def
        new_operation_def pending_agenda_row_def read_pending_operation_def parse_json_def like_agenda_def starts_with_def)
  let ?op = "\<lparr>pa_id = ''op'', pa_kind = ''agenda_task_create'', pa_account_id = ''a'',
              pa_payload = JObj [(''accountId'', JStr ''a'')], pa_attempted_at = None\<rparr>"
  have "sample_recovery = recover_loop sample_env (1000 - AGENDA_RETRY_BACKOFF_MS) [?op] {} [] (sample_daemon sample_operations_db)"
    using ops by (simp add: sample_recovery_def recover_pending_agenda_operations_def io_bind_def await_lock_def storage_def
        io_map_err_def db_read_def db_call_def Let_def sample_env_def del: recover_loop.simps)
  moreover have "finish_operation 1000 ''op'' r sample_operations_db \<noteq> Inl x" for r x
    by (simp add: finish_operation_def sample_operations_db_def new_operation_def)
  then obtain d where "finish_operation 1000 ''op''
      (Inl (provider_error_text (ProviderOther ''an interrupted create was reconciled instead of replayed to avoid a duplicate'')))
      sample_operations_db = Inr d" by (metis sum.exhaust)
  ultimately have "sample_recovery = (Inr [\<lparr>rv_account_id = ''a'', rv_operation_id = ''op'',
      rv_message = ''provider failure: an interrupted create was reconciled instead of replayed to avoid a duplicate'',
      rv_retryable = False\<rparr>], sample_daemon d)"
    by (simp add: io_bind_def storage_def io_map_err_def db_update_def db_call_def Let_def sample_env_def recover_operation_def
        is_create_def io_attempt_def io_error_def io_return_def sample_daemon_def)
  from single_recovery_error [OF this] obtain errors
    where e: "fst sample_recovery = Inr errors" "map rv_retryable errors = [False]" by auto
  have env: "env_meets (db_inv J) sample_env" for J :: "db \<Rightarrow> bool" by (rule sample_env_meets)
  have run: "recover_pending_agenda_operations sample_env None (sample_daemon sample_operations_db) = (Inr errors, snd sample_recovery)"
    using e(1) by (metis sample_recovery_def prod.collapse)
  have "de_others sample_env t = t" for t by (simp add: sample_env_def)
  then have listed: "list_pending_agenda_operations None (dm_db (de_others sample_env (de_others sample_env (sample_daemon sample_operations_db))))
      = Inr [?op]" using ops by simp
  have ok: "db_ok (dm_db (sample_daemon sample_operations_db))" using db_ok_sample_operations by (simp add: sample_daemon_def)
  have quiet: "\<not> rv_retryable x" if "x \<in> set errors" for x using e(2) that by (cases errors) auto
  obtain p where p: "p = ?op" by blast
  have waits: "\<not> in_backoff t p" for t by (simp add: in_backoff_def p)
  have own: "\<forall>op \<in> set [p]. env_meets (db_inv (settled (pa_id op))) sample_env" by (intro ballI env)
  have "not_pending (pa_id p) (dm_db (snd sample_recovery))"
    using recovery_settles [OF env ok listed [folded p] own run] quiet waits by fastforce
  then have done_op: "not_pending ''op'' (dm_db (snd sample_recovery))" by (simp add: p)
  show ?thesis by (intro exI [of _ errors] conjI e done_op)
qed

end
