(* ===== verification/Daemon_Sync.thy ===== *)
theory Daemon_Sync
  imports Daemon_Recovery
begin

section \<open>Synchronisation by the daemon\<close>

text \<open>
  The part of \<open>daemon.rs\<close> that asks the providers for news: the first page of an account, which a client
  waits for, the background task for its other mailboxes, and the agenda. \<open>dm_syncing\<close> holds the accounts whose
  synchronisation is under way, \<open>dm_removed\<close> those that a client has removed meanwhile, \<open>dm_tasks\<close> the background
  tasks that were spawned. A write of a page happens under the lock of the account mutations and after a look at
  \<open>dm_removed\<close>.
\<close>

definition SYNC_PAGE_SIZE :: nat where "SYNC_PAGE_SIZE = 200"
definition SYNC_FLAG_RECONCILE_SIZE :: nat where "SYNC_FLAG_RECONCILE_SIZE = 64"
definition DAY_MS :: int where "DAY_MS = 24 * 60 * 60 * 1000"

definition is_removed :: "('p, 'g, 'w) daemon_env \<Rightarrow> string \<Rightarrow> ('p, 'w, 'e, bool) dio" where
  "is_removed env account_id = await_read env (\<lambda>s. account_id \<in> dm_removed s)"

definition sync_finished :: "('p, 'g, 'w) daemon_env \<Rightarrow> string \<Rightarrow> ('p, 'w, 'e, unit) dio" where
  "sync_finished env account_id = await_update env (\<lambda>s. s\<lparr>dm_syncing := dm_syncing s - {account_id}\<rparr>)"

subsection \<open>The agenda of an account\<close>

definition sync_remote_agenda :: "('p, 'g, 'w) daemon_env \<Rightarrow> account \<Rightarrow> ('p, 'w, provider_error, nat option) dio" where
  "sync_remote_agenda env account =
     io_bind (await_lock env) (\<lambda>_.
     io_bind (is_removed env (a_id account)) (\<lambda>removed.
     if removed then io_return None
     else
       io_bind (ag_discover env account) (\<lambda>found.
       case found of
         None \<Rightarrow> io_return None
       | Some g \<Rightarrow> (\<lambda>s.
           let start_ts = de_now env s - 31 * DAY_MS; end_ts = de_now env s + 400 * DAY_MS in
           io_bind (ag_sync env g start_ts end_ts) (\<lambda>page.
           io_bind (io_map_err (\<lambda>e. ProviderOther (''could not cache remote agenda: '' @ storage_error_text (de_detail env) e))
             (db_call env (\<lambda>_ _. replace_remote_agenda (a_id account) start_ts end_ts (ap_tasks page) (ap_events page)))) (\<lambda>revision.
           io_return (Some revision))) s))))"

subsection \<open>One page of a mailbox\<close>

definition page_error :: "('p, 'g, 'w) daemon_env \<Rightarrow> string \<Rightarrow> ('p, 'w, storage_error, 'a) dio \<Rightarrow> ('p, 'w, provider_error, 'a) dio" where
  "page_error env msg m = io_map_err (\<lambda>e. ProviderOther (msg @ storage_error_text (de_detail env) e)) m"

definition reconcile_query :: "mailbox \<Rightarrow> message_query" where
  "reconcile_query mb = \<lparr>q_account_id = Some (mb_account_id mb), q_mailbox_id = Some (mb_id mb), q_search = None,
     q_unread_only = False, q_cursor = None, q_limit = SYNC_FLAG_RECONCILE_SIZE\<rparr>"

fun add_missing :: "string list \<Rightarrow> string list \<Rightarrow> string list" where
  "add_missing ids [] = ids"
| "add_missing ids (i # rest) = add_missing (if i \<in> set ids then ids else ids @ [i]) rest"

definition sync_mailbox_page :: "('p, 'g, 'w) daemon_env \<Rightarrow> 'p \<Rightarrow> mailbox \<Rightarrow> ('p, 'w, provider_error, unit) dio" where
  "sync_mailbox_page env p mb =
     io_bind (is_removed env (mb_account_id mb)) (\<lambda>removed.
     if removed then io_return ()
     else
       io_bind (page_error env ''could not read mailbox sync state: '' (db_read env (mailbox_sync_cursor (mb_account_id mb) (mb_id mb)))) (\<lambda>cursor.
       io_bind (page_error env ''could not read cached mailbox page: '' (cached_page env (reconcile_query mb))) (\<lambda>cached.
       io_bind (page_error env ''could not read thread metadata backfill page: ''
         (db_read env (thread_metadata_backfill_ids (mb_account_id mb) (mb_id mb) SYNC_FLAG_RECONCILE_SIZE))) (\<lambda>backfill_ids.
       io_bind (pv_sync_mailbox env p \<lparr>sq_account_id = mb_account_id mb, sq_mailbox_id = mb_id mb, sq_cursor = cursor,
           sq_limit = SYNC_PAGE_SIZE,
           sq_reconcile_message_ids = add_missing (map ms_id (p_messages cached)) backfill_ids\<rparr>) (\<lambda>page.
       io_bind (await_lock env) (\<lambda>_.
       io_bind (is_removed env (mb_account_id mb)) (\<lambda>removed.
       if removed then io_return ()
       else
         io_bind (page_error env ''could not cache sync page: ''
           (db_call env (\<lambda>now _. apply_mailbox_sync_page now now (mb_account_id mb) (mb_id mb) page))) (\<lambda>_.
         io_return ()))))))))"

subsection \<open>Failures and the state shown to clients\<close>

definition failure_state :: "provider_error \<Rightarrow> string" where
  "failure_state err = (if is_authentication err then ''needs_auth'' else ''error'')"

text \<open>An error of the store is only logged.\<close>

definition persist_provider_failure :: "('p, 'g, 'w) daemon_env \<Rightarrow> string \<Rightarrow> provider_error \<Rightarrow> ('p, 'w, 'e, unit) dio" where
  "persist_provider_failure env account_id err =
     io_bind (await_lock env) (\<lambda>_.
     io_bind (is_removed env account_id) (\<lambda>removed.
     if removed then io_return ()
     else
       io_bind (io_attempt (db_call env (\<lambda>now _.
         set_account_auth_state now account_id (failure_state err) (Some (provider_error_text err))))) (\<lambda>_.
       io_return ())))"

definition sync_state_params :: "int \<Rightarrow> nat \<Rightarrow> string option \<Rightarrow> nat \<Rightarrow> string option \<Rightarrow> json" where
  "sync_state_params now remaining account_id revision err =
     (let status = (if err \<noteq> None then ''error'' else if 0 < remaining then ''running'' else ''idle'');
          params = JObj [(''revision'', JNum (int revision)), (''at'', JNum now), (''status'', JStr status),
            (''running'', JBool (0 < remaining)), (''backgroundRemaining'', JNum (int remaining))];
          params = (case account_id of None \<Rightarrow> params | Some a \<Rightarrow> json_set ''accountId'' (JStr a) params) in
      case err of None \<Rightarrow> params | Some e \<Rightarrow> json_set ''error'' (JStr e) params)"

definition publish_sync_state ::
    "('p, 'g, 'w) daemon_env \<Rightarrow> string option \<Rightarrow> nat \<Rightarrow> string option \<Rightarrow> ('p, 'w, 'e, unit) dio" where
  "publish_sync_state env account_id revision err =
     io_bind (await_read env (\<lambda>s. card (dm_syncing s))) (\<lambda>remaining s.
     (Inr (), s\<lparr>dm_events := dm_events s @ [\<lparr>ev_topic = ''sync'', ev_method = ''sync.changed'',
        ev_params = sync_state_params (de_now env s) remaining account_id revision err\<rparr>]\<rparr>))"

subsection \<open>Background tasks\<close>

text \<open>The shutdown signal ends the loop before the page of a mailbox is asked for. A page dropped while the provider
  is at work has changed nothing but the outside, which \<open>de_others\<close> may do as well.\<close>

fun sync_background_pages :: "('p, 'g, 'w) daemon_env \<Rightarrow> 'p \<Rightarrow> mailbox list \<Rightarrow> ('p, 'w, rpc_error, bool) dio" where
  "sync_background_pages env p [] = io_return True"
| "sync_background_pages env p (mb # mailboxes) =
     io_bind (await_read env dm_shutdown) (\<lambda>stopped.
     if stopped then io_return False
     else
       io_bind (io_attempt (sync_mailbox_page env p mb)) (\<lambda>r.
       case r of
         Inl err \<Rightarrow>
           io_bind (persist_provider_failure env (a_id (pv_account env p)) err) (\<lambda>_. io_error (provider_rpc_error err))
       | Inr _ \<Rightarrow>
           io_bind (is_removed env (a_id (pv_account env p))) (\<lambda>removed.
           if removed then io_return False else sync_background_pages env p mailboxes)))"

definition run_background_sync :: "('p, 'g, 'w) daemon_env \<Rightarrow> 'p \<Rightarrow> mailbox list \<Rightarrow> ('p, 'w, rpc_error, nat option) dio" where
  "run_background_sync env p mailboxes =
     io_bind (sync_background_pages env p mailboxes) (\<lambda>complete.
     if \<not> complete then io_return None
     else
       io_bind (await_lock env) (\<lambda>_.
       io_bind (is_removed env (a_id (pv_account env p))) (\<lambda>removed.
       if removed then io_return None
       else
         io_bind (storage env (db_call env (\<lambda>now _. set_account_auth_state now (a_id (pv_account env p)) ''ready'' None))) (\<lambda>_.
         io_bind (storage env (db_read env read_revision)) (\<lambda>revision.
         io_return (Some revision))))))"

definition revision_or_default :: "('p, 'g, 'w) daemon_env \<Rightarrow> ('p, 'w, 'e, nat) dio" where
  "revision_or_default env =
     io_bind (io_attempt (db_read env read_revision)) (\<lambda>r. io_return (case r of Inl _ \<Rightarrow> 0 | Inr revision \<Rightarrow> revision))"

definition background_task :: "('p, 'g, 'w) daemon_env \<Rightarrow> 'p \<Rightarrow> mailbox list \<Rightarrow> ('p, 'w, rpc_error, unit) dio" where
  "background_task env p mailboxes =
     (let account_id = a_id (pv_account env p) in
      io_bind (io_attempt (run_background_sync env p mailboxes)) (\<lambda>r.
      io_bind (sync_finished env account_id) (\<lambda>_.
      case r of
        Inr (Some revision) \<Rightarrow>
          io_bind (publish env ''mail'' ''mail.changed'' revision) (\<lambda>_.
          publish_sync_state env (Some account_id) revision None)
      | Inr None \<Rightarrow>
          io_bind (revision_or_default env) (\<lambda>revision. publish_sync_state env (Some account_id) revision None)
      | Inl err \<Rightarrow>
          io_bind (revision_or_default env) (\<lambda>revision.
          io_bind (publish env ''mail'' ''mail.changed'' revision) (\<lambda>_.
          publish_sync_state env (Some account_id) revision (Some (re_message err)))))))"

definition schedule_background_sync :: "('p, 'g, 'w) daemon_env \<Rightarrow> 'p \<Rightarrow> mailbox list \<Rightarrow> ('p, 'w, 'e, bool) dio" where
  "schedule_background_sync env p mailboxes s =
     (if mailboxes = [] \<or> dm_shutdown s
      then io_bind (sync_finished env (a_id (pv_account env p))) (\<lambda>_. io_return False) s
      else io_bind (await_update env (\<lambda>s. s\<lparr>dm_tasks := dm_tasks s @ [(p, mailboxes)]\<rparr>)) (\<lambda>_. io_return True) s)"

subsection \<open>Synchronising accounts\<close>

definition is_inbox :: "mailbox \<Rightarrow> bool" where
  "is_inbox mb \<longleftrightarrow> mb_role mb = Some Inbox \<or> eq_ignore_ascii_case (mb_name mb) ''inbox''"

definition inbox_first :: "mailbox list \<Rightarrow> mailbox list" where
  "inbox_first mailboxes = sort_key (\<lambda>mb. if is_inbox mb then 0 else (1 :: nat)) mailboxes"

text \<open>\<open>begin_sync\<close> is the insertion into the set of running synchronisations.\<close>

definition begin_sync :: "('p, 'g, 'w) daemon_env \<Rightarrow> string \<Rightarrow> ('p, 'w, 'e, bool) dio" where
  "begin_sync env account_id =
     io_bind (await_read env (\<lambda>s. account_id \<in> dm_syncing s)) (\<lambda>running s.
     (Inr (\<not> running), s\<lparr>dm_syncing := insert account_id (dm_syncing s)\<rparr>))"

definition finish_with :: "('p, 'g, 'w) daemon_env \<Rightarrow> string \<Rightarrow> rpc_error \<Rightarrow> ('p, 'w, rpc_error, 'a) dio" where
  "finish_with env account_id err = io_bind (sync_finished env account_id) (\<lambda>_. io_error err)"

definition provider_failed :: "('p, 'g, 'w) daemon_env \<Rightarrow> string \<Rightarrow> provider_error \<Rightarrow> ('p, 'w, rpc_error, 'a) dio" where
  "provider_failed env account_id err =
     io_bind (persist_provider_failure env account_id err) (\<lambda>_. finish_with env account_id (provider_rpc_error err))"

text \<open>The second half of the loop body of \<open>sync_selected_accounts\<close>, after the mailboxes are stored.\<close>

definition sync_inbox :: "('p, 'g, 'w) daemon_env \<Rightarrow> 'p \<Rightarrow> mailbox list \<Rightarrow> ('p, 'w, rpc_error, bool) dio" where
  "sync_inbox env p mailboxes =
     io_bind (io_attempt (case mailboxes of [] \<Rightarrow> io_return () | inbox # _ \<Rightarrow> sync_mailbox_page env p inbox)) (\<lambda>paged.
     case paged of
       Inl err \<Rightarrow> provider_failed env (a_id (pv_account env p)) err
     | Inr _ \<Rightarrow>
         io_bind (io_attempt (sync_remote_agenda env (pv_account env p))) (\<lambda>agenda.
         io_bind (case agenda of Inr (Some revision) \<Rightarrow> publish env ''agenda'' ''agenda.changed'' revision | _ \<Rightarrow> io_return ()) (\<lambda>_.
         schedule_background_sync env p (drop 1 mailboxes))))"

definition store_mailboxes :: "('p, 'g, 'w) daemon_env \<Rightarrow> string \<Rightarrow> mailbox list \<Rightarrow> ('p, 'w, storage_error, unit) dio" where
  "store_mailboxes env account_id mailboxes =
     io_bind (db_call env (\<lambda>_ _. upsert_mailboxes mailboxes)) (\<lambda>_.
     case account_counts_from_mailboxes mailboxes of (unread, tot) \<Rightarrow>
       io_bind (db_call env (\<lambda>now _. update_account_counts now account_id unread tot)) (\<lambda>_. io_return ()))"

definition sync_account :: "('p, 'g, 'w) daemon_env \<Rightarrow> 'p \<Rightarrow> ('p, 'w, rpc_error, bool) dio" where
  "sync_account env p =
     (let account_id = a_id (pv_account env p) in
      io_bind (begin_sync env account_id) (\<lambda>started.
      if \<not> started then io_return True
      else
        io_bind (io_attempt (pv_list_mailboxes env p)) (\<lambda>listed.
        case listed of
          Inl err \<Rightarrow> provider_failed env account_id err
        | Inr listed \<Rightarrow>
            io_bind (await_lock env) (\<lambda>_.
            io_bind (is_removed env account_id) (\<lambda>removed.
            if removed then io_bind (sync_finished env account_id) (\<lambda>_. io_return False)
            else
              io_bind (io_attempt (store_mailboxes env account_id (inbox_first listed))) (\<lambda>stored.
              case stored of
                Inl err \<Rightarrow> finish_with env account_id (storage_rpc_error (de_detail env) err)
              | Inr _ \<Rightarrow> sync_inbox env p (inbox_first listed)))))))"

fun sync_accounts :: "('p, 'g, 'w) daemon_env \<Rightarrow> 'p list \<Rightarrow> bool \<Rightarrow> ('p, 'w, rpc_error, bool) dio" where
  "sync_accounts env [] background_started = io_return background_started"
| "sync_accounts env (p # ps) background_started =
     io_bind (sync_account env p) (\<lambda>started. sync_accounts env ps (background_started \<or> started))"

definition sync_selected_accounts :: "('p, 'g, 'w) daemon_env \<Rightarrow> string option \<Rightarrow> ('p, 'w, rpc_error, nat \<times> bool) dio" where
  "sync_selected_accounts env account_id =
     io_bind (case account_id of
         Some i \<Rightarrow> io_bind (provider_for_account env i) (\<lambda>p. io_return [p])
       | None \<Rightarrow> await_read env (\<lambda>s. map snd (dm_providers s))) (\<lambda>ps.
     io_bind (sync_accounts env ps False) (\<lambda>background_started.
     io_bind (storage env (db_read env read_revision)) (\<lambda>revision.
     io_return (revision, background_started))))"

subsection \<open>Synchronising agendas\<close>

definition agenda_error_json :: "string \<Rightarrow> provider_error \<Rightarrow> json" where
  "agenda_error_json account_id err = JObj [(''accountId'', JStr account_id), (''message'', JStr (provider_error_text err))]"

fun sync_agendas :: "('p, 'g, 'w) daemon_env \<Rightarrow> bool \<Rightarrow> account list \<Rightarrow> json list \<Rightarrow> ('p, 'w, rpc_error, json list) dio" where
  "sync_agendas env selected [] errors = io_return errors"
| "sync_agendas env selected (account # accounts) errors =
     io_bind (io_attempt (sync_remote_agenda env account)) (\<lambda>r.
     case r of
       Inr (Some revision) \<Rightarrow>
         io_bind (publish env ''agenda'' ''agenda.changed'' revision) (\<lambda>_. sync_agendas env selected accounts errors)
     | Inr None \<Rightarrow> sync_agendas env selected accounts errors
     | Inl err \<Rightarrow>
         if selected then io_error (provider_rpc_error err)
         else sync_agendas env selected accounts (errors @ [agenda_error_json (a_id account) err]))"

definition sync_selected_agendas :: "('p, 'g, 'w) daemon_env \<Rightarrow> string option \<Rightarrow> ('p, 'w, rpc_error, nat \<times> json list) dio" where
  "sync_selected_agendas env account_id =
     io_bind (storage env (db_read env list_accounts)) (\<lambda>all_accounts.
     io_bind (io_lift (case account_id of
         None \<Rightarrow> Inr all_accounts
       | Some i \<Rightarrow> map_ok (\<lambda>a. [a]) (ok_or (find (\<lambda>a. a_id a = i) all_accounts) (invalid_params ''unknown agenda account'')))) (\<lambda>accounts.
     io_bind (sync_agendas env (account_id \<noteq> None) (filter agenda_account_supported accounts) []) (\<lambda>errors.
     io_bind (storage env (db_read env read_revision)) (\<lambda>revision.
     io_return (revision, errors)))))"

subsection \<open>The requests\<close>

definition handle_agenda_sync :: "('p, 'g, 'w) daemon_env \<Rightarrow> string option \<Rightarrow> ('p, 'w, rpc_error, reply) dio" where
  "handle_agenda_sync env account_id =
     io_bind (recover_pending_agenda_operations env account_id) (\<lambda>errors.
     io_bind (sync_selected_agendas env account_id) (\<lambda>(revision, sync_errors).
     io_bind (publish env ''agenda'' ''agenda.changed'' revision) (\<lambda>_.
     io_return (AgendaSynced revision (map recovery_error_json errors @ sync_errors)))))"

definition handle_sync_start :: "('p, 'g, 'w) daemon_env \<Rightarrow> string option \<Rightarrow> ('p, 'w, rpc_error, reply) dio" where
  "handle_sync_start env account_id =
     io_bind (recover_pending_agenda_operations env account_id) (\<lambda>_.
     io_bind (sync_selected_accounts env account_id) (\<lambda>(revision, background_started).
     io_bind (publish env ''mail'' ''mail.changed'' revision) (\<lambda>_.
     io_bind (publish_sync_state env account_id revision None) (\<lambda>_.
     io_return (SyncStarted background_started revision)))))"

end
