(* ===== verification/Daemon_Sync_Facts.thy ===== *)
theory Daemon_Sync_Facts
  imports Daemon_Sync
begin

section \<open>What a synchronisation keeps\<close>

text \<open>
  The functions of theory \<open>Daemon_Sync\<close> keep every invariant that the surroundings keep and that the five
  database calls of a synchronisation keep for the accounts that are not removed. Two invariants are of this
  kind: the integrity of the store, and that a removed account is not written again.
\<close>

subsection \<open>Safe surroundings of a synchronisation\<close>

text \<open>\<open>A\<close> holds of the accounts that are not removed, \<open>C\<close> of the identifiers that accounts have.\<close>

definition sync_safe :: "(string \<Rightarrow> bool) \<Rightarrow> (string \<Rightarrow> bool) \<Rightarrow> (('p, 'w) daemon \<Rightarrow> bool) \<Rightarrow> ('p, 'g, 'w) daemon_env \<Rightarrow> bool" where
  "sync_safe C A I env \<longleftrightarrow> env_meets I env
     \<and> (\<forall>p. C (a_id (pv_account env p)))
     \<and> io_post I (db_read env list_accounts) (\<lambda>as. \<forall>a \<in> set as. C (a_id a))
     \<and> (\<forall>s es. I s \<longrightarrow> I (s\<lparr>dm_events := es\<rparr>))
     \<and> (\<forall>a. io_post I (is_removed env a :: ('p, 'w, provider_error, bool) dio) (\<lambda>r. \<not> r \<longrightarrow> A a))
     \<and> (\<forall>a mb p. A a \<longrightarrow> page_ok p \<longrightarrow> io_post I (db_call env (\<lambda>now _. apply_mailbox_sync_page now now a mb p)) anything)
     \<and> (\<forall>a t0 t1 p. A a \<longrightarrow> C a \<longrightarrow> agenda_page_ok p \<longrightarrow>
           io_post I (db_call env (\<lambda>_ _. replace_remote_agenda a t0 t1 (ap_tasks p) (ap_events p))) anything)
     \<and> (\<forall>a st e. A a \<longrightarrow> io_post I (db_call env (\<lambda>now _. set_account_auth_state now a st e)) anything)
     \<and> (\<forall>a mbs. A a \<longrightarrow> io_post I (db_call env (\<lambda>_ _. upsert_mailboxes mbs)) anything)
     \<and> (\<forall>a u t. A a \<longrightarrow> io_post I (db_call env (\<lambda>now _. update_account_counts now a u t)) anything)"

definition sync_frame :: "(('p, 'w) daemon \<Rightarrow> bool) \<Rightarrow> bool" where
  "sync_frame I \<longleftrightarrow> (\<forall>s x. I s \<longrightarrow> I (s\<lparr>dm_syncing := x\<rparr>)) \<and> (\<forall>s x. I s \<longrightarrow> I (s\<lparr>dm_tasks := x\<rparr>))"

lemma sync_safe_meets: "sync_safe C A I env \<Longrightarrow> env_meets I env"
  by (simp add: sync_safe_def)

lemma post_read_any:
  assumes "env_meets I env"
  shows "io_post I (db_read env f) anything"
  using env_others [OF assms]
  by (auto simp: io_post_def db_read_def db_call_def map_ok_def Let_def split: sum.splits)

lemma post_is_removed:
  assumes "sync_safe C A I env"
  shows "io_post I (is_removed env a) (\<lambda>r. \<not> r \<longrightarrow> A a)"
proof -
  have "io_post I (is_removed env a :: ('a, 'b, provider_error, bool) dio) (\<lambda>r. \<not> r \<longrightarrow> A a)"
    using assms by (simp add: sync_safe_def)
  then show ?thesis by (simp add: io_post_def is_removed_def await_read_def Let_def)
qed

lemma post_sync_calls:
  assumes "sync_safe C A I env" "A a"
  shows "page_ok p \<Longrightarrow> io_post I (page_error env m (db_call env (\<lambda>now _. apply_mailbox_sync_page now now a mb p))) anything"
    and "agenda_page_ok g \<Longrightarrow> C a \<Longrightarrow> io_post I (io_map_err h (db_call env (\<lambda>_ _. replace_remote_agenda a t0 t1 (ap_tasks g) (ap_events g)))) anything"
    and "io_post I (db_call env (\<lambda>now _. set_account_auth_state now a st e)) anything"
    and "io_post I (db_call env (\<lambda>_ _. upsert_mailboxes mbs)) anything"
    and "io_post I (db_call env (\<lambda>now _. update_account_counts now a u t)) anything"
  using assms by (auto simp: sync_safe_def page_error_def intro: io_post_map_err)

lemma post_sync_read:
  assumes "sync_safe C A I env"
  shows "io_post I (page_error env m (db_read env f)) anything" "io_post I (storage env (db_read env f)) anything"
  unfolding page_error_def by (intro io_post_map_err io_post_storage post_read_any sync_safe_meets [OF assms])+

lemma sync_safe_events: "sync_safe C A I env \<Longrightarrow> I s \<Longrightarrow> I (s\<lparr>dm_events := es\<rparr>)"
  unfolding sync_safe_def by blast

lemma post_event:
  assumes "sync_safe C A I env"
  shows "io_post I (publish env t m r) anything"
  by (simp add: io_post_def publish_def sync_safe_events [OF assms])

lemma post_publish_sync_state:
  assumes "sync_safe C A I env"
  shows "io_post I (publish_sync_state env a r e) anything"
  unfolding publish_sync_state_def
  by (rule io_post_bind [OF post_await(1) [OF sync_safe_meets [OF assms]]]) (simp add: io_post_def sync_safe_events [OF assms])

subsection \<open>Pages, agendas, failures\<close>

lemma post_sync_mailbox_page:
  assumes safe: "sync_safe C A I env"
  shows "io_post I (sync_mailbox_page env p mb) anything"
  unfolding sync_mailbox_page_def cached_page_def
  by (auto intro!: io_post_bind [OF post_is_removed [OF safe]] io_post_return io_post_bind [OF post_sync_read(1) [OF safe]]
      io_post_bind [OF post_provider(2) [OF sync_safe_meets [OF safe]]] io_post_bind [OF post_await(2) [OF sync_safe_meets [OF safe]]]
      io_post_bind [OF post_sync_calls(1) [OF safe]])

lemma post_sync_remote_agenda:
  assumes safe: "sync_safe C A I env" and plain: "C (a_id account)"
  shows "io_post I (sync_remote_agenda env account) anything"
proof -
  note meets = sync_safe_meets [OF safe]
  have asked: "io_post I (\<lambda>s. let start_ts = de_now env s - 31 * DAY_MS; end_ts = de_now env s + 400 * DAY_MS in
           io_bind (ag_sync env g start_ts end_ts) (\<lambda>page.
           io_bind (io_map_err h (db_call env (\<lambda>_ _. replace_remote_agenda (a_id account) start_ts end_ts (ap_tasks page) (ap_events page)))) (\<lambda>revision.
           io_return (Some revision))) s) anything" if "A (a_id account)" for g h
  proof -
    have "io_post I (io_bind (ag_sync env g t0 t1) (\<lambda>page.
           io_bind (io_map_err h (db_call env (\<lambda>_ _. replace_remote_agenda (a_id account) t0 t1 (ap_tasks page) (ap_events page)))) (\<lambda>revision.
           io_return (Some revision)))) anything" for t0 t1
      by (auto intro!: io_post_bind [OF post_agenda(9) [OF meets]] io_post_bind [OF post_sync_calls(2) [OF safe that _ plain]] io_post_return)
    then show ?thesis unfolding io_post_def Let_def by blast
  qed
  show ?thesis
    unfolding sync_remote_agenda_def
    by (auto intro!: io_post_bind [OF post_await(2) [OF meets]] io_post_bind [OF post_is_removed [OF safe]] io_post_return
        io_post_bind [OF post_agenda(1) [OF meets]] asked split: option.splits)
qed

lemma post_persist_provider_failure:
  assumes safe: "sync_safe C A I env"
  shows "io_post I (persist_provider_failure env a err) anything"
  unfolding persist_provider_failure_def
  by (auto intro!: io_post_bind [OF post_await(2) [OF sync_safe_meets [OF safe]]] io_post_bind [OF post_is_removed [OF safe]]
      io_post_return io_post_bind [OF io_post_attempt [OF post_sync_calls(3) [OF safe]]])

lemma post_store_mailboxes:
  assumes safe: "sync_safe C A I env" and "A a"
  shows "io_post I (store_mailboxes env a mbs) anything"
  unfolding store_mailboxes_def
  by (auto intro!: io_post_bind [OF post_sync_calls(4) [OF assms]] io_post_bind [OF post_sync_calls(5) [OF assms]] io_post_return
      split: prod.splits)

lemma post_background_pages:
  assumes safe: "sync_safe C A I env"
  shows "io_post I (sync_background_pages env p mbs) anything"
  by (induction mbs)
    (auto intro!: io_post_return io_post_error io_post_bind [OF post_await(1) [OF sync_safe_meets [OF safe]]]
      io_post_bind [OF io_post_attempt [OF post_sync_mailbox_page [OF safe]]]
      io_post_bind [OF post_persist_provider_failure [OF safe]] io_post_bind [OF post_is_removed [OF safe]] split: sum.splits)

lemma post_run_background_sync:
  assumes safe: "sync_safe C A I env"
  shows "io_post I (run_background_sync env p mbs) anything"
  unfolding run_background_sync_def
  by (auto intro!: io_post_bind [OF post_background_pages [OF safe]] io_post_return io_post_bind [OF post_await(2) [OF sync_safe_meets [OF safe]]]
      io_post_bind [OF post_is_removed [OF safe]] io_post_bind [OF io_post_storage [OF post_sync_calls(3) [OF safe]]]
      io_post_bind [OF post_sync_read(2) [OF safe]])

lemma post_revision_or_default:
  assumes "sync_safe C A I env"
  shows "io_post I (revision_or_default env) anything"
  unfolding revision_or_default_def
  by (rule io_post_bind [OF io_post_attempt [OF post_read_any [OF sync_safe_meets [OF assms]]]]) (simp add: io_post_return)

subsection \<open>Accounts\<close>

lemma post_sync_finished:
  assumes "sync_safe C A I env" "sync_frame I"
  shows "io_post I (sync_finished env a) anything"
  unfolding sync_finished_def
  by (rule post_await_update [OF sync_safe_meets [OF assms(1)]]) (use assms(2) in \<open>simp add: sync_frame_def\<close>)

lemma post_background_task:
  assumes safe: "sync_safe C A I env" and "sync_frame I"
  shows "io_post I (background_task env p mbs) anything"
  unfolding background_task_def Let_def
  by (auto intro!: io_post_bind [OF io_post_attempt [OF post_run_background_sync [OF safe]]] io_post_bind [OF post_sync_finished [OF assms]]
      io_post_bind [OF post_event [OF safe]] io_post_bind [OF post_revision_or_default [OF safe]] post_publish_sync_state [OF safe]
      split: sum.splits option.splits)

lemma io_post_branch: "io_post I m Q \<Longrightarrow> io_post I n Q \<Longrightarrow> io_post I (\<lambda>s. if c s then m s else n s) Q"
  unfolding io_post_def by (metis (full_types))

lemma schedule_background_sync_eq:
  "schedule_background_sync env p mbs = (\<lambda>s. if mbs = [] \<or> dm_shutdown s
     then io_bind (sync_finished env (a_id (pv_account env p))) (\<lambda>_. io_return False) s
     else io_bind (await_update env (\<lambda>s. s\<lparr>dm_tasks := dm_tasks s @ [(p, mbs)]\<rparr>)) (\<lambda>_. io_return True) s)"
  by (rule ext) (simp add: schedule_background_sync_def)

lemma post_schedule:
  assumes safe: "sync_safe C A I env" and frame: "sync_frame I"
  shows "io_post I (schedule_background_sync env p mbs) anything"
  unfolding schedule_background_sync_eq
proof (rule io_post_branch)
  show "io_post I (io_bind (sync_finished env (a_id (pv_account env p))) (\<lambda>_. io_return False)) anything"
    by (auto intro!: io_post_bind [OF post_sync_finished [OF assms]] io_post_return)
  have "io_post I (await_update env (\<lambda>s. s\<lparr>dm_tasks := dm_tasks s @ [(p, mbs)]\<rparr>)) anything"
    by (rule post_await_update [OF sync_safe_meets [OF safe]]) (use frame in \<open>simp add: sync_frame_def\<close>)
  then show "io_post I (io_bind (await_update env (\<lambda>s. s\<lparr>dm_tasks := dm_tasks s @ [(p, mbs)]\<rparr>)) (\<lambda>_. io_return True)) anything"
    by (rule io_post_bind) (simp add: io_post_return)
qed

lemma post_provider_failed:
  assumes safe: "sync_safe C A I env" and "sync_frame I"
  shows "io_post I (provider_failed env a e) Q" "io_post I (finish_with env a e') Q"
  unfolding provider_failed_def finish_with_def
  by (auto intro!: io_post_bind [OF post_persist_provider_failure [OF safe]] io_post_bind [OF post_sync_finished [OF assms]] io_post_error)

lemma post_begin_sync:
  assumes safe: "sync_safe C A I env" and "sync_frame I"
  shows "io_post I (begin_sync env a) anything"
  unfolding begin_sync_def
  by (rule io_post_bind [OF post_await(1) [OF sync_safe_meets [OF safe]]]) (use assms(2) in \<open>simp add: sync_frame_def io_post_def\<close>)

lemma post_sync_account:
  assumes safe: "sync_safe C A I env" and frame: "sync_frame I"
  shows "io_post I (sync_account env p) anything"
proof -
  note meets = sync_safe_meets [OF safe]
  have own: "C (a_id (pv_account env p))" using safe by (simp add: sync_safe_def)
  have opt: "io_post I (case agenda of Inr (Some revision) \<Rightarrow> publish env ''agenda'' ''agenda.changed'' revision | _ \<Rightarrow> io_return ()) anything"
    for agenda :: "provider_error + nat option"
    by (auto intro!: post_event [OF safe] io_post_return split: sum.splits option.splits)
  have first: "io_post I (case mbs of [] \<Rightarrow> io_return () | inbox # x \<Rightarrow> sync_mailbox_page env p inbox) anything" for mbs
    by (auto intro: io_post_return post_sync_mailbox_page [OF safe] split: list.splits)
  have "io_post I (sync_inbox env p mbs) anything" for mbs
    unfolding sync_inbox_def
    by (auto intro!: io_post_bind [OF io_post_attempt [OF first]] post_provider_failed [OF assms] io_post_bind [OF opt]
        io_post_bind [OF io_post_attempt [OF post_sync_remote_agenda [OF safe own]]] post_schedule [OF assms] split: sum.splits)
  then show ?thesis
    unfolding sync_account_def Let_def
    by (auto intro!: io_post_bind [OF post_begin_sync [OF assms]] io_post_return io_post_bind [OF io_post_attempt [OF post_provider(1) [OF meets]]]
        post_provider_failed [OF assms] io_post_bind [OF post_await(2) [OF meets]] io_post_bind [OF post_is_removed [OF safe]]
        io_post_bind [OF post_sync_finished [OF assms]] io_post_bind [OF io_post_attempt [OF post_store_mailboxes [OF safe]]]
        split: sum.splits)
qed

lemma post_sync_accounts:
  assumes "sync_safe C A I env" "sync_frame I"
  shows "io_post I (sync_accounts env ps b) anything"
  by (induction ps arbitrary: b) (auto intro!: io_post_return io_post_bind [OF post_sync_account [OF assms]])

lemma post_sync_selected_accounts:
  assumes safe: "sync_safe C A I env" and frame: "sync_frame I"
  shows "io_post I (sync_selected_accounts env a) anything"
proof -
  note meets = sync_safe_meets [OF safe]
  have "io_post I (case a of Some i \<Rightarrow> io_bind (provider_for_account env i) (\<lambda>p. io_return [p])
       | None \<Rightarrow> await_read env (\<lambda>s. map snd (dm_providers s))) anything"
    by (auto intro!: io_post_bind [OF post_provider_for_account [OF meets]] io_post_return post_await(1) [OF meets] split: option.splits)
  then show ?thesis
    unfolding sync_selected_accounts_def
    by (auto intro!: io_post_bind io_post_bind [OF post_sync_accounts [OF assms]] io_post_bind [OF post_sync_read(2) [OF safe]] io_post_return)
qed

lemma post_sync_agendas:
  assumes safe: "sync_safe C A I env" and "\<forall>a \<in> set accounts. C (a_id a)"
  shows "io_post I (sync_agendas env sel accounts errors) anything"
  using assms(2)
  by (induction accounts arbitrary: errors)
    (auto intro!: io_post_return io_post_error io_post_bind [OF io_post_attempt [OF post_sync_remote_agenda [OF safe]]]
      io_post_bind [OF post_event [OF safe]] split: sum.splits option.splits)

lemma post_sync_selected_agendas:
  assumes safe: "sync_safe C A I env"
  shows "io_post I (sync_selected_agendas env a) anything"
proof -
  have listed: "io_post I (storage env (db_read env list_accounts)) (\<lambda>as. \<forall>a \<in> set as. C (a_id a))"
    using safe by (intro io_post_storage) (simp add: sync_safe_def)
  have chosen: "io_post I (io_lift (case a of None \<Rightarrow> Inr all
       | Some i \<Rightarrow> map_ok (\<lambda>a. [a]) (ok_or (find (\<lambda>a. a_id a = i) all) err))) (\<lambda>as. \<forall>a \<in> set as. C (a_id a))"
    if "\<forall>a \<in> set all. C (a_id a)" for all err
    by (rule io_post_lift) (use that in \<open>auto simp: result_simps find_Some_iff split: option.splits\<close>)
  show ?thesis
    unfolding sync_selected_agendas_def
    by (rule io_post_bind [OF listed])
      (auto intro!: io_post_bind [OF chosen] io_post_bind [OF post_sync_agendas [OF safe]] io_post_bind [OF post_sync_read(2) [OF safe]]
        io_post_return)
qed

subsection \<open>The store\<close>

lemma post_job_call:
  assumes "env_good env"
    and "\<And>now uuid d x d'. f now uuid d = Inr (x, d') \<Longrightarrow> exec_job (j now uuid) d = Inr d'"
    and "\<And>now uuid. job_ok (j now uuid) \<and> job_trusted (de_clean env) (j now uuid)"
  shows "io_post (db_inv (store_ok (de_clean env))) (db_call env f) anything"
  using assms(2,3) by (intro post_job [OF assms(1)]) blast

lemma sync_safe_store:
  assumes env: "env_good env"
  shows "sync_safe (\<lambda>_. True) (\<lambda>_. True) (db_inv (store_ok (de_clean env))) env" "sync_frame (db_inv J)"
proof -
  let ?I = "db_inv (store_ok (de_clean env))"
  note meets = env [unfolded env_good_def]
  note job = post_job_call [OF env]
  have page: "io_post ?I (db_call env (\<lambda>now _. apply_mailbox_sync_page now now a mb p)) anything" if "page_ok p" for a mb p
    by (rule job [where j = "\<lambda>now _. ApplyMailboxSyncPage now now a mb p"]) (use that in \<open>simp_all add: page_ok_def\<close>)
  have agenda: "io_post ?I (db_call env (\<lambda>_ _. replace_remote_agenda a t0 t1 (ap_tasks p) (ap_events p))) anything"
    if "agenda_page_ok p" for a t0 t1 p
    by (rule job [where j = "\<lambda>_ _. ReplaceRemoteAgenda a t0 t1 (ap_tasks p) (ap_events p)"]) (use that in \<open>simp_all add: agenda_page_ok_def\<close>)
  have auth: "io_post ?I (db_call env (\<lambda>now _. set_account_auth_state now a st e)) anything" for a st e
    by (rule job [where j = "\<lambda>now _. SetAccountAuthState now a st e"]) simp_all
  have boxes: "io_post ?I (db_call env (\<lambda>_ _. upsert_mailboxes mbs)) anything" for mbs
    by (rule job [where j = "\<lambda>_ _. UpsertMailboxes mbs"]) simp_all
  have counts: "io_post ?I (db_call env (\<lambda>now _. update_account_counts now a u t)) anything" for a u t
    by (rule job [where j = "\<lambda>now _. UpdateAccountCounts now a u t"]) simp_all
  have listed: "io_post ?I (db_read env list_accounts) (\<lambda>as. \<forall>a \<in> set as. True)"
    by (rule io_post_weaken [OF post_read_any [OF meets]]) simp
  have removed: "io_post ?I (is_removed env a :: ('a, 'c, provider_error, bool) dio) (\<lambda>r. \<not> r \<longrightarrow> True)" for a
    unfolding is_removed_def by (rule io_post_weaken [OF post_await(1) [OF meets]]) simp
  have events: "?I (s\<lparr>dm_events := es\<rparr>)" if "?I s" for s :: "('a, 'c) daemon" and es
    using that by (simp add: db_inv_def)
  show "sync_safe (\<lambda>_. True) (\<lambda>_. True) ?I env"
    unfolding sync_safe_def by (intro conjI allI impI meets TrueI page agenda auth boxes counts listed removed events)
  show "sync_frame (db_inv J)" by (simp add: sync_frame_def db_inv_def)
qed

lemma sync_handlers_ok:
  assumes env: "env_good env"
  shows "handler_ok env (handle_agenda_sync env a)" "handler_ok env (handle_sync_start env a)"
proof -
  note safe = sync_safe_store(1) [OF env] and frame = sync_safe_store(2) [OF env]
  have recover: "io_post (db_inv (store_ok (de_clean env))) (recover_pending_agenda_operations env a) anything"
    by (rule post_recovery [OF env [unfolded env_good_def] recovery_keeps_store])
  show "handler_ok env (handle_agenda_sync env a)"
    unfolding handler_ok_def handle_agenda_sync_def
    by (auto intro!: io_post_bind [OF recover] io_post_bind [OF post_sync_selected_agendas [OF safe]]
        io_post_bind [OF post_event [OF safe]] io_post_return)
  show "handler_ok env (handle_sync_start env a)"
    unfolding handler_ok_def handle_sync_start_def
    by (auto intro!: io_post_bind [OF recover] io_post_bind [OF post_sync_selected_accounts [OF safe frame]]
        io_post_bind [OF post_event [OF safe]] io_post_bind [OF post_publish_sync_state [OF safe]] io_post_return)
qed

subsection \<open>Removed accounts\<close>

text \<open>The database knows nothing of account \<open>i\<close>. Foreign keys take its mailboxes, messages and drafts with it.\<close>

definition forgotten :: "string \<Rightarrow> db \<Rightarrow> bool" where
  "forgotten i d \<longleftrightarrow> db_ok d \<and> \<not> has_account i d \<and> (\<forall>t \<in> set (d_tasks d). t_account t \<noteq> i)
     \<and> (\<forall>e \<in> set (d_events d). \<not> calendar_of_account i (e_calendar_id e))
     \<and> (\<forall>r \<in> set (d_accounts d). COLON \<notin> set (account_key r))"

definition stays_removed :: "string \<Rightarrow> ('p, 'w) daemon \<Rightarrow> bool" where
  "stays_removed i s \<longleftrightarrow> i \<in> dm_removed s \<and> forgotten i (dm_db s)"

lemma calendar_of_one_account:
  assumes "COLON \<notin> set i" "COLON \<notin> set a" "calendar_of_account i c" "calendar_of_account a c"
  shows "i = a"
proof -
  obtain x y where "c = i @ COLON # x" "c = a @ COLON # y"
    using assms(3,4) unfolding calendar_of_account_def starts_with_iff by (metis append.assoc append_Cons append_Nil)
  then have "takeWhile (\<lambda>c. c \<noteq> COLON) (i @ COLON # x) = takeWhile (\<lambda>c. c \<noteq> COLON) (a @ COLON # y)" by simp
  with assms(1,2) show ?thesis by (auto simp: takeWhile_append split: if_splits)
qed

lemma forgotten_frame:
  "forgotten i d \<Longrightarrow> db_ok d' \<Longrightarrow> map account_key (d_accounts d') = map account_key (d_accounts d) \<Longrightarrow>
     d_tasks d' = d_tasks d \<Longrightarrow> d_events d' = d_events d \<Longrightarrow> forgotten i d'"
  unfolding forgotten_def has_account_def has_row_iff
  by (metis (no_types, lifting) image_iff list.set_map)

lemma forgotten_update_account:
  "forgotten i d \<Longrightarrow> db_ok d' \<Longrightarrow> update_account a f d = Inr (n, d') \<Longrightarrow> (\<And>r. account_key (f r) = account_key r) \<Longrightarrow> forgotten i d'"
  unfolding update_account_def
  by (rule forgotten_frame, assumption, assumption) (auto simp: result_simps map_key_update_row split: if_splits)

lemma upsert_mailboxes_frame:
  "fold_r upsert_mailbox_row d ms = Inr d' \<Longrightarrow>
     d_accounts d' = d_accounts d \<and> d_tasks d' = d_tasks d \<and> d_events d' = d_events d"
  by (erule fold_r_invariant [where P = "\<lambda>e. d_accounts e = d_accounts d \<and> d_tasks e = d_tasks d \<and> d_events e = d_events d"])
    (auto simp: upsert_mailbox_row_def bind_r_eq_Inr)

lemma forgotten_upsert_mailboxes:
  assumes "forgotten i d" "db_ok d'" "upsert_mailboxes ms d = Inr (n, d')"
  shows "forgotten i d'"
  using assms by (intro forgotten_frame [OF assms(1,2)])
    (auto simp: upsert_mailboxes_def result_simps read_revision_def dest!: upsert_mailboxes_frame split: if_splits)

lemma forgotten_sync_page:
  assumes "forgotten i d" "db_ok d'" and ap: "apply_mailbox_sync_page now now' a mb page d = Inr (n, d')"
  shows "forgotten i d'"
proof (cases "sp_reset page \<or> sp_messages page \<noteq> [] \<or> sp_removed_message_ids page \<noteq> [] \<or> sp_cursor page \<noteq> None")
  case False
  with ap assms(1) show ?thesis by (auto simp: apply_mailbox_sync_page_def result_simps read_revision_def)
next
  case True
  from ap True obtain d1 d2 d3 where d1: "d1 = (if sp_reset page then reset_mailbox a mb d else d)"
    and d2: "d2 = fold (\<lambda>i. delete_messages (\<lambda>r. message_key r = i \<and> in_mailbox a mb r)) (sp_removed_message_ids page) d1"
    and d3: "fold_r (sync_upsert now) d2 (sp_messages page) = Inr d3"
    and b: "bump_revision (store_cursor now' a mb (sp_cursor page) d3) = Inr (n, d')"
    by (rule apply_sync_page_Inr)
  note f2 = only_messages_differ_frame [OF fold_delete_frame [where p = "\<lambda>i r. message_key r = i \<and> in_mailbox a mb r"]]
  note f3 = only_messages_differ_frame [OF sync_upserts_frame [OF d3]]
  have "d_accounts d' = d_accounts d3" "d_tasks d' = d_tasks d3" "d_events d' = d_events d3"
    using b by (auto simp: result_simps store_cursor_def split: option.splits)
  moreover have "d_accounts d1 = d_accounts d" "d_tasks d1 = d_tasks d" "d_events d1 = d_events d"
    by (simp_all add: d1 reset_mailbox_def delete_messages_def Let_def)
  ultimately show ?thesis using f2(2-4) f3(2-4) by (intro forgotten_frame [OF assms(1,2)]) (simp_all add: d2)
qed

lemma set_upserts:
  assumes "\<And>o1 o2. P o2 \<Longrightarrow> P (merge o1 o2)"
  shows "\<forall>x \<in> set rows. P x \<Longrightarrow> \<forall>x \<in> set new. P x \<Longrightarrow> \<forall>x \<in> set (fold (upsert_row key merge) new rows). P x"
proof (induction new arbitrary: rows)
  case (Cons r new)
  from Cons.prems assms have "\<forall>x \<in> set (upsert_row key merge r rows). P x" by (auto simp: mem_upsert_row)
  with Cons show ?case by simp
qed simp

lemma forgotten_replace_agenda:
  assumes f: "forgotten i d" and "db_ok d'" and ap: "replace_remote_agenda a t0 t1 ts es d = Inr (n, d')"
    and "a \<noteq> i" "COLON \<notin> set i" "COLON \<notin> set a"
  shows "forgotten i d'"
proof -
  define d1 where "d1 = d\<lparr>d_tasks := delete_rows (remote_task_of a) (d_tasks d)\<rparr>"
  define d2 where "d2 = d1\<lparr>d_events := delete_rows (\<lambda>e. calendar_of_account a (e_calendar_id e) \<and> overlaps t0 t1 e) (d_events d1)\<rparr>"
  have scoped: "\<not> (list_ex (\<lambda>t. t_account t \<noteq> a) ts \<or> list_ex (\<lambda>e. \<not> (case strip_prefix (e_calendar_id e) a of
      None \<Rightarrow> False | Some rest \<Rightarrow> starts_with rest [COLON])) es)"
    and run: "bind_r (fold_r (\<lambda>d t. upsert_task_row t d) d2 ts) (\<lambda>d3. bind_r (fold_r (\<lambda>d e. upsert_event_row e d) d3 es) bump_revision) = Inr (n, d')"
    using ap unfolding replace_remote_agenda_def Let_def d1_def d2_def by (simp_all split: if_splits)
  have own: "\<forall>t \<in> set ts. t_account t = a" "\<forall>e \<in> set es. calendar_of_account a (e_calendar_id e)"
    using scoped by (auto simp: list_ex_iff calendar_of_account_def starts_with_iff strip_prefix_eq_Some split: option.splits)
  obtain d3 d4 where d3: "fold_r (\<lambda>d t. upsert_task_row t d) d2 ts = Inr d3" and d4: "fold_r (\<lambda>d e. upsert_event_row e d) d3 es = Inr d4"
    and b: "bump_revision d4 = Inr (n, d')"
    using run by (auto simp: bind_r_eq_Inr)
  have tasks: "d_tasks d' = fold (upsert_row t_id merge_task) ts (d_tasks d2)"
    and events: "d_events d' = fold (upsert_row e_id merge_event) es (d_events d2)"
    using b task_loop [OF d3] event_loop [OF d4] by (simp_all add: result_simps)
  have "\<forall>t \<in> set (d_tasks d2). t_account t \<noteq> i" "\<forall>e \<in> set (d_events d2). \<not> calendar_of_account i (e_calendar_id e)"
    using f by (simp_all add: d2_def d1_def forgotten_def delete_rows_def)
  moreover have "\<forall>e \<in> set es. \<not> calendar_of_account i (e_calendar_id e)"
    using own(2) calendar_of_one_account assms(4-6) by blast
  ultimately have "\<forall>t \<in> set (d_tasks d'). t_account t \<noteq> i" "\<forall>e \<in> set (d_events d'). \<not> calendar_of_account i (e_calendar_id e)"
    unfolding tasks events using own(1) \<open>a \<noteq> i\<close>
    by (intro set_upserts; simp add: merge_task_def merge_event_def)+
  moreover have "d_accounts d' = d_accounts d"
    using b task_loop [OF d3] event_loop [OF d4] by (simp add: result_simps d2_def d1_def)
  ultimately show ?thesis using f assms(2) by (simp add: forgotten_def has_account_def)
qed

lemma sync_safe_removed:
  assumes meets: "env_meets (stays_removed i) env" and i: "COLON \<notin> set i"
    and own: "\<And>p. COLON \<notin> set (a_id (pv_account env p))"
  shows "sync_safe (\<lambda>a. COLON \<notin> set a) (\<lambda>a. a \<noteq> i) (stays_removed i) env" "sync_frame (stays_removed i)"
proof -
  let ?I = "stays_removed i"
  have call: "io_post ?I (db_call env f) anything"
    if f: "\<And>now uuid d x d'. forgotten i d \<Longrightarrow> f now uuid d = Inr (x, d') \<Longrightarrow> forgotten i d'" for f :: "int \<Rightarrow> string \<Rightarrow> db \<Rightarrow> storage_error + (nat \<times> db)"
    unfolding io_post_def db_call_def Let_def
    using f env_others [OF meets] by (fastforce simp: stays_removed_def split: sum.splits)
  have ok: "db_ok d" if "forgotten i d" for d using that by (simp add: forgotten_def)
  have page: "io_post ?I (db_call env (\<lambda>now _. apply_mailbox_sync_page now now a mb p)) anything" if "page_ok p" for a mb p
    using that by (intro call) (meson forgotten_sync_page db_ok_apply_mailbox_sync_page ok page_ok_def)
  have agenda: "io_post ?I (db_call env (\<lambda>_ _. replace_remote_agenda a t0 t1 (ap_tasks p) (ap_events p))) anything"
    if "agenda_page_ok p" "a \<noteq> i" "COLON \<notin> set a" for a t0 t1 p
    using that i by (intro call) (meson forgotten_replace_agenda db_ok_replace_remote_agenda ok agenda_page_ok_def)
  have auth: "io_post ?I (db_call env (\<lambda>now _. set_account_auth_state now a st e)) anything" for a st e
  proof (rule call)
    fix now d x d' assume f: "forgotten i d" and r: "set_account_auth_state now a st e d = Inr (x, d')"
    from r have u: "update_account a (\<lambda>r. r\<lparr>ar_auth_state := st, ar_auth_error := e, ar_updated_at := now\<rparr>) d = Inr (x, d')"
      by (simp add: set_account_auth_state_def split: if_splits)
    show "forgotten i d'"
      by (rule forgotten_update_account [OF f db_ok_set_account_auth_state [OF ok [OF f] r] u]) (simp add: account_key_def)
  qed
  have boxes: "io_post ?I (db_call env (\<lambda>_ _. upsert_mailboxes mbs)) anything" for mbs
    by (intro call) (meson forgotten_upsert_mailboxes db_ok_upsert_mailboxes ok)
  have counts: "io_post ?I (db_call env (\<lambda>now _. update_account_counts now a u t)) anything" for a u t
  proof (rule call)
    fix now d x d' assume f: "forgotten i d" and r: "update_account_counts now a u t d = Inr (x, d')"
    from r have u: "update_account a (\<lambda>r. r\<lparr>ar_account := (ar_account r)\<lparr>a_unread := u, a_total := t\<rparr>, ar_updated_at := now\<rparr>) d = Inr (x, d')"
      by (auto simp: update_account_counts_def result_simps)
    show "forgotten i d'"
      by (rule forgotten_update_account [OF f db_ok_update_account_counts [OF ok [OF f] r] u]) (simp add: account_key_def)
  qed
  have listed: "io_post ?I (db_read env list_accounts) (\<lambda>as. \<forall>a \<in> set as. COLON \<notin> set (a_id a))"
    unfolding io_post_def
  proof (intro allI impI)
    fix s r s' assume "?I s" and run: "db_read env list_accounts s = (r, s')"
    then have kept: "?I (de_others env s)" by (intro env_others [OF meets])
    have "s' = de_others env s" "r = Inr (map ar_account (accounts_by_address (dm_db (de_others env s))))"
      using run by (auto simp: db_read_def db_call_def Let_def list_accounts_def)
    with kept show "?I s' \<and> (\<forall>x. r = Inr x \<longrightarrow> (\<forall>a \<in> set x. COLON \<notin> set (a_id a)))"
      by (simp add: accounts_by_address_def stays_removed_def forgotten_def account_key_def)
  qed
  have removed: "io_post ?I (is_removed env a :: ('a, 'b, provider_error, bool) dio) (\<lambda>r. \<not> r \<longrightarrow> a \<noteq> i)" for a
    unfolding io_post_def
  proof (intro allI impI)
    fix s r s' assume "?I s" and run: "is_removed env a s = (r :: provider_error + bool, s')"
    then have "?I (de_others env s)" by (intro env_others [OF meets])
    with run show "?I s' \<and> (\<forall>x. r = Inr x \<longrightarrow> \<not> x \<longrightarrow> a \<noteq> i)"
      by (auto simp: is_removed_def await_read_def Let_def stays_removed_def)
  qed
  have events: "?I (s\<lparr>dm_events := es\<rparr>)" if "?I s" for s :: "('a, 'b) daemon" and es
    using that by (simp add: stays_removed_def)
  show "sync_safe (\<lambda>a. COLON \<notin> set a) (\<lambda>a. a \<noteq> i) ?I env"
    unfolding sync_safe_def by (intro conjI allI impI) (rule meets | rule own | rule listed | rule removed | rule auth | rule boxes | rule counts
      | rule page, assumption | rule agenda, assumption+ | rule events, assumption)+
  show "sync_frame ?I" by (simp add: sync_frame_def stays_removed_def)
qed

lemma forgotten_mail:
  assumes "forgotten i d"
  shows "\<forall>r \<in> set (d_messages d). message_account r \<noteq> i" "\<forall>m \<in> set (d_mailboxes d). mb_account_id m \<noteq> i"
  using assms by (auto simp: forgotten_def db_ok_defs)


definition removed_daemon :: "(unit, unit) daemon" where
  "removed_daemon = (sample_daemon sample_db)\<lparr>dm_removed := {''r''}\<rparr>"


subsection \<open>The mark of a running synchronisation\<close>

definition io_ends :: "('w \<Rightarrow> bool) \<Rightarrow> ('w, 'e, 'a) io \<Rightarrow> ('e + 'a \<Rightarrow> 'w \<Rightarrow> bool) \<Rightarrow> bool" where
  "io_ends I m Q \<longleftrightarrow> (\<forall>s r s'. I s \<longrightarrow> m s = (r, s') \<longrightarrow> Q r s')"

definition io_never_fails :: "('w, 'e, 'a) io \<Rightarrow> bool" where
  "io_never_fails m \<longleftrightarrow> (\<forall>s e s'. m s \<noteq> (Inl e, s'))"

lemma never_fails:
  "io_never_fails (io_attempt m)" "io_never_fails (await_lock env)" "io_never_fails (await_read env f)"
  "io_never_fails (is_removed env a)" "io_never_fails (await_update env g)" "io_never_fails (publish env t k n)"
  "io_never_fails (io_return x)" "io_never_fails (sync_finished env a)"
  by (auto simp: io_never_fails_def io_attempt_def await_lock_def await_read_def is_removed_def await_update_def publish_def
      io_return_def sync_finished_def Let_def split: prod.splits)

lemma never_fails_bind: "io_never_fails m \<Longrightarrow> (\<And>x. io_never_fails (f x)) \<Longrightarrow> io_never_fails (io_bind m f)"
  by (auto simp: io_never_fails_def io_bind_def split: prod.splits sum.splits)

lemma ends_bind:
  assumes "io_post I m P" and "io_never_fails m" and f: "\<And>x. P x \<Longrightarrow> io_ends I (f x) Q"
  shows "io_ends I (io_bind m f) Q"
  unfolding io_ends_def
proof (intro allI impI)
  fix s r s' assume "I s" and run: "io_bind m f s = (r, s')"
  obtain q v where mv: "m s = (q, v)" by (rule prod.exhaust)
  then obtain x where x: "q = Inr x" using assms(2) by (cases q) (auto simp: io_never_fails_def)
  with io_postD [OF assms(1) \<open>I s\<close> mv] have "I v" "P x" by simp_all
  with f run mv x show "Q r s'" by (auto simp: io_bind_def io_ends_def)
qed

definition syncing :: "string \<Rightarrow> ('p, 'w) daemon \<Rightarrow> bool" where
  "syncing i s \<longleftrightarrow> i \<in> dm_syncing s"

lemma sync_safe_syncing:
  assumes meets: "env_meets (syncing i) env"
  shows "sync_safe (\<lambda>_. True) (\<lambda>_. True) (syncing i) env"
proof -
  have call: "io_post (syncing i) (db_call env f) anything" for f :: "int \<Rightarrow> string \<Rightarrow> db \<Rightarrow> storage_error + (nat \<times> db)"
    unfolding io_post_def db_call_def Let_def
    using env_others [OF meets] by (fastforce simp: syncing_def split: sum.splits)
  have listed: "io_post (syncing i) (db_read env list_accounts) (\<lambda>as. \<forall>a \<in> set as. True)"
    by (rule io_post_weaken [OF post_read_any [OF meets]]) simp
  have removed: "io_post (syncing i) (is_removed env a) (\<lambda>r. \<not> r \<longrightarrow> True)" for a
    unfolding is_removed_def by (rule io_post_weaken [OF post_await(1) [OF meets]]) simp
  have events: "syncing i (s\<lparr>dm_events := es\<rparr>)" if "syncing i s" for s :: "('a, 'b) daemon" and es
    using that by (simp add: syncing_def)
  show ?thesis
    unfolding sync_safe_def by (intro conjI allI impI TrueI) (rule meets | rule listed | rule removed | rule call | rule events, assumption)+
qed

definition mark_right :: "string \<Rightarrow> 'p \<Rightarrow> rpc_error + bool \<Rightarrow> ('p, 'w) daemon \<Rightarrow> bool" where
  "mark_right i p r s \<longleftrightarrow> (i \<in> dm_syncing s \<longleftrightarrow> r = Inr True) \<and> (r = Inr True \<longrightarrow> (\<exists>ms. (p, ms) \<in> set (dm_tasks s)))"

lemma ends_finished:
  "io_ends I (finish_with env i err) (mark_right i p)"
  "io_ends I (io_bind (sync_finished env i) (\<lambda>_. io_return False)) (mark_right i p)"
  by (auto simp: io_ends_def finish_with_def sync_finished_def await_update_def io_bind_def io_error_def io_return_def mark_right_def)

lemma ends_provider_failed:
  assumes "env_meets (syncing i) env"
  shows "io_ends (syncing i) (provider_failed env i err) (mark_right i p)"
  unfolding provider_failed_def persist_provider_failure_def
  by (rule ends_bind [OF _ _ ends_finished(1)])
    (auto intro!: post_persist_provider_failure [OF sync_safe_syncing [OF assms], unfolded persist_provider_failure_def]
      never_fails_bind never_fails split: if_splits)

lemma ends_schedule:
  assumes "env_meets (syncing (a_id (pv_account env p))) env"
  shows "io_ends (syncing (a_id (pv_account env p))) (schedule_background_sync env p mbs) (mark_right (a_id (pv_account env p)) p)"
  using env_others [OF assms]
  by (auto simp: io_ends_def schedule_background_sync_def sync_finished_def await_update_def io_bind_def io_return_def
      mark_right_def syncing_def)

lemma ends_sync_inbox:
  assumes meets: "env_meets (syncing (a_id (pv_account env p))) env"
  shows "io_ends (syncing (a_id (pv_account env p))) (sync_inbox env p mbs) (mark_right (a_id (pv_account env p)) p)"
proof -
  let ?I = "syncing (a_id (pv_account env p))"
  note safe = sync_safe_syncing [OF meets]
  have first: "io_post ?I (case mbs of [] \<Rightarrow> io_return () | inbox # x \<Rightarrow> sync_mailbox_page env p inbox) anything"
    by (auto intro: io_post_return post_sync_mailbox_page [OF safe] split: list.splits)
  have note_agenda: "io_post ?I (case agenda of Inr (Some revision) \<Rightarrow> publish env ''agenda'' ''agenda.changed'' revision | _ \<Rightarrow> io_return ()) anything"
    "io_never_fails (case agenda of Inr (Some revision) \<Rightarrow> publish env ''agenda'' ''agenda.changed'' revision | _ \<Rightarrow> io_return ())"
    for agenda :: "provider_error + nat option"
    by (auto intro!: post_event [OF safe] io_post_return never_fails split: sum.splits option.splits)
  show ?thesis
    unfolding sync_inbox_def
    by (auto intro!: ends_bind [OF io_post_attempt [OF first] never_fails(1)] ends_provider_failed [OF meets]
        ends_bind [OF io_post_attempt [OF post_sync_remote_agenda [OF safe]] never_fails(1)] ends_bind [OF note_agenda]
        ends_schedule [OF meets] split: sum.splits)
qed


definition sample_sync :: "(rpc_error + bool) \<times> (unit, unit) daemon" where
  "sample_sync = sync_account sample_env () (sample_daemon sample_db)"

lemma sample_sync_result: "fst sample_sync = Inr False"
proof -
  have counts: "update_account_counts 1000 ''a'' 0 0 sample_db \<noteq> Inl e" for e
    by (simp add: update_account_counts_def bind_u64_def update_account_def sample_db_def has_account_def sample_account_def account_key_def
        bump_revision_def empty_db_def uint_bounds)
  then obtain n d where d: "update_account_counts 1000 ''a'' 0 0 sample_db = Inr (n, d)" by (cases "update_account_counts 1000 ''a'' 0 0 sample_db") auto
  show ?thesis
    by (simp add: sample_sync_def sync_account_def begin_sync_def io_bind_def await_read_def Let_def io_return_def sample_daemon_def
        sample_env_def io_attempt_def await_lock_def is_removed_def store_mailboxes_def inbox_first_def db_call_def upsert_mailboxes_def
        read_revision_def account_counts_from_mailboxes_def d sync_inbox_def schedule_background_sync_def sync_finished_def await_update_def publish_def
        split: sum.splits prod.splits option.splits)
qed


end
