(* ===== verification/Daemon_Accounts.thy ===== *)
theory Daemon_Accounts
  imports Daemon_Recovery
begin

section \<open>Accounts in the daemon\<close>

text \<open>
  The arms of \<open>dispatch_inner\<close> in \<open>daemon.rs\<close> that add, remove and authorise accounts, and
  \<open>restore_providers\<close>, which runs when the daemon starts. The provider factory, which talks to the
  keyring and to the servers, is the four fields \<open>fa_create\<close>, \<open>fa_restore\<close>, \<open>fa_reauthorize\<close> and \<open>fa_remove\<close> of
  the environment.
\<close>

subsection \<open>The provider table and the set of removed accounts\<close>

definition insert_provider :: "('p, 'g, 'w) daemon_env \<Rightarrow> string \<Rightarrow> 'p \<Rightarrow> ('p, 'w, 'e, unit) dio" where
  "insert_provider env i p = await_update env (\<lambda>s. s\<lparr>dm_providers := assoc_set i p (dm_providers s)\<rparr>)"

definition take_provider :: "('p, 'g, 'w) daemon_env \<Rightarrow> string \<Rightarrow> ('p, 'w, 'e, 'p option) dio" where
  "take_provider env i s =
     (let s = de_others env s in
      (Inr (map_of (dm_providers s) i), s\<lparr>dm_providers := filter (\<lambda>x. fst x \<noteq> i) (dm_providers s)\<rparr>))"

definition mark_removed :: "('p, 'g, 'w) daemon_env \<Rightarrow> string \<Rightarrow> ('p, 'w, 'e, unit) dio" where
  "mark_removed env i = await_update env (\<lambda>s. s\<lparr>dm_removed := insert i (dm_removed s)\<rparr>)"

definition unmark_removed :: "('p, 'g, 'w) daemon_env \<Rightarrow> string \<Rightarrow> ('p, 'w, 'e, unit) dio" where
  "unmark_removed env i = await_update env (\<lambda>s. s\<lparr>dm_removed := dm_removed s - {i}\<rparr>)"

definition auth_state_of_error :: "provider_error \<Rightarrow> string" where
  "auth_state_of_error err = (if is_authentication err then ''needs_auth'' else ''error'')"

subsection \<open>Adding\<close>

definition same_mailbox_owner :: "account_add_params \<Rightarrow> account \<Rightarrow> bool" where
  "same_mailbox_owner setup account \<longleftrightarrow>
     brokered_provider_family (a_provider account) = brokered_provider_family (aap_provider setup)
     \<and> eq_ignore_ascii_case (trim (a_address account)) (trim (aap_address setup))"

definition existing_account ::
    "('p, 'g, 'w) daemon_env \<Rightarrow> account_add_params \<Rightarrow> ('p, 'w, rpc_error, account option) dio" where
  "existing_account env setup =
     (if brokered_provider_family (aap_provider setup) = None then io_return None
      else io_bind (storage env (db_read env list_accounts)) (\<lambda>accounts.
           io_return (find (same_mailbox_owner setup) accounts)))"

definition handle_accounts_add :: "('p, 'g, 'w) daemon_env \<Rightarrow> account_add_params \<Rightarrow> ('p, 'w, rpc_error, reply) dio" where
  "handle_accounts_add env setup =
     io_bind (io_lift (validate_account_setup setup)) (\<lambda>_.
     io_bind (await_lock env) (\<lambda>_.
     io_bind (existing_account env setup) (\<lambda>existing.
     case existing of
       Some account \<Rightarrow>
         io_bind (storage env (db_read env read_revision)) (\<lambda>revision.
         io_return (AccountAdded (a_id account) revision True))
     | None \<Rightarrow>
         io_bind (remote (fa_create env setup)) (\<lambda>p.
         let account = pv_account env p in
         io_bind (unmark_removed env (a_id account)) (\<lambda>_.
         io_bind (storage env (db_call env (\<lambda>now _. upsert_account_config now account (nonsecret_account_config setup)))) (\<lambda>revision.
         io_bind (insert_provider env (a_id account) p) (\<lambda>_.
         io_bind (publish env ''accounts'' ''accounts.changed'' revision) (\<lambda>_.
         io_return (AccountAdded (a_id account) revision False)))))))))"

subsection \<open>Removing\<close>

text \<open>What every failure of a removal does before it is reported.\<close>

definition undo_removal :: "('p, 'g, 'w) daemon_env \<Rightarrow> string \<Rightarrow> 'p option \<Rightarrow> rpc_error \<Rightarrow> ('p, 'w, rpc_error, 'a) dio" where
  "undo_removal env i taken err =
     io_bind (unmark_removed env i) (\<lambda>_.
     io_bind (case taken of None \<Rightarrow> io_return () | Some p \<Rightarrow> insert_provider env i p) (\<lambda>_.
     io_error err))"

definition purge_and_delete :: "('p, 'g, 'w) daemon_env \<Rightarrow> string \<Rightarrow> 'p option \<Rightarrow> ('p, 'w, rpc_error, reply) dio" where
  "purge_and_delete env i taken =
     io_bind (io_attempt (de_purge env)) (\<lambda>purged.
     case purged of
       Inl err \<Rightarrow> undo_removal env i taken err
     | Inr _ \<Rightarrow>
         io_bind (io_attempt (fa_remove env i)) (\<lambda>forgotten.
         case forgotten of
           Inl err \<Rightarrow> undo_removal env i taken (provider_rpc_error err)
         | Inr _ \<Rightarrow>
             io_bind (io_attempt (db_call env (\<lambda>_ _. remove_account i))) (\<lambda>removed.
             case removed of
               Inl err \<Rightarrow> undo_removal env i taken (storage_rpc_error (de_detail env) err)
             | Inr revision \<Rightarrow>
                 io_bind (publish env ''accounts'' ''accounts.changed'' revision) (\<lambda>_.
                 io_return (RevisionReply revision)))))"

definition handle_accounts_remove :: "('p, 'g, 'w) daemon_env \<Rightarrow> string \<Rightarrow> ('p, 'w, rpc_error, reply) dio" where
  "handle_accounts_remove env i =
     io_bind (await_lock env) (\<lambda>_.
     io_bind (mark_removed env i) (\<lambda>_.
     io_bind (take_provider env i) (\<lambda>taken.
     purge_and_delete env i taken)))"

subsection \<open>Authorising again\<close>

definition handle_accounts_reauth :: "('p, 'g, 'w) daemon_env \<Rightarrow> string \<Rightarrow> ('p, 'w, rpc_error, reply) dio" where
  "handle_accounts_reauth env i =
     io_bind (storage env (db_read env (account_config i))) (\<lambda>found.
     io_bind (io_lift (ok_or found (rpc_err (-32004) ''account not found''))) (\<lambda>(account, config).
     io_bind (io_attempt (fa_reauthorize env account config)) (\<lambda>r.
     case r of
       Inl err \<Rightarrow>
         io_bind (storage env (db_call env (\<lambda>now _.
           set_account_auth_state now (a_id account) (auth_state_of_error err) (Some (provider_error_text err))))) (\<lambda>_.
         io_error (provider_rpc_error err))
     | Inr p \<Rightarrow>
         io_bind (insert_provider env (a_id account) p) (\<lambda>_.
         io_bind (storage env (db_call env (\<lambda>now _. set_account_auth_state now (a_id account) ''ready'' None))) (\<lambda>_.
         io_return (AuthReply (a_id account)))))))"

subsection \<open>Starting\<close>

fun restore_accounts :: "('p, 'g, 'w) daemon_env \<Rightarrow> (account \<times> json) list \<Rightarrow> nat \<Rightarrow> ('p, 'w, storage_error, nat) dio" where
  "restore_accounts env [] restored = io_return restored"
| "restore_accounts env ((account, config) # configs) restored =
     io_bind (io_attempt (fa_restore env account config)) (\<lambda>r.
     case r of
       Inr p \<Rightarrow>
         io_bind (unmark_removed env (a_id account)) (\<lambda>_.
         io_bind (insert_provider env (a_id account) p) (\<lambda>_.
         io_bind (db_call env (\<lambda>now _. set_account_auth_state now (a_id account) ''ready'' None)) (\<lambda>_.
         restore_accounts env configs (restored + 1))))
     | Inl err \<Rightarrow>
         if (case err of Unsupported _ \<Rightarrow> True | _ \<Rightarrow> False) \<and> a_protocol account = ''LOCAL''
         then restore_accounts env configs restored
         else
           io_bind (db_call env (\<lambda>now _.
             set_account_auth_state now (a_id account) (auth_state_of_error err) (Some (provider_error_text err)))) (\<lambda>_.
           restore_accounts env configs restored))"

definition restore_providers :: "('p, 'g, 'w) daemon_env \<Rightarrow> ('p, 'w, storage_error, nat) dio" where
  "restore_providers env =
     io_bind (db_read env list_account_configs) (\<lambda>configs. restore_accounts env configs 0)"

subsection \<open>What the handlers keep\<close>

lemma db_inv_frame: "db_inv J (f s)" if "dm_db (f s) = dm_db s" "db_inv J s" for f
  using that by (simp add: db_inv_def)

lemma post_tables:
  assumes "env_meets (db_inv J) env"
  shows "io_post (db_inv J) (insert_provider env i p) anything" "io_post (db_inv J) (mark_removed env i) anything"
    "io_post (db_inv J) (unmark_removed env i) anything" "io_post (db_inv J) (take_provider env i) anything"
  unfolding insert_provider_def mark_removed_def unmark_removed_def
  by (auto intro!: post_await_update [OF assms] simp: db_inv_def)
    (use env_others [OF assms] in \<open>simp add: io_post_def take_provider_def Let_def db_inv_def\<close>)

lemma post_account_jobs:
  assumes env: "env_good env"
  defines "I \<equiv> db_inv (store_ok (de_clean env))"
  shows "io_post I (db_call env (\<lambda>now _. upsert_account_config now a c)) anything"
    "io_post I (db_call env (\<lambda>now _. set_account_auth_state now i st e)) anything"
    "io_post I (db_call env (\<lambda>_ _. remove_account i)) anything"
proof -
  show "io_post I (db_call env (\<lambda>now _. upsert_account_config now a c)) anything" unfolding I_def
  proof (rule post_job [OF env])
    fix now d x d' assume "upsert_account_config now a c d = Inr (x, d')"
    then show "\<exists>j. exec_job j d = Inr d' \<and> job_ok j \<and> job_trusted (de_clean env) j"
      by (intro exI [of _ "UpsertAccountConfig now a c"]) simp
  qed
  show "io_post I (db_call env (\<lambda>now _. set_account_auth_state now i st e)) anything" unfolding I_def
  proof (rule post_job [OF env])
    fix now d x d' assume "set_account_auth_state now i st e d = Inr (x, d')"
    then show "\<exists>j. exec_job j d = Inr d' \<and> job_ok j \<and> job_trusted (de_clean env) j"
      by (intro exI [of _ "SetAccountAuthState now i st e"]) simp
  qed
  show "io_post I (db_call env (\<lambda>_ _. remove_account i)) anything" unfolding I_def
  proof (rule post_job [OF env])
    fix d x d' assume "remove_account i d = Inr (x, d')"
    then show "\<exists>j. exec_job j d = Inr d' \<and> job_ok j \<and> job_trusted (de_clean env) j"
      by (intro exI [of _ "RemoveAccount i"]) simp
  qed
qed

lemma post_undo_removal:
  assumes "env_meets (db_inv J) env"
  shows "io_post (db_inv J) (undo_removal env i taken err) Q"
  unfolding undo_removal_def
  by (cases taken) (auto intro!: io_post_bind [OF post_tables(3) [OF assms]] io_post_bind [OF post_tables(1) [OF assms]]
      io_post_bind [OF io_post_return [where Q = anything]] io_post_error)

lemma account_handlers_ok:
  assumes env: "env_good env"
  shows "handler_ok env (handle_accounts_add env setup)" "handler_ok env (handle_accounts_remove env i)"
    "handler_ok env (handle_accounts_reauth env i)"
proof -
  note meets = env [unfolded env_good_def] and jobs = post_account_jobs [OF env]
  have existing: "io_post (db_inv (store_ok (de_clean env))) (existing_account env setup) anything"
    unfolding existing_account_def by (auto intro!: io_post_return io_post_bind [OF post_read [OF env]])
  show "handler_ok env (handle_accounts_add env setup)"
    unfolding handler_ok_def handle_accounts_add_def Let_def
    by (auto intro!: io_post_bind [OF io_post_lift [where Q = anything]] io_post_bind [OF post_await(2) [OF meets]] io_post_bind [OF existing]
        io_post_bind [OF post_read [OF env]] io_post_return io_post_bind [OF io_post_remote [OF post_provider(8) [OF meets]]]
        io_post_bind [OF post_tables(3) [OF meets]] io_post_bind [OF io_post_storage [OF jobs(1)]]
        io_post_bind [OF post_tables(1) [OF meets]] io_post_bind [OF post_publish] split: option.splits)
  show "handler_ok env (handle_accounts_remove env i)"
    unfolding handler_ok_def handle_accounts_remove_def purge_and_delete_def
    by (auto intro!: io_post_bind [OF post_await(2) [OF meets]] io_post_bind [OF post_tables(2) [OF meets]]
        io_post_bind [OF post_tables(4) [OF meets]] io_post_bind [OF io_post_attempt [OF post_provider(7) [OF meets]]]
        post_undo_removal [OF meets] io_post_bind [OF io_post_attempt [OF post_provider(11) [OF meets]]]
        io_post_bind [OF io_post_attempt [OF jobs(3)]] io_post_bind [OF post_publish] io_post_return split: sum.splits)
  show "handler_ok env (handle_accounts_reauth env i)"
    unfolding handler_ok_def handle_accounts_reauth_def
    by (auto intro!: io_post_bind [OF post_read [OF env]] io_post_bind [OF io_post_lift [where Q = anything]]
        io_post_bind [OF io_post_attempt [OF post_provider(10) [OF meets]]] io_post_bind [OF io_post_storage [OF jobs(2)]] io_post_error
        io_post_bind [OF post_tables(1) [OF meets]] io_post_return split: sum.splits)
qed

lemma post_restore_providers:
  assumes env: "env_good env"
  shows "io_post (db_inv (store_ok (de_clean env))) (restore_providers env) anything"
proof -
  note meets = env [unfolded env_good_def] and jobs = post_account_jobs [OF env]
  have loop: "io_post (db_inv (store_ok (de_clean env))) (restore_accounts env configs n) anything" for configs n
  proof (induction configs arbitrary: n)
    case (Cons c configs)
    obtain account config where c: "c = (account, config)" by (cases c)
    show ?case unfolding c
      using Cons by (auto intro!: io_post_bind [OF io_post_attempt [OF post_provider(9) [OF meets]]] io_post_bind [OF post_tables(3) [OF meets]]
        io_post_bind [OF post_tables(1) [OF meets]] io_post_bind [OF jobs(2)] split: sum.splits)
  qed (simp add: io_post_return)
  show ?thesis
    unfolding restore_providers_def
    by (rule io_post_bind [OF post_db_read [OF meets, where Q = anything]]) (simp_all add: loop)
qed

subsection \<open>A removal is complete or has not happened\<close>

text \<open>The entry of an account in the two tables. The lock of the account mutations keeps the others from it.\<close>

definition entry :: "string \<Rightarrow> 'p option \<Rightarrow> bool \<Rightarrow> ('p, 'w) daemon \<Rightarrow> bool" where
  "entry i p b s \<longleftrightarrow> map_of (dm_providers s) i = p \<and> (i \<in> dm_removed s \<longleftrightarrow> b)"

lemma map_of_filter_other: "map_of (filter (\<lambda>x. fst x \<noteq> i) xs) i = None"
  by (induction xs) auto

lemma undo_removal_entry:
  assumes env: "\<And>p b. env_meets (entry i p b) env" and s: "entry i None True s" and run: "undo_removal env i taken err s = (r, s')"
  shows "r = Inl err \<and> entry i taken False s'"
proof -
  let ?s1 = "(de_others env s)\<lparr>dm_removed := dm_removed (de_others env s) - {i}\<rparr>"
  have "entry i None True (de_others env s)" by (rule env_others [OF env s])
  then have s1: "entry i None False ?s1" by (simp add: entry_def)
  show ?thesis
  proof (cases taken)
    case None
    with run s1 show ?thesis
      by (auto simp: undo_removal_def unmark_removed_def await_update_def io_bind_def io_return_def io_error_def)
  next
    case (Some p)
    have "entry i None False (de_others env ?s1)" by (rule env_others [OF env s1])
    with run Some show ?thesis
      by (auto simp: undo_removal_def unmark_removed_def insert_provider_def await_update_def io_bind_def io_error_def entry_def)
  qed
qed


definition sample_removal :: "(rpc_error + reply) \<times> (unit, unit) daemon" where
  "sample_removal = handle_accounts_remove sample_env ''a'' (sample_daemon sample_db)"


end
