(* ===== verification/Daemon_Dispatch.thy ===== *)
theory Daemon_Dispatch
  imports Daemon_Sync_Facts Daemon_Accounts
begin

section \<open>Requests\<close>

text \<open>
  \<open>dispatch_inner\<close>, \<open>dispatch\<close> and \<open>dispatch_inbound\<close> of \<open>daemon.rs\<close>: which parameters a method takes, which
  handler answers it, and how a result becomes a JSON-RPC response. Reading the parameters of a method from JSON
  and writing a reply as JSON is the work of the crate serde: the record \<open>decoders\<close> has a field for every
  parameter struct, with the text of the error for a value that does not fit.
\<close>

record decoders =
  dc_subscribe :: "json \<Rightarrow> string + string list"
  dc_account_add :: "json \<Rightarrow> string + account_add_params"
  dc_account_id :: "json \<Rightarrow> string + string"
  dc_query :: "json \<Rightarrow> string + message_query"
  dc_message_id :: "json \<Rightarrow> string + string"
  dc_action :: "json \<Rightarrow> string + mail_action"
  dc_outgoing :: "json \<Rightarrow> string + outgoing_message"
  dc_attachment :: "json \<Rightarrow> string + (string \<times> string)"
  dc_avatar :: "json \<Rightarrow> string + string"
  dc_draft_save :: "json \<Rightarrow> string + (string option \<times> outgoing_message)"
  dc_draft_list :: "json \<Rightarrow> string + string option"
  dc_draft_id :: "json \<Rightarrow> string + string"
  dc_task_list :: "json \<Rightarrow> string + bool"
  dc_task :: "json \<Rightarrow> string + task"
  dc_task_complete :: "json \<Rightarrow> string + (string \<times> bool)"
  dc_task_id :: "json \<Rightarrow> string + string"
  dc_calendar_list :: "json \<Rightarrow> string + (int \<times> int)"
  dc_event :: "json \<Rightarrow> string + calendar_event"
  dc_event_id :: "json \<Rightarrow> string + string"
  dc_sync_start :: "json \<Rightarrow> string + string option"
  dc_reply :: "reply \<Rightarrow> string + json"

datatype request =
    Ping
  | Subscribe "string list"
  | DashboardSnapshot
  | AccountsList
  | AccountsAdd account_add_params
  | AccountsRemove string
  | AccountsReauth string
  | MailboxesList string
  | MailList message_query
  | MailGet string
  | ThreadGet string
  | MailAction mail_action
  | MailSend outgoing_message
  | AttachmentDownload string string
  | AvatarFetch string
  | DraftSave "string option" outgoing_message
  | DraftList "string option"
  | DraftGet string
  | DraftDelete string
  | TaskList bool
  | TaskCreate task
  | TaskUpdate task
  | TaskComplete string bool
  | TaskDelete string
  | CalendarList int int
  | CalendarCreate calendar_event
  | CalendarUpdate calendar_event
  | CalendarDelete string
  | AgendaSync "string option"
  | SyncStart "string option"

subsection \<open>Parameters\<close>

definition decode :: "(json \<Rightarrow> string + 'a) \<Rightarrow> ('a \<Rightarrow> request) \<Rightarrow> json \<Rightarrow> rpc_error + request" where
  "decode d f params = map_ok f (map_err invalid_params (d params))"

definition empty_params :: "json \<Rightarrow> bool" where
  "empty_params params \<longleftrightarrow> params = JNull \<or> params = JObj []"

definition decode_or_default :: "(json \<Rightarrow> string + 'a) \<Rightarrow> 'a \<Rightarrow> ('a \<Rightarrow> request) \<Rightarrow> json \<Rightarrow> rpc_error + request" where
  "decode_or_default d fallback f params = (if empty_params params then Inr (f fallback) else decode d f params)"

definition request_table :: "decoders \<Rightarrow> (string \<times> (json \<Rightarrow> rpc_error + request)) list" where
  "request_table dec =
     [(''ping'', \<lambda>_. Inr Ping),
      (''subscribe'', decode (dc_subscribe dec) Subscribe),
      (''dashboard.snapshot'', \<lambda>_. Inr DashboardSnapshot),
      (''accounts.list'', \<lambda>_. Inr AccountsList),
      (''accounts.add'', decode (dc_account_add dec) AccountsAdd),
      (''accounts.remove'', decode (dc_account_id dec) AccountsRemove),
      (''accounts.reauth'', decode (dc_account_id dec) AccountsReauth),
      (''mailboxes.list'', decode (dc_account_id dec) MailboxesList),
      (''mail.list'', decode (dc_query dec) MailList),
      (''mail.get'', decode (dc_message_id dec) MailGet),
      (''thread.get'', decode (dc_message_id dec) ThreadGet),
      (''mail.action'', decode (dc_action dec) MailAction),
      (''mail.send'', decode (dc_outgoing dec) MailSend),
      (''attachment.download'', decode (dc_attachment dec) (\<lambda>(m, a). AttachmentDownload m a)),
      (''avatar.fetch'', decode (dc_avatar dec) AvatarFetch),
      (''draft.save'', decode (dc_draft_save dec) (\<lambda>(i, m). DraftSave i m)),
      (''draft.list'', decode_or_default (dc_draft_list dec) None DraftList),
      (''draft.get'', decode (dc_draft_id dec) DraftGet),
      (''draft.delete'', decode (dc_draft_id dec) DraftDelete),
      (''task.list'', decode_or_default (dc_task_list dec) False TaskList),
      (''task.create'', decode (dc_task dec) TaskCreate),
      (''task.update'', decode (dc_task dec) TaskUpdate),
      (''task.complete'', decode (dc_task_complete dec) (\<lambda>(i, b). TaskComplete i b)),
      (''task.delete'', decode (dc_task_id dec) TaskDelete),
      (''calendar.list'', decode (dc_calendar_list dec) (\<lambda>(a, b). CalendarList a b)),
      (''calendar.create'', decode (dc_event dec) CalendarCreate),
      (''calendar.update'', decode (dc_event dec) CalendarUpdate),
      (''calendar.delete'', decode (dc_event_id dec) CalendarDelete),
      (''agenda.sync'', decode_or_default (dc_sync_start dec) None AgendaSync),
      (''sync.start'', decode_or_default (dc_sync_start dec) None SyncStart)]"

definition decode_request :: "decoders \<Rightarrow> string \<Rightarrow> json \<Rightarrow> rpc_error + request" where
  "decode_request dec rpc_method params =
     (case map_of (request_table dec) rpc_method of
        None \<Rightarrow> Inl (method_not_found rpc_method)
      | Some read \<Rightarrow> read params)"

subsection \<open>Handlers\<close>

text \<open>The picture of a sender: the lock on its key and the fetch slot are awaited, then it is fetched.\<close>

definition handle_avatar_fetch :: "('p, 'g, 'w) daemon_env \<Rightarrow> string \<Rightarrow> ('p, 'w, rpc_error, reply) dio" where
  "handle_avatar_fetch env value =
     io_bind (io_lift (validate_avatar_url (en_parse_url (de_avatars env)) value)) (\<lambda>url.
     io_bind (await_lock env) (\<lambda>_ s.
     case fetch_avatar (de_avatars env) (de_cache_directory env @ ''/avatars'') (u_text url) (dm_avatars s) of
       (r, w) \<Rightarrow> (map_ok AvatarReply r, s\<lparr>dm_avatars := w\<rparr>)))"

fun perform ::
    "('p, 'g, 'w) daemon_env \<Rightarrow> (nat \<Rightarrow> int) \<Rightarrow> string set \<Rightarrow> request \<Rightarrow> ('p, 'w, rpc_error, reply) dio" where
  "perform env clk topics Ping = io_return Pong"
| "perform env clk topics (Subscribe ts) = io_return (TopicsReply (topics \<union> set ts))"
| "perform env clk topics DashboardSnapshot = handle_dashboard_snapshot env"
| "perform env clk topics AccountsList = handle_accounts_list env"
| "perform env clk topics (AccountsAdd setup) = handle_accounts_add env setup"
| "perform env clk topics (AccountsRemove i) = handle_accounts_remove env i"
| "perform env clk topics (AccountsReauth i) = handle_accounts_reauth env i"
| "perform env clk topics (MailboxesList i) = handle_mailboxes_list env i"
| "perform env clk topics (MailList query) = handle_mail_list env query"
| "perform env clk topics (MailGet i) = handle_mail_get env i"
| "perform env clk topics (ThreadGet i) = handle_thread_get env i"
| "perform env clk topics (MailAction action) = handle_mail_action env clk action"
| "perform env clk topics (MailSend msg) = handle_mail_send env msg"
| "perform env clk topics (AttachmentDownload m a) = handle_attachment_download env m a"
| "perform env clk topics (AvatarFetch url) = handle_avatar_fetch env url"
| "perform env clk topics (DraftSave i msg) = handle_draft_save env i msg"
| "perform env clk topics (DraftList a) = handle_draft_list env a"
| "perform env clk topics (DraftGet i) = handle_draft_get env i"
| "perform env clk topics (DraftDelete i) = handle_draft_delete env i"
| "perform env clk topics (TaskList include_done) = handle_task_list env include_done"
| "perform env clk topics (TaskCreate t) = handle_task_create env t"
| "perform env clk topics (TaskUpdate t) = handle_task_update env t"
| "perform env clk topics (TaskComplete i b) = handle_task_complete env i b"
| "perform env clk topics (TaskDelete i) = handle_task_delete env i"
| "perform env clk topics (CalendarList a b) = handle_calendar_list env a b"
| "perform env clk topics (CalendarCreate e) = handle_calendar_create env e"
| "perform env clk topics (CalendarUpdate e) = handle_calendar_update env e"
| "perform env clk topics (CalendarDelete i) = handle_calendar_delete env i"
| "perform env clk topics (AgendaSync a) = handle_agenda_sync env a"
| "perform env clk topics (SyncStart a) = handle_sync_start env a"

definition topics_after :: "rpc_error + request \<Rightarrow> string set \<Rightarrow> string set" where
  "topics_after r topics = (case r of Inr (Subscribe ts) \<Rightarrow> topics \<union> set ts | _ \<Rightarrow> topics)"

definition dispatch_inner ::
    "('p, 'g, 'w) daemon_env \<Rightarrow> (nat \<Rightarrow> int) \<Rightarrow> decoders \<Rightarrow> string set \<Rightarrow> string \<Rightarrow> json \<Rightarrow> ('p, 'w, rpc_error, reply) dio" where
  "dispatch_inner env clk dec topics rpc_method params =
     io_bind (io_lift (decode_request dec rpc_method params)) (perform env clk topics)"

subsection \<open>Responses\<close>

definition response :: "decoders \<Rightarrow> rpc_id \<Rightarrow> rpc_error + reply \<Rightarrow> rpc_response" where
  "response dec i result =
     (case result of
        Inr r \<Rightarrow> (case dc_reply dec r of
            Inr v \<Rightarrow> rpc_success i v
          | Inl msg \<Rightarrow> rpc_failure i (internal_error msg))
      | Inl err \<Rightarrow> rpc_failure i err)"

definition dispatch ::
    "('p, 'g, 'w) daemon_env \<Rightarrow> (nat \<Rightarrow> int) \<Rightarrow> decoders \<Rightarrow> rpc_request \<Rightarrow> string set \<Rightarrow> ('p, 'w) daemon
      \<Rightarrow> rpc_response \<times> string set \<times> ('p, 'w) daemon" where
  "dispatch env clk dec rq topics s =
     (if rq_jsonrpc rq \<noteq> JSONRPC_VERSION
      then (rpc_failure (rq_id rq) (invalid_request ''jsonrpc must be 2.0''), topics, s)
      else
        (case dispatch_inner env clk dec topics (rq_method rq) (rq_params rq) s of
           (result, s') \<Rightarrow> (response dec (rq_id rq) result,
              topics_after (decode_request dec (rq_method rq) (rq_params rq)) topics, s')))"

record inbound_request =
  in_jsonrpc :: string
  in_id :: "rpc_id option"
  in_method :: string
  in_params :: json

text \<open>A notification has no identifier. It is carried out and never answered.\<close>

definition dispatch_inbound ::
    "('p, 'g, 'w) daemon_env \<Rightarrow> (nat \<Rightarrow> int) \<Rightarrow> decoders \<Rightarrow> inbound_request \<Rightarrow> string set \<Rightarrow> ('p, 'w) daemon
      \<Rightarrow> rpc_response option \<times> string set \<times> ('p, 'w) daemon" where
  "dispatch_inbound env clk dec rq topics s =
     (case in_id rq of
        Some i \<Rightarrow>
          (case dispatch env clk dec \<lparr>rq_jsonrpc = in_jsonrpc rq, rq_id = i, rq_method = in_method rq, rq_params = in_params rq\<rparr> topics s of
             (rsp, topics', s') \<Rightarrow> (Some rsp, topics', s'))
      | None \<Rightarrow>
          if in_jsonrpc rq = JSONRPC_VERSION
          then (None, topics_after (decode_request dec (in_method rq) (in_params rq)) topics,
                snd (dispatch_inner env clk dec topics (in_method rq) (in_params rq) s))
          else (None, topics, s))"

subsection \<open>Every request keeps the store\<close>

definition decoders_ok :: "decoders \<Rightarrow> bool" where
  "decoders_ok dec \<longleftrightarrow> (\<forall>j t. dc_task dec j = Inr t \<longrightarrow> task_ok t) \<and> (\<forall>j e. dc_event dec j = Inr e \<longrightarrow> event_ok e)"

definition request_ok :: "request \<Rightarrow> bool" where
  "request_ok r \<longleftrightarrow> (case r of TaskCreate t \<Rightarrow> task_ok t | TaskUpdate t \<Rightarrow> task_ok t
     | CalendarCreate e \<Rightarrow> event_ok e | CalendarUpdate e \<Rightarrow> event_ok e | _ \<Rightarrow> True)"

lemma decode_Inr: "decode d f j = Inr r \<longleftrightarrow> (\<exists>x. d j = Inr x \<and> r = f x)"
  by (auto simp: decode_def result_simps)

lemma decode_or_default_Inr: "decode_or_default d x f j = Inr r \<Longrightarrow> \<exists>y. r = f y"
  by (auto simp: decode_or_default_def decode_Inr split: if_splits)

lemma decode_request_ok:
  assumes "decoders_ok dec" "decode_request dec m params = Inr r"
  shows "request_ok r"
proof -
  obtain read where "(m, read) \<in> set (request_table dec)" and r: "read params = Inr r"
    using assms(2) by (auto simp: decode_request_def split: option.splits dest: map_of_SomeD)
  then show ?thesis
    using assms(1) unfolding request_table_def
    by (auto simp: decode_Inr request_ok_def decoders_ok_def dest!: decode_or_default_Inr)
qed

lemma avatar_fetch_ok:
  assumes env: "env_good env"
  shows "handler_ok env (handle_avatar_fetch env url)"
proof -
  have fetched: "io_post (db_inv J) (\<lambda>s. case fetch_avatar e d u (dm_avatars s) of (r, w) \<Rightarrow> (map_ok AvatarReply r, s\<lparr>dm_avatars := w\<rparr>))
      (reply_trusted c)" for e d u c J
    by (auto simp: io_post_def db_inv_def result_simps split: prod.splits)
  show ?thesis
    unfolding handler_ok_def handle_avatar_fetch_def
    by (intro io_post_bind [OF io_post_lift [where Q = anything]] io_post_bind [OF post_await(2) [OF env [unfolded env_good_def]]] fetched) simp
qed

lemmas handlers_ok = read_handlers_ok snapshot_ok mail_get_ok mail_action_ok mail_send_ok attachment_download_ok draft_save_ok
  draft_delete_ok agenda_lists_ok task_create_ok task_update_ok task_complete_ok task_delete_ok calendar_create_ok calendar_update_ok
  calendar_delete_ok sync_handlers_ok account_handlers_ok avatar_fetch_ok

lemma perform_ok:
  assumes "env_good env" "request_ok r"
  shows "handler_ok env (perform env clk topics r)"
  using assms(2) by (cases r) (simp_all add: handlers_ok [OF assms(1)] request_ok_def handler_ok_def [of env "io_return x" for x] io_post_return)

lemma dispatch_inner_ok:
  assumes "env_good env" "decoders_ok dec"
  shows "handler_ok env (dispatch_inner env clk dec topics m params)"
  unfolding handler_ok_def dispatch_inner_def
proof (rule io_post_bind [where P = request_ok])
  show "io_post (db_inv (store_ok (de_clean env))) (io_lift (decode_request dec m params)) request_ok"
    by (rule io_post_lift) (rule decode_request_ok [OF assms(2)])
qed (rule perform_ok [OF assms(1), unfolded handler_ok_def])

text \<open>C2: every request keeps the store and answers with clean HTML. Whatever a client sends, a request that is
  carried out, one that fails, a notification or one with another version, it leaves a store that satisfies the
  integrity invariant and whose loaded bodies went through the sanitizer, and a message it answers with went through
  the sanitizer. The surroundings are held to this only: the other tasks and the providers keep the same, and instants
  that come in are values of \<open>DateTime\<close>.\<close>

theorem request_keeps_store:
  assumes env: "env_good env" and dec: "decoders_ok dec" and s: "store_ok (de_clean env) (dm_db s)"
    and run: "dispatch_inbound env clk dec rq topics s = (rsp, topics', s')"
  shows "store_ok (de_clean env) (dm_db s')
    \<and> (\<forall>r. fst (dispatch_inner env clk dec topics (in_method rq) (in_params rq) s) = Inr r \<longrightarrow> reply_trusted (de_clean env) r)"
proof -
  obtain q v where inner: "dispatch_inner env clk dec topics (in_method rq) (in_params rq) s = (q, v)" by (rule prod.exhaust)
  have "db_inv (store_ok (de_clean env)) v \<and> (\<forall>x. q = Inr x \<longrightarrow> reply_trusted (de_clean env) x)"
    using io_postD [OF dispatch_inner_ok [OF env dec, unfolded handler_ok_def] _ inner] s by (simp add: db_inv_def)
  moreover have "s' = v \<or> s' = s"
    using run inner by (auto simp: dispatch_inbound_def dispatch_def split: option.splits if_splits)
  ultimately show ?thesis using s inner by (auto simp: db_inv_def)
qed

definition rejecting :: "json \<Rightarrow> string + 'a" where
  "rejecting j = Inl ''bad''"

definition sample_decoders :: decoders where
  "sample_decoders =
     \<lparr>dc_subscribe = rejecting, dc_account_add = rejecting, dc_account_id = rejecting, dc_query = rejecting,
      dc_message_id = (\<lambda>_. Inr ''a:1''), dc_action = rejecting, dc_outgoing = rejecting, dc_attachment = rejecting,
      dc_avatar = rejecting, dc_draft_save = rejecting, dc_draft_list = rejecting, dc_draft_id = rejecting,
      dc_task_list = rejecting, dc_task = rejecting, dc_task_complete = rejecting, dc_task_id = rejecting,
      dc_calendar_list = rejecting, dc_event = rejecting, dc_event_id = rejecting, dc_sync_start = rejecting,
      dc_reply = (\<lambda>_. Inr JNull)\<rparr>"

definition sample_inbound :: "string \<Rightarrow> inbound_request" where
  "sample_inbound m = \<lparr>in_jsonrpc = ''2.0'', in_id = Some (RpcNumber 7), in_method = m, in_params = JNull\<rparr>"

definition sample_dispatch :: "string \<Rightarrow> rpc_response option \<times> string set \<times> (unit, unit) daemon" where
  "sample_dispatch m = dispatch_inbound sample_env (\<lambda>_. 0) sample_decoders (sample_inbound m) {} (sample_daemon sample_db)"

theorem request_keeps_store_witness: "store_ok (\<lambda>h. h) (dm_db (snd (snd (sample_dispatch ''mail.get''))))"
proof -
  have good: "env_good sample_env" unfolding env_good_def by (rule sample_env_meets)
  have dec: "decoders_ok sample_decoders" by (simp add: decoders_ok_def sample_decoders_def rejecting_def)
  have clean: "de_clean sample_env = (\<lambda>h. h)" by (simp add: sample_env_def)
  have "store_ok (de_clean sample_env) (dm_db (sample_daemon sample_db))"
    using db_ok_sample_db by (simp add: store_ok_def sample_daemon_def bodies_trusted_def row_trusted_def sample_db_def sample_message_def)
  moreover have "dispatch_inbound sample_env (\<lambda>_. 0) sample_decoders (sample_inbound ''mail.get'') {} (sample_daemon sample_db)
      = (fst (sample_dispatch ''mail.get''), fst (snd (sample_dispatch ''mail.get'')), snd (snd (sample_dispatch ''mail.get'')))"
    by (simp add: sample_dispatch_def)
  ultimately show ?thesis using request_keeps_store [OF good dec] unfolding clean by blast
qed

subsection \<open>The protocol\<close>

lemma decode_request_error:
  assumes "decode_request dec m params = Inl e"
  shows "re_code e = (if m \<in> set (map fst (request_table dec)) then -32602 else -32601)"
proof (cases "map_of (request_table dec) m")
  case None
  then have "m \<notin> set (map fst (request_table dec))" by (simp add: map_of_eq_None_iff)
  with None assms show ?thesis by (auto simp: decode_request_def rpc_error_defs)
next
  case (Some read)
  then have mem: "(m, read) \<in> set (request_table dec)" by (rule map_of_SomeD)
  then have "m \<in> set (map fst (request_table dec))" by force
  moreover have "re_code e = -32602"
    using assms Some mem
    by (auto simp: decode_request_def request_table_def decode_or_default_def decode_def result_simps rpc_error_defs split: if_splits)
  ultimately show ?thesis by simp
qed

lemma response_shape:
  "rr_id (response dec i r) = i \<and> rr_jsonrpc (response dec i r) = JSONRPC_VERSION
     \<and> (rr_result (response dec i r) = None \<longleftrightarrow> rr_error (response dec i r) \<noteq> None)"
  by (simp add: response_def rpc_success_def rpc_failure_def split: sum.splits)

text \<open>C24: the daemon keeps to JSON-RPC. A request with an identifier is answered once, under this identifier and with
  either a result or an error; a notification is never answered. A request with another version than 2.0 is answered with
  the code -32600, an unknown method with -32601, parameters that do not fit the method with -32602, and none of the
  three changes anything, the subscriptions of the client included.\<close>

theorem dispatch_protocol:
  assumes "dispatch_inbound env clk dec rq topics s = (rsp, topics', s')"
  shows "(rsp = None \<longleftrightarrow> in_id rq = None)
    \<and> (\<forall>x. rsp = Some x \<longrightarrow> in_id rq = Some (rr_id x) \<and> rr_jsonrpc x = ''2.0'' \<and> (rr_result x = None \<longleftrightarrow> rr_error x \<noteq> None))
    \<and> (in_jsonrpc rq \<noteq> ''2.0'' \<longrightarrow> s' = s \<and> topics' = topics
         \<and> (\<forall>x. rsp = Some x \<longrightarrow> map_option re_code (rr_error x) = Some (-32600)))
    \<and> (\<forall>e. in_jsonrpc rq = ''2.0'' \<and> decode_request dec (in_method rq) (in_params rq) = Inl e \<longrightarrow> s' = s \<and> topics' = topics
         \<and> (\<forall>x. rsp = Some x \<longrightarrow> rr_error x = Some e
              \<and> re_code e = (if in_method rq \<in> set (map fst (request_table dec)) then -32602 else -32601)))"
proof (cases "in_jsonrpc rq = JSONRPC_VERSION")
  case False
  then show ?thesis
    using assms by (auto simp: dispatch_inbound_def dispatch_def rpc_failure_def invalid_request_def rpc_err_def JSONRPC_VERSION_def
        split: option.splits)
next
  case True
  show ?thesis
  proof (cases "decode_request dec (in_method rq) (in_params rq)")
    case (Inl e)
    then have "dispatch_inner env clk dec topics (in_method rq) (in_params rq) s = (Inl e, s)"
      by (simp add: dispatch_inner_def io_bind_def io_lift_def)
    with Inl True assms decode_request_error [OF Inl] show ?thesis
      by (auto simp: dispatch_inbound_def dispatch_def response_def rpc_failure_def topics_after_def JSONRPC_VERSION_def split: option.splits)
  next
    case (Inr r)
    with True assms response_shape show ?thesis
      by (auto simp: dispatch_inbound_def dispatch_def JSONRPC_VERSION_def split: option.splits prod.splits)
  qed
qed

theorem dispatch_protocol_witness:
  "\<exists>x. fst (sample_dispatch ''mail.purge'') = Some x \<and> rr_id x = RpcNumber 7 \<and> map_option re_code (rr_error x) = Some (-32601)
     \<and> snd (snd (sample_dispatch ''mail.purge'')) = sample_daemon sample_db"
proof -
  let ?rq = "sample_inbound ''mail.purge''"
  have run: "dispatch_inbound sample_env (\<lambda>_. 0) sample_decoders ?rq {} (sample_daemon sample_db)
      = (fst (sample_dispatch ''mail.purge''), fst (snd (sample_dispatch ''mail.purge'')), snd (snd (sample_dispatch ''mail.purge'')))"
    by (simp add: sample_dispatch_def)
  have unknown: "''mail.purge'' \<notin> set (map fst (request_table sample_decoders))" by (simp add: request_table_def)
  then have "decode_request sample_decoders ''mail.purge'' JNull = Inl (method_not_found ''mail.purge'')"
    by (simp add: decode_request_def map_of_eq_None_iff [THEN iffD2])
  with dispatch_protocol [OF run] unknown show ?thesis
    by (cases "fst (sample_dispatch ''mail.purge'')") (simp_all add: sample_inbound_def)
qed

end
