(* ===== verification/Daemon_Connection.thy ===== *)
theory Daemon_Connection
  imports Daemon_Dispatch "HOL-Library.Multiset"
begin

section \<open>A client connection\<close>

text \<open>
  \<open>handle_connection\<close> of \<open>daemon.rs\<close> as a step relation: one step is one branch of its \<open>select!\<close> loop, or one move of
  a task it spawned. A request that was read goes one of three ways: a subscription is dispatched at once and answered
  before the next line is read, a reader runs in a task of its own, every other request goes to one ordered lane with
  one worker. The lane and the queue of responses hold \<open>MAX_IN_FLIGHT_REQUESTS\<close> entries; a request waits in
  \<open>cn_pending\<close> until the lane has room, and nothing is read meanwhile. The tasks and the worker hand their answers
  over when the queue of responses has room.

  The input is the list of the pieces in which the socket delivers it. \<open>read_until\<close> appends each piece to the buffer
  until a line is complete; the loop clears the buffer at the start of every iteration, that is, after every branch that
  was taken, and so also when a line was read in part only. \<open>cn_read\<close> and \<open>cn_done\<close> record the requests that were read
  and those that the worker dispatched; nothing depends on them. A dispatch is one step: what other tasks do while it
  waits is a matter of its own environment.
\<close>

definition MAX_IN_FLIGHT_REQUESTS :: nat where "MAX_IN_FLIGHT_REQUESTS = 32"
definition MAX_REQUEST_BYTES :: nat where "MAX_REQUEST_BYTES = 1024 * 1024"

datatype sent = Response rpc_response | Rejection rpc_response | Notification server_event | ResyncRequired nat

datatype reader = Running inbound_request | Sending rpc_response | Finished

record 'd conn =
  cn_pieces :: "string list"
  cn_buffer :: string
  cn_pending :: "inbound_request option"
  cn_lane :: "inbound_request list"
  cn_worker :: "rpc_response option"
  cn_tasks :: "reader list"
  cn_responses :: "rpc_response list"
  cn_out :: "sent list"
  cn_topics :: "string set"
  cn_open :: bool
  cn_daemon :: 'd
  cn_read :: "inbound_request list"
  cn_done :: "inbound_request list"

type_synonym 'd service = "inbound_request \<Rightarrow> string set \<Rightarrow> 'd \<Rightarrow> rpc_response option \<times> string set \<times> 'd"

text \<open>The parser of the JSON library on a line: what it complains of, or the request.\<close>

type_synonym parser = "string \<Rightarrow> string + inbound_request"

definition parse_failure :: "string \<Rightarrow> rpc_response" where
  "parse_failure detail = rpc_failure RpcNull
     \<lparr>re_code = -32700, re_message = ''parse error'', re_data = Some (JObj [(''detail'', JStr detail)])\<rparr>"

definition oversize_failure :: rpc_response where
  "oversize_failure = rpc_failure RpcNull (invalid_request ''request exceeds 1 MiB'')"

definition is_ordered :: "inbound_request \<Rightarrow> bool" where
  "is_ordered rq \<longleftrightarrow> in_method rq \<noteq> ''subscribe'' \<and> \<not> is_parallel_reader_method (in_method rq)"

text \<open>The worker of the ordered lane is one of the tasks that are counted.\<close>

definition may_read :: "'d conn \<Rightarrow> bool" where
  "may_read c \<longleftrightarrow> cn_open c \<and> cn_pending c = None \<and> Suc (length (cn_tasks c)) < MAX_IN_FLIGHT_REQUESTS"

definition has_room :: "'a list \<Rightarrow> bool" where
  "has_room queue \<longleftrightarrow> length queue < MAX_IN_FLIGHT_REQUESTS"

definition option_to_list :: "'a option \<Rightarrow> 'a list" where
  "option_to_list x = (case x of None \<Rightarrow> [] | Some y \<Rightarrow> [y])"

lemma option_to_list_simps [simp]: "option_to_list None = []" "option_to_list (Some x) = [x]"
  by (simp_all add: option_to_list_def)

subsection \<open>What becomes of a line\<close>

definition receive :: "parser \<Rightarrow> 'd service \<Rightarrow> string \<Rightarrow> 'd conn \<Rightarrow> 'd conn" where
  "receive parse serve line c =
     (if MAX_REQUEST_BYTES < length line then c\<lparr>cn_out := cn_out c @ [Rejection oversize_failure], cn_open := False\<rparr>
      else case parse line of
        Inl detail \<Rightarrow> c\<lparr>cn_out := cn_out c @ [Rejection (parse_failure detail)]\<rparr>
      | Inr rq \<Rightarrow>
          (let c = c\<lparr>cn_read := cn_read c @ [rq]\<rparr> in
           if in_method rq = ''subscribe'' then
             (case serve rq (cn_topics c) (cn_daemon c) of (answer, topics, d) \<Rightarrow>
                c\<lparr>cn_topics := topics, cn_daemon := d, cn_out := cn_out c @ map Response (option_to_list answer)\<rparr>)
           else if is_parallel_reader_method (in_method rq) then c\<lparr>cn_tasks := cn_tasks c @ [Running rq]\<rparr>
           else c\<lparr>cn_pending := Some rq\<rparr>))"

subsection \<open>The work on requests that were read\<close>

inductive work_step :: "'d service \<Rightarrow> 'd conn \<Rightarrow> 'd conn \<Rightarrow> bool" for serve :: "'d service" where
  Reserve: "cn_open c \<Longrightarrow> cn_pending c = Some rq \<Longrightarrow> has_room (cn_lane c) \<Longrightarrow>
    work_step serve c (c\<lparr>cn_buffer := [], cn_pending := None, cn_lane := cn_lane c @ [rq]\<rparr>)"
| Dispatch: "cn_open c \<Longrightarrow> cn_worker c = None \<Longrightarrow> cn_lane c = rq # rest \<Longrightarrow>
    serve rq {} (cn_daemon c) = (answer, ignored, d) \<Longrightarrow>
    work_step serve c (c\<lparr>cn_lane := rest, cn_worker := answer, cn_daemon := d, cn_done := cn_done c @ [rq]\<rparr>)"
| Hand_over: "cn_open c \<Longrightarrow> cn_worker c = Some rsp \<Longrightarrow> has_room (cn_responses c) \<Longrightarrow>
    work_step serve c (c\<lparr>cn_worker := None, cn_responses := cn_responses c @ [rsp]\<rparr>)"
| Read_dispatch: "cn_open c \<Longrightarrow> cn_tasks c = before @ Running rq # after \<Longrightarrow>
    serve rq {} (cn_daemon c) = (answer, ignored, d) \<Longrightarrow>
    work_step serve c
      (c\<lparr>cn_tasks := before @ (case answer of None \<Rightarrow> Finished | Some rsp \<Rightarrow> Sending rsp) # after, cn_daemon := d\<rparr>)"
| Read_hand_over: "cn_open c \<Longrightarrow> cn_tasks c = before @ Sending rsp # after \<Longrightarrow> has_room (cn_responses c) \<Longrightarrow>
    work_step serve c (c\<lparr>cn_tasks := before @ Finished # after, cn_responses := cn_responses c @ [rsp]\<rparr>)"
| Reap: "cn_open c \<Longrightarrow> cn_tasks c = before @ Finished # after \<Longrightarrow>
    work_step serve c (c\<lparr>cn_buffer := [], cn_tasks := before @ after\<rparr>)"
| Write: "cn_open c \<Longrightarrow> cn_responses c = rsp # rest \<Longrightarrow>
    work_step serve c (c\<lparr>cn_buffer := [], cn_responses := rest, cn_out := cn_out c @ [Response rsp]\<rparr>)"

subsection \<open>Reading, events, the end\<close>

definition newline :: char where "newline = CHR 0x0A"

text \<open>\<open>Read_last\<close> is the end of the input after a line without its newline; \<open>Close\<close> is that end with nothing in the
  buffer, a shutdown, or a write that failed.\<close>

inductive conn_step :: "parser \<Rightarrow> 'd service \<Rightarrow> 'd conn \<Rightarrow> 'd conn \<Rightarrow> bool"
  for parse :: parser and serve :: "'d service" where
  Work: "work_step serve c c' \<Longrightarrow> conn_step parse serve c c'"
| Read_part: "may_read c \<Longrightarrow> cn_pieces c = piece # rest \<Longrightarrow> newline \<notin> set piece \<Longrightarrow>
    conn_step parse serve c (c\<lparr>cn_pieces := rest, cn_buffer := cn_buffer c @ piece\<rparr>)"
| Read_line: "may_read c \<Longrightarrow> cn_pieces c = (part @ newline # others) # rest \<Longrightarrow> newline \<notin> set part \<Longrightarrow>
    conn_step parse serve c
      (receive parse serve (cn_buffer c @ part @ [newline]) (c\<lparr>cn_pieces := others # rest, cn_buffer := []\<rparr>))"
| Read_last: "may_read c \<Longrightarrow> cn_pieces c = [] \<Longrightarrow> cn_buffer c \<noteq> [] \<Longrightarrow>
    conn_step parse serve c (receive parse serve (cn_buffer c) (c\<lparr>cn_buffer := []\<rparr>))"
| Notify: "cn_open c \<Longrightarrow> ''*'' \<in> cn_topics c \<or> ev_topic e \<in> cn_topics c \<Longrightarrow>
    conn_step parse serve c (c\<lparr>cn_buffer := [], cn_out := cn_out c @ [Notification e]\<rparr>)"
| Ignore: "cn_open c \<Longrightarrow> ''*'' \<notin> cn_topics c \<Longrightarrow> ev_topic (e :: server_event) \<notin> cn_topics c \<Longrightarrow>
    conn_step parse serve c (c\<lparr>cn_buffer := []\<rparr>)"
| Lagged: "cn_open c \<Longrightarrow> conn_step parse serve c (c\<lparr>cn_buffer := [], cn_out := cn_out c @ [ResyncRequired skipped]\<rparr>)"
| Others: "cn_open c \<Longrightarrow> conn_step parse serve c (c\<lparr>cn_daemon := d\<rparr>)"
| Close: "cn_open c \<Longrightarrow> conn_step parse serve c (c\<lparr>cn_open := False\<rparr>)"

definition accepted_connection :: "string list \<Rightarrow> 'd \<Rightarrow> 'd conn" where
  "accepted_connection pieces d = \<lparr>cn_pieces = pieces, cn_buffer = [], cn_pending = None, cn_lane = [], cn_worker = None,
     cn_tasks = [], cn_responses = [], cn_out = [], cn_topics = {}, cn_open = True, cn_daemon = d, cn_read = [], cn_done = []\<rparr>"

subsection \<open>What is always true of a connection\<close>

text \<open>The identifiers to which an answer is due, is under way, or was written.\<close>

definition ids_due :: "inbound_request list \<Rightarrow> rpc_id list" where
  "ids_due rqs = concat (map (\<lambda>rq. option_to_list (in_id rq)) rqs)"

fun reader_ids :: "reader \<Rightarrow> rpc_id list" where
  "reader_ids (Running rq) = option_to_list (in_id rq)"
| "reader_ids (Sending rsp) = [rr_id rsp]"
| "reader_ids Finished = []"

fun answered_id :: "sent \<Rightarrow> rpc_id list" where
  "answered_id (Response rsp) = [rr_id rsp]"
| "answered_id _ = []"

definition ids_written :: "'d conn \<Rightarrow> rpc_id list" where
  "ids_written c = concat (map answered_id (cn_out c))"

definition ids_under_way :: "'d conn \<Rightarrow> rpc_id list" where
  "ids_under_way c = ids_due (option_to_list (cn_pending c)) @ ids_due (cn_lane c) @ map rr_id (option_to_list (cn_worker c))
     @ concat (map reader_ids (cn_tasks c)) @ map rr_id (cn_responses c)"

definition ordered_in_order :: "'d conn \<Rightarrow> bool" where
  "ordered_in_order c \<longleftrightarrow> filter is_ordered (cn_read c) = cn_done c @ cn_lane c @ option_to_list (cn_pending c)"

definition queues_bounded :: "'d conn \<Rightarrow> bool" where
  "queues_bounded c \<longleftrightarrow> length (cn_lane c) \<le> MAX_IN_FLIGHT_REQUESTS \<and> length (cn_responses c) \<le> MAX_IN_FLIGHT_REQUESTS
     \<and> Suc (length (cn_tasks c)) \<le> MAX_IN_FLIGHT_REQUESTS"

definition nothing_lost :: "'d conn \<Rightarrow> bool" where
  "nothing_lost c \<longleftrightarrow> mset (ids_written c) + mset (ids_under_way c) = mset (ids_due (cn_read c))"

lemma ids_due_simps [simp]: "ids_due [] = []" "ids_due (rq # rqs) = option_to_list (in_id rq) @ ids_due rqs"
  "ids_due (rqs @ rqs') = ids_due rqs @ ids_due rqs'"
  by (simp_all add: ids_due_def)

lemma answered_responses [simp]: "concat (map (answered_id \<circ> Response) rsps) = map rr_id rsps"
  by (induction rsps) simp_all

lemmas under_way_simps = nothing_lost_def ids_written_def ids_under_way_def

text \<open>A service that answers the requests that have an identifier, and each under its own.\<close>

locale answering =
  fixes serve :: "'d service"
  assumes answers: "serve rq topics d = (answer, topics', d') \<Longrightarrow> map_option rr_id answer = in_id rq"
begin

lemma answer_ids:
  assumes "serve rq topics d = (answer, topics', d')"
  shows "option_to_list (in_id rq) = map rr_id (option_to_list answer)"
  using answers [OF assms] by (cases answer; cases "in_id rq") simp_all

lemma work_nothing_lost: "work_step serve c c' \<Longrightarrow> nothing_lost c \<Longrightarrow> nothing_lost c'"
proof (induction rule: work_step.induct)
  case (Reserve c rq)
  then show ?case by (simp add: under_way_simps ac_simps)
next
  case (Dispatch c rq rest answer ignored d)
  from answer_ids [OF Dispatch(4)] Dispatch(2,3,5) show ?case by (simp add: under_way_simps ac_simps)
next
  case (Hand_over c rsp)
  then show ?case by (simp add: under_way_simps ac_simps)
next
  case (Read_dispatch c before rq after answer ignored d)
  from answer_ids [OF Read_dispatch(3)] Read_dispatch(2,4) show ?case
    by (cases answer) (simp_all add: under_way_simps ac_simps)
next
  case (Read_hand_over c before rsp after)
  then show ?case by (simp add: under_way_simps ac_simps)
next
  case (Reap c before after)
  then show ?case by (simp add: under_way_simps ac_simps)
next
  case (Write c rsp rest)
  then show ?case by (simp add: under_way_simps ac_simps)
qed

lemma receive_nothing_lost:
  assumes "cn_pending c = None" and "nothing_lost c"
  shows "nothing_lost (receive parse serve line c)"
proof (cases "parse line")
  case (Inl detail)
  with assms show ?thesis by (simp add: receive_def under_way_simps)
next
  case (Inr rq)
  obtain answer topics d where answer: "serve rq (cn_topics c) (cn_daemon c) = (answer, topics, d)"
    by (metis prod_cases3)
  from Inr answer_ids [OF answer] answer assms show ?thesis
    by (cases answer) (simp_all add: receive_def under_way_simps Let_def ac_simps)
qed

lemma step_nothing_lost: "conn_step parse serve c c' \<Longrightarrow> nothing_lost c \<Longrightarrow> nothing_lost c'"
proof (induction rule: conn_step.induct)
  case (Work c c')
  then show ?case by (rule work_nothing_lost)
next
  case (Read_line c part others rest)
  then show ?case by (intro receive_nothing_lost) (simp_all add: may_read_def under_way_simps)
next
  case (Read_last c)
  then show ?case by (intro receive_nothing_lost) (simp_all add: may_read_def under_way_simps)
qed (simp_all add: under_way_simps)

lemma reachable_nothing_lost:
  "(conn_step parse serve)\<^sup>*\<^sup>* (accepted_connection pieces d) c \<Longrightarrow> nothing_lost c"
proof (induction rule: rtranclp_induct)
  case base
  show ?case by (simp add: under_way_simps accepted_connection_def)
next
  case (step c c')
  then show ?case using step_nothing_lost by blast
qed

end

lemma response_id [simp]: "rr_id (response dec i r) = i"
  by (simp add: response_def rpc_success_def rpc_failure_def split: sum.splits)

interpretation daemon_answers: answering "dispatch_inbound env clk dec" for env clk dec
  by unfold_locales (auto simp: dispatch_inbound_def dispatch_def rpc_failure_def split: option.splits if_splits prod.splits)

definition orderly :: "'d conn \<Rightarrow> bool" where
  "orderly c \<longleftrightarrow> ordered_in_order c \<and> queues_bounded c"

lemma work_orderly: "work_step serve c c' \<Longrightarrow> orderly c \<Longrightarrow> orderly c'"
  by (induction rule: work_step.induct) (simp_all add: orderly_def ordered_in_order_def queues_bounded_def has_room_def)

lemma receive_orderly: "may_read c \<Longrightarrow> orderly c \<Longrightarrow> orderly (receive parse serve line c)"
  by (cases "parse line")
    (auto simp: receive_def Let_def orderly_def ordered_in_order_def queues_bounded_def may_read_def is_ordered_def
      split: prod.split)

lemma step_orderly: "conn_step parse serve c c' \<Longrightarrow> orderly c \<Longrightarrow> orderly c'"
proof (induction rule: conn_step.induct)
  case (Work c c')
  then show ?case by (rule work_orderly)
next
  case (Read_line c part others rest)
  then show ?case
    by (intro receive_orderly) (simp_all add: may_read_def orderly_def ordered_in_order_def queues_bounded_def)
next
  case (Read_last c)
  then show ?case
    by (intro receive_orderly) (simp_all add: may_read_def orderly_def ordered_in_order_def queues_bounded_def)
qed (simp_all add: orderly_def ordered_in_order_def queues_bounded_def)

lemma reachable_orderly: "(conn_step parse serve)\<^sup>*\<^sup>* (accepted_connection pieces d) c \<Longrightarrow> orderly c"
proof (induction rule: rtranclp_induct)
  case base
  show ?case
    by (simp add: orderly_def ordered_in_order_def queues_bounded_def accepted_connection_def MAX_IN_FLIGHT_REQUESTS_def)
next
  case (step c c')
  then show ?case using step_orderly by blast
qed

subsection \<open>The service of the daemon\<close>

text \<open>Every dispatch meets an environment and clock of its own.\<close>

definition daemon_service :: "decoders \<Rightarrow> ('p, 'w) daemon service \<Rightarrow> bool" where
  "daemon_service dec serve \<longleftrightarrow>
     (\<forall>rq topics s. \<exists>env clk. serve rq topics s = dispatch_inbound (env :: ('p, unit, 'w) daemon_env) clk dec rq topics s)"

lemma daemon_service_answers: "daemon_service dec serve \<Longrightarrow> answering serve"
  by unfold_locales (metis daemon_service_def daemon_answers.answers)

subsection \<open>The work ends\<close>

fun reader_weight :: "reader \<Rightarrow> nat" where
  "reader_weight (Running rq) = 4"
| "reader_weight (Sending rsp) = 3"
| "reader_weight Finished = 1"

definition work_left :: "'d conn \<Rightarrow> nat" where
  "work_left c = 5 * length (option_to_list (cn_pending c)) + 4 * length (cn_lane c) + 2 * length (option_to_list (cn_worker c))
     + sum_list (map reader_weight (cn_tasks c)) + length (cn_responses c)"

lemma work_step_less: "work_step serve c c' \<Longrightarrow> work_left c' < work_left c"
  by (induction rule: work_step.induct) (simp_all add: work_left_def option_to_list_def split: option.splits)

lemma work_steps_bounded: "(work_step serve ^^ n) c c' \<Longrightarrow> n + work_left c' \<le> work_left c"
proof (induction n arbitrary: c')
  case (Suc n)
  then obtain m where "(work_step serve ^^ n) c m" and last: "work_step serve m c'" by auto
  with Suc.IH have "n + work_left m \<le> work_left c" by blast
  with work_step_less [OF last] show ?case by simp
qed simp

lemma work_step_keeps: "work_step serve c c' \<Longrightarrow> cn_open c' = cn_open c \<and> cn_read c' = cn_read c"
  by (induction rule: work_step.induct) simp_all

lemma work_progress:
  assumes "cn_open c" and "work_left c \<noteq> 0"
  shows "\<exists>c'. work_step serve c c'"
proof (cases "cn_responses c")
  case (Cons rsp rest)
  with assms(1) show ?thesis using work_step.Write by blast
next
  case no_responses: Nil
  then have room: "has_room (cn_responses c)" by (simp add: has_room_def MAX_IN_FLIGHT_REQUESTS_def)
  show ?thesis
  proof (cases "cn_worker c")
    case (Some rsp)
    with room assms(1) show ?thesis using work_step.Hand_over by blast
  next
    case idle: None
    show ?thesis
    proof (cases "cn_lane c")
      case (Cons rq rest)
      obtain answer topics d where "serve rq {} (cn_daemon c) = (answer, topics, d)" by (metis prod_cases3)
      then show ?thesis using work_step.Dispatch [OF assms(1) idle Cons] by blast
    next
      case empty: Nil
      then have lane: "has_room (cn_lane c)" by (simp add: has_room_def MAX_IN_FLIGHT_REQUESTS_def)
      show ?thesis
      proof (cases "cn_pending c")
        case (Some rq)
        with lane assms(1) show ?thesis using work_step.Reserve by blast
      next
        case None
        with assms(2) no_responses idle empty obtain task rest where tasks: "cn_tasks c = [] @ task # rest"
          by (cases "cn_tasks c") (auto simp: work_left_def)
        show ?thesis
        proof (cases task)
          case (Running rq)
          with tasks have "cn_tasks c = [] @ Running rq # rest" by simp
          moreover obtain answer topics d where "serve rq {} (cn_daemon c) = (answer, topics, d)" by (metis prod_cases3)
          ultimately show ?thesis using work_step.Read_dispatch [OF assms(1)] by blast
        next
          case (Sending rsp)
          with tasks room show ?thesis using work_step.Read_hand_over [OF assms(1), of "[]" rsp rest] by auto
        next
          case Finished
          with tasks show ?thesis using work_step.Reap [OF assms(1), of "[]" rest] by auto
        qed
      qed
    qed
  qed
qed

lemma reader_weight_pos [simp]: "reader_weight r \<noteq> 0"
  by (cases r) simp_all

lemma work_can_end: "\<exists>c'. (work_step serve)\<^sup>*\<^sup>* c c' \<and> (\<nexists>c''. work_step serve c' c'')"
proof (induction "work_left c" arbitrary: c rule: less_induct)
  case less
  show ?case
  proof (cases "\<exists>m. work_step serve c m")
    case True
    then obtain m where m: "work_step serve c m" by blast
    from less [OF work_step_less [OF m]] m show ?thesis by (meson converse_rtranclp_into_rtranclp)
  qed blast
qed

lemma work_done: "work_left c = 0 \<Longrightarrow> ids_under_way c = []"
  by (simp add: work_left_def ids_under_way_def option_to_list_def split: option.splits)

lemma reader_weight_le: "reader_weight r \<le> 4"
  by (cases r) simp_all

lemma reader_weights_le: "sum_list (map reader_weight rs) \<le> 4 * length rs"
  by (induction rs) (simp_all add: add_le_mono reader_weight_le)

lemma orderly_work_left: "orderly c \<Longrightarrow> work_left c \<le> 291"
  using reader_weights_le [of "cn_tasks c"]
  by (simp add: orderly_def queues_bounded_def work_left_def option_to_list_def MAX_IN_FLIGHT_REQUESTS_def split: option.splits)

lemma work_run_keeps: "(work_step serve)\<^sup>*\<^sup>* c c' \<Longrightarrow> cn_open c' = cn_open c \<and> cn_read c' = cn_read c"
  by (induction rule: rtranclp_induct) (auto dest: work_step_keeps)

lemma work_run_steps: "(work_step serve)\<^sup>*\<^sup>* c c' \<Longrightarrow> (conn_step parse serve)\<^sup>*\<^sup>* c c'"
  by (induction rule: rtranclp_induct) (auto intro: rtranclp.rtrancl_into_rtrancl conn_step.Work)

definition sample_service :: "(unit, unit) daemon service" where
  "sample_service = dispatch_inbound sample_env (\<lambda>_. 0) sample_decoders"

definition sample_parse :: parser where
  "sample_parse line = (if line = ''ok'' @ [newline] then Inr (sample_inbound ''mail.purge'') else Inl ''unexpected'')"

text \<open>The connection after one line in one piece.\<close>

definition sample_connection :: "(unit, unit) daemon conn" where
  "sample_connection = receive sample_parse sample_service (''ok'' @ [newline])
     ((accepted_connection [''ok'' @ [newline]] (sample_daemon sample_db))\<lparr>cn_pieces := [[]]\<rparr>)"

lemma sample_service_ok: "daemon_service sample_decoders sample_service"
  by (auto simp: daemon_service_def sample_service_def)

lemma sample_reached:
  "(conn_step sample_parse sample_service)\<^sup>*\<^sup>* (accepted_connection [''ok'' @ [newline]] (sample_daemon sample_db)) sample_connection"
proof -
  let ?c = "accepted_connection [''ok'' @ [newline]] (sample_daemon sample_db)"
  have "conn_step sample_parse sample_service ?c
      (receive sample_parse sample_service (cn_buffer ?c @ ''ok'' @ [newline]) (?c\<lparr>cn_pieces := [[]], cn_buffer := []\<rparr>))"
    by (rule conn_step.Read_line) (simp_all add: accepted_connection_def may_read_def MAX_IN_FLIGHT_REQUESTS_def newline_def)
  then show ?thesis by (simp add: sample_connection_def accepted_connection_def)
qed

lemma sample_connection_fields:
  "cn_open sample_connection" "cn_read sample_connection = [sample_inbound ''mail.purge'']" "cn_done sample_connection = []"
  by (simp_all add: sample_connection_def receive_def sample_parse_def accepted_connection_def sample_inbound_def
      is_parallel_reader_method_def MAX_REQUEST_BYTES_def)

text \<open>C7: a client that keeps its connection open gets its answers. Whatever it sent and whatever state the connection
  is in, the requests that were read are worked off in at most 291 moves of the worker, the reader tasks and the writer,
  in any order: no queue that is full blocks them for ever. When none of them can move, every request that has an
  identifier was answered exactly once.\<close>

theorem every_request_is_answered:
  assumes "daemon_service dec serve"
    and reach: "(conn_step parse serve)\<^sup>*\<^sup>* (accepted_connection pieces s) c" and live: "cn_open c"
  shows "(\<forall>n c'. (work_step serve ^^ n) c c' \<longrightarrow> n \<le> 291)
    \<and> (\<forall>c'. (work_step serve)\<^sup>*\<^sup>* c c' \<and> (\<nexists>c''. work_step serve c' c'') \<longrightarrow>
         mset (ids_written c') = mset (ids_due (cn_read c)) \<and> cn_open c')"
proof (intro conjI allI impI)
  fix n c' assume "(work_step serve ^^ n) c c'"
  from work_steps_bounded [OF this] orderly_work_left [OF reachable_orderly [OF reach]] show "n \<le> 291" by simp
next
  fix c' assume stuck: "(work_step serve)\<^sup>*\<^sup>* c c' \<and> (\<nexists>c''. work_step serve c' c'')"
  with work_run_keeps live have kept: "cn_open c'" "cn_read c' = cn_read c" by metis+
  then show "cn_open c'" by simp
  from stuck kept work_progress have "work_left c' = 0" by metis
  moreover from reach stuck work_run_steps have "(conn_step parse serve)\<^sup>*\<^sup>* (accepted_connection pieces s) c'"
    by (metis rtranclp_trans)
  then have "nothing_lost c'"
    by (rule answering.reachable_nothing_lost [OF daemon_service_answers [OF assms(1)]])
  ultimately show "mset (ids_written c') = mset (ids_due (cn_read c))"
    using kept work_done [of c'] by (simp add: nothing_lost_def)
qed

theorem every_request_is_answered_witness:
  "\<exists>c'. (work_step sample_service)\<^sup>*\<^sup>* sample_connection c' \<and> (\<nexists>c''. work_step sample_service c' c'')
     \<and> mset (ids_written c') = {#RpcNumber 7#}"
proof -
  have due: "mset (ids_due (cn_read sample_connection)) = {#RpcNumber 7#}"
    by (simp add: sample_connection_fields sample_inbound_def)
  obtain c' where run: "(work_step sample_service)\<^sup>*\<^sup>* sample_connection c' \<and> (\<nexists>c''. work_step sample_service c' c'')"
    using work_can_end by blast
  from every_request_is_answered [OF sample_service_ok sample_reached sample_connection_fields(1)] run due
  have "mset (ids_written c') = {#RpcNumber 7#}" by metis
  with run show ?thesis by (elim conjE) (intro exI conjI)
qed

text \<open>C15: a connection keeps the order of what changes things. The requests that are neither subscriptions nor readers
  reach the daemon one at a time in the order in which the client sent them; the lane, the queue of responses and the
  tasks never grow over their bound; and what was written so far answers requests that were read, each at most once.\<close>

theorem ordered_lane_is_fifo:
  assumes "daemon_service dec serve" and reach: "(conn_step parse serve)\<^sup>*\<^sup>* (accepted_connection pieces s) c"
  shows "(\<exists>waiting. filter is_ordered (cn_read c) = cn_done c @ waiting \<and> length waiting \<le> 33)
    \<and> length (cn_lane c) \<le> 32 \<and> length (cn_responses c) \<le> 32 \<and> length (cn_tasks c) < 32
    \<and> mset (ids_written c) \<subseteq># mset (ids_due (cn_read c))"
proof (intro conjI)
  from reachable_orderly [OF reach] have o: "ordered_in_order c" and q: "queues_bounded c" by (simp_all add: orderly_def)
  from o q show "\<exists>waiting. filter is_ordered (cn_read c) = cn_done c @ waiting \<and> length waiting \<le> 33"
    by (intro exI [of _ "cn_lane c @ option_to_list (cn_pending c)"])
      (simp add: ordered_in_order_def queues_bounded_def MAX_IN_FLIGHT_REQUESTS_def option_to_list_def split: option.split)
  from q show "length (cn_lane c) \<le> 32" "length (cn_responses c) \<le> 32" "length (cn_tasks c) < 32"
    by (simp_all add: queues_bounded_def MAX_IN_FLIGHT_REQUESTS_def)
  from answering.reachable_nothing_lost [OF daemon_service_answers [OF assms(1)] reach]
  show "mset (ids_written c) \<subseteq># mset (ids_due (cn_read c))"
    by (metis nothing_lost_def mset_subset_eq_add_left)
qed

theorem ordered_lane_is_fifo_witness:
  "(\<exists>waiting. [sample_inbound ''mail.purge''] = cn_done sample_connection @ waiting \<and> length waiting \<le> 33)
    \<and> length (cn_tasks sample_connection) < 32"
proof -
  have ordered: "filter is_ordered (cn_read sample_connection) = [sample_inbound ''mail.purge'']"
    by (simp add: sample_connection_fields is_ordered_def sample_inbound_def is_parallel_reader_method_def)
  note fifo = ordered_lane_is_fifo [OF sample_service_ok sample_reached, unfolded ordered]
  show ?thesis by (rule conjI [OF fifo [THEN conjunct1] fifo [THEN conjunct2, THEN conjunct2, THEN conjunct2, THEN conjunct1]])
qed

text \<open>C39: a line that arrives in two pieces is read as one when nothing happens between them, and torn when an event is
  published in between: the first piece is dropped with the buffer, even if the event does not concern the client, the
  request is never carried out, and the rest of the line is answered as a parse error.\<close>

theorem event_tears_a_line:
  assumes "newline \<notin> set a" and "newline \<notin> set b" and "length (a @ b) < MAX_REQUEST_BYTES"
    and whole: "parse (a @ b @ [newline]) = Inr rq" and rest: "parse (b @ [newline]) = Inl detail" and ordered: "is_ordered rq"
  shows "(\<exists>c. (conn_step parse serve)\<^sup>*\<^sup>* (accepted_connection [a, b @ [newline]] s) c \<and> cn_pending c = Some rq \<and> cn_out c = [])
    \<and> (\<exists>c. (conn_step parse serve)\<^sup>*\<^sup>* (accepted_connection [a, b @ [newline]] s) c \<and> cn_pieces c = [[]] \<and> cn_read c = []
         \<and> cn_out c = [Rejection (parse_failure detail)] \<and> cn_open c)"
proof -
  let ?c0 = "accepted_connection [a, b @ [newline]] s"
  let ?c1 = "?c0\<lparr>cn_pieces := [b @ [newline]], cn_buffer := cn_buffer ?c0 @ a\<rparr>"
  let ?c2 = "?c1\<lparr>cn_buffer := []\<rparr>"
  let ?line = "\<lambda>c. receive parse serve (cn_buffer c @ b @ [newline]) (c\<lparr>cn_pieces := [] # [], cn_buffer := []\<rparr>)"
  have ready: "may_read ?c0" "may_read ?c1" "may_read ?c2"
    by (simp_all add: may_read_def accepted_connection_def MAX_IN_FLIGHT_REQUESTS_def)
  have part: "conn_step parse serve ?c0 ?c1"
    by (rule conn_step.Read_part) (use assms(1) ready in \<open>simp_all add: accepted_connection_def\<close>)
  have event: "conn_step parse serve ?c1 ?c2"
    by (rule conn_step.Ignore [where e = "\<lparr>ev_topic = ''mail'', ev_method = ''mail.changed'', ev_params = JNull\<rparr>"]) (simp_all add: accepted_connection_def)
  have line: "conn_step parse serve c (?line c)" if "may_read c" "cn_pieces c = [b @ [newline]]" for c
    using that assms(2) conn_step.Read_line [of c b "[]" "[]" parse serve] by simp
  from line [OF ready(2)] part have "(conn_step parse serve)\<^sup>*\<^sup>* ?c0 (?line ?c1)" by (simp add: converse_rtranclp_into_rtranclp)
  moreover have "cn_pending (?line ?c1) = Some rq \<and> cn_out (?line ?c1) = []"
    using whole ordered assms(3) by (simp add: receive_def accepted_connection_def is_ordered_def)
  moreover from line [OF ready(3)] part event have "(conn_step parse serve)\<^sup>*\<^sup>* ?c0 (?line ?c2)"
    by (simp add: converse_rtranclp_into_rtranclp)
  moreover have "cn_pieces (?line ?c2) = [[]] \<and> cn_read (?line ?c2) = [] \<and> cn_open (?line ?c2)
      \<and> cn_out (?line ?c2) = [Rejection (parse_failure detail)]"
    using rest assms(3) by (simp add: receive_def accepted_connection_def)
  ultimately show ?thesis by blast
qed

theorem event_tears_a_line_witness:
  "\<exists>c. (conn_step sample_parse sample_service)\<^sup>*\<^sup>* (accepted_connection [''o'', ''k'' @ [newline]] (sample_daemon sample_db)) c
     \<and> cn_out c = [Rejection (parse_failure ''unexpected'')] \<and> cn_open c"
proof -
  have "newline \<notin> set ''o''" "newline \<notin> set ''k''" "length (''o'' @ ''k'') < MAX_REQUEST_BYTES"
    "sample_parse (''o'' @ ''k'' @ [newline]) = Inr (sample_inbound ''mail.purge'')"
    "sample_parse (''k'' @ [newline]) = Inl ''unexpected''" "is_ordered (sample_inbound ''mail.purge'')"
    by (simp_all add: newline_def sample_parse_def MAX_REQUEST_BYTES_def is_ordered_def sample_inbound_def is_parallel_reader_method_def)
  from event_tears_a_line [OF this, of sample_service "sample_daemon sample_db", THEN conjunct2] show ?thesis
    by (elim exE conjE) (intro exI conjI, assumption+)
qed

end
