(* ===== verification/Base64_Url.thy ===== *)
theory Base64_Url
  imports Mime_Codec
begin

section \<open>Base64 for URLs\<close>

text \<open>
  \<open>base64_url_encode\<close> and \<open>base64_url_decode\<close> of \<open>providers/gmail.rs\<close>. The other providers use the engine
  \<open>URL_SAFE_NO_PAD\<close> of the crate \<open>base64\<close>, a parameter of their models. The locale \<open>base64url\<close> states what they
  need of an engine; it is interpreted on Gmail's codec, and the theorems about the other providers have it as a
  hypothesis on the engine of the crate.
\<close>

locale base64url =
  fixes enc :: "string \<Rightarrow> string" and dec :: "string \<Rightarrow> string option"
  assumes dec_enc: "dec (enc s) = Some s"
    and enc_chars: "c \<in> set (enc s) \<Longrightarrow> is_ascii_alphanumeric c \<or> c = CHR ''-'' \<or> c = CHR ''_''"
    and enc_length: "length (enc s) = (4 * length s + 2) div 3"
begin

lemma enc_inject: "enc s = enc t \<longleftrightarrow> s = t"
  by (metis dec_enc option.inject)

lemma enc_not_in: "\<not> is_ascii_alphanumeric c \<Longrightarrow> c \<noteq> CHR ''-'' \<Longrightarrow> c \<noteq> CHR ''_'' \<Longrightarrow> c \<notin> set (enc s)"
  using enc_chars by blast

lemma enc_Nil_iff: "enc s = [] \<longleftrightarrow> s = []"
  using enc_length [of s] by (cases s) auto

end

subsection \<open>The codec of the Gmail client\<close>

definition URL_TABLE :: string where
  "URL_TABLE = ''ABCDEFGHIJKLMNOPQRSTUVWXYZabcdefghijklmnopqrstuvwxyz0123456789-_''"

definition url_char :: "nat \<Rightarrow> char" where
  "url_char v = URL_TABLE ! v"

text \<open>A chunk of three bytes; the bytes that the last chunk lacks count as 0.\<close>

fun base64_url_encode :: "string \<Rightarrow> string" where
  "base64_url_encode [] = []"
| "base64_url_encode [a] =
     (let value = byte_of a * 65536
      in [url_char (value div 262144 mod 64), url_char (value div 4096 mod 64)])"
| "base64_url_encode [a, b] =
     (let value = byte_of a * 65536 + byte_of b * 256
      in [url_char (value div 262144 mod 64), url_char (value div 4096 mod 64), url_char (value div 64 mod 64)])"
| "base64_url_encode (a # b # c # s) =
     (let value = byte_of a * 65536 + byte_of b * 256 + byte_of c
      in [url_char (value div 262144 mod 64), url_char (value div 4096 mod 64),
          url_char (value div 64 mod 64), url_char (value mod 64)] @ base64_url_encode s)"

text \<open>The accumulator is a \<open>u32\<close>: the shift drops the bits above the 32nd. Both alphabets are read.\<close>

fun base64_url_loop :: "nat \<Rightarrow> nat \<Rightarrow> string \<Rightarrow> string option" where
  "base64_url_loop accumulator bits [] = Some []"
| "base64_url_loop accumulator bits (c # s) =
     (if c = CHR ''='' then Some []
      else (case base64_value c of
              None \<Rightarrow> None
            | Some v \<Rightarrow>
                (let accumulator = accumulator * 64 mod 2 ^ 32 + v; bits = bits + 6 in
                 if 8 \<le> bits
                 then map_option (\<lambda>r. char_of (accumulator div 2 ^ (bits - 8)) # r)
                        (base64_url_loop (accumulator mod 2 ^ (bits - 8)) (bits - 8) s)
                 else base64_url_loop accumulator bits s)))"

definition base64_url_decode :: "string \<Rightarrow> string option" where
  "base64_url_decode s = base64_url_loop 0 0 (filter (\<lambda>c. \<not> is_ascii_whitespace c) s)"

subsection \<open>The round trip\<close>

text \<open>On clean text the loop is that of the MIME codec.\<close>

lemma base64_url_loop_mime:
  "list_all (\<lambda>c. \<not> is_ascii_whitespace c) s \<Longrightarrow>
    base64_url_loop acc bits s = (case decode_base64_loop acc bits s of Inl _ \<Rightarrow> None | Inr r \<Rightarrow> Some r)"
  by (induction acc bits s rule: base64_url_loop.induct)
    (auto simp: Let_def map_ok_def split: option.splits sum.splits)

definition url_variant :: "char \<Rightarrow> char" where
  "url_variant c = (if c = CHR ''+'' then CHR ''-'' else if c = CHR ''/'' then CHR ''_'' else c)"

lemma url_table: "URL_TABLE = map url_variant BASE64_TABLE"
  by (simp add: URL_TABLE_def BASE64_TABLE_def url_variant_def)

lemma url_char_variant: "v < 64 \<Longrightarrow> url_char v = url_variant (base64_char v)"
  by (simp add: url_char_def url_table base64_char_def base64_table_length)

lemma base64_value_variant: "base64_value (url_variant c) = base64_value c"
  by (simp add: url_variant_def base64_value_def byte_of_def)

lemma whitespace_variant: "is_ascii_whitespace (url_variant c) = is_ascii_whitespace c"
  by (simp add: url_variant_def is_ascii_whitespace_def byte_of_def)

lemma pad_variant: "url_variant c = CHR ''='' \<longleftrightarrow> c = CHR ''=''"
  by (simp add: url_variant_def)

lemma decode_variant: "decode_base64_loop acc bits (map url_variant s) = decode_base64_loop acc bits s"
proof (induction acc bits s rule: decode_base64_loop.induct)
  case (2 acc bits c s)
  then show ?case
    by (cases "base64_value c") (simp_all add: Let_def base64_value_variant whitespace_variant pad_variant)
qed simp

lemma decode_without_pad: "decode_base64_loop acc bits (takeWhile (\<lambda>c. c \<noteq> CHR ''='') s) = decode_base64_loop acc bits s"
  by (induction acc bits s rule: decode_base64_loop.induct)
    (auto simp: Let_def is_ascii_whitespace_def byte_of_def split: option.splits)

lemma base64_char_not_pad: "base64_char (n mod 64) \<noteq> CHR ''=''"
  using base64_char_facts [of "n mod 64"] by simp

lemma url_encode_variant:
  "base64_url_encode s = map url_variant (takeWhile (\<lambda>c. c \<noteq> CHR ''='') (encode_base64 s))"
  by (induction s rule: base64_url_encode.induct) (simp_all add: Let_def url_char_variant base64_char_not_pad)

lemma URL_TABLE_chars: "list_all (\<lambda>c. is_ascii_alphanumeric c \<or> c = CHR ''-'' \<or> c = CHR ''_'') URL_TABLE"
  by (simp add: URL_TABLE_def ascii_defs)

lemma url_char_in_table: "v < 64 \<Longrightarrow> url_char v \<in> set URL_TABLE"
  unfolding url_char_def by (rule nth_mem) (simp add: URL_TABLE_def)

lemma base64_url_encode_chars: "set (base64_url_encode s) \<subseteq> set URL_TABLE"
  by (induction s rule: base64_url_encode.induct) (simp_all add: Let_def url_char_in_table)

lemma base64_url_encode_length: "length (base64_url_encode s) = (4 * length s + 2) div 3"
  by (induction s rule: base64_url_encode.induct) (simp_all add: Let_def)

lemma url_chars_not_space: "c \<in> set URL_TABLE \<Longrightarrow> \<not> is_ascii_whitespace c"
  by (auto simp: URL_TABLE_def is_ascii_whitespace_def byte_of_def)

lemma base64_url_clean: "filter (\<lambda>c. \<not> is_ascii_whitespace c) (base64_url_encode s) = base64_url_encode s"
  using base64_url_encode_chars url_chars_not_space by (fastforce simp: filter_id_conv)

lemma base64_url_decode_encode: "base64_url_decode (base64_url_encode s) = Some s"
proof -
  have "list_all (\<lambda>c. \<not> is_ascii_whitespace c) (base64_url_encode s)"
    using base64_url_clean by (simp add: filter_id_conv list_all_iff)
  then have "base64_url_decode (base64_url_encode s)
      = (case decode_base64_loop 0 0 (base64_url_encode s) of Inl _ \<Rightarrow> None | Inr r \<Rightarrow> Some r)"
    unfolding base64_url_decode_def base64_url_clean by (rule base64_url_loop_mime)
  then show ?thesis by (simp only: url_encode_variant decode_variant decode_without_pad decode_encode_loop sum.case)
qed

interpretation gmail_codec: base64url base64_url_encode base64_url_decode
  by unfold_locales
    (use base64_url_encode_chars URL_TABLE_chars in
      \<open>fastforce simp: base64_url_decode_encode base64_url_encode_length list_all_iff\<close>)+

end
