(* ===== verification/Web_Apis.thy ===== *)
theory Web_Apis
  imports Avatars Effects Models Base64_Url
begin

section \<open>Requests to web interfaces\<close>

text \<open>
  What the providers that speak HTTP have in common: requests and answers, tokens, bounded bodies. The crates
  \<open>reqwest\<close>, \<open>url\<close>, \<open>base64\<close> and \<open>serde_json\<close> and the source of tokens are the fields of the record \<open>web\<close>. A request
  is the \<open>GraphHttpRequest\<close> of \<open>microsoft_graph.rs\<close>, the \<open>HttpRequest\<close> of \<open>gmail.rs\<close>, or what \<open>agenda.rs\<close> gives to
  \<open>reqwest\<close> directly; the three know more or fewer methods.
\<close>

datatype http_method = HttpGet | HttpPost | HttpPatch | HttpDelete

record web_request =
  hq_method :: http_method
  hq_url :: url
  hq_headers :: "(string \<times> string) list"
  hq_body :: "string option"

text \<open>What comes over the wire: a chunk that could not be read is \<open>Inl ()\<close>.\<close>

record wire_response =
  wr_status :: nat
  wr_length :: "nat option"
  wr_chunks :: "(unit + string) list"

record web_answer =
  wa_status :: nat
  wa_body :: string

datatype token_error =
    StoreUnavailable
  | AuthorizationRequired
  | RefreshRejected
  | UnsupportedMailTransport string
  | TokenOther string

fun token_error_text :: "token_error \<Rightarrow> string" where
  "token_error_text StoreUnavailable = ''the credential store is unavailable''"
| "token_error_text AuthorizationRequired = ''authorization is required''"
| "token_error_text RefreshRejected = ''the token endpoint rejected the refresh request''"
| "token_error_text (UnsupportedMailTransport m) = m"
| "token_error_text (TokenOther m) = ''token acquisition failed: '' @ m"

text \<open>\<open>wb_push\<close> is \<open>path_segments_mut\<close> with \<open>pop_if_empty\<close> and a \<open>push\<close> for each segment, \<open>wb_pairs\<close> is
  \<open>query_pairs_mut\<close> with \<open>append_pair\<close>, \<open>wb_encode\<close> and \<open>wb_decode\<close> are the engine \<open>URL_SAFE_NO_PAD\<close>, \<open>wb_json\<close>
  and \<open>wb_parse_json\<close> are \<open>to_vec\<close> and \<open>from_slice\<close> on a \<open>Value\<close>.\<close>

record 'w web =
  wb_send :: "web_request \<Rightarrow> ('w, unit, wire_response) io"
  wb_token :: "bool \<Rightarrow> ('w, token_error, string) io"
  wb_parse_url :: "string \<Rightarrow> url option"
  wb_push :: "url \<Rightarrow> string list \<Rightarrow> url option"
  wb_pairs :: "url \<Rightarrow> (string \<times> string) list \<Rightarrow> url"
  wb_encode :: "string \<Rightarrow> string"
  wb_decode :: "string \<Rightarrow> string option"
  wb_json :: "json \<Rightarrow> string"
  wb_parse_json :: "string \<Rightarrow> json option"

subsection \<open>Bounded bodies\<close>

text \<open>\<open>failed\<close> when a chunk cannot be read, \<open>large\<close> before a chunk would cross the limit.\<close>

fun append_chunks :: "nat \<Rightarrow> 'e \<Rightarrow> 'e \<Rightarrow> string \<Rightarrow> (unit + string) list \<Rightarrow> 'e + string" where
  "append_chunks limit failed large body [] = Inr body"
| "append_chunks limit failed large body (Inl _ # chunks) = Inl failed"
| "append_chunks limit failed large body (Inr chunk # chunks) =
     (if limit - length body < length chunk then Inl large
      else append_chunks limit failed large (body @ chunk) chunks)"

definition bounded_body :: "nat \<Rightarrow> 'e \<Rightarrow> 'e \<Rightarrow> wire_response \<Rightarrow> 'e + string" where
  "bounded_body limit failed large r =
     bind_r (require (case wr_length r of None \<Rightarrow> True | Some n \<Rightarrow> n \<le> limit) large) (\<lambda>_.
     append_chunks limit failed large [] (wr_chunks r))"

lemma append_chunks_Inr:
  "append_chunks limit failed large body chunks = Inr r \<Longrightarrow> length body \<le> limit \<Longrightarrow>
    length r \<le> limit \<and> (\<exists>rest. r = body @ rest)"
proof (induction limit failed large body chunks arbitrary: r rule: append_chunks.induct)
  case (3 limit failed large body chunk chunks)
  then show ?case by (fastforce split: if_splits)
qed auto

lemma bounded_body_Inr: "bounded_body limit failed large r = Inr body \<Longrightarrow> length body \<le> limit"
  by (auto simp: bounded_body_def result_simps dest: append_chunks_Inr)

subsection \<open>Loops\<close>

fun io_each :: "('a \<Rightarrow> ('w, 'e, unit) io) \<Rightarrow> 'a list \<Rightarrow> ('w, 'e, unit) io" where
  "io_each f [] = io_return ()"
| "io_each f (x # xs) = io_bind (f x) (\<lambda>_. io_each f xs)"

fun io_collect :: "('a \<Rightarrow> ('w, 'e, 'b) io) \<Rightarrow> 'a list \<Rightarrow> ('w, 'e, 'b list) io" where
  "io_collect f [] = io_return []"
| "io_collect f (x # xs) = io_bind (f x) (\<lambda>y. io_bind (io_collect f xs) (\<lambda>ys. io_return (y # ys)))"

fun io_fold :: "('s \<Rightarrow> 'a \<Rightarrow> ('w, 'e, 's) io) \<Rightarrow> 's \<Rightarrow> 'a list \<Rightarrow> ('w, 'e, 's) io" where
  "io_fold f s [] = io_return s"
| "io_fold f s (x # xs) = io_bind (f s x) (\<lambda>t. io_fold f t xs)"

lemma io_keeps_each [inv_intros]: "(\<And>x. x \<in> set xs \<Longrightarrow> io_keeps P (f x)) \<Longrightarrow> io_keeps P (io_each f xs)"
  by (induction xs) (simp_all add: inv_intros)

lemma io_keeps_collect [inv_intros]: "(\<And>x. x \<in> set xs \<Longrightarrow> io_keeps P (f x)) \<Longrightarrow> io_keeps P (io_collect f xs)"
  by (induction xs) (simp_all add: inv_intros)

lemma io_keeps_fold [inv_intros]: "(\<And>s x. x \<in> set xs \<Longrightarrow> io_keeps P (f s x)) \<Longrightarrow> io_keeps P (io_fold f s xs)"
  by (induction xs arbitrary: s) (simp_all add: inv_intros)

subsection \<open>Keeping the requests that were made\<close>

definition beside :: "('w, 'e, 'a) io \<Rightarrow> ('w \<times> 'l, 'e, 'a) io" where
  "beside m wl = (case m (fst wl) of (r, w) \<Rightarrow> (r, (w, snd wl)))"

definition logged :: "'w web \<Rightarrow> ('w \<times> web_request list) web" where
  "logged web = \<lparr>wb_send = (\<lambda>r wl. case wb_send web r (fst wl) of (a, w) \<Rightarrow> (a, (w, snd wl @ [r]))),
     wb_token = (\<lambda>force. beside (wb_token web force)), wb_parse_url = wb_parse_url web, wb_push = wb_push web,
     wb_pairs = wb_pairs web, wb_encode = wb_encode web, wb_decode = wb_decode web, wb_json = wb_json web,
     wb_parse_json = wb_parse_json web\<rparr>"

definition requests_all :: "(web_request \<Rightarrow> bool) \<Rightarrow> 'w \<times> web_request list \<Rightarrow> bool" where
  "requests_all ok wl \<longleftrightarrow> (\<forall>r \<in> set (snd wl). ok r)"

lemma logged_send: "ok r \<Longrightarrow> io_keeps (requests_all ok) (wb_send (logged web) r)"
  by (auto simp: io_keeps_def requests_all_def logged_def split: prod.splits)

lemma logged_token: "io_keeps (requests_all ok) (wb_token (logged web) force)"
  by (auto simp: io_keeps_def requests_all_def logged_def beside_def split: prod.splits)

lemma logged_fields [simp]:
  "wb_parse_url (logged web) = wb_parse_url web" "wb_push (logged web) = wb_push web"
  "wb_pairs (logged web) = wb_pairs web" "wb_encode (logged web) = wb_encode web"
  "wb_decode (logged web) = wb_decode web" "wb_json (logged web) = wb_json web"
  "wb_parse_json (logged web) = wb_parse_json web"
  by (simp_all add: logged_def)

text \<open>What an operation kept of the log is what it kept of every request.\<close>

lemma logged_run:
  "io_keeps (requests_all ok) m \<Longrightarrow> m (w, []) = (r, (w', requests)) \<Longrightarrow> \<forall>q \<in> set requests. ok q"
  unfolding io_keeps_def requests_all_def by (erule allE [of _ "(w, [])"]) simp

text \<open>A web interface whose requests keep \<open>I\<close> when they are \<open>ok\<close>; the log is one such interface.\<close>

definition sends_only :: "(web_request \<Rightarrow> bool) \<Rightarrow> ('w \<Rightarrow> bool) \<Rightarrow> 'w web \<Rightarrow> bool" where
  "sends_only ok I web \<longleftrightarrow> (\<forall>r. ok r \<longrightarrow> io_keeps I (wb_send web r)) \<and> (\<forall>force. io_keeps I (wb_token web force))"

lemma sends_only_logged: "sends_only ok (requests_all ok) (logged web)"
  by (simp add: sends_only_def logged_send logged_token)

lemma io_keeps_bind_lift: "(\<And>x. r = Inr x \<Longrightarrow> io_keeps P (f x)) \<Longrightarrow> io_keeps P (io_bind (io_lift r) f)"
  by (cases r) (auto simp: io_keeps_def io_bind_def io_lift_def)

end
