(* ===== verification/Graph_Values.thy ===== *)
theory Graph_Values
  imports Web_Apis Mime_Codec
begin

section \<open>Identifiers, addresses and errors of Microsoft Graph\<close>

text \<open>
  The functions of \<open>providers/microsoft_graph.rs\<close> that need no server: the identifiers that clients see, the checks on
  what is sent and what arrives, and the errors. An identifier of Graph is shown to clients in the URL alphabet of
  base64 behind a prefix for its kind; \<open>enc\<close> and \<open>dec\<close> are the engine of the crate \<open>base64\<close>.
\<close>

definition MAX_GRAPH_PAGE_ITEMS :: nat where "MAX_GRAPH_PAGE_ITEMS = 100"
definition MAX_GRAPH_FOLDERS :: nat where "MAX_GRAPH_FOLDERS = 512"
definition MAX_GRAPH_FOLDER_PAGES :: nat where "MAX_GRAPH_FOLDER_PAGES = 64"
definition MAX_GRAPH_ATTACHMENT_PAGES :: nat where "MAX_GRAPH_ATTACHMENT_PAGES = 8"
definition MAX_GRAPH_CONTINUATION_BYTES :: nat where "MAX_GRAPH_CONTINUATION_BYTES = 8 * 1024"
definition MAX_GRAPH_NATIVE_ID_BYTES :: nat where "MAX_GRAPH_NATIVE_ID_BYTES = 320"
definition MAX_GRAPH_EXPOSED_ID_BYTES :: nat where "MAX_GRAPH_EXPOSED_ID_BYTES = 512"
definition MAX_GRAPH_SEARCH_BYTES :: nat where "MAX_GRAPH_SEARCH_BYTES = 512"
definition MAX_GRAPH_ACTION_MESSAGES :: nat where "MAX_GRAPH_ACTION_MESSAGES = 100"
definition MAX_GRAPH_RECIPIENTS :: nat where "MAX_GRAPH_RECIPIENTS = 500"

lemmas graph_bounds = MAX_GRAPH_PAGE_ITEMS_def MAX_GRAPH_FOLDERS_def MAX_GRAPH_FOLDER_PAGES_def
  MAX_GRAPH_ATTACHMENT_PAGES_def MAX_GRAPH_CONTINUATION_BYTES_def MAX_GRAPH_NATIVE_ID_BYTES_def
  MAX_GRAPH_EXPOSED_ID_BYTES_def MAX_GRAPH_SEARCH_BYTES_def MAX_GRAPH_ACTION_MESSAGES_def MAX_GRAPH_RECIPIENTS_def

subsection \<open>Errors\<close>

datatype graph_error =
    GraphToken token_error
  | GraphTransportFailed
  | GraphResponseTooLarge
  | GraphApi nat string
  | GraphJson
  | GraphInvalidUrl
  | GraphInvalidResourceId
  | GraphInvalidContinuation
  | GraphRepeatedContinuation
  | GraphPageLimitExceeded
  | GraphAttachmentLimitExceeded
  | GraphAttachmentTooLarge
  | GraphUnsupportedAttachment
  | GraphInvalidSearch
  | GraphInvalidOutgoingMessage
  | GraphRequestTooLarge

fun graph_error_text :: "graph_error \<Rightarrow> string" where
  "graph_error_text (GraphToken e) = token_error_text e"
| "graph_error_text GraphTransportFailed = ''Microsoft Graph HTTP transport failed''"
| "graph_error_text GraphResponseTooLarge = ''Microsoft Graph response exceeded the configured size limit''"
| "graph_error_text (GraphApi status code) = ''Microsoft Graph returned HTTP '' @ show_nat status @ '' ('' @ code @ '')''"
| "graph_error_text GraphJson = ''Microsoft Graph returned malformed JSON''"
| "graph_error_text GraphInvalidUrl = ''invalid Microsoft Graph URL''"
| "graph_error_text GraphInvalidResourceId = ''invalid Microsoft Graph resource ID''"
| "graph_error_text GraphInvalidContinuation = ''invalid Microsoft Graph continuation URL''"
| "graph_error_text GraphRepeatedContinuation = ''Microsoft Graph repeated a continuation URL''"
| "graph_error_text GraphPageLimitExceeded = ''Microsoft Graph result exceeded the page bound''"
| "graph_error_text GraphAttachmentLimitExceeded = ''Microsoft Graph message exceeded the attachment-count bound''"
| "graph_error_text GraphAttachmentTooLarge = ''Microsoft Graph attachment is too large''"
| "graph_error_text GraphUnsupportedAttachment = ''Microsoft Graph attachment type is not a downloadable file''"
| "graph_error_text GraphInvalidSearch = ''Microsoft Graph search text is invalid''"
| "graph_error_text GraphInvalidOutgoingMessage = ''outgoing Microsoft Graph message is invalid''"
| "graph_error_text GraphRequestTooLarge = ''outgoing Microsoft Graph request is too large''"

text \<open>The arms in the order of the code: a status that an earlier arm takes does not reach a later one.\<close>

definition graph_provider_error :: "graph_error \<Rightarrow> provider_error" where
  "graph_provider_error err =
     (case err of
        GraphToken e \<Rightarrow> Authentication (token_error_text e)
      | GraphApi status code \<Rightarrow>
          if status = 401 \<or> status = 403
          then Authentication ''Microsoft Online Accounts authorization is missing required mail access''
          else if status = 404 then ProviderNotFound
          else if status = 408 \<or> status = 425 \<or> status = 429 \<or> 500 \<le> status
          then Temporary ''Microsoft Graph is temporarily unavailable''
          else if status = 413 then ResourceTooLarge ''Microsoft Graph data''
          else ProviderOther (graph_error_text err)
      | GraphInvalidResourceId \<Rightarrow> ProviderNotFound
      | GraphResponseTooLarge \<Rightarrow> ResourceTooLarge ''Microsoft Graph data''
      | GraphRequestTooLarge \<Rightarrow> ResourceTooLarge ''Microsoft Graph data''
      | GraphAttachmentTooLarge \<Rightarrow> ResourceTooLarge ''attachment''
      | GraphAttachmentLimitExceeded \<Rightarrow> ResourceTooLarge ''message attachment list''
      | GraphPageLimitExceeded \<Rightarrow> ResourceTooLarge ''Microsoft Graph page''
      | GraphUnsupportedAttachment \<Rightarrow>
          Unsupported ''Microsoft Graph item and reference attachments cannot be downloaded as files''
      | GraphTransportFailed \<Rightarrow> Temporary ''Microsoft Graph transport failed''
      | _ \<Rightarrow> ProviderOther (graph_error_text err))"

text \<open>The code in an error body, which \<open>serde_json\<close> reads.\<close>

definition is_code_char :: "string \<Rightarrow> bool" where
  "is_code_char c \<longleftrightarrow> (case c of [b] \<Rightarrow> is_ascii_alphanumeric b \<or> b \<in> {CHR ''.'', CHR ''_'', CHR ''-''} | _ \<Rightarrow> False)"

definition graph_api_error :: "(string \<Rightarrow> string option) \<Rightarrow> web_answer \<Rightarrow> graph_error" where
  "graph_api_error error_code answer =
     (let code = (case error_code (wa_body answer) of
                    None \<Rightarrow> []
                  | Some code \<Rightarrow> concat (take 64 (filter is_code_char (utf8_chars code))))
      in GraphApi (wa_status answer) (if code = [] then ''requestRejected'' else code))"

definition graph_success :: "web_answer \<Rightarrow> bool" where
  "graph_success answer \<longleftrightarrow> 200 \<le> wa_status answer \<and> wa_status answer < 300"

subsection \<open>Identifiers\<close>

definition validate_native_id :: "string \<Rightarrow> graph_error + unit" where
  "validate_native_id i =
     require (i \<noteq> [] \<and> length i \<le> MAX_GRAPH_NATIVE_ID_BYTES \<and> \<not> list_ex is_control_char (utf8_chars i)) GraphInvalidResourceId"

definition encode_native_id :: "(string \<Rightarrow> string) \<Rightarrow> string \<Rightarrow> string \<Rightarrow> graph_error + string" where
  "encode_native_id enc prefix native =
     bind_r (validate_native_id native) (\<lambda>_.
     bind_r (require (length (prefix @ enc native) \<le> MAX_GRAPH_EXPOSED_ID_BYTES) GraphInvalidResourceId) (\<lambda>_.
     Inr (prefix @ enc native)))"

definition decode_native_id :: "(string \<Rightarrow> string option) \<Rightarrow> string \<Rightarrow> string \<Rightarrow> graph_error + string" where
  "decode_native_id dec prefix i =
     bind_r (ok_or (strip_prefix i prefix) GraphInvalidResourceId) (\<lambda>encoded.
     bind_r (ok_or (dec encoded) GraphInvalidResourceId) (\<lambda>native.
     bind_r (require (valid_utf8 native) GraphInvalidResourceId) (\<lambda>_.
     bind_r (validate_native_id native) (\<lambda>_. Inr native))))"

definition account_scoped_id :: "(string \<Rightarrow> string) \<Rightarrow> string \<Rightarrow> string \<Rightarrow> string \<Rightarrow> graph_error + string" where
  "account_scoped_id enc prefix account_id native =
     bind_r (encode_native_id enc prefix native) (\<lambda>provider_id.
     let i = normalized_message_id account_id provider_id in
     bind_r (require (length i \<le> MAX_GRAPH_EXPOSED_ID_BYTES) GraphInvalidResourceId) (\<lambda>_. Inr i))"

definition graph_message_id :: "(string \<Rightarrow> string) \<Rightarrow> string \<Rightarrow> string \<Rightarrow> graph_error + string" where
  "graph_message_id enc = account_scoped_id enc ''gm-''"

definition graph_thread_id :: "(string \<Rightarrow> string) \<Rightarrow> string \<Rightarrow> string \<Rightarrow> graph_error + string" where
  "graph_thread_id enc = account_scoped_id enc ''gt-''"

definition graph_native_message_id :: "(string \<Rightarrow> string option) \<Rightarrow> string \<Rightarrow> string \<Rightarrow> graph_error + string" where
  "graph_native_message_id dec account_id i =
     bind_r (ok_or (case strip_prefix i account_id of None \<Rightarrow> None | Some suffix \<Rightarrow> strip_prefix suffix '':'')
       GraphInvalidResourceId) (decode_native_id dec ''gm-'')"

definition graph_folder_id :: "(string \<Rightarrow> string) \<Rightarrow> string \<Rightarrow> graph_error + string" where
  "graph_folder_id enc = encode_native_id enc ''gf-''"

definition graph_native_folder_id :: "(string \<Rightarrow> string option) \<Rightarrow> string \<Rightarrow> graph_error + string" where
  "graph_native_folder_id dec = decode_native_id dec ''gf-''"

definition graph_attachment_id :: "(string \<Rightarrow> string) \<Rightarrow> string \<Rightarrow> graph_error + string" where
  "graph_attachment_id enc = encode_native_id enc ''ga-''"

definition graph_native_attachment_id :: "(string \<Rightarrow> string option) \<Rightarrow> string \<Rightarrow> graph_error + string" where
  "graph_native_attachment_id dec = decode_native_id dec ''ga-''"

lemma validate_native_id_Inr [result_simps]:
  "validate_native_id i = Inr u \<longleftrightarrow>
     i \<noteq> [] \<and> length i \<le> MAX_GRAPH_NATIVE_ID_BYTES \<and> \<not> list_ex is_control_char (utf8_chars i)"
  by (simp add: validate_native_id_def result_simps)

lemmas graph_id_defs = graph_message_id_def graph_thread_id_def account_scoped_id_def graph_native_message_id_def
  graph_folder_id_def graph_native_folder_id_def graph_attachment_id_def graph_native_attachment_id_def

context base64url
begin

lemma decode_encode_native_id:
  "encode_native_id enc prefix native = Inr i \<Longrightarrow> valid_utf8 native \<Longrightarrow> decode_native_id dec prefix i = Inr native"
  by (auto simp: encode_native_id_def decode_native_id_def result_simps dec_enc)

lemma native_message_id_of:
  assumes "graph_message_id enc account_id native = Inr i" and "valid_utf8 native"
  shows "graph_native_message_id dec account_id i = Inr native"
proof -
  from assms(1) obtain p where "encode_native_id enc ''gm-'' native = Inr p" and i: "i = account_id @ CHR '':'' # p"
    by (auto simp: graph_id_defs result_simps Let_def normalized_message_id_def COLON_def)
  with decode_encode_native_id assms(2) have "decode_native_id dec ''gm-'' p = Inr native" by blast
  then show ?thesis by (simp add: i graph_native_message_id_def strip_prefix_def starts_with_def)
qed

end

subsection \<open>What the server knows\<close>

record graph_folder =
  gf_id :: string
  gf_display_name :: string
  gf_child_folder_count :: nat
  gf_unread_item_count :: nat
  gf_total_item_count :: nat
  gf_is_hidden :: bool

record graph_recipient =
  gr_name :: string
  gr_address :: string

record graph_item_body =
  gb_content_type :: string
  gb_content :: string

record graph_message =
  gm_id :: string
  gm_conversation_id :: "string option"
  gm_parent_folder_id :: "string option"
  gm_subject :: "string option"
  gm_from :: "graph_recipient option"
  gm_to :: "graph_recipient list"
  gm_cc :: "graph_recipient list"
  gm_bcc :: "graph_recipient list"
  gm_received :: "int option"
  gm_sent :: "int option"
  gm_is_read :: bool
  gm_flag_status :: "string option"
  gm_body_preview :: "string option"
  gm_body :: "graph_item_body option"
  gm_has_attachments :: bool
  gm_internet_message_id :: "string option"

record graph_attachment =
  ga_odata_type :: "string option"
  ga_id :: string
  ga_name :: "string option"
  ga_content_type :: "string option"
  ga_size :: "nat option"
  ga_is_inline :: bool
  ga_content_id :: "string option"

record graph_draft =
  gd_subject :: string
  gd_body :: graph_item_body
  gd_to :: "graph_recipient list"
  gd_cc :: "graph_recipient list"
  gd_bcc :: "graph_recipient list"

subsection \<open>Addresses and drafts\<close>

definition is_mail_address :: "string \<Rightarrow> bool" where
  "is_mail_address value =
     (let value = trim value in
      value \<noteq> [] \<and> length value \<le> 320
      \<and> \<not> list_ex (\<lambda>c. is_whitespace_char c \<or> is_control_char c) (utf8_chars value)
      \<and> (case split_once value (CHR ''@'') of
           None \<Rightarrow> False
         | Some (local_part, domain) \<Rightarrow> local_part \<noteq> [] \<and> domain \<noteq> [] \<and> CHR ''@'' \<notin> set domain))"

definition graph_address :: "graph_recipient \<Rightarrow> address option" where
  "graph_address r =
     (let address = trim (gr_address r) in
      if \<not> is_mail_address address then None
      else Some \<lparr>ad_name = concat (take 998 (filter (\<lambda>c. \<not> is_control_char c) (utf8_chars (gr_name r)))),
                 ad_address = address\<rparr>)"

definition breaks_line :: "string \<Rightarrow> bool" where
  "breaks_line s \<longleftrightarrow> CR \<in> set s \<or> LF \<in> set s \<or> NUL \<in> set s"

definition graph_recipient_of :: "address \<Rightarrow> graph_error + graph_recipient" where
  "graph_recipient_of a =
     bind_r (require (is_mail_address (ad_address a) \<and> length (ad_name a) \<le> 998 \<and> \<not> breaks_line (ad_name a))
       GraphInvalidOutgoingMessage) (\<lambda>_.
     Inr \<lparr>gr_name = ad_name a, gr_address = trim (ad_address a)\<rparr>)"

definition graph_recipients :: "address list \<Rightarrow> graph_error + graph_recipient list" where
  "graph_recipients = collect_r graph_recipient_of"

definition graph_draft_message :: "outgoing_message \<Rightarrow> graph_error + graph_draft" where
  "graph_draft_message m =
     (let count = length (o_to m) + length (o_cc m) + length (o_bcc m) in
      bind_r (require (count \<noteq> 0 \<and> count \<le> MAX_GRAPH_RECIPIENTS) GraphInvalidOutgoingMessage) (\<lambda>_.
      bind_r (require (length (o_subject m) \<le> 998 \<and> \<not> breaks_line (o_subject m)) GraphInvalidOutgoingMessage) (\<lambda>_.
      let body = (case o_body_html m of
                    Some html \<Rightarrow> \<lparr>gb_content_type = ''HTML'', gb_content = html\<rparr>
                  | None \<Rightarrow> \<lparr>gb_content_type = ''Text'', gb_content = (case o_body_text m of None \<Rightarrow> [] | Some t \<Rightarrow> t)\<rparr>) in
      bind_r (require (length (gb_content body) \<le> MAX_MAIL_MESSAGE_BYTES) GraphRequestTooLarge) (\<lambda>_.
      bind_r (graph_recipients (o_to m)) (\<lambda>to_recipients.
      bind_r (graph_recipients (o_cc m)) (\<lambda>cc_recipients.
      bind_r (graph_recipients (o_bcc m)) (\<lambda>bcc_recipients.
      Inr \<lparr>gd_subject = o_subject m, gd_body = body, gd_to = to_recipients, gd_cc = cc_recipients,
           gd_bcc = bcc_recipients\<rparr>)))))))"

text \<open>What \<open>Serialize\<close> makes of a draft: an empty name is left out.\<close>

definition recipient_json :: "graph_recipient \<Rightarrow> json" where
  "recipient_json r = JObj [(''emailAddress'',
     JObj ((if gr_name r = [] then [] else [(''name'', JStr (gr_name r))]) @ [(''address'', JStr (gr_address r))]))]"

definition draft_json :: "graph_draft \<Rightarrow> json" where
  "draft_json d = JObj [(''subject'', JStr (gd_subject d)),
     (''body'', JObj [(''contentType'', JStr (gb_content_type (gd_body d))), (''content'', JStr (gb_content (gd_body d)))]),
     (''toRecipients'', JArr (map recipient_json (gd_to d))), (''ccRecipients'', JArr (map recipient_json (gd_cc d))),
     (''bccRecipients'', JArr (map recipient_json (gd_bcc d)))]"

subsection \<open>Attachments, searches, roles\<close>

definition safe_content_type :: "string option \<Rightarrow> string" where
  "safe_content_type content_type =
     (case map_option trim content_type of
        None \<Rightarrow> ''application/octet-stream''
      | Some value \<Rightarrow>
          if value \<noteq> [] \<and> length value \<le> 255 \<and> \<not> list_ex is_control_char (utf8_chars value) \<and> CHR ''/'' \<in> set value
          then value else ''application/octet-stream'')"

definition attachment_of_graph :: "(string \<Rightarrow> string) \<Rightarrow> graph_attachment \<Rightarrow> graph_error + attachment" where
  "attachment_of_graph enc a =
     bind_r (graph_attachment_id enc (ga_id a)) (\<lambda>i.
     Inr \<lparr>at_id = i, at_filename = sanitize_filename (ga_name a), at_content_type = safe_content_type (ga_content_type a),
          at_size = (case ga_size a of None \<Rightarrow> 0 | Some n \<Rightarrow> n), at_inline = ga_is_inline a,
          at_content_id = (case ga_content_id a of
              Some c \<Rightarrow> if length c \<le> 998 \<and> \<not> breaks_line c then Some c else None | None \<Rightarrow> None)\<rparr>)"

definition graph_search_value :: "string \<Rightarrow> graph_error + string" where
  "graph_search_value search =
     (let search = trim search in
      bind_r (require (search \<noteq> [] \<and> length search \<le> MAX_GRAPH_SEARCH_BYTES
        \<and> \<not> list_ex is_control_char (utf8_chars search)) GraphInvalidSearch) (\<lambda>_.
      Inr (DQUOTE # replace_char DQUOTE [BACKSLASH, DQUOTE] (replace_char BACKSLASH [BACKSLASH, BACKSLASH] search) @ [DQUOTE])))"

fun mailbox_role_rank :: "mailbox_role option \<Rightarrow> nat" where
  "mailbox_role_rank (Some Inbox) = 0"
| "mailbox_role_rank (Some Drafts) = 1"
| "mailbox_role_rank (Some Sent) = 2"
| "mailbox_role_rank (Some ArchiveRole) = 3"
| "mailbox_role_rank (Some TrashRole) = 4"
| "mailbox_role_rank (Some Spam) = 5"
| "mailbox_role_rank (Some OtherRole) = 6"
| "mailbox_role_rank None = 6"

fun action_message_count :: "mail_action \<Rightarrow> nat" where
  "action_message_count (MarkRead ids read) = length ids"
| "action_message_count (Star ids starred) = length ids"
| "action_message_count (Archive ids) = length ids"
| "action_message_count (Trash ids) = length ids"
| "action_message_count (Move ids mailbox) = length ids"
| "action_message_count (SetLabels ids labels) = length ids"

subsection \<open>Summaries\<close>

definition map_summary :: "(string \<Rightarrow> string) \<Rightarrow> account \<Rightarrow> graph_message \<Rightarrow> graph_error + message_summary" where
  "map_summary enc account m =
     bind_r (graph_message_id enc (a_id account) (gm_id m)) (\<lambda>message_id.
     let thread_native = (case gm_conversation_id m of Some c \<Rightarrow> if c \<noteq> [] then c else gm_id m | None \<Rightarrow> gm_id m) in
     bind_r (graph_thread_id enc (a_id account) thread_native) (\<lambda>thread_id.
     bind_r (case gm_parent_folder_id m of None \<Rightarrow> Inr None | Some f \<Rightarrow> map_ok Some (graph_folder_id enc f)) (\<lambda>mailbox_id.
     Inr \<lparr>ms_id = message_id, ms_account_id = a_id account, ms_mailbox_id = mailbox_id, ms_thread_id = Some thread_id,
          ms_subject = (case gm_subject m of None \<Rightarrow> [] | Some s \<Rightarrow> s),
          ms_author = (case gm_from m of None \<Rightarrow> None | Some f \<Rightarrow> graph_address f),
          ms_timestamp = (case gm_received m of Some t \<Rightarrow> t | None \<Rightarrow> (case gm_sent m of Some t \<Rightarrow> t | None \<Rightarrow> 0)),
          ms_read = gm_is_read m,
          ms_starred = (case gm_flag_status m of None \<Rightarrow> False | Some status \<Rightarrow> eq_ignore_ascii_case status ''flagged''),
          ms_snippet = (case gm_body_preview m of None \<Rightarrow> [] | Some p \<Rightarrow> p),
          ms_has_attachments = gm_has_attachments m, ms_labels = [],
          ms_provider_data = JObj [(''messageId'', json_opt_str (gm_internet_message_id m)),
            (''provider'', JStr ''microsoftGraph'')]\<rparr>)))"

end
