(* ===== verification/Graph_Client.thy ===== *)
theory Graph_Client
  imports Graph_Values
begin

section \<open>The client of Microsoft Graph\<close>

text \<open>
  \<open>ReqwestGraphTransport\<close> and \<open>MicrosoftGraphClient\<close> of \<open>providers/microsoft_graph.rs\<close>, one definition per method.
  The record holds the web interface, the root URL and what \<open>serde_json\<close> makes of the bodies of answers.
\<close>

record 'w graph_client =
  gc_web :: "'w web"
  gc_root :: url
  gc_folders :: "string \<Rightarrow> (graph_folder list \<times> string option) option"
  gc_folder :: "string \<Rightarrow> graph_folder option"
  gc_messages :: "string \<Rightarrow> (graph_message list \<times> string option) option"
  gc_message :: "string \<Rightarrow> graph_message option"
  gc_attachments :: "string \<Rightarrow> (graph_attachment list \<times> string option) option"
  gc_attachment :: "string \<Rightarrow> graph_attachment option"
  gc_created :: "string \<Rightarrow> string option"
  gc_error_code :: "string \<Rightarrow> string option"

definition GRAPH_MESSAGE_SELECT :: string where
  "GRAPH_MESSAGE_SELECT = ''id,conversationId,parentFolderId,subject,from,receivedDateTime,sentDateTime,isRead,flag,bodyPreview,hasAttachments,internetMessageId''"

definition GRAPH_MESSAGE_DETAIL_SELECT :: string where
  "GRAPH_MESSAGE_DETAIL_SELECT = ''id,conversationId,parentFolderId,subject,from,toRecipients,ccRecipients,bccRecipients,receivedDateTime,sentDateTime,isRead,flag,bodyPreview,body,hasAttachments,internetMessageId''"

definition GRAPH_ATTACHMENT_SELECT :: string where
  "GRAPH_ATTACHMENT_SELECT = ''id,name,contentType,size,isInline,contentId''"

subsection \<open>URLs\<close>

text \<open>\<open>Url::port_or_known_default\<close>.\<close>

definition port_or_known_default :: "url \<Rightarrow> nat option" where
  "port_or_known_default u =
     (case u_port u of
        Some port \<Rightarrow> Some port
      | None \<Rightarrow>
          if u_scheme u \<in> {''https'', ''wss''} then Some 443
          else if u_scheme u \<in> {''http'', ''ws''} then Some 80
          else if u_scheme u = ''ftp'' then Some 21 else None)"

definition api_url_ok :: "url \<Rightarrow> url \<Rightarrow> bool" where
  "api_url_ok root u \<longleftrightarrow> length (u_text u) \<le> MAX_GRAPH_CONTINUATION_BYTES \<and> u_scheme u = ''https'' \<and> u_username u = []
     \<and> u_password u = None \<and> u_host u = u_host root \<and> port_or_known_default u = port_or_known_default root
     \<and> starts_with (u_path u) (u_path root) \<and> u_fragment u = None"

definition validate_api_url :: "'w graph_client \<Rightarrow> url \<Rightarrow> graph_error + unit" where
  "validate_api_url c u = require (api_url_ok (gc_root c) u) GraphInvalidContinuation"

definition endpoint :: "'w graph_client \<Rightarrow> string list \<Rightarrow> graph_error + url" where
  "endpoint c segments =
     bind_r (require (list_all (\<lambda>s. s \<noteq> [] \<and> NUL \<notin> set s) segments) GraphInvalidResourceId) (\<lambda>_.
     bind_r (ok_or (wb_push (gc_web c) (gc_root c) segments) GraphInvalidUrl) (\<lambda>u.
     bind_r (validate_api_url c u) (\<lambda>_. Inr u)))"

definition continuation_url :: "'w graph_client \<Rightarrow> string \<Rightarrow> graph_error + url" where
  "continuation_url c cursor =
     bind_r (require (cursor \<noteq> [] \<and> length cursor \<le> MAX_GRAPH_CONTINUATION_BYTES * 2) GraphInvalidContinuation) (\<lambda>_.
     bind_r (ok_or (wb_decode (gc_web c) cursor) GraphInvalidContinuation) (\<lambda>bytes.
     bind_r (require (valid_utf8 bytes) GraphInvalidContinuation) (\<lambda>_.
     bind_r (ok_or (wb_parse_url (gc_web c) bytes) GraphInvalidContinuation) (\<lambda>u.
     bind_r (validate_api_url c u) (\<lambda>_. Inr u)))))"

text \<open>Two URLs are equal when their texts are.\<close>

definition validate_next_url :: "'w graph_client \<Rightarrow> url \<Rightarrow> url \<Rightarrow> graph_error + unit" where
  "validate_next_url c next_url current =
     bind_r (validate_api_url c next_url) (\<lambda>_.
     bind_r (require (u_path next_url = u_path current) GraphInvalidContinuation) (\<lambda>_.
     require (u_text next_url \<noteq> u_text current) GraphRepeatedContinuation))"

definition next_page_url :: "'w graph_client \<Rightarrow> string \<Rightarrow> url \<Rightarrow> graph_error + url" where
  "next_page_url c link current =
     bind_r (ok_or (wb_parse_url (gc_web c) link) GraphInvalidContinuation) (\<lambda>u.
     bind_r (validate_next_url c u current) (\<lambda>_. Inr u))"

definition continuation_cursor :: "'w graph_client \<Rightarrow> string \<Rightarrow> url \<Rightarrow> graph_error + string" where
  "continuation_cursor c link current =
     bind_r (require (length link \<le> MAX_GRAPH_CONTINUATION_BYTES) GraphInvalidContinuation) (\<lambda>_.
     bind_r (ok_or (wb_parse_url (gc_web c) link) GraphInvalidContinuation) (\<lambda>u.
     bind_r (validate_api_url c u) (\<lambda>_.
     bind_r (validate_next_url c u current) (\<lambda>_.
     Inr (wb_encode (gc_web c) (u_text u))))))"

subsection \<open>Requests\<close>

definition graph_transport :: "'w web \<Rightarrow> web_request \<Rightarrow> ('w, graph_error, web_answer) io" where
  "graph_transport web r =
     (if u_scheme (hq_url r) \<noteq> ''https'' \<or> u_host (hq_url r) \<noteq> Some ''graph.microsoft.com'' then io_error GraphTransportFailed
      else
        io_bind (io_map_err (\<lambda>_. GraphTransportFailed) (wb_send web r)) (\<lambda>wire.
        io_bind (io_lift (bounded_body MAX_MAIL_MESSAGE_BYTES GraphTransportFailed GraphResponseTooLarge wire)) (\<lambda>body.
        io_return \<lparr>wa_status = wr_status wire, wa_body = body\<rparr>)))"

definition graph_headers :: "string \<Rightarrow> string list \<Rightarrow> string \<Rightarrow> string option \<Rightarrow> (string \<times> string) list" where
  "graph_headers token preferences accept body =
     [(''Authorization'', ''Bearer '' @ token), (''Accept'', accept),
      (''Prefer'', join_with '', '' ((''IdType='' @ [DQUOTE] @ ''ImmutableId'' @ [DQUOTE]) # preferences))]
     @ (if body = None then [] else [(''Content-Type'', ''application/json'')])"

definition execute_authorized ::
    "'w graph_client \<Rightarrow> http_method \<Rightarrow> url \<Rightarrow> string option \<Rightarrow> string list \<Rightarrow> string \<Rightarrow> bool \<Rightarrow> ('w, graph_error, web_answer) io" where
  "execute_authorized c method u body preferences accept force_refresh =
     io_bind (io_lift (validate_api_url c u)) (\<lambda>_.
     io_bind (io_map_err GraphToken (wb_token (gc_web c) force_refresh)) (\<lambda>token.
     graph_transport (gc_web c) \<lparr>hq_method = method, hq_url = u,
       hq_headers = graph_headers token preferences accept body, hq_body = body\<rparr>))"

definition request_with_accept ::
    "'w graph_client \<Rightarrow> http_method \<Rightarrow> url \<Rightarrow> string option \<Rightarrow> string list \<Rightarrow> string \<Rightarrow> ('w, graph_error, web_answer) io" where
  "request_with_accept c method u body preferences accept =
     io_bind (execute_authorized c method u body preferences accept False) (\<lambda>first.
     if wa_status first = 401 then execute_authorized c method u body preferences accept True
     else io_return first)"

definition graph_request ::
    "'w graph_client \<Rightarrow> http_method \<Rightarrow> url \<Rightarrow> string option \<Rightarrow> string list \<Rightarrow> ('w, graph_error, web_answer) io" where
  "graph_request c method u body preferences = request_with_accept c method u body preferences ''application/json''"

definition decode_graph_json :: "'w graph_client \<Rightarrow> (string \<Rightarrow> 'a option) \<Rightarrow> web_answer \<Rightarrow> graph_error + 'a" where
  "decode_graph_json c reader answer =
     (if \<not> graph_success answer then Inl (graph_api_error (gc_error_code c) answer)
      else ok_or (reader (wa_body answer)) GraphJson)"

definition decode_graph_bytes :: "'w graph_client \<Rightarrow> web_answer \<Rightarrow> graph_error + string" where
  "decode_graph_bytes c answer =
     (if \<not> graph_success answer then Inl (graph_api_error (gc_error_code c) answer) else Inr (wa_body answer))"

definition decode_graph_empty :: "'w graph_client \<Rightarrow> web_answer \<Rightarrow> graph_error + unit" where
  "decode_graph_empty c answer =
     (if \<not> graph_success answer then Inl (graph_api_error (gc_error_code c) answer) else Inr ())"

definition json_request ::
    "'w graph_client \<Rightarrow> (string \<Rightarrow> 'a option) \<Rightarrow> http_method \<Rightarrow> url \<Rightarrow> string option \<Rightarrow> string list \<Rightarrow> ('w, graph_error, 'a) io" where
  "json_request c reader method u body preferences =
     io_bind (graph_request c method u body preferences) (\<lambda>answer. io_lift (decode_graph_json c reader answer))"

definition bounded_json :: "'w graph_client \<Rightarrow> json \<Rightarrow> graph_error + string" where
  "bounded_json c value =
     (let bytes = wb_json (gc_web c) value in
      bind_r (require (length bytes \<le> MAX_MAIL_MESSAGE_BYTES) GraphRequestTooLarge) (\<lambda>_. Inr bytes))"

subsection \<open>Messages\<close>

definition message_query_pairs :: "message_query \<Rightarrow> graph_error + (string \<times> string) list" where
  "message_query_pairs q =
     (let top = show_nat (max 1 (min MAX_GRAPH_PAGE_ITEMS (q_limit q)));
          pairs = [(''$top'', top), (''$select'', GRAPH_MESSAGE_SELECT)];
          unread = (if q_unread_only q then [(''$filter'', ''isRead eq false'')] else []) in
      case (case q_search q of None \<Rightarrow> None | Some s \<Rightarrow> if trim s = [] then None else Some s) of
        Some search \<Rightarrow> bind_r (graph_search_value search) (\<lambda>value. Inr (pairs @ [(''$search'', value)] @ unread))
      | None \<Rightarrow>
          Inr (pairs
            @ (if q_unread_only q
               then [(''$filter'', ''receivedDateTime ge 1900-01-01T00:00:00Z and isRead eq false'')] else [])
            @ [(''$orderby'', ''receivedDateTime desc'')]))"

definition collection_segments :: "string option \<Rightarrow> string list" where
  "collection_segments folder =
     (case folder of Some f \<Rightarrow> [''me'', ''mailFolders'', f, ''messages''] | None \<Rightarrow> [''me'', ''messages''])"

definition message_page_url :: "'w graph_client \<Rightarrow> message_query \<Rightarrow> string option \<Rightarrow> graph_error + url" where
  "message_page_url c q folder =
     bind_r (endpoint c (collection_segments folder)) (\<lambda>collection.
     case q_cursor q of
       Some cursor \<Rightarrow>
         bind_r (continuation_url c cursor) (\<lambda>u.
         bind_r (require (u_path u = u_path collection) GraphInvalidContinuation) (\<lambda>_. Inr u))
     | None \<Rightarrow> bind_r (message_query_pairs q) (\<lambda>pairs. Inr (wb_pairs (gc_web c) collection pairs)))"

definition list_message_page ::
    "'w graph_client \<Rightarrow> message_query \<Rightarrow> string option \<Rightarrow> ('w, graph_error, graph_message list \<times> string option) io" where
  "list_message_page c q folder =
     io_bind (io_lift (message_page_url c q folder)) (\<lambda>u.
     io_bind (json_request c (gc_messages c) HttpGet u None []) (\<lambda>(messages, next_link).
     io_bind (io_lift (require (length messages \<le> MAX_GRAPH_PAGE_ITEMS) GraphPageLimitExceeded)) (\<lambda>_.
     io_bind (io_lift (case next_link of
         None \<Rightarrow> Inr None | Some link \<Rightarrow> map_ok Some (continuation_cursor c link u))) (\<lambda>cursor.
     io_return (messages, cursor)))))"

definition client_get_message :: "'w graph_client \<Rightarrow> string \<Rightarrow> ('w, graph_error, graph_message) io" where
  "client_get_message c native =
     io_bind (io_lift (validate_native_id native)) (\<lambda>_.
     io_bind (io_lift (endpoint c [''me'', ''messages'', native])) (\<lambda>u.
     json_request c (gc_message c) HttpGet (wb_pairs (gc_web c) u [(''$select'', GRAPH_MESSAGE_DETAIL_SELECT)]) None
       [''outlook.body-content-type='' @ [DQUOTE] @ ''html'' @ [DQUOTE]]))"

subsection \<open>Folders\<close>

text \<open>The loop of \<open>list_all_folders\<close>: a queue of URLs, the URLs that were asked, the folders that were taken.\<close>

record folder_walk =
  fw_pending :: "url list"
  fw_seen_urls :: "string list"
  fw_folders :: "graph_folder list"

definition folder_page_pairs :: "(string \<times> string) list" where
  "folder_page_pairs = [(''includeHiddenFolders'', ''false''), (''$top'', show_nat MAX_GRAPH_PAGE_ITEMS)]"

text \<open>\<open>seen_ids\<close> holds the identifiers of the folders that were taken.\<close>

definition take_folder :: "'w graph_client \<Rightarrow> folder_walk \<Rightarrow> graph_folder \<Rightarrow> graph_error + folder_walk" where
  "take_folder c st f =
     bind_r (validate_native_id (gf_id f)) (\<lambda>_.
     bind_r (if 0 < gf_child_folder_count f
        then bind_r (endpoint c [''me'', ''mailFolders'', gf_id f, ''childFolders'']) (\<lambda>u.
          Inr (st\<lparr>fw_pending := fw_pending st @ [wb_pairs (gc_web c) u folder_page_pairs]\<rparr>))
        else Inr st) (\<lambda>st.
     if \<not> gf_is_hidden f \<and> gf_id f \<notin> gf_id ` set (fw_folders st)
     then bind_r (require (Suc (length (fw_folders st)) \<le> MAX_GRAPH_FOLDERS) GraphPageLimitExceeded) (\<lambda>_.
          Inr (st\<lparr>fw_folders := fw_folders st @ [f]\<rparr>))
     else Inr st))"

text \<open>\<open>left\<close> counts the pages that may still be asked.\<close>

fun walk_folders :: "'w graph_client \<Rightarrow> nat \<Rightarrow> folder_walk \<Rightarrow> ('w, graph_error, graph_folder list) io" where
  "walk_folders c left st =
     (case fw_pending st of
        [] \<Rightarrow> io_return (fw_folders st)
      | u # rest \<Rightarrow>
          io_bind (io_lift (validate_api_url c u)) (\<lambda>_.
          if u_text u \<in> set (fw_seen_urls st) then io_error GraphRepeatedContinuation
          else
            (case left of
               0 \<Rightarrow> io_error GraphPageLimitExceeded
             | Suc n \<Rightarrow>
                 io_bind (json_request c (gc_folders c) HttpGet u None []) (\<lambda>(folders, next_link).
                 io_bind (io_lift (require (length folders \<le> MAX_GRAPH_PAGE_ITEMS) GraphPageLimitExceeded)) (\<lambda>_.
                 io_bind (io_lift (fold_r (take_folder c)
                   (st\<lparr>fw_pending := rest, fw_seen_urls := fw_seen_urls st @ [u_text u]\<rparr>) folders)) (\<lambda>st.
                 io_bind (io_lift (case next_link of
                     None \<Rightarrow> Inr st
                   | Some link \<Rightarrow> bind_r (next_page_url c link u) (\<lambda>v. Inr (st\<lparr>fw_pending := fw_pending st @ [v]\<rparr>)))) (\<lambda>st.
                 walk_folders c n st)))))))"

declare walk_folders.simps [simp del]

definition list_all_folders :: "'w graph_client \<Rightarrow> ('w, graph_error, graph_folder list) io" where
  "list_all_folders c =
     io_bind (io_lift (endpoint c [''me'', ''mailFolders''])) (\<lambda>u.
     walk_folders c MAX_GRAPH_FOLDER_PAGES
       \<lparr>fw_pending = [wb_pairs (gc_web c) u folder_page_pairs], fw_seen_urls = [], fw_folders = []\<rparr>)"

definition WELL_KNOWN_FOLDERS :: "(string \<times> mailbox_role) list" where
  "WELL_KNOWN_FOLDERS = [(''inbox'', Inbox), (''drafts'', Drafts), (''sentitems'', Sent), (''archive'', ArchiveRole),
     (''deleteditems'', TrashRole), (''junkemail'', Spam)]"

definition well_known_folder_roles ::
    "'w graph_client \<Rightarrow> ('w, graph_error, (string \<rightharpoonup> mailbox_role) \<times> graph_folder list) io" where
  "well_known_folder_roles c =
     io_fold (\<lambda>(roles, folders) (name, role).
       io_bind (io_lift (endpoint c [''me'', ''mailFolders'', name])) (\<lambda>u.
       io_bind (graph_request c HttpGet u None []) (\<lambda>answer.
       if wa_status answer = 404 then io_return (roles, folders)
       else
         io_bind (io_lift (decode_graph_json c (gc_folder c) answer)) (\<lambda>f.
         io_bind (io_lift (validate_native_id (gf_id f))) (\<lambda>_.
         io_return (roles(gf_id f \<mapsto> role), folders @ [f])))))) (Map.empty, []) WELL_KNOWN_FOLDERS"

subsection \<open>Attachments\<close>

fun walk_attachments ::
    "'w graph_client \<Rightarrow> nat \<Rightarrow> url \<Rightarrow> string list \<Rightarrow> graph_attachment list \<Rightarrow> ('w, graph_error, graph_attachment list) io" where
  "walk_attachments c left current seen attachments =
     (if u_text current \<in> set seen then io_error GraphRepeatedContinuation
      else
        (case left of
           0 \<Rightarrow> io_error GraphPageLimitExceeded
         | Suc n \<Rightarrow>
             io_bind (json_request c (gc_attachments c) HttpGet current None []) (\<lambda>(page, next_link).
             io_bind (io_lift (require (length (attachments @ page) \<le> MAX_MIME_ATTACHMENTS) GraphAttachmentLimitExceeded)) (\<lambda>_.
             case next_link of
               None \<Rightarrow> io_return (attachments @ page)
             | Some link \<Rightarrow>
                 io_bind (io_lift (next_page_url c link current)) (\<lambda>v.
                 io_bind (io_lift (validate_api_url c v)) (\<lambda>_.
                 walk_attachments c n v (seen @ [u_text current]) (attachments @ page)))))))"

declare walk_attachments.simps [simp del]

definition list_attachments :: "'w graph_client \<Rightarrow> string \<Rightarrow> ('w, graph_error, graph_attachment list) io" where
  "list_attachments c native =
     io_bind (io_lift (validate_native_id native)) (\<lambda>_.
     io_bind (io_lift (endpoint c [''me'', ''messages'', native, ''attachments''])) (\<lambda>u.
     walk_attachments c MAX_GRAPH_ATTACHMENT_PAGES
       (wb_pairs (gc_web c) u [(''$top'', show_nat MAX_GRAPH_PAGE_ITEMS), (''$select'', GRAPH_ATTACHMENT_SELECT)]) [] []))"

definition client_get_attachment :: "'w graph_client \<Rightarrow> string \<Rightarrow> string \<Rightarrow> ('w, graph_error, graph_attachment \<times> string) io" where
  "client_get_attachment c message_id attachment_id =
     io_bind (io_lift (validate_native_id message_id)) (\<lambda>_.
     io_bind (io_lift (validate_native_id attachment_id)) (\<lambda>_.
     io_bind (io_lift (endpoint c [''me'', ''messages'', message_id, ''attachments'', attachment_id])) (\<lambda>u.
     io_bind (json_request c (gc_attachment c) HttpGet (wb_pairs (gc_web c) u [(''$select'', GRAPH_ATTACHMENT_SELECT)]) None []) (\<lambda>a.
     io_bind (io_lift (require (ga_odata_type a = Some ''#microsoft.graph.fileAttachment'') GraphUnsupportedAttachment)) (\<lambda>_.
     io_bind (io_lift (require ((case ga_size a of None \<Rightarrow> 0 | Some n \<Rightarrow> n) \<le> MAX_MAIL_ATTACHMENT_BYTES) GraphAttachmentTooLarge)) (\<lambda>_.
     io_bind (io_lift (endpoint c [''me'', ''messages'', message_id, ''attachments'', attachment_id, ''$value''])) (\<lambda>raw.
     io_bind (request_with_accept c HttpGet raw None [] ''application/octet-stream'') (\<lambda>answer.
     io_bind (io_lift (decode_graph_bytes c answer)) (\<lambda>bytes.
     io_bind (io_lift (require (length bytes \<le> MAX_MAIL_ATTACHMENT_BYTES) GraphAttachmentTooLarge)) (\<lambda>_.
     io_return (a, bytes)))))))))))"

subsection \<open>Changes\<close>

definition client_update_message :: "'w graph_client \<Rightarrow> string \<Rightarrow> json \<Rightarrow> ('w, graph_error, unit) io" where
  "client_update_message c native value =
     io_bind (io_lift (validate_native_id native)) (\<lambda>_.
     io_bind (io_lift (endpoint c [''me'', ''messages'', native])) (\<lambda>u.
     io_bind (io_lift (bounded_json c value)) (\<lambda>body.
     io_bind (json_request c (gc_message c) HttpPatch u (Some body) []) (\<lambda>_. io_return ()))))"

definition move_message :: "'w graph_client \<Rightarrow> string \<Rightarrow> string \<Rightarrow> ('w, graph_error, unit) io" where
  "move_message c native destination =
     io_bind (io_lift (validate_native_id native)) (\<lambda>_.
     io_bind (io_lift (validate_native_id destination)) (\<lambda>_.
     io_bind (io_lift (endpoint c [''me'', ''messages'', native, ''move''])) (\<lambda>u.
     io_bind (io_lift (bounded_json c (JObj [(''destinationId'', JStr destination)]))) (\<lambda>body.
     io_bind (json_request c (gc_message c) HttpPost u (Some body) []) (\<lambda>_. io_return ())))))"

definition create_draft :: "'w graph_client \<Rightarrow> graph_draft \<Rightarrow> ('w, graph_error, string) io" where
  "create_draft c draft =
     io_bind (io_lift (endpoint c [''me'', ''messages''])) (\<lambda>u.
     io_bind (io_lift (bounded_json c (draft_json draft))) (\<lambda>body.
     io_bind (json_request c (gc_created c) HttpPost u (Some body) []) (\<lambda>i.
     io_bind (io_lift (validate_native_id i)) (\<lambda>_. io_return i))))"

definition create_reply_draft :: "'w graph_client \<Rightarrow> string \<Rightarrow> ('w, graph_error, string) io" where
  "create_reply_draft c parent =
     io_bind (io_lift (validate_native_id parent)) (\<lambda>_.
     io_bind (io_lift (endpoint c [''me'', ''messages'', parent, ''createReply''])) (\<lambda>u.
     io_bind (json_request c (gc_created c) HttpPost u None []) (\<lambda>i.
     io_bind (io_lift (validate_native_id i)) (\<lambda>_. io_return i))))"

definition update_draft :: "'w graph_client \<Rightarrow> string \<Rightarrow> graph_draft \<Rightarrow> ('w, graph_error, unit) io" where
  "update_draft c native draft =
     io_bind (io_lift (validate_native_id native)) (\<lambda>_.
     io_bind (io_lift (endpoint c [''me'', ''messages'', native])) (\<lambda>u.
     io_bind (io_lift (bounded_json c (draft_json draft))) (\<lambda>body.
     io_bind (json_request c (gc_created c) HttpPatch u (Some body) []) (\<lambda>_. io_return ()))))"

definition send_draft :: "'w graph_client \<Rightarrow> string \<Rightarrow> ('w, graph_error, unit) io" where
  "send_draft c native =
     io_bind (io_lift (validate_native_id native)) (\<lambda>_.
     io_bind (io_lift (endpoint c [''me'', ''messages'', native, ''send''])) (\<lambda>u.
     io_bind (graph_request c HttpPost u None []) (\<lambda>answer. io_lift (decode_graph_empty c answer))))"

end
