(* ===== verification/Graph_Provider.thy ===== *)
theory Graph_Provider
  imports Graph_Client
begin

section \<open>The provider of Microsoft Graph\<close>

text \<open>
  \<open>MicrosoftGraphProvider\<close> of \<open>providers/microsoft_graph.rs\<close>, one definition per method of the trait \<open>MailProvider\<close>, and
  \<open>sync_mailbox\<close> of the trait itself in \<open>provider.rs\<close>, which this provider does not replace. The state is the cache
  of the special folders beside the world of the client.
\<close>

record 'w graph_provider =
  gp_account :: account
  gp_client :: "'w graph_client"
  gp_lowercase :: "string \<Rightarrow> string"

record 'w graph_world =
  gw_role_ids :: "(string \<rightharpoonup> mailbox_role) option"
  gw_net :: 'w

definition graph_call :: "('w, graph_error, 'a) io \<Rightarrow> ('w graph_world, provider_error, 'a) io" where
  "graph_call m s = (case m (gw_net s) of (r, w) \<Rightarrow> (map_err graph_provider_error r, s\<lparr>gw_net := w\<rparr>))"

definition graph_lift :: "graph_error + 'a \<Rightarrow> ('w graph_world, provider_error, 'a) io" where
  "graph_lift r = io_lift (map_err graph_provider_error r)"

abbreviation gp_encode :: "'w graph_provider \<Rightarrow> string \<Rightarrow> string" where
  "gp_encode p \<equiv> wb_encode (gc_web (gp_client p))"

abbreviation gp_decode :: "'w graph_provider \<Rightarrow> string \<Rightarrow> string option" where
  "gp_decode p \<equiv> wb_decode (gc_web (gp_client p))"

subsection \<open>Mailboxes\<close>

definition graph_mailbox :: "'w graph_provider \<Rightarrow> (string \<rightharpoonup> mailbox_role) \<Rightarrow> graph_folder \<Rightarrow> graph_error + mailbox" where
  "graph_mailbox p roles f =
     bind_r (graph_folder_id (gp_encode p) (gf_id f)) (\<lambda>i.
     Inr \<lparr>mb_id = i, mb_account_id = a_id (gp_account p), mb_name = gf_display_name f, mb_role = roles (gf_id f),
          mb_unread = gf_unread_item_count f, mb_total = gf_total_item_count f\<rparr>)"

text \<open>The special folders that were not listed, each once.\<close>

definition add_special :: "graph_folder list \<Rightarrow> graph_folder \<Rightarrow> graph_folder list" where
  "add_special folders f = (if gf_id f \<in> gf_id ` set folders then folders else folders @ [f])"

definition known_roles ::
    "'w graph_provider \<Rightarrow> graph_folder list \<Rightarrow> ('w graph_world, provider_error, (string \<rightharpoonup> mailbox_role) \<times> graph_folder list) io" where
  "known_roles p folders s =
     (case gw_role_ids s of
        Some roles \<Rightarrow> (Inr (roles, folders), s)
      | None \<Rightarrow>
          io_bind (graph_call (well_known_folder_roles (gp_client p))) (\<lambda>(roles, special) s.
          (Inr (roles, foldl add_special folders special), s\<lparr>gw_role_ids := Some roles\<rparr>)) s)"

definition mailbox_order :: "'w graph_provider \<Rightarrow> mailbox \<Rightarrow> nat \<times> string \<times> string" where
  "mailbox_order p m = (mailbox_role_rank (mb_role m), gp_lowercase p (mb_name m), mb_id m)"

definition graph_list_mailboxes :: "'w graph_provider \<Rightarrow> ('w graph_world, provider_error, mailbox list) io" where
  "graph_list_mailboxes p =
     io_bind (graph_call (list_all_folders (gp_client p))) (\<lambda>listed.
     io_bind (known_roles p listed) (\<lambda>(roles, folders).
     io_bind (graph_lift (collect_r (graph_mailbox p roles) folders)) (\<lambda>mailboxes.
     io_return (sort_key (mailbox_order p) mailboxes))))"

subsection \<open>Messages\<close>

definition graph_list_messages :: "'w graph_provider \<Rightarrow> message_query \<Rightarrow> ('w graph_world, provider_error, message_page) io" where
  "graph_list_messages p q =
     (if \<not> (case q_account_id q of None \<Rightarrow> True | Some a \<Rightarrow> a = a_id (gp_account p)) then io_error ProviderNotFound
      else
        io_bind (graph_lift (case q_mailbox_id q of
            None \<Rightarrow> Inr None | Some mb \<Rightarrow> map_ok Some (graph_native_folder_id (gp_decode p) mb))) (\<lambda>folder.
        io_bind (graph_call (list_message_page (gp_client p) q folder)) (\<lambda>(messages, next_cursor).
        io_bind (graph_lift (collect_r (map_summary (gp_encode p) (gp_account p)) messages)) (\<lambda>summaries.
        io_return \<lparr>p_messages = summaries, p_next_cursor = next_cursor\<rparr>))))"

text \<open>The method of the trait: the newest messages of the mailbox, whatever the cursor.\<close>

definition default_sync_mailbox ::
    "(message_query \<Rightarrow> ('w, provider_error, message_page) io) \<Rightarrow> mailbox_sync_query \<Rightarrow> ('w, provider_error, mailbox_sync_page) io" where
  "default_sync_mailbox list_messages q =
     io_bind (list_messages (default_query\<lparr>q_account_id := Some (sq_account_id q), q_mailbox_id := Some (sq_mailbox_id q),
       q_limit := sq_limit q\<rparr>)) (\<lambda>page.
     io_return \<lparr>sp_messages = p_messages page, sp_removed_message_ids = [], sp_cursor = None, sp_reset = False\<rparr>)"

definition graph_sync_mailbox :: "'w graph_provider \<Rightarrow> mailbox_sync_query \<Rightarrow> ('w graph_world, provider_error, mailbox_sync_page) io" where
  "graph_sync_mailbox p = default_sync_mailbox (graph_list_messages p)"

definition message_native_id :: "'w graph_provider \<Rightarrow> string \<Rightarrow> ('w graph_world, provider_error, string) io" where
  "message_native_id p i = graph_lift (graph_native_message_id (gp_decode p) (a_id (gp_account p)) i)"

definition filter_map :: "('a \<Rightarrow> 'b option) \<Rightarrow> 'a list \<Rightarrow> 'b list" where
  "filter_map f xs = map the (filter (\<lambda>y. y \<noteq> None) (map f xs))"

definition graph_get_message :: "'w graph_provider \<Rightarrow> string \<Rightarrow> ('w graph_world, provider_error, message) io" where
  "graph_get_message p i =
     io_bind (message_native_id p i) (\<lambda>native.
     io_bind (graph_call (client_get_message (gp_client p) native)) (\<lambda>m.
     let inline_attachments = (case gm_body m of
           None \<Rightarrow> False | Some b \<Rightarrow> contains_sub (to_ascii_lowercase (gb_content b)) ''cid:'') in
     io_bind (if gm_has_attachments m \<or> inline_attachments
        then io_bind (graph_call (list_attachments (gp_client p) native)) (\<lambda>as.
             graph_lift (collect_r (attachment_of_graph (gp_encode p)) as))
        else io_return []) (\<lambda>attachments.
     io_bind (graph_lift (map_summary (gp_encode p) (gp_account p) m)) (\<lambda>summary.
     io_return \<lparr>m_summary = summary\<lparr>ms_has_attachments := ms_has_attachments summary \<or> attachments \<noteq> []\<rparr>,
       m_to = filter_map graph_address (gm_to m), m_cc = filter_map graph_address (gm_cc m),
       m_bcc = filter_map graph_address (gm_bcc m),
       m_body_text = (case gm_body m of
           Some b \<Rightarrow> if eq_ignore_ascii_case (gb_content_type b) ''html'' then None else Some (gb_content b) | None \<Rightarrow> None),
       m_body_html = (case gm_body m of
           Some b \<Rightarrow> if eq_ignore_ascii_case (gb_content_type b) ''html'' then Some (gb_content b) else None | None \<Rightarrow> None),
       m_attachments = attachments\<rparr>))))"

subsection \<open>Actions\<close>

definition each_message ::
    "'w graph_provider \<Rightarrow> (string \<Rightarrow> ('w, graph_error, unit) io) \<Rightarrow> string list \<Rightarrow> ('w graph_world, provider_error, unit) io" where
  "each_message p change ids =
     io_each (\<lambda>i. io_bind (message_native_id p i) (\<lambda>native. graph_call (change native))) ids"

definition graph_apply_action :: "'w graph_provider \<Rightarrow> mail_action \<Rightarrow> ('w graph_world, provider_error, unit) io" where
  "graph_apply_action p action =
     (if MAX_GRAPH_ACTION_MESSAGES < action_message_count action then io_error (ResourceTooLarge ''mail action batch'')
      else
        (case action of
           MarkRead ids read \<Rightarrow>
             each_message p (\<lambda>native. client_update_message (gp_client p) native (JObj [(''isRead'', JBool read)])) ids
         | Star ids starred \<Rightarrow>
             each_message p (\<lambda>native. client_update_message (gp_client p) native
               (JObj [(''flag'', JObj [(''flagStatus'', JStr (if starred then ''flagged'' else ''notFlagged''))])])) ids
         | Archive ids \<Rightarrow> each_message p (\<lambda>native. move_message (gp_client p) native ''archive'') ids
         | Trash ids \<Rightarrow> each_message p (\<lambda>native. move_message (gp_client p) native ''deleteditems'') ids
         | Move ids mailbox_id \<Rightarrow>
             io_bind (graph_lift (graph_native_folder_id (gp_decode p) mailbox_id)) (\<lambda>destination.
             each_message p (\<lambda>native. move_message (gp_client p) native destination) ids)
         | SetLabels ids labels \<Rightarrow> io_error (Unsupported ''Microsoft Graph uses folders instead of labels'')))"

subsection \<open>Sending\<close>

definition graph_send :: "'w graph_provider \<Rightarrow> outgoing_message \<Rightarrow> ('w graph_world, provider_error, string) io" where
  "graph_send p m =
     (if o_account_id m \<noteq> a_id (gp_account p) then io_error ProviderNotFound
      else
        io_bind (graph_lift (graph_draft_message m)) (\<lambda>draft.
        io_bind (case o_in_reply_to m of
            Some parent_id \<Rightarrow>
              io_bind (message_native_id p parent_id) (\<lambda>parent.
              io_bind (graph_call (create_reply_draft (gp_client p) parent)) (\<lambda>draft_id.
              io_bind (graph_call (update_draft (gp_client p) draft_id draft)) (\<lambda>_. io_return draft_id)))
          | None \<Rightarrow> graph_call (create_draft (gp_client p) draft)) (\<lambda>native.
        io_bind (graph_call (send_draft (gp_client p) native)) (\<lambda>_.
        graph_lift (graph_message_id (gp_encode p) (a_id (gp_account p)) native)))))"

definition graph_get_attachment :: "'w graph_provider \<Rightarrow> string \<Rightarrow> string \<Rightarrow> ('w graph_world, provider_error, attachment_data) io" where
  "graph_get_attachment p message_id attachment_id =
     io_bind (message_native_id p message_id) (\<lambda>native_message.
     io_bind (graph_lift (graph_native_attachment_id (gp_decode p) attachment_id)) (\<lambda>native_attachment.
     io_bind (graph_call (client_get_attachment (gp_client p) native_message native_attachment)) (\<lambda>(a, bytes).
     io_return \<lparr>ad_filename = sanitize_filename (ga_name a), ad_content_type = safe_content_type (ga_content_type a),
       ad_bytes = bytes\<rparr>)))"

end
