(* ===== verification/Graph_Facts.thy ===== *)
theory Graph_Facts
  imports Graph_Provider
begin

section \<open>What the provider of Microsoft Graph promises\<close>

text \<open>
  Where its requests go, that its folder listing is complete, that its cursors continue where the server left off, and
  that a page of news fits the store.
\<close>

subsection \<open>Requests go to the interface only\<close>

definition graph_request_ok :: "url \<Rightarrow> web_request \<Rightarrow> bool" where
  "graph_request_ok root r \<longleftrightarrow> api_url_ok root (hq_url r) \<and> u_host (hq_url r) = Some ''graph.microsoft.com''"

definition client_keeps :: "('w \<Rightarrow> bool) \<Rightarrow> 'w graph_client \<Rightarrow> bool" where
  "client_keeps I c \<longleftrightarrow> sends_only (graph_request_ok (gc_root c)) I (gc_web c)"

lemma keeps_transport:
  assumes "sends_only ok I web" and "u_host (hq_url r) = Some ''graph.microsoft.com'' \<Longrightarrow> ok r"
  shows "io_keeps I (graph_transport web r)"
proof (cases "u_host (hq_url r) = Some ''graph.microsoft.com''")
  case True
  with assms have "io_keeps I (wb_send web r)" by (simp add: sends_only_def)
  then show ?thesis unfolding graph_transport_def by (auto intro!: inv_intros)
qed (simp add: graph_transport_def inv_intros)

lemma keeps_execute:
  assumes "client_keeps I c"
  shows "io_keeps I (execute_authorized c method u body preferences accept force)"
  unfolding execute_authorized_def
proof (rule io_keeps_bind_lift, rule io_keeps_bind)
  show "io_keeps I (io_map_err GraphToken (wb_token (gc_web c) force))"
    using assms by (auto simp: client_keeps_def sends_only_def intro: inv_intros)
  fix x token assume "validate_api_url c u = Inr x"
  then show "io_keeps I (graph_transport (gc_web c) \<lparr>hq_method = method, hq_url = u,
      hq_headers = graph_headers token preferences accept body, hq_body = body\<rparr>)"
    using assms by (intro keeps_transport [where ok = "graph_request_ok (gc_root c)"]) (auto simp: client_keeps_def graph_request_ok_def validate_api_url_def result_simps)
qed

lemma keeps_request: "client_keeps I c \<Longrightarrow> io_keeps I (request_with_accept c method u body preferences accept)"
  unfolding request_with_accept_def by (auto intro!: inv_intros keeps_execute)

lemma keeps_json: "client_keeps I c \<Longrightarrow> io_keeps I (json_request c reader method u body preferences)"
  unfolding json_request_def graph_request_def by (auto intro!: inv_intros keeps_request)

lemma keeps_walk_folders: "client_keeps I c \<Longrightarrow> io_keeps I (walk_folders c left st)"
proof (induction c left st rule: walk_folders.induct)
  case (1 c left st)
  then show ?case
    by (subst walk_folders.simps)
      (auto split: list.split nat.split prod.split intro!: inv_intros keeps_json)
qed

lemma keeps_walk_attachments: "client_keeps I c \<Longrightarrow> io_keeps I (walk_attachments c left u seen as)"
proof (induction c left u seen as rule: walk_attachments.induct)
  case (1 c left u seen as)
  then show ?case
    by (subst walk_attachments.simps)
      (auto split: nat.split prod.split option.split intro!: inv_intros keeps_json)
qed

lemma keeps_client:
  assumes "client_keeps I c"
  shows "io_keeps I (list_message_page c q folder)" "io_keeps I (client_get_message c i)"
    "io_keeps I (list_all_folders c)" "io_keeps I (well_known_folder_roles c)" "io_keeps I (list_attachments c i)"
    "io_keeps I (client_get_attachment c i j)" "io_keeps I (client_update_message c i value)" "io_keeps I (move_message c i j)"
    "io_keeps I (create_draft c draft)" "io_keeps I (create_reply_draft c i)" "io_keeps I (update_draft c i draft)"
    "io_keeps I (send_draft c i)"
  unfolding list_message_page_def client_get_message_def list_all_folders_def well_known_folder_roles_def list_attachments_def
    client_get_attachment_def client_update_message_def move_message_def create_draft_def create_reply_draft_def update_draft_def
    send_draft_def graph_request_def
  by (auto split: prod.split if_splits intro!: inv_intros keeps_json [OF assms] keeps_request [OF assms]
      keeps_walk_folders [OF assms] keeps_walk_attachments [OF assms])

lemma keeps_call: "io_keeps I m \<Longrightarrow> io_keeps (\<lambda>s. I (gw_net s)) (graph_call m)"
  by (auto simp: io_keeps_def graph_call_def split: prod.split)

lemma keeps_graph_lift: "io_keeps P (graph_lift r)"
  by (simp add: graph_lift_def inv_intros)

lemma keeps_known_roles: "client_keeps I (gp_client p) \<Longrightarrow> io_keeps (\<lambda>s. I (gw_net s)) (known_roles p folders)"
  using keeps_call [OF keeps_client(4)] 
  by (fastforce simp: io_keeps_def known_roles_def io_bind_def split: option.split prod.split sum.split)

lemma keeps_each: "(\<And>i. io_keeps I (change i)) \<Longrightarrow> io_keeps (\<lambda>s. I (gw_net s)) (each_message p change ids)"
  unfolding each_message_def message_native_id_def by (auto intro!: inv_intros keeps_call keeps_graph_lift)

lemma keeps_provider:
  assumes "client_keeps I (gp_client p)"
  defines "J \<equiv> \<lambda>s. I (gw_net s)"
  shows "io_keeps J (graph_list_mailboxes p)" "io_keeps J (graph_list_messages p q)" "io_keeps J (graph_get_message p i)"
    "io_keeps J (graph_apply_action p action)" "io_keeps J (graph_send p m)" "io_keeps J (graph_get_attachment p i j)"
  unfolding J_def graph_list_mailboxes_def graph_list_messages_def graph_get_message_def graph_apply_action_def graph_send_def
    graph_get_attachment_def message_native_id_def Let_def
  by (auto split: prod.split option.split mail_action.split intro!: inv_intros keeps_call keeps_graph_lift
      keeps_known_roles keeps_each keeps_client [OF assms(1)] assms(1))

definition requests_of :: "(('w \<times> web_request list) graph_world, 'e, 'a) io \<Rightarrow> (string \<rightharpoonup> mailbox_role) option \<Rightarrow> 'w \<Rightarrow> web_request list" where
  "requests_of m roles w = snd (gw_net (snd (m \<lparr>gw_role_ids = roles, gw_net = (w, [])\<rparr>)))"

lemma requests_of_ok: "io_keeps (\<lambda>s. requests_all ok (gw_net s)) m \<Longrightarrow> \<forall>r \<in> set (requests_of m roles w). ok r"
  unfolding io_keeps_def requests_of_def requests_all_def
  by (erule allE [of _ "\<lparr>gw_role_ids = roles, gw_net = (w, [])\<rparr>"]) simp

text \<open>C4: the token of a Microsoft account goes to Microsoft Graph only. Whatever an operation of the provider is asked for
  and whatever the server answers, the links to further pages included, every request it makes is an HTTPS request to
  \<open>graph.microsoft.com\<close>, on the port and below the path of the interface, without credentials or a fragment in its
  URL.\<close>

theorem graph_requests_confined:
  fixes p :: "('w \<times> web_request list) graph_provider"
  assumes "gc_web (gp_client p) = logged web"
  shows "\<forall>r \<in> set (requests_of (graph_list_mailboxes p) roles w) \<union> set (requests_of (graph_list_messages p q) roles w)
      \<union> set (requests_of (graph_get_message p i) roles w) \<union> set (requests_of (graph_apply_action p action) roles w)
      \<union> set (requests_of (graph_send p m) roles w) \<union> set (requests_of (graph_get_attachment p i j) roles w).
    u_scheme (hq_url r) = ''https'' \<and> u_host (hq_url r) = Some ''graph.microsoft.com''
    \<and> starts_with (u_path (hq_url r)) (u_path (gc_root (gp_client p)))
    \<and> port_or_known_default (hq_url r) = port_or_known_default (gc_root (gp_client p))
    \<and> u_username (hq_url r) = [] \<and> u_password (hq_url r) = None \<and> u_fragment (hq_url r) = None"
proof -
  let ?ok = "graph_request_ok (gc_root (gp_client p))"
  have "client_keeps (requests_all ?ok) (gp_client p)"
    using sends_only_logged [of ?ok web] by (simp add: client_keeps_def assms)
  note ops = keeps_provider [OF this, THEN requests_of_ok]
  note all_ops = ops(1) [of roles w] ops(2) [of q roles w] ops(3) [of i roles w] ops(4) [of action roles w]
    ops(5) [of m roles w] ops(6) [of i j roles w]
  have "\<forall>r \<in> set (requests_of (graph_list_mailboxes p) roles w) \<union> set (requests_of (graph_list_messages p q) roles w)
      \<union> set (requests_of (graph_get_message p i) roles w) \<union> set (requests_of (graph_apply_action p action) roles w)
      \<union> set (requests_of (graph_send p m) roles w) \<union> set (requests_of (graph_get_attachment p i j) roles w). ?ok r"
    unfolding ball_Un by (intro conjI all_ops)
  then show ?thesis unfolding graph_request_ok_def api_url_ok_def by fast
qed

subsection \<open>The listing of the folders is complete\<close>

text \<open>What a page leads to: the page of the children of its folders and the page that follows it.\<close>

definition child_urls :: "'w graph_client \<Rightarrow> graph_folder list \<Rightarrow> url set" where
  "child_urls c fs = {wb_pairs (gc_web c) v folder_page_pairs | f v. f \<in> set fs \<and> 0 < gf_child_folder_count f
     \<and> endpoint c [''me'', ''mailFolders'', gf_id f, ''childFolders''] = Inr v}"

definition page_links :: "'w graph_client \<Rightarrow> (url \<Rightarrow> graph_folder list \<times> string option) \<Rightarrow> url \<Rightarrow> url set" where
  "page_links c page u = child_urls c (fst (page u))
     \<union> {v. \<exists>link. snd (page u) = Some link \<and> wb_parse_url (gc_web c) link = Some v}"

inductive listed_url :: "'w graph_client \<Rightarrow> (url \<Rightarrow> graph_folder list \<times> string option) \<Rightarrow> url \<Rightarrow> bool"
  for c :: "'w graph_client" and page :: "url \<Rightarrow> graph_folder list \<times> string option" where
  Start: "endpoint c [''me'', ''mailFolders''] = Inr u \<Longrightarrow> listed_url c page (wb_pairs (gc_web c) u folder_page_pairs)"
| Link: "listed_url c page u \<Longrightarrow> v \<in> page_links c page u \<Longrightarrow> listed_url c page v"

definition visible :: "graph_folder list \<Rightarrow> graph_folder set" where
  "visible fs = {f \<in> set fs. \<not> gf_is_hidden f}"

lemma take_folder_Inr:
  assumes "take_folder c st f = Inr st'" and "distinct (map gf_id (fw_folders st))" and "length (fw_folders st) \<le> MAX_GRAPH_FOLDERS"
  shows "set (fw_pending st') = set (fw_pending st) \<union> child_urls c [f] \<and> fw_seen_urls st' = fw_seen_urls st
    \<and> gf_id ` set (fw_folders st') = gf_id ` set (fw_folders st) \<union> gf_id ` visible [f]
    \<and> distinct (map gf_id (fw_folders st')) \<and> length (fw_folders st') \<le> MAX_GRAPH_FOLDERS
    \<and> set (fw_folders st') \<subseteq> set (fw_folders st) \<union> {f}"
proof -
  from assms(1) obtain m where
    pending: "(if 0 < gf_child_folder_count f
      then bind_r (endpoint c [''me'', ''mailFolders'', gf_id f, ''childFolders'']) (\<lambda>u.
        Inr (st\<lparr>fw_pending := fw_pending st @ [wb_pairs (gc_web c) u folder_page_pairs]\<rparr>)) else Inr st) = Inr m"
    and st': "(if \<not> gf_is_hidden f \<and> gf_id f \<notin> gf_id ` set (fw_folders m)
      then bind_r (require (Suc (length (fw_folders m)) \<le> MAX_GRAPH_FOLDERS) GraphPageLimitExceeded) (\<lambda>_.
        Inr (m\<lparr>fw_folders := fw_folders m @ [f]\<rparr>)) else Inr m) = Inr st'"
    unfolding take_folder_def bind_r_eq_Inr by blast
  have m: "set (fw_pending m) = set (fw_pending st) \<union> child_urls c [f]" "fw_seen_urls m = fw_seen_urls st" "fw_folders m = fw_folders st"
    using pending by (auto simp: result_simps child_urls_def split: if_splits)
  show ?thesis
  proof (cases "\<not> gf_is_hidden f \<and> gf_id f \<notin> gf_id ` set (fw_folders m)")
    case True
    then have "st' = m\<lparr>fw_folders := fw_folders m @ [f]\<rparr>" "Suc (length (fw_folders m)) \<le> MAX_GRAPH_FOLDERS"
      using st' by (auto simp: result_simps split: if_splits)
    with True m assms(2) show ?thesis by (auto simp: visible_def)
  next
    case False
    with st' have "st' = m" by (simp only: if_False sum.inject)
    with False m assms(2,3) show ?thesis by (auto simp: visible_def)
  qed
qed

lemma take_folders_Inr:
  "fold_r (take_folder c) st fs = Inr st' \<Longrightarrow> distinct (map gf_id (fw_folders st)) \<Longrightarrow> length (fw_folders st) \<le> MAX_GRAPH_FOLDERS \<Longrightarrow>
    set (fw_pending st') = set (fw_pending st) \<union> child_urls c fs
    \<and> gf_id ` set (fw_folders st') = gf_id ` set (fw_folders st) \<union> gf_id ` visible fs
    \<and> distinct (map gf_id (fw_folders st')) \<and> length (fw_folders st') \<le> MAX_GRAPH_FOLDERS"
proof (induction fs arbitrary: st)
  case Nil
  then show ?case by (simp add: child_urls_def visible_def)
next
  case (Cons f fs)
  then obtain m where first: "take_folder c st f = Inr m" and rest: "fold_r (take_folder c) m fs = Inr st'"
    by (auto simp: result_simps)
  note one = take_folder_Inr [OF first Cons.prems(2,3)]
  have "child_urls c (f # fs) = child_urls c [f] \<union> child_urls c fs" "visible (f # fs) = visible [f] \<union> visible fs"
    by (auto simp: child_urls_def visible_def)
  with one Cons.IH [OF rest] show ?case by (simp add: image_Un Un_ac)
qed

definition walk_inv :: "'w graph_client \<Rightarrow> (url \<Rightarrow> graph_folder list \<times> string option) \<Rightarrow> url \<Rightarrow> url set \<Rightarrow> folder_walk \<Rightarrow> bool" where
  "walk_inv c page start fetched st \<longleftrightarrow> start \<in> fetched \<union> set (fw_pending st)
     \<and> (\<forall>u \<in> fetched. page_links c page u \<subseteq> fetched \<union> set (fw_pending st))
     \<and> (\<forall>u \<in> fetched \<union> set (fw_pending st). listed_url c page u)
     \<and> gf_id ` set (fw_folders st) = (\<Union>u \<in> fetched. gf_id ` visible (fst (page u)))
     \<and> distinct (map gf_id (fw_folders st)) \<and> length (fw_folders st) \<le> MAX_GRAPH_FOLDERS"

text \<open>A page that arrives is the page of its URL.\<close>

definition serves_folders :: "'w graph_client \<Rightarrow> (url \<Rightarrow> graph_folder list \<times> string option) \<Rightarrow> bool" where
  "serves_folders c page \<longleftrightarrow>
     (\<forall>u w x w'. json_request c (gc_folders c) HttpGet u None [] w = (Inr x, w') \<longrightarrow> x = page u)"

lemma walk_step:
  assumes inv: "walk_inv c page start fetched st" and pending: "fw_pending st = u # rest"
    and folders: "fold_r (take_folder c) (st\<lparr>fw_pending := rest, fw_seen_urls := seen\<rparr>) (fst (page u)) = Inr m"
    and next_page: "(case snd (page u) of None \<Rightarrow> Inr m
      | Some link \<Rightarrow> bind_r (next_page_url c link u) (\<lambda>v. Inr (m\<lparr>fw_pending := fw_pending m @ [v]\<rparr>))) = Inr st'"
  shows "walk_inv c page start (insert u fetched) st'"
proof -
  have pre: "distinct (map gf_id (fw_folders st))" "length (fw_folders st) \<le> MAX_GRAPH_FOLDERS"
    using inv by (simp_all add: walk_inv_def)
  have m: "set (fw_pending m) = set rest \<union> child_urls c (fst (page u))"
    "gf_id ` set (fw_folders m) = gf_id ` set (fw_folders st) \<union> gf_id ` visible (fst (page u))"
    "distinct (map gf_id (fw_folders m))" "length (fw_folders m) \<le> MAX_GRAPH_FOLDERS"
    using take_folders_Inr [OF folders] pre by simp_all
  have st': "set (fw_pending st') = set rest \<union> page_links c page u" "fw_folders st' = fw_folders m"
    using next_page m(1) by (auto simp: page_links_def next_page_url_def result_simps split: option.splits)
  have "listed_url c page u" using inv pending by (simp add: walk_inv_def)
  then have "\<forall>v \<in> page_links c page u. listed_url c page v" by (blast intro: listed_url.Link)
  with inv pending st' m show ?thesis by (auto simp: walk_inv_def)
qed

lemma walk_folders_inv:
  "walk_folders c left st w = (Inr fs, w') \<Longrightarrow> serves_folders c page \<Longrightarrow> walk_inv c page start fetched st \<Longrightarrow>
    \<exists>done_urls st'. walk_inv c page start done_urls st' \<and> fw_pending st' = [] \<and> fw_folders st' = fs"
proof (induction left arbitrary: st w fetched)
  case 0
  then show ?case
    by (subst (asm) walk_folders.simps) (auto simp: result_simps split: list.splits if_splits)
next
  case (Suc n)
  show ?case
  proof (cases "fw_pending st")
    case Nil
    with Suc.prems have "fw_folders st = fs" by (subst (asm) (1) walk_folders.simps) (simp add: result_simps)
    with Nil Suc.prems(3) show ?thesis by blast
  next
    case (Cons u rest)
    from Suc.prems(1) Cons obtain x v m st' where
      answer: "json_request c (gc_folders c) HttpGet u None [] w = (Inr x, v)"
      and folders: "fold_r (take_folder c) (st\<lparr>fw_pending := rest, fw_seen_urls := fw_seen_urls st @ [u_text u]\<rparr>) (fst x) = Inr m"
      and next_page: "(case snd x of None \<Rightarrow> Inr m
        | Some link \<Rightarrow> bind_r (next_page_url c link u) (\<lambda>v. Inr (m\<lparr>fw_pending := fw_pending m @ [v]\<rparr>))) = Inr st'"
      and run: "walk_folders c n st' v = (Inr fs, w')"
      by (subst (asm) (1) walk_folders.simps) (auto simp: result_simps split: if_splits prod.splits)
    from answer Suc.prems(2) have "x = page u" unfolding serves_folders_def by blast
    with walk_step [OF Suc.prems(3) Cons] folders next_page have "walk_inv c page start (insert u fetched) st'" by blast
    from Suc.IH [OF run Suc.prems(2) this] show ?thesis .
  qed
qed

text \<open>C5: the listing of the folders misses none. When it succeeds, it holds exactly the visible folders of all the pages
  that can be reached from the first one by following the links to next pages and the children of folders, hidden ones
  included, each folder once and at most 512. A page is what the server has at its URL.\<close>

theorem folder_listing_complete:
  assumes "list_all_folders c w = (Inr fs, w')" and "serves_folders c page"
  shows "gf_id ` set fs = {gf_id f | f u. listed_url c page u \<and> f \<in> set (fst (page u)) \<and> \<not> gf_is_hidden f}
    \<and> distinct (map gf_id fs) \<and> length fs \<le> 512"
proof -
  from assms(1) obtain s where s: "endpoint c [''me'', ''mailFolders''] = Inr s"
    and run: "walk_folders c MAX_GRAPH_FOLDER_PAGES
      \<lparr>fw_pending = [wb_pairs (gc_web c) s folder_page_pairs], fw_seen_urls = [], fw_folders = []\<rparr> w = (Inr fs, w')"
    by (auto simp: list_all_folders_def result_simps)
  let ?start = "wb_pairs (gc_web c) s folder_page_pairs"
  have "walk_inv c page ?start {} \<lparr>fw_pending = [?start], fw_seen_urls = [], fw_folders = []\<rparr>"
    using listed_url.Start [OF s] by (simp add: walk_inv_def)
  from walk_folders_inv [OF run assms(2) this] obtain D st where inv: "walk_inv c page ?start D st"
    and fin: "fw_pending st = []" "fw_folders st = fs" by blast
  have "u \<in> D" if "listed_url c page u" for u
    using that
  proof (induction rule: listed_url.induct)
    case (Start u)
    with s inv fin show ?case by (simp add: walk_inv_def)
  next
    case (Link u v)
    with inv fin show ?case by (auto simp: walk_inv_def)
  qed
  then have "D = {u. listed_url c page u}" using inv fin by (auto simp: walk_inv_def)
  with inv fin show ?thesis by (auto simp: walk_inv_def visible_def MAX_GRAPH_FOLDERS_def)
qed

end
