(* ===== verification/Graph_Pages.thy ===== *)
theory Graph_Pages
  imports Graph_Facts Storage_Sync
begin

section \<open>Pages of Microsoft Graph\<close>

text \<open>
  The cursor of a page leads to the page that the server named, and a page of news fits the store. A sample client at
  the end of the theory shows that the hypotheses of this theory and of \<open>Graph_Facts\<close> hold together.
\<close>

subsection \<open>Cursors\<close>

text \<open>What the crate \<open>url\<close> documents: a URL that was parsed is UTF-8 text that parses to itself, and a query leaves the
  path alone.\<close>

definition faithful_urls :: "'w web \<Rightarrow> bool" where
  "faithful_urls web \<longleftrightarrow>
     (\<forall>s u. wb_parse_url web s = Some u \<longrightarrow> u_text u \<noteq> [] \<and> valid_utf8 (u_text u) \<and> wb_parse_url web (u_text u) = Some u)
     \<and> (\<forall>u pairs. u_path (wb_pairs web u pairs) = u_path u)"

context base64url
begin

lemma continuation_of_cursor:
  assumes "wb_encode (gc_web c) = enc" "wb_decode (gc_web c) = dec" and "faithful_urls (gc_web c)"
    and cursor: "continuation_cursor c link current = Inr cursor"
  obtains v where "wb_parse_url (gc_web c) link = Some v" "continuation_url c cursor = Inr v" "u_path v = u_path current"
proof -
  from cursor obtain v where v: "wb_parse_url (gc_web c) link = Some v" "api_url_ok (gc_root c) v" "u_path v = u_path current"
    "cursor = enc (u_text v)"
    by (auto simp: continuation_cursor_def validate_api_url_def validate_next_url_def result_simps assms(1))
  have u: "u_text v \<noteq> []" "valid_utf8 (u_text v)" "wb_parse_url (gc_web c) (u_text v) = Some v"
    using assms(3) v(1) by (auto simp: faithful_urls_def)
  moreover have "length (u_text v) \<le> MAX_GRAPH_CONTINUATION_BYTES" using v(2) by (simp add: api_url_ok_def)
  then have "length cursor \<le> MAX_GRAPH_CONTINUATION_BYTES * 2" "cursor \<noteq> []"
    using u(1) by (simp_all add: v(4) enc_length enc_Nil_iff MAX_GRAPH_CONTINUATION_BYTES_def)
  ultimately have "continuation_url c cursor = Inr v"
    by (simp add: continuation_url_def validate_api_url_def v(2,4) result_simps assms(2) dec_enc)
  with v that show ?thesis by blast
qed

end

text \<open>C19: paging through the messages of Microsoft Graph follows the server. When a page comes with a cursor, the server
  had named a next page, and asking the same query with that cursor asks for exactly the URL that it named, whatever the
  query selects.\<close>

theorem graph_cursor_continues:
  assumes codec: "base64url (wb_encode (gc_web c)) (wb_decode (gc_web c))" and urls: "faithful_urls (gc_web c)"
    and page: "list_message_page c q folder w = (Inr (messages, Some cursor), w')"
  shows "\<exists>u link v. message_page_url c q folder = Inr u
    \<and> json_request c (gc_messages c) HttpGet u None [] w = (Inr (messages, Some link), w')
    \<and> wb_parse_url (gc_web c) link = Some v
    \<and> message_page_url c (q\<lparr>q_cursor := Some cursor\<rparr>) folder = Inr v"
proof -
  from page obtain u link where u: "message_page_url c q folder = Inr u"
    and answer: "json_request c (gc_messages c) HttpGet u None [] w = (Inr (messages, Some link), w')"
    and cursor: "continuation_cursor c link u = Inr cursor"
    by (auto simp: list_message_page_def result_simps split: option.splits prod.splits)
  from u obtain collection where collection: "endpoint c (collection_segments folder) = Inr collection"
    "u_path u = u_path collection"
    using urls by (auto simp: message_page_url_def result_simps faithful_urls_def split: option.splits)
  from base64url.continuation_of_cursor [OF codec refl refl urls cursor] obtain v where
    "wb_parse_url (gc_web c) link = Some v" "continuation_url c cursor = Inr v" "u_path v = u_path u" .
  with u answer collection show ?thesis by (auto simp: message_page_url_def result_simps)
qed

subsection \<open>Pages fit the store\<close>

lemma map_summary_Inr:
  assumes "map_summary enc account m = Inr s"
  shows "ms_account_id s = a_id account" "is_normalized_message_id (a_id account) (ms_id s)"
    "gm_parent_folder_id m = Some f \<Longrightarrow> graph_folder_id enc f = Inr mb \<Longrightarrow> ms_mailbox_id s = Some mb"
  using assms by (auto simp: map_summary_def graph_id_defs encode_native_id_def result_simps Let_def)

lemma collect_r_map_summary:
  "collect_r (map_summary enc account) ms = Inr ss \<Longrightarrow> s \<in> set ss \<Longrightarrow> \<exists>m \<in> set ms. map_summary enc account m = Inr s"
  by (induction ms arbitrary: ss) (auto simp: result_simps)

text \<open>The messages of a folder say that they are in it.\<close>

definition serves_folder :: "'w graph_client \<Rightarrow> string \<Rightarrow> bool" where
  "serves_folder c folder \<longleftrightarrow>
     (\<forall>q w. case list_message_page c q (Some folder) w of
        (Inr page, w') \<Rightarrow> list_all (\<lambda>m. gm_parent_folder_id m = Some folder) (fst page)
      | (Inl e, w') \<Rightarrow> True)"

text \<open>C18: what \<open>sync_mailbox\<close> brings from Microsoft Graph is what the store accepts. For a mailbox whose id stands for a
  folder of the server, every page of the provider passes the checks of \<open>apply_mailbox_sync_page\<close>: its messages are in
  the account and in the mailbox, their ids are those of the account, and it has no cursor that the store would refuse.\<close>

theorem graph_page_fits_store:
  assumes codec: "base64url (gp_encode p) (gp_decode p)"
    and mailbox: "graph_folder_id (gp_encode p) folder = Inr (sq_mailbox_id q)" and utf8: "valid_utf8 folder"
    and server: "serves_folder (gp_client p) folder"
    and page: "graph_sync_mailbox p q s = (Inr page, s')"
  shows "validate_sync_page (sq_account_id q) (sq_mailbox_id q) page = Inr ()"
proof -
  have native: "graph_native_folder_id (gp_decode p) (sq_mailbox_id q) = Inr folder"
    using mailbox utf8 by (simp add: graph_id_defs base64url.decode_encode_native_id [OF codec])
  from page native obtain ms cursor ss w query where account: "sq_account_id q = a_id (gp_account p)"
    and listed: "list_message_page (gp_client p) query (Some folder) (gw_net s) = (Inr (ms, cursor), w)"
    and ss: "collect_r (map_summary (gp_encode p) (gp_account p)) ms = Inr ss"
    and fields: "sp_messages page = ss" "sp_removed_message_ids page = []" "sp_cursor page = None"
    by (auto simp: graph_sync_mailbox_def default_sync_mailbox_def graph_list_messages_def result_simps graph_call_def
        graph_lift_def split: if_splits prod.splits)
  have parents: "\<forall>m \<in> set ms. gm_parent_folder_id m = Some folder"
    using server listed unfolding serves_folder_def list_all_iff by (fastforce dest!: spec [of _ query] split: prod.splits)
  have "ms_account_id x = a_id (gp_account p) \<and> ms_mailbox_id x = Some (sq_mailbox_id q)
    \<and> is_normalized_message_id (a_id (gp_account p)) (ms_id x)" if "x \<in> set ss" for x
    using collect_r_map_summary [OF ss that] map_summary_Inr mailbox parents by blast
  then show ?thesis by (simp add: validate_sync_page_def fields account result_simps list_all_iff)
qed

subsection \<open>A sample client\<close>

definition sample_root :: url where
  "sample_root = \<lparr>u_text = ''https://graph.microsoft.com/v1.0/'', u_scheme = ''https'', u_username = [], u_password = None,
     u_host = Some ''graph.microsoft.com'', u_port = None, u_path = ''/v1.0/'', u_query = None, u_query_pairs = [],
     u_fragment = None\<rparr>"

definition sample_push :: "url \<Rightarrow> string list \<Rightarrow> url option" where
  "sample_push u segments = Some (u\<lparr>u_text := ''https://graph.microsoft.com/v1.0'' @ concat (map (\<lambda>s. ''/'' @ s) segments),
     u_path := ''/v1.0'' @ concat (map (\<lambda>s. ''/'' @ s) segments)\<rparr>)"

definition sample_next :: url where
  "sample_next = the (sample_push sample_root [''me'', ''mailFolders'', ''F'', ''messages''])"

definition sample_web :: "unit web" where
  "sample_web = \<lparr>wb_send = (\<lambda>r. io_return \<lparr>wr_status = 200, wr_length = None, wr_chunks = []\<rparr>),
     wb_token = (\<lambda>force. io_return ''token''),
     wb_parse_url = (\<lambda>s. if s = u_text sample_next then Some sample_next else None),
     wb_push = sample_push, wb_pairs = (\<lambda>u pairs. u\<lparr>u_text := u_text u @ ''?q''\<rparr>),
     wb_encode = base64_url_encode, wb_decode = base64_url_decode, wb_json = (\<lambda>v. []), wb_parse_json = (\<lambda>s. None)\<rparr>"

definition sample_graph_folder :: graph_folder where
  "sample_graph_folder = \<lparr>gf_id = ''F'', gf_display_name = ''Inbox'', gf_child_folder_count = 0, gf_unread_item_count = 0,
     gf_total_item_count = 1, gf_is_hidden = False\<rparr>"

definition sample_graph_message :: graph_message where
  "sample_graph_message = \<lparr>gm_id = ''M'', gm_conversation_id = None, gm_parent_folder_id = Some ''F'', gm_subject = None,
     gm_from = None, gm_to = [], gm_cc = [], gm_bcc = [], gm_received = None, gm_sent = None, gm_is_read = False,
     gm_flag_status = None, gm_body_preview = None, gm_body = None, gm_has_attachments = False,
     gm_internet_message_id = None\<rparr>"

definition graph_client_on :: "'w web \<Rightarrow> 'w graph_client" where
  "graph_client_on web = \<lparr>gc_web = web, gc_root = sample_root, gc_folders = (\<lambda>s. Some ([sample_graph_folder], None)),
     gc_folder = (\<lambda>s. None), gc_messages = (\<lambda>s. Some ([sample_graph_message], Some (u_text sample_next))),
     gc_message = (\<lambda>s. None), gc_attachments = (\<lambda>s. None), gc_attachment = (\<lambda>s. None), gc_created = (\<lambda>s. None),
     gc_error_code = (\<lambda>s. None)\<rparr>"

definition graph_provider_on :: "'w web \<Rightarrow> 'w graph_provider" where
  "graph_provider_on web = \<lparr>gp_account = \<lparr>a_id = ''account-1'', a_address = ''me@example.com'', a_display_name = [],
       a_provider = ''microsoft'', a_protocol = ''graph'', a_host = [], a_unread = 0, a_total = 0, a_enabled = True\<rparr>,
     gp_client = graph_client_on web, gp_lowercase = to_ascii_lowercase\<rparr>"

lemma sample_faithful: "faithful_urls sample_web"
  by (auto simp: faithful_urls_def sample_web_def) (code_simp+)

definition sample_collection :: "string list \<Rightarrow> url" where
  "sample_collection segments = the (sample_push sample_root segments)"

lemma sample_api_url: "length (u_text u) \<le> 8192 \<Longrightarrow> starts_with (u_path u) ''/v1.0/'' \<Longrightarrow>
    u = sample_root\<lparr>u_text := u_text u, u_path := u_path u\<rparr> \<Longrightarrow> api_url_ok sample_root u"
  unfolding api_url_ok_def port_or_known_default_def MAX_GRAPH_CONTINUATION_BYTES_def
  by (cases u) (simp add: sample_root_def)

lemma sample_client_fields [simp]:
  "gc_web (graph_client_on web) = web" "gc_root (graph_client_on web) = sample_root"
  "gc_folders (graph_client_on web) = (\<lambda>s. Some ([sample_graph_folder], None))"
  "gc_messages (graph_client_on web) = (\<lambda>s. Some ([sample_graph_message], Some (u_text sample_next)))"
  by (simp_all add: graph_client_on_def)

lemma sample_endpoints:
  "endpoint (graph_client_on sample_web) [''me'', ''mailFolders'', ''F'', ''messages''] = Inr sample_next"
  "endpoint (graph_client_on sample_web) [''me'', ''mailFolders''] = Inr (sample_collection [''me'', ''mailFolders''])"
  by (simp_all add: endpoint_def validate_api_url_def sample_web_def sample_next_def sample_collection_def sample_push_def
      sample_root_def api_url_ok_def port_or_known_default_def MAX_GRAPH_CONTINUATION_BYTES_def NUL_def starts_with_def require_def)

lemma sample_json_request:
  "api_url_ok sample_root u \<Longrightarrow> u_host u = Some ''graph.microsoft.com'' \<Longrightarrow>
    json_request (graph_client_on sample_web) reader method u body preferences ()
      = (case reader [] of None \<Rightarrow> Inl GraphJson | Some x \<Rightarrow> Inr x, ())"
  by (simp add: json_request_def graph_request_def request_with_accept_def execute_authorized_def validate_api_url_def
      graph_transport_def sample_web_def bounded_body_def io_bind_def io_lift_def io_return_def io_map_err_def
      decode_graph_json_def graph_success_def require_def ok_or_def api_url_ok_def split: option.split)


lemma sample_urls:
  "api_url_ok sample_root (wb_pairs sample_web sample_next pairs)" "u_host (wb_pairs sample_web sample_next pairs) = Some ''graph.microsoft.com''"
  "api_url_ok sample_root (wb_pairs sample_web (sample_collection [''me'', ''mailFolders'']) pairs)"
  "u_host (wb_pairs sample_web (sample_collection [''me'', ''mailFolders'']) pairs) = Some ''graph.microsoft.com''"
  by (simp_all add: sample_web_def sample_next_def sample_collection_def sample_push_def sample_root_def api_url_ok_def
      port_or_known_default_def MAX_GRAPH_CONTINUATION_BYTES_def starts_with_def)

lemma sample_cursor:
  "continuation_cursor (graph_client_on sample_web) (u_text sample_next) (wb_pairs sample_web sample_next pairs)
     = Inr (base64_url_encode (u_text sample_next))"
  by (simp add: continuation_cursor_def validate_next_url_def validate_api_url_def sample_web_def sample_next_def
      sample_push_def sample_root_def api_url_ok_def port_or_known_default_def MAX_GRAPH_CONTINUATION_BYTES_def
      starts_with_def require_def ok_or_def del: base64_url_encode.simps)

lemma sample_message_page:
  "q_cursor q = None \<Longrightarrow> q_search q = None \<Longrightarrow> list_message_page (graph_client_on sample_web) q (Some ''F'') ()
     = (Inr ([sample_graph_message], Some (base64_url_encode (u_text sample_next))), ())"
proof -
  assume q: "q_cursor q = None" "q_search q = None"
  have "\<exists>pairs. message_query_pairs q = Inr pairs"
    unfolding message_query_pairs_def Let_def q option.case by (rule exI, rule refl)
  then obtain pairs where "message_query_pairs q = Inr pairs" by (elim exE)
  with q have "message_page_url (graph_client_on sample_web) q (Some ''F'') = Inr (wb_pairs sample_web sample_next pairs)"
    by (simp add: message_page_url_def collection_segments_def sample_endpoints)
  then show ?thesis
    by (simp add: list_message_page_def io_bind_def io_lift_def io_return_def sample_json_request sample_urls sample_cursor
        require_def MAX_GRAPH_PAGE_ITEMS_def map_ok_def del: base64_url_encode.simps)
qed

lemma sample_folder_page: "list_all_folders (graph_client_on sample_web) () = (Inr [sample_graph_folder], ())"
proof -
  have "validate_native_id ''F'' = Inr ()" by (simp add: validate_native_id_def require_def MAX_GRAPH_NATIVE_ID_BYTES_def) code_simp
  then show ?thesis
    by (simp add: list_all_folders_def walk_folders.simps [of _ MAX_GRAPH_FOLDER_PAGES] walk_folders.simps sample_endpoints
        io_bind_def io_lift_def io_return_def sample_json_request sample_urls validate_api_url_def require_def
        MAX_GRAPH_FOLDER_PAGES_def MAX_GRAPH_PAGE_ITEMS_def MAX_GRAPH_FOLDERS_def take_folder_def sample_graph_folder_def)
qed

subsection \<open>The properties on the sample\<close>

theorem graph_cursor_continues_witness:
  "\<exists>u link v cursor. message_page_url (graph_client_on sample_web) default_query (Some ''F'') = Inr u
    \<and> wb_parse_url sample_web link = Some v
    \<and> message_page_url (graph_client_on sample_web) (default_query\<lparr>q_cursor := Some cursor\<rparr>) (Some ''F'') = Inr v"
proof -
  have "base64url (wb_encode sample_web) (wb_decode sample_web)"
    by (simp add: sample_web_def gmail_codec.base64url_axioms)
  moreover have page: "list_message_page (graph_client_on sample_web) default_query (Some ''F'') ()
      = (Inr ([sample_graph_message], Some (base64_url_encode (u_text sample_next))), ())"
    by (rule sample_message_page) (simp_all add: default_query_def)
  ultimately show ?thesis
    using graph_cursor_continues [where c = "graph_client_on sample_web", OF _ _ page] sample_faithful
    unfolding sample_client_fields by blast
qed

lemma sample_serves: "serves_folders (graph_client_on sample_web) (\<lambda>u. ([sample_graph_folder], None))"
  by (auto simp: serves_folders_def json_request_def result_simps decode_graph_json_def split: if_splits)

theorem folder_listing_complete_witness:
  "\<exists>fs w. list_all_folders (graph_client_on sample_web) () = (Inr fs, w) \<and> gf_id ` set fs
     = {gf_id f | f u. listed_url (graph_client_on sample_web) (\<lambda>u. ([sample_graph_folder], None)) u
          \<and> f \<in> {sample_graph_folder} \<and> \<not> gf_is_hidden f}"
  using folder_listing_complete [OF sample_folder_page sample_serves] sample_folder_page by auto

definition sample_listing :: "(unit \<times> web_request list) graph_provider" where
  "sample_listing = (graph_provider_on (logged sample_web))\<lparr>gp_client :=
     (graph_client_on (logged sample_web))\<lparr>gc_messages := (\<lambda>s. Some ([], None))\<rparr>\<rparr>"

lemma sample_logged_request:
  assumes "gc_web c = logged sample_web" "gc_root c = sample_root" "api_url_ok sample_root u" "u_host u = Some ''graph.microsoft.com''"
  shows "\<exists>r. json_request c reader method u body preferences ((), log)
    = (case reader [] of None \<Rightarrow> Inl GraphJson | Some x \<Rightarrow> Inr x, ((), log @ [r]))"
  using assms
  by (simp add: json_request_def graph_request_def request_with_accept_def execute_authorized_def validate_api_url_def
      graph_transport_def logged_def beside_def sample_web_def bounded_body_def io_bind_def io_lift_def io_return_def
      io_map_err_def decode_graph_json_def graph_success_def require_def ok_or_def api_url_ok_def split: option.split)

lemma sample_listing_requests:
  "\<exists>r. r \<in> set (requests_of (graph_list_messages sample_listing default_query) None ())"
proof -
  let ?c = "(graph_client_on (logged sample_web))\<lparr>gc_messages := (\<lambda>s. Some ([], None))\<rparr>"
  have "\<exists>pairs. message_query_pairs default_query = Inr pairs"
    unfolding message_query_pairs_def Let_def default_query_def message_query.simps option.case by (rule exI, rule refl)
  then obtain pairs where pairs: "message_query_pairs default_query = Inr pairs" by (elim exE)
  have query: "q_cursor default_query = None" "q_account_id default_query = None" "q_mailbox_id default_query = None"
    by (simp_all add: default_query_def)
  have "endpoint ?c [''me'', ''messages''] = Inr (sample_collection [''me'', ''messages''])"
    by (simp add: endpoint_def validate_api_url_def sample_web_def sample_collection_def sample_push_def sample_root_def
        api_url_ok_def port_or_known_default_def MAX_GRAPH_CONTINUATION_BYTES_def NUL_def starts_with_def require_def)
  with pairs query have url: "message_page_url ?c default_query None
      = Inr (wb_pairs sample_web (sample_collection [''me'', ''messages'']) pairs)"
    by (simp add: message_page_url_def collection_segments_def)
  have ok: "api_url_ok sample_root (wb_pairs sample_web (sample_collection [''me'', ''messages'']) pairs)"
    "u_host (wb_pairs sample_web (sample_collection [''me'', ''messages'']) pairs) = Some ''graph.microsoft.com''"
    by (simp_all add: sample_web_def sample_collection_def sample_push_def sample_root_def
        api_url_ok_def port_or_known_default_def MAX_GRAPH_CONTINUATION_BYTES_def starts_with_def)
  have c: "gc_web ?c = logged sample_web" "gc_root ?c = sample_root" by (simp_all add: graph_client_on_def)
  from sample_logged_request [OF c ok, of "gc_messages ?c" HttpGet None "[]" "[]"] obtain r where r: "json_request ?c (gc_messages ?c) HttpGet
      (wb_pairs sample_web (sample_collection [''me'', ''messages'']) pairs) None [] ((), [])
    = (case gc_messages ?c [] of None \<Rightarrow> Inl GraphJson | Some x \<Rightarrow> Inr x, ((), [] @ [r]))"
    by (rule exE)
  have "list_message_page ?c default_query None ((), []) = (Inr ([], None), ((), [r]))"
    using r by (simp add: list_message_page_def url io_bind_def io_lift_def io_return_def require_def)
  then have "requests_of (graph_list_messages sample_listing default_query) None () = [r]"
    by (simp add: requests_of_def graph_list_messages_def sample_listing_def query graph_lift_def graph_call_def
        io_bind_def io_lift_def io_return_def)
  then show ?thesis by simp
qed

theorem graph_requests_confined_witness:
  "\<exists>r \<in> set (requests_of (graph_list_messages sample_listing default_query) None ()).
     u_scheme (hq_url r) = ''https'' \<and> u_host (hq_url r) = Some ''graph.microsoft.com''"
proof -
  have "gc_web (gp_client sample_listing) = logged sample_web" by (simp add: sample_listing_def)
  note confined = graph_requests_confined [OF this, of _ _ default_query]
  from sample_listing_requests obtain r where r: "r \<in> set (requests_of (graph_list_messages sample_listing default_query) None ())"
    by (elim exE)
  show ?thesis by (rule bexI [OF _ r]) (use confined r in blast)
qed

definition sample_graph_query :: mailbox_sync_query where
  "sample_graph_query = \<lparr>sq_account_id = ''account-1'', sq_mailbox_id = ''gf-'' @ base64_url_encode ''F'', sq_cursor = None,
     sq_limit = 50, sq_reconcile_message_ids = []\<rparr>"

lemma message_page_body:
  "list_message_page c q folder w = (Inr page, w') \<Longrightarrow> \<exists>body link. gc_messages c body = Some (fst page, link)"
  by (auto simp: list_message_page_def json_request_def decode_graph_json_def result_simps split: prod.splits if_splits)

lemma sample_serves_messages: "serves_folder (graph_client_on sample_web) ''F''"
  unfolding serves_folder_def
  by (auto dest!: message_page_body simp: sample_graph_message_def split: prod.split sum.split)

theorem graph_page_fits_store_witness:
  "\<exists>page s. graph_sync_mailbox (graph_provider_on sample_web) sample_graph_query \<lparr>gw_role_ids = None, gw_net = ()\<rparr> = (Inr page, s)
    \<and> validate_sync_page ''account-1'' (sq_mailbox_id sample_graph_query) page = Inr ()"
proof -
  let ?p = "graph_provider_on sample_web"
  have codec: "base64url (gp_encode ?p) (gp_decode ?p)"
    by (simp add: graph_provider_on_def sample_web_def gmail_codec.base64url_axioms)
  have ids: "validate_native_id ''F'' = Inr ()" "validate_native_id ''M'' = Inr ()" "valid_utf8 ''F''"
    by (simp_all add: validate_native_id_def require_def MAX_GRAPH_NATIVE_ID_BYTES_def) (code_simp+)
  have mailbox: "graph_folder_id (gp_encode ?p) ''F'' = Inr (sq_mailbox_id sample_graph_query)"
    using ids by (simp add: graph_folder_id_def encode_native_id_def graph_provider_on_def sample_web_def sample_graph_query_def
        gmail_codec.enc_length require_def MAX_GRAPH_EXPOSED_ID_BYTES_def del: base64_url_encode.simps)
  have server: "serves_folder (gp_client ?p) ''F''"
    using sample_serves_messages by (simp add: graph_provider_on_def)
  have folder: "graph_native_folder_id (gp_decode ?p) (sq_mailbox_id sample_graph_query) = Inr ''F''"
    using mailbox ids by (simp add: graph_id_defs base64url.decode_encode_native_id [OF codec])
  obtain ss where ss: "collect_r (map_summary (gp_encode ?p) (gp_account ?p)) [sample_graph_message] = Inr ss"
    using ids by (simp add: map_summary_def graph_id_defs encode_native_id_def sample_graph_message_def graph_provider_on_def
        sample_web_def gmail_codec.enc_length require_def MAX_GRAPH_EXPOSED_ID_BYTES_def normalized_message_id_def Let_def
        map_ok_def del: base64_url_encode.simps)
  have account: "sq_account_id sample_graph_query = a_id (gp_account ?p)"
    by (simp add: sample_graph_query_def graph_provider_on_def)
  have client: "gp_client ?p = graph_client_on sample_web" by (simp add: graph_provider_on_def)
  let ?page = "\<lparr>sp_messages = ss, sp_removed_message_ids = [], sp_cursor = None, sp_reset = False\<rparr>"
  have "graph_sync_mailbox ?p sample_graph_query \<lparr>gw_role_ids = None, gw_net = ()\<rparr>
      = (Inr ?page, \<lparr>gw_role_ids = None, gw_net = ()\<rparr>)"
    using folder ss account sample_message_page
    by (simp add: graph_sync_mailbox_def default_sync_mailbox_def graph_list_messages_def graph_lift_def graph_call_def
        io_bind_def io_lift_def io_return_def default_query_def client)
  from graph_page_fits_store [OF codec mailbox ids(3) server this] this show ?thesis
    by (intro exI conjI) (assumption, simp add: sample_graph_query_def)
qed

end
