(* ===== verification/Gmail_Values.thy ===== *)
theory Gmail_Values
  imports Web_Apis Imap_Provider
begin

section \<open>Values of the Gmail client\<close>

text \<open>
  The resources, errors, addresses and message parts of \<open>providers/gmail.rs\<close>, and what it uses of the standard library
  beyond the other providers: \<open>i64::from_str\<close> and \<open>String::from_utf8_lossy\<close>. A resource is what \<open>serde_json\<close> makes of a
  body; the readers are fields of the client.
\<close>

subsection \<open>Numbers with a sign and lossy text\<close>

definition parse_i64 :: "string \<Rightarrow> int option" where
  "parse_i64 s =
     (case s of
        c # r \<Rightarrow>
          if c = CHR ''-'' then
            (if r \<noteq> [] \<and> list_all is_ascii_digit r \<and> digits_val 0 r \<le> Suc i64_max then Some (- int (digits_val 0 r)) else None)
          else map_option int (parse_uint i64_max s)
      | [] \<Rightarrow> None)"

text \<open>The ranges of the bytes after a leading byte. An ill-formed sequence is replaced as a whole as far as it could have
  been the beginning of a well-formed one.\<close>

definition utf8_tail :: "nat \<Rightarrow> (nat \<times> nat) list option" where
  "utf8_tail x =
     (let more = (128, 191) in
      if x < 128 then Some []
      else if 194 \<le> x \<and> x \<le> 223 then Some [more]
      else if x = 224 then Some [(160, 191), more]
      else if x = 237 then Some [(128, 159), more]
      else if 225 \<le> x \<and> x \<le> 239 then Some [more, more]
      else if x = 240 then Some [(144, 191), more, more]
      else if x = 244 then Some [(128, 143), more, more]
      else if 241 \<le> x \<and> x \<le> 243 then Some [more, more, more]
      else None)"

fun matching :: "(nat \<times> nat) list \<Rightarrow> string \<Rightarrow> nat" where
  "matching ((lo, hi) # rs) (c # s) = (if lo \<le> byte_of c \<and> byte_of c \<le> hi then Suc (matching rs s) else 0)"
| "matching _ _ = 0"

definition REPLACEMENT :: string where
  "REPLACEMENT = map char_of [239, 191, 189 :: nat]"

function from_utf8_lossy :: "string \<Rightarrow> string" where
  "from_utf8_lossy [] = []"
| "from_utf8_lossy (c # s) =
     (case utf8_tail (byte_of c) of
        None \<Rightarrow> REPLACEMENT @ from_utf8_lossy s
      | Some ranges \<Rightarrow>
          (let n = matching ranges s in
           (if n = length ranges then c # take n s else REPLACEMENT) @ from_utf8_lossy (drop n s)))"
  by pat_completeness auto
termination by (relation "measure length") auto

declare from_utf8_lossy.simps(2) [simp del]

subsection \<open>Resources\<close>

datatype gmail_format = Minimal | Metadata | Full | Raw

fun as_api_value :: "gmail_format \<Rightarrow> string" where
  "as_api_value Minimal = ''minimal''"
| "as_api_value Metadata = ''metadata''"
| "as_api_value Full = ''full''"
| "as_api_value Raw = ''raw''"

record gmail_message_ref =
  gmr_id :: string
  gmr_thread_id :: string

record gmail_message_list =
  gml_messages :: "gmail_message_ref list"
  gml_next_page_token :: "string option"
  gml_result_size_estimate :: "nat option"

record gmail_header =
  gmh_name :: string
  gmh_value :: string

record gmail_part_body =
  gmb_attachment_id :: "string option"
  gmb_size :: "nat option"
  gmb_data :: "string option"

datatype gmail_part =
  GmailPart (gmp_part_id: "string option") (gmp_mime_type: "string option") (gmp_filename: "string option")
    (gmp_headers: "gmail_header list") (gmp_body: "gmail_part_body option") (gmp_parts: "gmail_part list")

record gmail_message =
  gmm_id :: string
  gmm_thread_id :: string
  gmm_label_ids :: "string list"
  gmm_snippet :: "string option"
  gmm_history_id :: "string option"
  gmm_internal_date :: "string option"
  gmm_payload :: "gmail_part option"
  gmm_raw :: "string option"
  gmm_size_estimate :: "nat option"

record gmail_label =
  gll_id :: string
  gll_name :: string
  gll_label_list_visibility :: "string option"
  gll_messages_total :: "nat option"
  gll_messages_unread :: "nat option"

record gmail_history_label_change =
  ghc_message :: gmail_message
  ghc_label_ids :: "string list"

text \<open>\<open>GmailHistoryMessage\<close> has the message as its only field.\<close>

record gmail_history_record =
  ghr_id :: string
  ghr_messages_added :: "gmail_message list"
  ghr_messages_deleted :: "gmail_message list"
  ghr_labels_added :: "gmail_history_label_change list"
  ghr_labels_removed :: "gmail_history_label_change list"

record gmail_history_page =
  ghp_history :: "gmail_history_record list"
  ghp_next_page_token :: "string option"
  ghp_history_id :: "string option"

datatype history_sync = HistoryChanges "gmail_history_record list" string | FullSyncRequired

subsection \<open>Errors\<close>

datatype gmail_error =
    GmailToken token_error
  | GmailTransport
  | GmailApi nat string
  | GmailJson
  | GmailInvalidResourceId
  | GmailRepeatedPageToken
  | GmailInvalidConcurrency
  | GmailTaskCancelled
  | GmailUrl
  | GmailInvalidBase64

fun gmail_error_text :: "gmail_error \<Rightarrow> string" where
  "gmail_error_text (GmailToken e) = token_error_text e"
| "gmail_error_text GmailTransport = ''HTTP transport failed''"
| "gmail_error_text (GmailApi status reason) = ''Gmail API returned HTTP '' @ show_nat status @ '': '' @ reason"
| "gmail_error_text GmailJson = ''Gmail returned malformed JSON''"
| "gmail_error_text GmailInvalidResourceId = ''invalid Gmail resource ID''"
| "gmail_error_text GmailRepeatedPageToken = ''Gmail repeated a pagination token''"
| "gmail_error_text GmailInvalidConcurrency = ''detail fetch concurrency must be greater than zero''"
| "gmail_error_text GmailTaskCancelled = ''a detail fetch task was cancelled''"
| "gmail_error_text GmailUrl = ''invalid Gmail URL''"
| "gmail_error_text GmailInvalidBase64 = ''Gmail body contains invalid base64url data''"

fun gmail_provider_error :: "gmail_error \<Rightarrow> provider_error" where
  "gmail_provider_error (GmailToken e) = Authentication (token_error_text e)"
| "gmail_provider_error (GmailApi status reason) =
     (if status = 404 then ProviderNotFound
      else if status = 429 \<or> 500 \<le> status then Temporary reason
      else ProviderOther (gmail_error_text (GmailApi status reason)))"
| "gmail_provider_error other = ProviderOther (gmail_error_text other)"

definition validate_resource_id :: "string \<Rightarrow> gmail_error + unit" where
  "validate_resource_id i =
     require (i \<noteq> [] \<and> list_all (\<lambda>c. is_ascii_alphanumeric c \<or> c = CHR ''-'' \<or> c = CHR ''_'') i) GmailInvalidResourceId"

definition validate_attachment_size :: "nat \<Rightarrow> provider_error + unit" where
  "validate_attachment_size n = (if MAX_MAIL_ATTACHMENT_BYTES < n then Inl (ResourceTooLarge ''attachment'') else Inr ())"

definition gmail_base64_decode :: "string \<Rightarrow> gmail_error + string" where
  "gmail_base64_decode s = ok_or (base64_url_decode s) GmailInvalidBase64"

text \<open>What \<open>Debug\<close> of a request shows of its headers.\<close>

definition shown_headers :: "web_request \<Rightarrow> (string \<times> string) list" where
  "shown_headers r =
     map (\<lambda>(name, value). if eq_ignore_ascii_case name ''authorization'' then (name, ''[REDACTED]'') else (name, value)) (hq_headers r)"

subsection \<open>Identifiers, headers and addresses\<close>

definition gmail_native_id :: "string \<Rightarrow> string \<Rightarrow> provider_error + string" where
  "gmail_native_id account_id i =
     ok_or (case strip_prefix i account_id of
         None \<Rightarrow> None
       | Some suffix \<Rightarrow>
           (case strip_prefix suffix [COLON] of
              None \<Rightarrow> None
            | Some native \<Rightarrow> if native \<noteq> [] \<and> COLON \<notin> set native then Some native else None)) ProviderNotFound"

definition gmail_header_value :: "gmail_header list \<Rightarrow> string \<Rightarrow> string option" where
  "gmail_header_value headers name =
     map_option gmh_value (List.find (\<lambda>h. eq_ignore_ascii_case (gmh_name h) name) headers)"

definition parse_address :: "string \<Rightarrow> address option" where
  "parse_address value =
     (let value = trim value in
      case rsplit_once value CHR ''<'' of
        Some (name, addr) \<Rightarrow>
          Some \<lparr>ad_name = trim_matches (\<lambda>c. c = DQUOTE) (trim name),
                ad_address = trim (trim_end_matches (\<lambda>c. c = CHR ''>'') addr)\<rparr>
      | None \<Rightarrow> if CHR ''@'' \<in> set value then Some \<lparr>ad_name = [], ad_address = value\<rparr> else None)"

definition parse_addresses :: "string \<Rightarrow> address list" where
  "parse_addresses value = List.map_filter parse_address (split_on CHR '','' value)"

definition gmail_label_role :: "string \<Rightarrow> mailbox_role option" where
  "gmail_label_role i =
     (if i = ''INBOX'' then Some Inbox
      else if i = ''DRAFT'' then Some Drafts
      else if i = ''SENT'' then Some Sent
      else if i = ''TRASH'' then Some TrashRole
      else if i = ''SPAM'' then Some Spam
      else if i = ''ALL'' then Some ArchiveRole
      else None)"

subsection \<open>Parts of a message\<close>

definition named_part :: "gmail_part \<Rightarrow> bool" where
  "named_part p \<longleftrightarrow> (case gmp_filename p of None \<Rightarrow> False | Some name \<Rightarrow> name \<noteq> [])"

definition remote_attachment_id :: "gmail_part \<Rightarrow> string option" where
  "remote_attachment_id p = Option.bind (gmp_body p) gmb_attachment_id"

record gmail_bodies =
  gbo_text :: "string option"
  gbo_html :: "string option"
  gbo_attachments :: "attachment list"

definition attachment_of_part :: "gmail_part \<Rightarrow> attachment" where
  "attachment_of_part p =
     \<lparr>at_id = (case remote_attachment_id p of
          Some i \<Rightarrow> i | None \<Rightarrow> ''inline:'' @ (case gmp_part_id p of None \<Rightarrow> ''0'' | Some i \<Rightarrow> i)),
      at_filename = sanitize_filename (gmp_filename p),
      at_content_type = (case gmp_mime_type p of None \<Rightarrow> ''application/octet-stream'' | Some t \<Rightarrow> t),
      at_size = (case Option.bind (gmp_body p) gmb_size of None \<Rightarrow> 0 | Some n \<Rightarrow> n),
      at_inline = (case gmail_header_value (gmp_headers p) ''Content-Disposition'' of
          None \<Rightarrow> False | Some value \<Rightarrow> starts_with (to_ascii_lowercase value) ''inline''),
      at_content_id = gmail_header_value (gmp_headers p) ''Content-ID''\<rparr>"

definition collect_part :: "gmail_part \<Rightarrow> gmail_bodies \<Rightarrow> gmail_bodies" where
  "collect_part p b =
     (let mime_type = (case gmp_mime_type p of None \<Rightarrow> ''application/octet-stream'' | Some t \<Rightarrow> t) in
      if named_part p \<or> remote_attachment_id p \<noteq> None then b\<lparr>gbo_attachments := gbo_attachments b @ [attachment_of_part p]\<rparr>
      else
        (case Option.bind (Option.bind (gmp_body p) gmb_data) base64_url_decode of
           None \<Rightarrow> b
         | Some decoded \<Rightarrow>
             if eq_ignore_ascii_case mime_type ''text/plain'' \<and> gbo_text b = None
             then b\<lparr>gbo_text := Some (from_utf8_lossy decoded)\<rparr>
             else if eq_ignore_ascii_case mime_type ''text/html'' \<and> gbo_html b = None
             then b\<lparr>gbo_html := Some (from_utf8_lossy decoded)\<rparr>
             else b))"

fun collect_gmail_parts :: "gmail_part \<Rightarrow> gmail_bodies \<Rightarrow> gmail_bodies"
  and collect_children :: "gmail_part list \<Rightarrow> gmail_bodies \<Rightarrow> gmail_bodies" where
  "collect_gmail_parts (GmailPart i t n hs body parts) b =
     collect_children parts (collect_part (GmailPart i t n hs body parts) b)"
| "collect_children [] b = b"
| "collect_children (p # ps) b = collect_children ps (collect_gmail_parts p b)"

definition part_matches :: "string \<Rightarrow> gmail_part \<Rightarrow> bool" where
  "part_matches attachment_id p \<longleftrightarrow> remote_attachment_id p = Some attachment_id
     \<or> (starts_with attachment_id ''inline:'' \<and> gmp_part_id p = strip_prefix attachment_id ''inline:'')"

fun find_attachment_part :: "string \<Rightarrow> gmail_part \<Rightarrow> gmail_part option"
  and find_among_parts :: "string \<Rightarrow> gmail_part list \<Rightarrow> gmail_part option" where
  "find_attachment_part attachment_id (GmailPart i t n hs body parts) =
     (if part_matches attachment_id (GmailPart i t n hs body parts) then Some (GmailPart i t n hs body parts)
      else find_among_parts attachment_id parts)"
| "find_among_parts attachment_id [] = None"
| "find_among_parts attachment_id (p # ps) =
     (case find_attachment_part attachment_id p of Some q \<Rightarrow> Some q | None \<Rightarrow> find_among_parts attachment_id ps)"

fun part_has_attachment :: "gmail_part \<Rightarrow> bool" where
  "part_has_attachment (GmailPart i t n hs body parts) \<longleftrightarrow>
     named_part (GmailPart i t n hs body parts) \<or> remote_attachment_id (GmailPart i t n hs body parts) \<noteq> None
     \<or> list_ex part_has_attachment parts"

end
