(* ===== verification/Gmail_Client.thy ===== *)
theory Gmail_Client
  imports Gmail_Values
begin

section \<open>The client of Gmail\<close>

text \<open>
  \<open>ReqwestHttpTransport\<close> and \<open>GmailRestClient\<close> of \<open>providers/gmail.rs\<close>, one definition per method. \<open>gl_join\<close> is \<open>Url::join\<close>;
  \<open>gl_list\<close> to \<open>gl_error\<close> are what \<open>serde_json\<close> makes of the bodies of answers. The tasks of \<open>get_messages_bounded\<close> run in
  an order that \<open>gl_order\<close> gives; what the requests of two tasks do to each other is left to the server.
  The two loops over pages have no bound in the code: they are partial functions, \<open>None\<close> for a run that does not end.
\<close>

record 'w gmail_client =
  gl_web :: "'w web"
  gl_root :: url
  gl_join :: "url \<Rightarrow> string \<Rightarrow> url option"
  gl_order :: "nat \<Rightarrow> nat list"
  gl_list :: "string \<Rightarrow> gmail_message_list option"
  gl_message :: "string \<Rightarrow> gmail_message option"
  gl_part_body :: "string \<Rightarrow> gmail_part_body option"
  gl_labels :: "string \<Rightarrow> gmail_label list option"
  gl_history :: "string \<Rightarrow> gmail_history_page option"
  gl_error :: "string \<Rightarrow> string option option"

definition DEFAULT_API_ROOT :: string where
  "DEFAULT_API_ROOT = ''https://gmail.googleapis.com/gmail/v1/''"

subsection \<open>Requests\<close>

definition gmail_transport :: "'w web \<Rightarrow> web_request \<Rightarrow> ('w, gmail_error, web_answer) io" where
  "gmail_transport web r =
     (if u_scheme (hq_url r) \<noteq> ''https'' then io_error GmailTransport
      else
        io_bind (io_map_err (\<lambda>_. GmailTransport) (wb_send web r)) (\<lambda>wire.
        io_bind (io_lift (bounded_body MAX_MAIL_MESSAGE_BYTES GmailTransport GmailTransport wire)) (\<lambda>body.
        io_return \<lparr>wa_status = wr_status wire, wa_body = body\<rparr>)))"

definition gmail_execute ::
    "'w gmail_client \<Rightarrow> http_method \<Rightarrow> string \<Rightarrow> (string \<times> string) list \<Rightarrow> string option \<Rightarrow> bool \<Rightarrow> ('w, gmail_error, web_answer) io" where
  "gmail_execute c method path query body force_refresh =
     io_bind (io_map_err GmailToken (wb_token (gl_web c) force_refresh)) (\<lambda>token.
     io_bind (io_lift (ok_or (gl_join c (gl_root c) path) GmailUrl)) (\<lambda>u.
     gmail_transport (gl_web c) \<lparr>hq_method = method, hq_url = wb_pairs (gl_web c) u query,
       hq_headers = (''Authorization'', ''Bearer '' @ token)
         # (if body = None then [] else [(''Content-Type'', ''application/json'')]),
       hq_body = body\<rparr>))"

definition gmail_request ::
    "'w gmail_client \<Rightarrow> http_method \<Rightarrow> string \<Rightarrow> (string \<times> string) list \<Rightarrow> string option \<Rightarrow> ('w, gmail_error, web_answer) io" where
  "gmail_request c method path query body =
     io_bind (gmail_execute c method path query body False) (\<lambda>first.
     if wa_status first = 401 then gmail_execute c method path query body True else io_return first)"

definition decode_success :: "'w gmail_client \<Rightarrow> (string \<Rightarrow> 'a option) \<Rightarrow> web_answer \<Rightarrow> gmail_error + 'a" where
  "decode_success c reader answer =
     (if \<not> (200 \<le> wa_status answer \<and> wa_status answer < 300)
      then Inl (GmailApi (wa_status answer)
        (case Option.bind (gl_error c (wa_body answer)) id of
           None \<Rightarrow> ''Gmail rejected the request'' | Some reason \<Rightarrow> reason))
      else ok_or (reader (wa_body answer)) GmailJson)"

definition gmail_json ::
    "'w gmail_client \<Rightarrow> (string \<Rightarrow> 'a option) \<Rightarrow> http_method \<Rightarrow> string \<Rightarrow> (string \<times> string) list \<Rightarrow> string option \<Rightarrow> ('w, gmail_error, 'a) io" where
  "gmail_json c reader method path query body =
     io_bind (gmail_request c method path query body) (\<lambda>answer. io_lift (decode_success c reader answer))"

subsection \<open>Messages\<close>

definition gmail_page_pairs :: "string option \<Rightarrow> string list \<Rightarrow> string option \<Rightarrow> nat \<Rightarrow> (string \<times> string) list" where
  "gmail_page_pairs query label_ids page_token max_results =
     [(''maxResults'', show_nat (max 1 (min 500 max_results)))]
     @ (case query of None \<Rightarrow> [] | Some q \<Rightarrow> if trim q \<noteq> [] then [(''q'', q)] else [])
     @ (case page_token of None \<Rightarrow> [] | Some t \<Rightarrow> [(''pageToken'', t)])
     @ map (\<lambda>l. (''labelIds'', l)) label_ids"

definition gmail_message_page ::
    "'w gmail_client \<Rightarrow> string option \<Rightarrow> string list \<Rightarrow> string option \<Rightarrow> nat \<Rightarrow> ('w, gmail_error, gmail_message_list) io" where
  "gmail_message_page c query label_ids page_token max_results =
     gmail_json c (gl_list c) HttpGet ''users/me/messages'' (gmail_page_pairs query label_ids page_token max_results) None"

partial_function (option) message_id_loop ::
    "'w gmail_client \<Rightarrow> string option \<Rightarrow> string list \<Rightarrow> string option \<Rightarrow> gmail_message_ref list \<Rightarrow> 'w
      \<Rightarrow> ((gmail_error + gmail_message_ref list) \<times> 'w) option" where
  "message_id_loop c query label_ids page_token messages w =
     (case gmail_message_page c query label_ids page_token 500 w of
        (Inl e, w) \<Rightarrow> Some (Inl e, w)
      | (Inr page, w) \<Rightarrow>
          (case gml_next_page_token page of
             None \<Rightarrow> Some (Inr (messages @ gml_messages page), w)
           | Some t \<Rightarrow>
               if Some t = page_token then Some (Inl GmailRepeatedPageToken, w)
               else message_id_loop c query label_ids (Some t) (messages @ gml_messages page) w))"

definition list_all_message_ids ::
    "'w gmail_client \<Rightarrow> string option \<Rightarrow> string list \<Rightarrow> 'w \<Rightarrow> ((gmail_error + gmail_message_ref list) \<times> 'w) option" where
  "list_all_message_ids c query label_ids = message_id_loop c query label_ids None []"

definition message_path :: "string \<Rightarrow> string" where
  "message_path i = ''users/me/messages/'' @ i"

definition gmail_get_message :: "'w gmail_client \<Rightarrow> string \<Rightarrow> gmail_format \<Rightarrow> ('w, gmail_error, gmail_message) io" where
  "gmail_get_message c i format =
     io_bind (io_lift (validate_resource_id i)) (\<lambda>_.
     gmail_json c (gl_message c) HttpGet (message_path i) [(''format'', as_api_value format)] None)"

definition get_attachment_bytes :: "'w gmail_client \<Rightarrow> string \<Rightarrow> string \<Rightarrow> ('w, gmail_error, string) io" where
  "get_attachment_bytes c i attachment_id =
     io_bind (io_lift (validate_resource_id i)) (\<lambda>_.
     io_bind (io_lift (validate_resource_id attachment_id)) (\<lambda>_.
     io_bind (gmail_json c (gl_part_body c) HttpGet (message_path i @ ''/attachments/'' @ attachment_id) [] None) (\<lambda>body.
     io_bind (io_lift (ok_or (gmb_data body) GmailInvalidBase64)) (\<lambda>data.
     io_lift (gmail_base64_decode data)))))"

definition list_labels :: "'w gmail_client \<Rightarrow> ('w, gmail_error, gmail_label list) io" where
  "list_labels c = gmail_json c (gl_labels c) HttpGet ''users/me/labels'' [] None"

text \<open>One task for each message. A failure ends the call; otherwise the results are put into the order of the
  identifiers.\<close>

definition get_messages_bounded ::
    "'w gmail_client \<Rightarrow> string list \<Rightarrow> gmail_format \<Rightarrow> nat \<Rightarrow> ('w, gmail_error, gmail_message list) io" where
  "get_messages_bounded c ids format concurrency =
     (if concurrency = 0 then io_error GmailInvalidConcurrency
      else
        io_bind (io_collect (\<lambda>index.
          io_bind (gmail_get_message c (ids ! index) format) (\<lambda>m. io_return (index, m))) (gl_order c (length ids))) (\<lambda>messages.
        io_return (map snd (sort_key fst messages))))"

subsection \<open>History\<close>

definition history_pairs :: "string \<Rightarrow> string option \<Rightarrow> (string \<times> string) list" where
  "history_pairs start page_token =
     (''startHistoryId'', start) # (case page_token of None \<Rightarrow> [] | Some t \<Rightarrow> [(''pageToken'', t)])"

partial_function (option) history_loop ::
    "'w gmail_client \<Rightarrow> string \<Rightarrow> string option \<Rightarrow> gmail_history_record list \<Rightarrow> string \<Rightarrow> 'w
      \<Rightarrow> ((gmail_error + history_sync) \<times> 'w) option" where
  "history_loop c start page_token records newest w =
     (case gmail_request c HttpGet ''users/me/history'' (history_pairs start page_token) None w of
        (Inl e, w) \<Rightarrow> Some (Inl e, w)
      | (Inr answer, w) \<Rightarrow>
          if wa_status answer = 404 then Some (Inr FullSyncRequired, w)
          else
            (case decode_success c (gl_history c) answer of
               Inl e \<Rightarrow> Some (Inl e, w)
             | Inr page \<Rightarrow>
                 (case ghp_next_page_token page of
                    None \<Rightarrow> Some (Inr (HistoryChanges (records @ ghp_history page)
                      (case ghp_history_id page of None \<Rightarrow> newest | Some i \<Rightarrow> i)), w)
                  | Some t \<Rightarrow>
                      if Some t = page_token then Some (Inl GmailRepeatedPageToken, w)
                      else history_loop c start (Some t) (records @ ghp_history page)
                        (case ghp_history_id page of None \<Rightarrow> newest | Some i \<Rightarrow> i) w)))"

definition history_since :: "'w gmail_client \<Rightarrow> string \<Rightarrow> 'w \<Rightarrow> ((gmail_error + history_sync) \<times> 'w) option" where
  "history_since c start w =
     (if start = [] \<or> \<not> list_all is_ascii_digit start then Some (Inl GmailInvalidResourceId, w)
      else history_loop c start None [] start w)"

subsection \<open>Changes\<close>

definition modify_labels :: "'w gmail_client \<Rightarrow> string \<Rightarrow> string list \<Rightarrow> string list \<Rightarrow> ('w, gmail_error, gmail_message) io" where
  "modify_labels c i add remove =
     io_bind (io_lift (validate_resource_id i)) (\<lambda>_.
     gmail_json c (gl_message c) HttpPost (message_path i @ ''/modify'') []
       (Some (wb_json (gl_web c) (JObj [(''addLabelIds'', json_strs add), (''removeLabelIds'', json_strs remove)]))))"

definition gmail_set_read :: "'w gmail_client \<Rightarrow> string \<Rightarrow> bool \<Rightarrow> ('w, gmail_error, gmail_message) io" where
  "gmail_set_read c i read = (if read then modify_labels c i [] [''UNREAD''] else modify_labels c i [''UNREAD''] [])"

definition gmail_archive :: "'w gmail_client \<Rightarrow> string \<Rightarrow> ('w, gmail_error, gmail_message) io" where
  "gmail_archive c i = modify_labels c i [] [''INBOX'']"

definition gmail_trash :: "'w gmail_client \<Rightarrow> string \<Rightarrow> ('w, gmail_error, gmail_message) io" where
  "gmail_trash c i =
     io_bind (io_lift (validate_resource_id i)) (\<lambda>_.
     gmail_json c (gl_message c) HttpPost (message_path i @ ''/trash'') [] (Some ''{}''))"

definition send_raw :: "'w gmail_client \<Rightarrow> string \<Rightarrow> ('w, gmail_error, gmail_message) io" where
  "send_raw c rfc822 =
     gmail_json c (gl_message c) HttpPost ''users/me/messages/send'' []
       (Some (wb_json (gl_web c) (JObj [(''raw'', JStr (base64_url_encode rfc822))])))"

end
