(* ===== verification/Gmail_Provider.thy ===== *)
theory Gmail_Provider
  imports Gmail_Client
begin

section \<open>The provider of Gmail\<close>

text \<open>
  \<open>GmailProvider\<close> of \<open>providers/gmail.rs\<close>, one definition per method of the trait \<open>MailProvider\<close>. The codec of messages, the
  clock and \<open>DateTime::from_timestamp_millis\<close> are fields. \<open>kind\<close> and \<open>capabilities\<close> are constants and are left out. The
  factory makes no such provider at this commit.
\<close>

record 'w gmail_provider =
  gp_gmail_account :: account
  gp_rest :: "'w gmail_client"
  gp_build_reply :: "address \<Rightarrow> outgoing_message \<Rightarrow> string option \<Rightarrow> string list \<Rightarrow> mime_error + string"
  gp_detail_concurrency :: nat
  gp_from_millis :: "int \<Rightarrow> int option"
  gp_now :: int

definition new_gmail_provider :: "'w gmail_provider \<Rightarrow> gmail_error + 'w gmail_provider" where
  "new_gmail_provider p = bind_r (require (gp_detail_concurrency p \<noteq> 0) GmailInvalidConcurrency) (\<lambda>_. Inr p)"

abbreviation gp_account_id :: "'w gmail_provider \<Rightarrow> string" where
  "gp_account_id p \<equiv> a_id (gp_gmail_account p)"

definition rest_call :: "('w, gmail_error, 'a) io \<Rightarrow> ('w, provider_error, 'a) io" where
  "rest_call m = io_map_err gmail_provider_error m"

subsection \<open>Summaries\<close>

definition payload_headers :: "gmail_message \<Rightarrow> gmail_header list" where
  "payload_headers m = (case gmm_payload m of None \<Rightarrow> [] | Some p \<Rightarrow> gmp_headers p)"

definition message_ids_of :: "string option \<Rightarrow> string list" where
  "message_ids_of value = (case value of None \<Rightarrow> [] | Some v \<Rightarrow> parse_message_ids v)"

definition gmail_summary :: "'w gmail_provider \<Rightarrow> gmail_message \<Rightarrow> message_summary" where
  "gmail_summary p m =
     (let header = gmail_header_value (payload_headers m) in
      \<lparr>ms_id = normalized_message_id (gp_account_id p) (gmm_id m), ms_account_id = gp_account_id p,
       ms_mailbox_id = List.find (\<lambda>l. l = ''INBOX'') (gmm_label_ids m),
       ms_thread_id = Some (normalized_message_id (gp_account_id p) (''thread:'' @ gmm_thread_id m)),
       ms_subject = (case header ''Subject'' of None \<Rightarrow> [] | Some s \<Rightarrow> s),
       ms_author = Option.bind (header ''From'') parse_address,
       ms_timestamp = (case Option.bind (Option.bind (gmm_internal_date m) parse_i64) (gp_from_millis p) of
           None \<Rightarrow> gp_now p | Some t \<Rightarrow> t),
       ms_read = (''UNREAD'' \<notin> set (gmm_label_ids m)), ms_starred = (''STARRED'' \<in> set (gmm_label_ids m)),
       ms_snippet = (case gmm_snippet m of None \<Rightarrow> [] | Some s \<Rightarrow> s),
       ms_has_attachments = (case gmm_payload m of None \<Rightarrow> False | Some part \<Rightarrow> part_has_attachment part),
       ms_labels = gmm_label_ids m,
       ms_provider_data = JObj [(''historyId'', json_opt_str (gmm_history_id m)),
         (''inReplyTo'', json_strs (message_ids_of (header ''In-Reply-To''))),
         (''messageId'', json_opt_str (header ''Message-ID'')),
         (''nativeId'', JStr (gmm_id m)),
         (''references'', json_strs (message_ids_of (header ''References''))),
         (''sizeEstimate'', case gmm_size_estimate m of None \<Rightarrow> JNull | Some n \<Rightarrow> JNum (int n))]\<rparr>)"

subsection \<open>Reading\<close>

definition gmail_list_mailboxes :: "'w gmail_provider \<Rightarrow> ('w, provider_error, mailbox list) io" where
  "gmail_list_mailboxes p =
     io_bind (rest_call (list_labels (gp_rest p))) (\<lambda>labels.
     io_return (map (\<lambda>l. \<lparr>mb_id = gll_id l, mb_account_id = gp_account_id p, mb_name = gll_name l,
         mb_role = gmail_label_role (gll_id l),
         mb_unread = (case gll_messages_unread l of None \<Rightarrow> 0 | Some n \<Rightarrow> n),
         mb_total = (case gll_messages_total l of None \<Rightarrow> 0 | Some n \<Rightarrow> n)\<rparr>)
       (filter (\<lambda>l. gll_label_list_visibility l \<noteq> Some ''labelHide'') labels)))"

definition gmail_search :: "message_query \<Rightarrow> string option" where
  "gmail_search q =
     (if q_unread_only q
      then Some (trim (''is:unread '' @ (case q_search q of None \<Rightarrow> [] | Some existing \<Rightarrow> existing)))
      else q_search q)"

definition gmail_list_messages :: "'w gmail_provider \<Rightarrow> message_query \<Rightarrow> ('w, provider_error, message_page) io" where
  "gmail_list_messages p q =
     io_bind (rest_call (gmail_message_page (gp_rest p) (gmail_search q)
       (case q_mailbox_id q of None \<Rightarrow> [] | Some mailbox_id \<Rightarrow> [mailbox_id]) (q_cursor q) (q_limit q))) (\<lambda>page.
     io_bind (rest_call (get_messages_bounded (gp_rest p) (map gmr_id (gml_messages page)) Metadata (gp_detail_concurrency p))) (\<lambda>details.
     io_return \<lparr>p_messages = map (gmail_summary p) details, p_next_cursor = gml_next_page_token page\<rparr>))"

definition addresses_of :: "string option \<Rightarrow> address list" where
  "addresses_of value = (case value of None \<Rightarrow> [] | Some v \<Rightarrow> parse_addresses v)"

definition bodies_of :: "gmail_message \<Rightarrow> gmail_bodies" where
  "bodies_of m =
     (let b = \<lparr>gbo_text = None, gbo_html = None, gbo_attachments = []\<rparr> in
      case gmm_payload m of None \<Rightarrow> b | Some part \<Rightarrow> collect_gmail_parts part b)"

definition gp_get_message :: "'w gmail_provider \<Rightarrow> string \<Rightarrow> ('w, provider_error, message) io" where
  "gp_get_message p i =
     io_bind (io_lift (gmail_native_id (gp_account_id p) i)) (\<lambda>native_id.
     io_bind (rest_call (gmail_get_message (gp_rest p) native_id Full)) (\<lambda>wire.
     let b = bodies_of wire; header = gmail_header_value (payload_headers wire) in
     io_return \<lparr>m_summary = gmail_summary p wire, m_to = addresses_of (header ''To''), m_cc = addresses_of (header ''Cc''),
       m_bcc = addresses_of (header ''Bcc''), m_body_text = gbo_text b, m_body_html = gbo_html b,
       m_attachments = gbo_attachments b\<rparr>))"

subsection \<open>Actions\<close>

definition each_native ::
    "'w gmail_provider \<Rightarrow> (string \<Rightarrow> ('w, gmail_error, gmail_message) io) \<Rightarrow> string list \<Rightarrow> ('w, provider_error, unit) io" where
  "each_native p change ids =
     io_each (\<lambda>i. io_bind (io_lift (gmail_native_id (gp_account_id p) i)) (\<lambda>native.
       io_bind (rest_call (change native)) (\<lambda>_. io_return ()))) ids"

definition labels_to_remove :: "string list \<Rightarrow> string list \<Rightarrow> string list" where
  "labels_to_remove current labels = filter (\<lambda>l. l \<notin> set labels) current"

definition labels_to_add :: "string list \<Rightarrow> string list \<Rightarrow> string list" where
  "labels_to_add current labels = filter (\<lambda>l. l \<notin> set current) labels"

definition change_labels :: "'w gmail_client \<Rightarrow> string list \<Rightarrow> string \<Rightarrow> ('w, gmail_error, gmail_message) io" where
  "change_labels c labels native =
     io_bind (gmail_get_message c native Minimal) (\<lambda>current.
     modify_labels c native (labels_to_add (gmm_label_ids current) labels) (labels_to_remove (gmm_label_ids current) labels))"

fun gp_apply_action :: "'w gmail_provider \<Rightarrow> mail_action \<Rightarrow> ('w, provider_error, unit) io" where
  "gp_apply_action p (MarkRead ids read) = each_native p (\<lambda>i. gmail_set_read (gp_rest p) i read) ids"
| "gp_apply_action p (Star ids starred) =
     each_native p (\<lambda>i. modify_labels (gp_rest p) i (if starred then [''STARRED''] else []) (if starred then [] else [''STARRED''])) ids"
| "gp_apply_action p (Archive ids) = each_native p (gmail_archive (gp_rest p)) ids"
| "gp_apply_action p (Trash ids) = each_native p (gmail_trash (gp_rest p)) ids"
| "gp_apply_action p (Move ids mailbox_id) = each_native p (\<lambda>i. modify_labels (gp_rest p) i [mailbox_id] [''INBOX'']) ids"
| "gp_apply_action p (SetLabels ids labels) = each_native p (change_labels (gp_rest p) labels) ids"

subsection \<open>Sending and attachments\<close>

definition gp_send :: "'w gmail_provider \<Rightarrow> outgoing_message \<Rightarrow> ('w, provider_error, string) io" where
  "gp_send p m =
     (if o_account_id m \<noteq> gp_account_id p then io_error (ProviderOther ''outgoing message belongs to another account'')
      else
        io_bind (case o_in_reply_to m of
            Some parent_id \<Rightarrow>
              io_bind (gp_get_message p parent_id) (\<lambda>parent.
              let provider_data = ms_provider_data (m_summary parent) in
              io_bind (io_lift (ok_or (Option.bind (json_get ''messageId'' provider_data) json_as_str)
                (ProviderOther ''reply target has no RFC Message-ID''))) (\<lambda>message_id.
              io_return (Some message_id, reply_reference_chain provider_data)))
          | None \<Rightarrow> io_return (None, [])) (\<lambda>(reply_message_id, reply_references).
        io_bind (io_lift (map_err mime_provider_error (gp_build_reply p
          \<lparr>ad_name = a_display_name (gp_gmail_account p), ad_address = a_address (gp_gmail_account p)\<rparr> m
          reply_message_id reply_references))) (\<lambda>raw.
        io_bind (rest_call (send_raw (gp_rest p) raw)) (\<lambda>sent.
        io_return (normalized_message_id (gp_account_id p) (gmm_id sent))))))"

definition gp_get_attachment :: "'w gmail_provider \<Rightarrow> string \<Rightarrow> string \<Rightarrow> ('w, provider_error, attachment_data) io" where
  "gp_get_attachment p message_id attachment_id =
     io_bind (io_lift (gmail_native_id (gp_account_id p) message_id)) (\<lambda>native_id.
     io_bind (rest_call (gmail_get_message (gp_rest p) native_id Full)) (\<lambda>wire.
     io_bind (io_lift (ok_or (Option.bind (gmm_payload wire) (find_attachment_part attachment_id)) ProviderNotFound)) (\<lambda>part.
     io_bind (io_lift (ok_or (gmp_body part) ProviderNotFound)) (\<lambda>body.
     io_bind (case gmb_data body of
         Some data \<Rightarrow> rest_call (io_lift (gmail_base64_decode data))
       | None \<Rightarrow>
           (case gmb_attachment_id body of
              Some remote_id \<Rightarrow> rest_call (get_attachment_bytes (gp_rest p) native_id remote_id)
            | None \<Rightarrow> io_error ProviderNotFound)) (\<lambda>bytes.
     io_bind (io_lift (validate_attachment_size (length bytes))) (\<lambda>_.
     io_return \<lparr>ad_filename = sanitize_filename (gmp_filename part),
       ad_content_type = (case gmp_mime_type part of None \<Rightarrow> ''application/octet-stream'' | Some t \<Rightarrow> t),
       ad_bytes = bytes\<rparr>))))))"

end
