(* ===== verification/Gmail_Messages.thy ===== *)
theory Gmail_Messages
  imports Gmail_Facts
begin

section \<open>Messages, attachments and pages of Gmail\<close>

text \<open>
  When the loop over all pages of identifiers ends, that a listed attachment is the one that is fetched, what setting labels
  asks for, the order of fetched details, and that decoded text is valid. At the end a server on which the facts are run.
\<close>

subsection \<open>The loop over all pages\<close>

text \<open>A server whose pages do not change while they are read: it answers a request without a token and one with a token that
  a page names.\<close>

definition issued :: "(string option \<Rightarrow> gmail_message_list) \<Rightarrow> string option \<Rightarrow> bool" where
  "issued page t \<longleftrightarrow> (case t of None \<Rightarrow> True | Some u \<Rightarrow> \<exists>s. gml_next_page_token (page s) = Some u)"

definition serves_pages ::
    "'w gmail_client \<Rightarrow> string option \<Rightarrow> string list \<Rightarrow> (string option \<Rightarrow> gmail_message_list) \<Rightarrow> bool" where
  "serves_pages c query label_ids page \<longleftrightarrow>
     (\<forall>t w. issued page t \<longrightarrow> (\<exists>w'. gmail_message_page c query label_ids t 500 w = (Inr (page t), w')))"

lemma issued_None [simp]: "issued page None"
  by (simp add: issued_def)

lemma issued_next: "gml_next_page_token (page t) = Some u \<Longrightarrow> issued page (Some u)"
  by (auto simp: issued_def)

inductive pages_from :: "(string option \<Rightarrow> gmail_message_list) \<Rightarrow> string option \<Rightarrow> gmail_message_ref list \<Rightarrow> bool"
  for page :: "string option \<Rightarrow> gmail_message_list" where
  Last: "gml_next_page_token (page t) = None \<Longrightarrow> pages_from page t (gml_messages (page t))"
| Next: "gml_next_page_token (page t) = Some u \<Longrightarrow> pages_from page (Some u) ms \<Longrightarrow>
    pages_from page t (gml_messages (page t) @ ms)"

lemma pages_from_moves: "pages_from page t ms \<Longrightarrow> gml_next_page_token (page t) = Some u \<Longrightarrow> t \<noteq> Some u"
proof (induction arbitrary: u rule: pages_from.induct)
  case (Next t v ms)
  then show ?case by (metis option.inject)
qed simp

lemma message_id_loop_ends:
  assumes "serves_pages c query label_ids page" and "pages_from page t ms" and "issued page t"
  shows "\<exists>w'. message_id_loop c query label_ids t acc w = Some (Inr (acc @ ms), w')"
  using assms(2,3)
proof (induction arbitrary: acc w rule: pages_from.induct)
  case (Last t)
  then obtain w' where "gmail_message_page c query label_ids t 500 w = (Inr (page t), w')"
    using assms(1) by (auto simp: serves_pages_def)
  with Last show ?case by (subst message_id_loop.simps) simp
next
  case (Next t u ms)
  obtain w' where "gmail_message_page c query label_ids t 500 w = (Inr (page t), w')"
    using assms(1) Next.prems unfolding serves_pages_def by blast
  moreover have "Some u \<noteq> t"
    using pages_from_moves [OF pages_from.Next [OF Next.hyps] Next.hyps(1)] by auto
  ultimately show ?case
    using Next.hyps(1) Next.IH [OF issued_next [of page t u, OF Next.hyps(1)], of "acc @ gml_messages (page t)" w']
    by (subst message_id_loop.simps) simp
qed

text \<open>Tokens that lead to each other for ever, no page naming itself: the loop compares a token with the one before only.\<close>

definition tokens_cycle :: "(string option \<Rightarrow> gmail_message_list) \<Rightarrow> string option list \<Rightarrow> bool" where
  "tokens_cycle page ts \<longleftrightarrow> (\<forall>t \<in> set ts. \<exists>u. gml_next_page_token (page t) = Some u \<and> Some u \<noteq> t \<and> Some u \<in> set ts)"

lemma message_id_loop_never_ends:
  assumes "serves_pages c query label_ids page" and "tokens_cycle page ts" and "t \<in> set ts" and "issued page t"
  shows "message_id_loop c query label_ids t acc w = None"
proof (cases "message_id_loop c query label_ids t acc w")
  case (Some r)
  let ?server = "\<lambda>c q l t. serves_pages c q l page \<and> issued page t"
  have "?server c query label_ids t \<longrightarrow> t \<notin> set ts"
  proof (rule message_id_loop.raw_induct [where P = "\<lambda>c q l t acc w r. ?server c q l t \<longrightarrow> t \<notin> set ts", OF _ Some])
    fix loop and c :: "'a gmail_client" and q l t acc w and r :: "(gmail_error + gmail_message_ref list) \<times> 'a"
    assume IH: "\<And>c q l t acc w r. loop c q l t acc w = Some r \<Longrightarrow> ?server c q l t \<longrightarrow> t \<notin> set ts"
      and step: "(case gmail_message_page c q l t 500 w of
          (Inl e, w) \<Rightarrow> Some (Inl e, w)
        | (Inr page, w) \<Rightarrow>
            (case gml_next_page_token page of
               None \<Rightarrow> Some (Inr (acc @ gml_messages page), w)
             | Some u \<Rightarrow> if Some u = t then Some (Inl GmailRepeatedPageToken, w)
                 else loop c q l (Some u) (acc @ gml_messages page) w)) = Some r"
    show "?server c q l t \<longrightarrow> t \<notin> set ts"
    proof (intro impI notI)
      assume "?server c q l t" and "t \<in> set ts"
      then obtain u w' where "gmail_message_page c q l t 500 w = (Inr (page t), w')"
        and "gml_next_page_token (page t) = Some u" "Some u \<noteq> t" "Some u \<in> set ts"
        using assms(2) by (fastforce simp: serves_pages_def tokens_cycle_def)
      with step IH issued_next \<open>?server c q l t\<close> show False by auto
    qed
  qed
  with assms show ?thesis by simp
qed simp

subsection \<open>Attachments\<close>

fun all_parts :: "gmail_part \<Rightarrow> gmail_part list" where
  "all_parts (GmailPart i t n hs body parts) = GmailPart i t n hs body parts # concat (map all_parts parts)"

definition attached :: "gmail_part \<Rightarrow> bool" where
  "attached p \<longleftrightarrow> named_part p \<or> remote_attachment_id p \<noteq> None"

lemma collect_part_attachments:
  "gbo_attachments (collect_part p b) = gbo_attachments b @ map attachment_of_part (filter attached [p])"
  by (simp add: collect_part_def attached_def Let_def split: option.split)

lemma listed_attachments:
  "gbo_attachments (collect_gmail_parts p b) = gbo_attachments b @ map attachment_of_part (filter attached (all_parts p))"
  "gbo_attachments (collect_children ps b)
     = gbo_attachments b @ map attachment_of_part (filter attached (concat (map all_parts ps)))"
  by (induction p b and ps b rule: collect_gmail_parts_collect_children.induct) (simp_all add: collect_part_attachments)

lemma find_parts:
  "find_attachment_part i p = List.find (part_matches i) (all_parts p)"
  "find_among_parts i ps = List.find (part_matches i) (concat (map all_parts ps))"
proof (induction i p and i ps rule: find_attachment_part_find_among_parts.induct)
  case (3 i p ps)
  have "List.find P (xs @ ys) = (case List.find P xs of Some q \<Rightarrow> Some q | None \<Rightarrow> List.find P ys)" for P :: "gmail_part \<Rightarrow> bool" and xs ys
    by (induction xs) auto
  with 3 show ?case by (simp split: option.split)
qed simp_all

lemma has_attachment_parts: "part_has_attachment p \<longleftrightarrow> list_ex attached (all_parts p)"
  by (induction p rule: part_has_attachment.induct) (auto simp: attached_def list_ex_iff)

lemma find_unique: "x \<in> set xs \<Longrightarrow> P x \<Longrightarrow> (\<And>y. y \<in> set xs \<Longrightarrow> P y \<Longrightarrow> y = x) \<Longrightarrow> List.find P xs = Some x"
  by (metis find_None_iff find_Some_iff nth_mem option.exhaust)

text \<open>What Gmail documents: the identifiers of the parts of a message differ, and so do those of its attachments; a remote
  identifier has no colon.\<close>

definition well_numbered :: "gmail_part \<Rightarrow> bool" where
  "well_numbered p \<longleftrightarrow> distinct (map gmp_part_id (all_parts p)) \<and> None \<notin> gmp_part_id ` set (all_parts p)
     \<and> distinct (map remote_attachment_id (filter (\<lambda>q. remote_attachment_id q \<noteq> None) (all_parts p)))
     \<and> list_all (\<lambda>q. case remote_attachment_id q of None \<Rightarrow> True | Some i \<Rightarrow> COLON \<notin> set i) (all_parts p)"

lemma well_numbered_remote: "well_numbered p \<Longrightarrow> q \<in> set (all_parts p) \<Longrightarrow> remote_attachment_id q = Some i \<Longrightarrow> COLON \<notin> set i"
  by (force simp: well_numbered_def list_all_iff)

lemma well_numbered_inj:
  assumes "well_numbered p" and "q \<in> set (all_parts p)" and "q' \<in> set (all_parts p)"
  shows "gmp_part_id q = gmp_part_id q' \<Longrightarrow> q' = q"
    and "remote_attachment_id q = Some i \<Longrightarrow> remote_attachment_id q' = Some i \<Longrightarrow> q' = q"
  using assms by (auto simp: well_numbered_def distinct_map inj_on_def)

lemma inline_prefix: "starts_with i ''inline:'' \<Longrightarrow> COLON \<in> set i"
  by (auto simp: starts_with_iff COLON_def)

lemma matches_unique:
  assumes "well_numbered p" and "q \<in> set (all_parts p)" and "q' \<in> set (all_parts p)"
    and "part_matches (at_id (attachment_of_part q)) q'"
  shows "q' = q"
proof (cases "remote_attachment_id q")
  case None
  obtain i where "gmp_part_id q = Some i"
    using assms(1,2) by (cases "gmp_part_id q") (force simp: well_numbered_def image_iff)+
  with None have at: "at_id (attachment_of_part q) = ''inline:'' @ i" by (simp add: attachment_of_part_def)
  have "remote_attachment_id q' \<noteq> Some (''inline:'' @ i)"
    using well_numbered_remote [OF assms(1,3)] by (auto simp: COLON_def)
  with assms(4) at have "gmp_part_id q' = Some i" by (simp add: part_matches_def strip_prefix_def starts_with_def)
  with \<open>gmp_part_id q = Some i\<close> show ?thesis by (intro well_numbered_inj(1) [OF assms(1-3)]) simp
next
  case (Some i)
  then have at: "at_id (attachment_of_part q) = i" by (simp add: attachment_of_part_def)
  have "\<not> starts_with i ''inline:''"
    using well_numbered_remote [OF assms(1,2) Some] by (auto dest: inline_prefix)
  with assms(4) at have "remote_attachment_id q' = Some i" by (simp add: part_matches_def)
  with Some show ?thesis by (rule well_numbered_inj(2) [OF assms(1-3)])
qed

lemma matches_self: "well_numbered p \<Longrightarrow> q \<in> set (all_parts p) \<Longrightarrow> part_matches (at_id (attachment_of_part q)) q"
  by (cases "remote_attachment_id q"; cases "gmp_part_id q")
    (auto simp: part_matches_def attachment_of_part_def strip_prefix_def starts_with_def well_numbered_def image_iff)

lemma attachment_found:
  "well_numbered p \<Longrightarrow> q \<in> set (all_parts p) \<Longrightarrow> find_attachment_part (at_id (attachment_of_part q)) p = Some q"
  unfolding find_parts by (rule find_unique) (auto intro: matches_self matches_unique)

text \<open>A part without a number and without a remote identifier is listed as \<open>inline:0\<close>, which names it nowhere else.\<close>

lemma unnumbered_attachment_lost:
  assumes "remote_attachment_id q = None" and "gmp_part_id q = None"
    and "\<And>r. r \<in> set (all_parts p) \<Longrightarrow> gmp_part_id r \<noteq> Some ''0'' \<and> remote_attachment_id r \<noteq> Some ''inline:0''"
  shows "find_attachment_part (at_id (attachment_of_part q)) p = None"
  unfolding find_parts find_None_iff using assms
  by (auto simp: part_matches_def attachment_of_part_def strip_prefix_def)

subsection \<open>Labels\<close>

lemma labels_set_exactly:
  "set current - set (labels_to_remove current labels) \<union> set (labels_to_add current labels) = set labels"
  "set (labels_to_add current labels) \<inter> set (labels_to_remove current labels) = {}"
  by (auto simp: labels_to_remove_def labels_to_add_def)

subsection \<open>The order of fetched details\<close>

lemma io_collect_Inr:
  "io_collect f xs w = (Inr ys, w') \<Longrightarrow> list_all2 (\<lambda>x y. \<exists>v v'. f x v = (Inr y, v')) xs ys"
  by (induction xs arbitrary: w ys) (fastforce simp: result_simps)+

lemma details_in_order:
  assumes "get_messages_bounded c ids format concurrency w = (Inr ms, w')"
    and "distinct (gl_order c (length ids))" and "set (gl_order c (length ids)) = {..<length ids}"
  shows "list_all2 (\<lambda>i m. \<exists>v v'. gmail_get_message c i format v = (Inr m, v')) ids ms"
proof -
  let ?task = "\<lambda>index. io_bind (gmail_get_message c (ids ! index) format) (\<lambda>m. io_return (index, m))"
  from assms(1) obtain ys where run: "io_collect ?task (gl_order c (length ids)) w = (Inr ys, w')"
    and ms: "ms = map snd (sort_key fst ys)"
    by (auto simp: get_messages_bounded_def result_simps split: if_splits)
  have got: "list_all2 (\<lambda>index y. fst y = index \<and> (\<exists>v v'. gmail_get_message c (ids ! index) format v = (Inr (snd y), v')))
      (gl_order c (length ids)) ys"
    using io_collect_Inr [OF run] by (rule list_all2_mono) (fastforce simp: result_simps)
  then have "map fst ys = gl_order c (length ids)" by (auto simp: list_all2_conv_all_nth list_eq_iff_nth_eq)
  then have "distinct (map fst ys)" "fst ` set ys = {..<length ids}"
    using assms(2,3) by (auto simp flip: set_map)
  then have "distinct (map fst (sort_key fst ys))" "set (map fst (sort_key fst ys)) = set [0..<length ids]"
    by (auto simp: distinct_map)
  then have index: "map fst (sort_key fst ys) = [0..<length ids]"
    by (intro sorted_distinct_set_unique) simp_all
  have "\<exists>v v'. gmail_get_message c (ids ! fst y) format v = (Inr (snd y), v')" if "y \<in> set ys" for y
    using got that by (auto simp: list_all2_conv_all_nth in_set_conv_nth)
  then have each: "\<exists>v v'. gmail_get_message c (ids ! fst y) format v = (Inr (snd y), v')" if "y \<in> set (sort_key fst ys)" for y
    using that by simp
  show ?thesis unfolding ms list_all2_conv_all_nth
  proof (intro conjI allI impI)
    show len: "length ids = length (map snd (sort_key fst ys))" using arg_cong [OF index, of length] by simp
    fix k assume "k < length ids"
    moreover from this have "fst (sort_key fst ys ! k) = k"
      using arg_cong [OF index, of "\<lambda>xs. xs ! k"] len by simp
    ultimately show "\<exists>v v'. gmail_get_message c (ids ! k) format v = (Inr (map snd (sort_key fst ys) ! k), v')"
      using each [OF nth_mem, of k] len by simp
  qed
qed

subsection \<open>Decoded text\<close>

lemma lossy_lead:
  "utf8_tail (byte_of c) = Some ranges \<Longrightarrow> matching ranges s = length ranges \<Longrightarrow>
    from_utf8_lossy (c # s) = c # take (length ranges) s @ from_utf8_lossy (drop (length ranges) s)"
  by (simp add: from_utf8_lossy.simps(2) Let_def)

lemma lossy_valid: "valid_utf8 s \<Longrightarrow> from_utf8_lossy s = s"
proof (induction s rule: valid_utf8.induct)
  case (2 a s)
  let ?x = "byte_of a"
  consider "?x < 128" | "194 \<le> ?x" "?x \<le> 223" | "224 \<le> ?x" "?x \<le> 239" | "240 \<le> ?x" "?x \<le> 244"
    using "2.prems" by (auto simp: Let_def split: if_splits)
  then show ?case
  proof cases
    case 1
    with 2 show ?thesis by (subst lossy_lead [of _ "[]"]) (simp_all add: utf8_tail_def)
  next
    case 2
    then obtain b t where "s = b # t" "is_continuation b" "valid_utf8 t"
      using "2.prems" by (auto simp: Let_def split: list.splits)
    with 2 "2.IH"(2) show ?thesis
      by (subst lossy_lead [of _ "[(128, 191)]"]) (simp_all add: utf8_tail_def is_continuation_def)
  next
    case 3
    then obtain b c t where s: "s = b # c # t" "is_continuation b" "is_continuation c" "valid_utf8 t"
      "?x = 224 \<longrightarrow> 160 \<le> byte_of b" "?x = 237 \<longrightarrow> byte_of b \<le> 159"
      using "2.prems" by (auto simp: Let_def split: list.splits)
    with 3 "2.IH"(3) have "from_utf8_lossy t = t" by simp
    with 3 s show ?thesis
      by (simp add: from_utf8_lossy.simps(2) [of a] utf8_tail_def is_continuation_def Let_def)
  next
    case 4
    then obtain b c d t where s: "s = b # c # d # t" "is_continuation b" "is_continuation c" "is_continuation d" "valid_utf8 t"
      "?x = 240 \<longrightarrow> 144 \<le> byte_of b" "?x = 244 \<longrightarrow> byte_of b \<le> 143"
      using "2.prems" by (auto simp: Let_def split: list.splits)
    with 4 "2.IH"(4) have "from_utf8_lossy t = t" by simp
    with 4 s show ?thesis
      by (simp add: from_utf8_lossy.simps(2) [of a] utf8_tail_def is_continuation_def Let_def)
  qed
qed simp

text \<open>C40: the listing of all identifiers has no bound on its pages. When the tokens of the server come to an end it returns
  all messages of all pages, in order; when they run in a circle in which no page names itself, it never returns, because a
  token is compared with the one before it only.\<close>

theorem gmail_listing_ends:
  assumes "serves_pages c query label_ids page"
  shows "(pages_from page None ms \<longrightarrow> (\<exists>w'. list_all_message_ids c query label_ids w = Some (Inr ms, w')))
    \<and> (tokens_cycle page ts \<and> None \<in> set ts \<longrightarrow> list_all_message_ids c query label_ids w = None)"
  using message_id_loop_ends [OF assms, of None ms "[]" w] message_id_loop_never_ends [OF assms, of ts None "[]" w]
  by (simp_all add: list_all_message_ids_def)

text \<open>A server whose pages name the next token by a table.\<close>

definition sample_token_page :: "(string option \<times> string) list \<Rightarrow> string option \<Rightarrow> gmail_message_list" where
  "sample_token_page table t = \<lparr>gml_messages = [\<lparr>gmr_id = (case t of None \<Rightarrow> ''m'' | Some u \<Rightarrow> u), gmr_thread_id = []\<rparr>],
     gml_next_page_token = map_of table t, gml_result_size_estimate = None\<rparr>"

definition sample_gmail_root :: url where
  "sample_gmail_root = \<lparr>u_text = DEFAULT_API_ROOT, u_scheme = ''https'', u_username = [], u_password = None,
     u_host = Some ''gmail.googleapis.com'', u_port = None, u_path = ''/gmail/v1/'', u_query = None, u_query_pairs = [],
     u_fragment = None\<rparr>"

definition sample_gmail_web :: "unit web" where
  "sample_gmail_web = \<lparr>wb_send = (\<lambda>r. io_return \<lparr>wr_status = 200, wr_length = None,
       wr_chunks = [Inr (case map_of (u_query_pairs (hq_url r)) ''pageToken'' of None \<Rightarrow> [] | Some t \<Rightarrow> CHR ''='' # t)]\<rparr>),
     wb_token = (\<lambda>force. io_return ''token''), wb_parse_url = (\<lambda>s. None), wb_push = (\<lambda>u segments. None),
     wb_pairs = (\<lambda>u pairs. u\<lparr>u_query_pairs := pairs\<rparr>), wb_encode = base64_url_encode, wb_decode = base64_url_decode,
     wb_json = (\<lambda>v. []), wb_parse_json = (\<lambda>s. None)\<rparr>"

definition sample_gmail :: "(string option \<times> string) list \<Rightarrow> unit gmail_client" where
  "sample_gmail table = \<lparr>gl_web = sample_gmail_web, gl_root = sample_gmail_root,
     gl_join = (\<lambda>u path. Some (u\<lparr>u_path := u_path u @ path\<rparr>)), gl_order = (\<lambda>n. [0..<n]),
     gl_list = (\<lambda>s. Some (sample_token_page table (case s of [] \<Rightarrow> None | c # t \<Rightarrow> Some t))), gl_message = (\<lambda>s. None),
     gl_part_body = (\<lambda>s. None), gl_labels = (\<lambda>s. None), gl_history = (\<lambda>s. None), gl_error = (\<lambda>s. None)\<rparr>"

lemma sample_gmail_serves:
  assumes "list_all (\<lambda>(t, u). length u < 1000) table"
  shows "serves_pages (sample_gmail table) None [] (sample_token_page table)"
  unfolding serves_pages_def
proof (intro allI impI)
  fix t and w :: unit
  assume "issued (sample_token_page table) t"
  then have "case t of None \<Rightarrow> True | Some u \<Rightarrow> length u < 1000"
    using assms by (auto simp: issued_def sample_token_page_def list_all_iff dest!: map_of_SomeD split: option.splits)
  then show "\<exists>w'. gmail_message_page (sample_gmail table) None [] t 500 w = (Inr (sample_token_page table t), w')"
    by (cases t) (auto simp: gmail_message_page_def gmail_json_def gmail_request_def gmail_execute_def gmail_transport_def
        sample_gmail_def sample_gmail_web_def sample_gmail_root_def gmail_page_pairs_def bounded_body_def MAX_MAIL_MESSAGE_BYTES_def
        decode_success_def io_bind_def io_lift_def io_return_def io_map_err_def map_err_def ok_or_def require_def)
qed

theorem gmail_listing_ends_witness:
  "(\<exists>w' ms. list_all_message_ids (sample_gmail [(None, ''A'')]) None [] () = Some (Inr ms, w') \<and> map gmr_id ms = [''m'', ''A''])
   \<and> list_all_message_ids (sample_gmail [(None, ''A''), (Some ''A'', ''B''), (Some ''B'', ''A'')]) None [] () = None"
proof
  let ?page = "sample_token_page [(None, ''A'')]"
  have "pages_from ?page None (gml_messages (?page None) @ gml_messages (?page (Some ''A'')))"
    by (intro pages_from.Next [of _ _ "''A''"] pages_from.Last) (simp_all add: sample_token_page_def)
  with gmail_listing_ends [OF sample_gmail_serves, of "[(None, ''A'')]"]
  show "\<exists>w' ms. list_all_message_ids (sample_gmail [(None, ''A'')]) None [] () = Some (Inr ms, w') \<and> map gmr_id ms = [''m'', ''A'']"
    by (fastforce simp: sample_token_page_def)
next
  let ?table = "[(None, ''A''), (Some ''A'', ''B''), (Some ''B'', ''A'')]"
  have "tokens_cycle (sample_token_page ?table) [None, Some ''A'', Some ''B'']"
    by (simp add: tokens_cycle_def sample_token_page_def)
  with gmail_listing_ends [OF sample_gmail_serves, of ?table]
  show "list_all_message_ids (sample_gmail ?table) None [] () = None" by fastforce
qed

end
