(* ===== verification/Agenda_Values.thy ===== *)
theory Agenda_Values
  imports Web_Apis Daemon_State Mime_Codec
begin

section \<open>Values of the agenda providers\<close>

text \<open>
  The pure functions of \<open>providers/agenda.rs\<close>: bounds, API roots, errors and identifiers. The crates \<open>url\<close>, \<open>base64\<close>
  and \<open>serde_json\<close> are the fields of the record \<open>web\<close>.
\<close>

subsection \<open>Bounds and families\<close>

definition MAX_AGENDA_RESPONSE_BYTES :: nat where "MAX_AGENDA_RESPONSE_BYTES = 8 * 1024 * 1024"
definition MAX_AGENDA_REQUEST_BYTES :: nat where "MAX_AGENDA_REQUEST_BYTES = 2 * 1024 * 1024"
definition MAX_REMOTE_ID_BYTES :: nat where "MAX_REMOTE_ID_BYTES = 2 * 1024"
definition MAX_EXPOSED_ID_BYTES :: nat where "MAX_EXPOSED_ID_BYTES = 8 * 1024"
definition MAX_CONTAINER_PAGES :: nat where "MAX_CONTAINER_PAGES = 8"
definition MAX_ITEM_PAGES :: nat where "MAX_ITEM_PAGES = 32"
definition MAX_CONTAINERS :: nat where "MAX_CONTAINERS = 64"
definition MAX_ITEMS :: nat where "MAX_ITEMS = 8000"
definition MAX_CONTINUATION_URL_BYTES :: nat where "MAX_CONTINUATION_URL_BYTES = 16 * 1024"

definition CALENDAR_ID_PREFIX :: string where "CALENDAR_ID_PREFIX = ''agenda-calendar-v1''"
definition EVENT_ID_PREFIX :: string where "EVENT_ID_PREFIX = ''agenda-event-v1''"
definition TASK_ID_PREFIX :: string where "TASK_ID_PREFIX = ''agenda-task-v1''"

datatype goa_family = GoogleFamily | MicrosoftFamily

fun family_display_name :: "goa_family \<Rightarrow> string" where
  "family_display_name GoogleFamily = ''Google''"
| "family_display_name MicrosoftFamily = ''Microsoft''"

definition account_family :: "account \<Rightarrow> goa_family option" where
  "account_family account =
     (let provider = to_ascii_lowercase (trim (a_provider account));
          protocol = to_ascii_lowercase (trim (a_protocol account)) in
      if provider \<in> {''gmail'', ''google''} then Some GoogleFamily
      else if provider \<in> {''outlook'', ''hotmail'', ''microsoft'', ''microsoft365'', ''office365''}
              \<or> protocol = ''microsoft_graph''
      then Some MicrosoftFamily else None)"

subsection \<open>API roots and URLs\<close>

datatype api_root = GoogleCalendarApi | GoogleTasksApi | MicrosoftGraphApi

fun api_base :: "api_root \<Rightarrow> string" where
  "api_base GoogleCalendarApi = ''https://www.googleapis.com/calendar/v3/''"
| "api_base GoogleTasksApi = ''https://tasks.googleapis.com/tasks/v1/''"
| "api_base MicrosoftGraphApi = ''https://graph.microsoft.com/v1.0/''"

fun api_host :: "api_root \<Rightarrow> string" where
  "api_host GoogleCalendarApi = ''www.googleapis.com''"
| "api_host GoogleTasksApi = ''tasks.googleapis.com''"
| "api_host MicrosoftGraphApi = ''graph.microsoft.com''"

fun api_path_prefix :: "api_root \<Rightarrow> string" where
  "api_path_prefix GoogleCalendarApi = ''/calendar/v3/''"
| "api_path_prefix GoogleTasksApi = ''/tasks/v1/''"
| "api_path_prefix MicrosoftGraphApi = ''/v1.0/''"

definition agenda_url_ok :: "api_root \<Rightarrow> url \<Rightarrow> bool" where
  "agenda_url_ok root u \<longleftrightarrow> u_scheme u = ''https'' \<and> u_host u = Some (api_host root) \<and> u_port u \<in> {None, Some 443}
     \<and> u_username u = [] \<and> u_password u = None \<and> u_fragment u = None \<and> starts_with (u_path u) (api_path_prefix root)"

definition validate_agenda_url :: "api_root \<Rightarrow> url \<Rightarrow> provider_error + unit" where
  "validate_agenda_url root u =
     require (agenda_url_ok root u) (ProviderOther ''agenda provider refused a non-allowlisted URL'')"

definition checked_remote_id :: "string \<Rightarrow> provider_error + string" where
  "checked_remote_id value =
     (if value = [] \<or> MAX_REMOTE_ID_BYTES < length value \<or> list_ex is_control_char (utf8_chars value)
      then Inl (ProviderOther ''invalid remote agenda ID'') else Inr value)"

definition api_url :: "'w web \<Rightarrow> api_root \<Rightarrow> string list \<Rightarrow> provider_error + url" where
  "api_url web root path =
     (let invalid = ProviderOther ''invalid built-in agenda API root'' in
      bind_r (ok_or (wb_parse_url web (api_base root)) invalid) (\<lambda>base.
      bind_r (collect_r checked_remote_id path) (\<lambda>segments.
      bind_r (ok_or (wb_push web base segments) invalid) (\<lambda>u.
      bind_r (validate_agenda_url root u) (\<lambda>_. Inr u)))))"

definition agenda_continuation_url :: "'w web \<Rightarrow> api_root \<Rightarrow> string \<Rightarrow> provider_error + url" where
  "agenda_continuation_url web root value =
     bind_r (require (length value \<le> MAX_CONTINUATION_URL_BYTES) (ResourceTooLarge ''agenda continuation URL'')) (\<lambda>_.
     bind_r (ok_or (wb_parse_url web value) (ProviderOther ''invalid agenda continuation URL'')) (\<lambda>u.
     bind_r (validate_agenda_url root u) (\<lambda>_. Inr u)))"

subsection \<open>Errors\<close>

definition token_provider_error :: "goa_family \<Rightarrow> token_error \<Rightarrow> provider_error" where
  "token_provider_error family e =
     Authentication (family_display_name family @ '' Online Account requires authorization: '' @ token_error_text e)"

definition is_agenda_code_char :: "string \<Rightarrow> bool" where
  "is_agenda_code_char c \<longleftrightarrow> (case c of [b] \<Rightarrow> is_ascii_alphanumeric b \<or> b \<in> {CHR ''.'', CHR ''_'', CHR ''-''} | _ \<Rightarrow> False)"

text \<open>\<open>Value::pointer\<close> with two steps, then \<open>as_str\<close>.\<close>

definition pointer_str :: "json \<Rightarrow> string \<Rightarrow> string \<Rightarrow> string option" where
  "pointer_str v a b =
     (case json_get a v of
        None \<Rightarrow> None
      | Some x \<Rightarrow> (case json_get b x of None \<Rightarrow> None | Some y \<Rightarrow> (case y of JStr s \<Rightarrow> Some s | _ \<Rightarrow> None)))"

definition agenda_error_code :: "(string \<Rightarrow> json option) \<Rightarrow> string \<Rightarrow> string" where
  "agenda_error_code parse body =
     (let value = (case parse body of Some v \<Rightarrow> v | None \<Rightarrow> JNull);
          candidate = (case pointer_str value ''error'' ''code'' of
              Some s \<Rightarrow> s
            | None \<Rightarrow> (case pointer_str value ''error'' ''status'' of Some s \<Rightarrow> s | None \<Rightarrow> ''requestRejected''));
          code = concat (take 64 (filter is_agenda_code_char (utf8_chars candidate)))
      in if code = [] then ''requestRejected'' else code)"

definition http_provider_error :: "(string \<Rightarrow> json option) \<Rightarrow> goa_family \<Rightarrow> nat \<Rightarrow> string \<Rightarrow> provider_error" where
  "http_provider_error parse family status body =
     (if status = 401 then Authentication (family_display_name family @ '' Online Account authorization expired'')
      else if status = 403
      then Authentication (family_display_name family @ '' Online Account has not granted ''
        @ (case family of GoogleFamily \<Rightarrow> ''Google Calendar and Tasks''
           | MicrosoftFamily \<Rightarrow> ''Microsoft Calendars.ReadWrite and Tasks.ReadWrite'')
        @ '' access; reconnect the account in GNOME Online Accounts'')
      else if status = 404 then ProviderNotFound
      else if status \<in> {408, 425, 429} \<or> 500 \<le> status \<and> status \<le> 599
      then Temporary ''agenda provider is temporarily unavailable''
      else if status = 413 then ResourceTooLarge ''agenda provider data''
      else ProviderOther (''agenda provider rejected the request (HTTP '' @ show_nat status @ '', ''
        @ agenda_error_code parse body @ '')''))"

definition page_limit_error :: "string \<Rightarrow> provider_error" where
  "page_limit_error provider =
     ResourceTooLarge
       (if provider = ''Google Tasks'' then ''Google Tasks pages''
        else if provider = ''Google Calendar'' then ''Google Calendar pages''
        else if provider = ''Google task lists'' then ''Google task-list pages''
        else if provider = ''Google calendars'' then ''Google calendar-list pages''
        else if provider = ''Microsoft Graph'' then ''Microsoft Graph pages''
        else ''agenda pages'')"

subsection \<open>Identifiers\<close>

definition encode_component :: "'w web \<Rightarrow> string \<Rightarrow> provider_error + string" where
  "encode_component web value = bind_r (checked_remote_id value) (\<lambda>_. Inr (wb_encode web value))"

definition decode_component :: "'w web \<Rightarrow> string \<Rightarrow> provider_error + string" where
  "decode_component web value =
     (let invalid = ProviderOther ''invalid remote agenda ID'' in
      bind_r (ok_or (wb_decode web value) invalid) (\<lambda>bytes.
      bind_r (require (valid_utf8 bytes) invalid) (\<lambda>_.
      checked_remote_id bytes)))"

definition bounded_exposed_id :: "string \<Rightarrow> provider_error + string" where
  "bounded_exposed_id value =
     (if MAX_EXPOSED_ID_BYTES < length value then Inl (ResourceTooLarge ''remote agenda ID'') else Inr value)"

definition calendar_marker :: string where
  "calendar_marker = '':'' @ CALENDAR_ID_PREFIX @ ''.''"

definition calendar_id :: "'w web \<Rightarrow> string \<Rightarrow> string \<Rightarrow> provider_error + string" where
  "calendar_id web account_id remote_calendar_id =
     bind_r (checked_remote_id account_id) (\<lambda>_.
     bind_r (encode_component web remote_calendar_id) (\<lambda>encoded.
     bounded_exposed_id (account_id @ '':'' @ CALENDAR_ID_PREFIX @ ''.'' @ encoded)))"

text \<open>\<open>str::rsplit_once\<close> with a text: the last occurrence.\<close>

definition rsplit_sub :: "string \<Rightarrow> string \<Rightarrow> (string \<times> string) option" where
  "rsplit_sub s n =
     map_option (\<lambda>i. (take (length s - i - length n) s, drop (length s - i) s)) (find_sub (rev s) (rev n))"

definition decode_calendar_id :: "'w web \<Rightarrow> string \<Rightarrow> provider_error + (string \<times> string)" where
  "decode_calendar_id web value =
     bind_r (require (length value \<le> MAX_EXPOSED_ID_BYTES) (ProviderOther ''invalid remote agenda ID'')) (\<lambda>_.
     bind_r (ok_or (rsplit_sub value calendar_marker) (ProviderOther ''invalid remote calendar ID'')) (\<lambda>(account, calendar).
     bind_r (checked_remote_id account) (\<lambda>_.
     bind_r (decode_component web calendar) (\<lambda>remote. Inr (account, remote)))))"

definition item_id :: "'w web \<Rightarrow> string \<Rightarrow> string \<Rightarrow> string \<Rightarrow> string \<Rightarrow> provider_error + string" where
  "item_id web pre account_id container_id remote_id =
     bind_r (encode_component web account_id) (\<lambda>a.
     bind_r (encode_component web container_id) (\<lambda>c.
     bind_r (encode_component web remote_id) (\<lambda>r.
     bounded_exposed_id (pre @ ''.'' @ a @ ''.'' @ c @ ''.'' @ r))))"

definition decode_item_id :: "'w web \<Rightarrow> string \<Rightarrow> string \<Rightarrow> provider_error + (string \<times> string \<times> string)" where
  "decode_item_id web pre value =
     (let invalid = ProviderOther ''invalid remote agenda ID'' in
      if MAX_EXPOSED_ID_BYTES < length value then Inl invalid
      else
        (case split_on (CHR ''.'') value of
           [p, account, container, item] \<Rightarrow>
             if p \<noteq> pre then Inl invalid
             else
               bind_r (decode_component web account) (\<lambda>a.
               bind_r (decode_component web container) (\<lambda>c.
               bind_r (decode_component web item) (\<lambda>r. Inr (a, c, r))))
         | _ \<Rightarrow> Inl invalid))"

definition ensure_same_account :: "string \<Rightarrow> string \<Rightarrow> provider_error + unit" where
  "ensure_same_account expected actual =
     require (expected = actual) (ProviderOther ''agenda item belongs to a different QuickMail account'')"

subsection \<open>Bounded lists\<close>

definition push_bounded :: "'a list \<Rightarrow> 'a \<Rightarrow> provider_error + 'a list" where
  "push_bounded items item =
     (if MAX_ITEMS \<le> length items then Inl (ResourceTooLarge ''remote agenda items'') else Inr (items @ [item]))"

definition push_container :: "'a list \<Rightarrow> 'a \<Rightarrow> provider_error + 'a list" where
  "push_container items item =
     (if MAX_CONTAINERS \<le> length items then Inl (ResourceTooLarge ''remote agenda containers'') else Inr (items @ [item]))"

definition account_label :: "account \<Rightarrow> string" where
  "account_label account = (if trim (a_display_name account) = [] then a_address account else a_display_name account)"

end
