(* ===== verification/Agenda_Items.thy ===== *)
theory Agenda_Items
  imports Agenda_Values
begin

section \<open>Tasks and events of Google and Microsoft\<close>

text \<open>
  The resources that \<open>providers/agenda.rs\<close> reads, what they become in the data model, and the bodies that it writes.
  The parsers and printers of \<open>chrono\<close> are the fields of the record \<open>agenda_dates\<close>; an instant is its millisecond
  timestamp, as in the data model, and \<open>now\<close> is what \<open>Utc::now\<close> reads.
\<close>

subsection \<open>Resources\<close>

record google_calendar =
  gcal_id :: string
  gcal_primary :: bool
  gcal_deleted :: bool
  gcal_access_role :: string

definition google_calendar_is_read_only :: "google_calendar \<Rightarrow> bool" where
  "google_calendar_is_read_only c \<longleftrightarrow> gcal_access_role c \<notin> {''owner'', ''writer''}"

record google_task =
  gt_id :: string
  gt_title :: string
  gt_notes :: string
  gt_status :: string
  gt_due :: "string option"
  gt_updated :: "string option"
  gt_deleted :: bool
  gt_hidden :: bool

record google_event_time =
  gw_date_time :: "string option"
  gw_date :: "string option"

record google_event =
  ge_id :: string
  ge_status :: string
  ge_summary :: string
  ge_description :: string
  ge_start :: "google_event_time option"
  ge_end :: "google_event_time option"

record microsoft_task_list =
  mtl_id :: string
  mtl_wellknown_list_name :: "string option"

record microsoft_calendar =
  mcal_id :: string
  mcal_can_edit :: bool
  mcal_is_default :: bool

record microsoft_datetime =
  md_date_time :: string
  md_time_zone :: string

text \<open>A body is its content.\<close>

record microsoft_task =
  mt_id :: string
  mt_title :: string
  mt_body :: "string option"
  mt_status :: string
  mt_due :: "microsoft_datetime option"
  mt_created :: "string option"
  mt_is_deleted :: bool

record microsoft_event =
  me_id :: string
  me_subject :: string
  me_body :: "string option"
  me_body_preview :: string
  me_start :: "microsoft_datetime option"
  me_end :: "microsoft_datetime option"
  me_is_all_day :: bool
  me_is_cancelled :: bool

subsection \<open>Dates\<close>

text \<open>\<open>dt_date\<close> is \<open>NaiveDate::parse_from_str\<close> with \<open>%Y-%m-%d\<close> and the midnight of that day in UTC, \<open>dt_rfc3339\<close> is
  \<open>DateTime::parse_from_rfc3339\<close>, \<open>dt_naive f\<close> is \<open>NaiveDateTime::parse_from_str\<close> with the format \<open>f\<close>, the others print:
  \<open>to_rfc3339_opts\<close> with milliseconds, \<open>date_naive\<close>, and \<open>format\<close> with \<open>%Y-%m-%dT%H:%M:%S%.3f\<close>.\<close>

record agenda_dates =
  dt_date :: "string \<Rightarrow> int option"
  dt_rfc3339 :: "string \<Rightarrow> int option"
  dt_naive :: "string \<Rightarrow> string \<Rightarrow> int option"
  dt_show_rfc3339 :: "int \<Rightarrow> string"
  dt_show_date :: "int \<Rightarrow> string"
  dt_show_local :: "int \<Rightarrow> string"

text \<open>\<open>str::get(..n)\<close> on bytes of UTF-8.\<close>

definition get_prefix :: "nat \<Rightarrow> string \<Rightarrow> string option" where
  "get_prefix n s =
     (if length s < n then None
      else if n < length s \<and> 128 \<le> byte_of (s ! n) \<and> byte_of (s ! n) < 192 then None
      else Some (take n s))"

definition parse_google_due :: "agenda_dates \<Rightarrow> string \<Rightarrow> provider_error + int" where
  "parse_google_due dates value =
     ok_or (case get_prefix 10 value of None \<Rightarrow> None | Some d \<Rightarrow> dt_date dates d)
       (ProviderOther ''Google task has an invalid due date'')"

definition parse_rfc3339 :: "agenda_dates \<Rightarrow> string \<Rightarrow> provider_error + int" where
  "parse_rfc3339 dates value =
     ok_or (dt_rfc3339 dates value) (ProviderOther ''agenda provider returned an invalid timestamp'')"

definition parse_google_event_time :: "agenda_dates \<Rightarrow> google_event_time \<Rightarrow> provider_error + int" where
  "parse_google_event_time dates value =
     (case gw_date_time value of
        Some date_time \<Rightarrow> parse_rfc3339 dates date_time
      | None \<Rightarrow>
          ok_or (case gw_date value of None \<Rightarrow> None | Some d \<Rightarrow> dt_date dates d)
            (ProviderOther ''Google event has an invalid date''))"

definition parse_naive_datetime :: "agenda_dates \<Rightarrow> string \<Rightarrow> int option" where
  "parse_naive_datetime dates value =
     (case filter (\<lambda>x. x \<noteq> None) (map (\<lambda>f. dt_naive dates f value)
         [''%Y-%m-%dT%H:%M:%S%.f'', ''%Y-%m-%dT%H:%M:%S'', ''%Y-%m-%d %H:%M:%S%.f'']) of
        [] \<Rightarrow> None
      | x # xs \<Rightarrow> x)"

definition is_zone_char :: "string \<Rightarrow> bool" where
  "is_zone_char c \<longleftrightarrow> (case c of [b] \<Rightarrow> is_ascii_alphanumeric b \<or> b = CHR ''/'' | _ \<Rightarrow> False)"

definition parse_microsoft_datetime :: "agenda_dates \<Rightarrow> microsoft_datetime \<Rightarrow> provider_error + int" where
  "parse_microsoft_datetime dates value =
     (case dt_rfc3339 dates (md_date_time value) of
        Some t \<Rightarrow> Inr t
      | None \<Rightarrow>
          if md_time_zone value \<notin> {''UTC'', ''Etc/UTC'', ''GMT''}
          then Inl (Unsupported (''Microsoft returned unsupported agenda time zone ''
            @ concat (take 64 (filter is_zone_char (utf8_chars (md_time_zone value))))))
          else ok_or (parse_naive_datetime dates (md_date_time value)) (ProviderOther ''Microsoft returned an invalid timestamp''))"

text \<open>\<open>map(..).transpose()\<close> on an option.\<close>

definition parse_opt :: "('a \<Rightarrow> 'e + 'b) \<Rightarrow> 'a option \<Rightarrow> 'e + 'b option" where
  "parse_opt f x = (case x of None \<Rightarrow> Inr None | Some v \<Rightarrow> map_ok Some (f v))"

definition opt_or :: "'a option \<Rightarrow> 'a option \<Rightarrow> 'a option" where
  "opt_or x y = (case x of Some v \<Rightarrow> Some v | None \<Rightarrow> y)"

definition unwrap_or :: "'a option \<Rightarrow> 'a \<Rightarrow> 'a" where
  "unwrap_or x d = (case x of Some v \<Rightarrow> v | None \<Rightarrow> d)"

subsection \<open>Normalising\<close>

definition normalize_google_task ::
    "'w web \<Rightarrow> agenda_dates \<Rightarrow> int \<Rightarrow> account \<Rightarrow> string \<Rightarrow> google_task \<Rightarrow> provider_error + task option" where
  "normalize_google_task web dates now account list_id raw =
     (if gt_deleted raw \<or> gt_hidden raw then Inr None
      else
        bind_r (checked_remote_id (gt_id raw)) (\<lambda>remote_id.
        bind_r (parse_opt (parse_google_due dates) (gt_due raw)) (\<lambda>due_at.
        bind_r (parse_opt (parse_rfc3339 dates) (gt_updated raw)) (\<lambda>updated.
        bind_r (item_id web TASK_ID_PREFIX (a_id account) list_id remote_id) (\<lambda>i.
        Inr (Some \<lparr>t_id = i, t_title = gt_title raw, t_description = gt_notes raw, t_done = (gt_status raw = ''completed''),
          t_due_at = due_at, t_created_at = unwrap_or (opt_or updated due_at) now, t_source = ''google_tasks'',
          t_external_id = remote_id, t_account = a_id account\<rparr>))))))"

definition normalize_google_event ::
    "'w web \<Rightarrow> agenda_dates \<Rightarrow> account \<Rightarrow> string \<Rightarrow> bool \<Rightarrow> google_event \<Rightarrow> provider_error + calendar_event option" where
  "normalize_google_event web dates account remote_calendar_id read_only raw =
     (if ge_status raw = ''cancelled'' then Inr None
      else
        bind_r (checked_remote_id (ge_id raw)) (\<lambda>remote_id.
        bind_r (ok_or (ge_start raw) (ProviderOther ''Google event has no start'')) (\<lambda>start.
        bind_r (ok_or (ge_end raw) (ProviderOther ''Google event has no end'')) (\<lambda>finish.
        bind_r (parse_google_event_time dates start) (\<lambda>start_at.
        bind_r (parse_google_event_time dates finish) (\<lambda>end_at.
        bind_r (require (start_at < end_at) (ProviderOther ''Google event has an invalid time range'')) (\<lambda>_.
        bind_r (item_id web EVENT_ID_PREFIX (a_id account) remote_calendar_id remote_id) (\<lambda>i.
        bind_r (calendar_id web (a_id account) remote_calendar_id) (\<lambda>calendar.
        Inr (Some \<lparr>e_id = i, e_external_id = remote_id, e_calendar_id = calendar, e_calendar_name = account_label account,
          e_title = ge_summary raw, e_description = ge_description raw, e_start_at = start_at, e_end_at = end_at,
          e_all_day = (gw_date start \<noteq> None), e_read_only = read_only\<rparr>))))))))))"

definition normalize_microsoft_task ::
    "'w web \<Rightarrow> agenda_dates \<Rightarrow> int \<Rightarrow> account \<Rightarrow> string \<Rightarrow> microsoft_task \<Rightarrow> provider_error + task option" where
  "normalize_microsoft_task web dates now account list_id raw =
     (if mt_is_deleted raw then Inr None
      else
        bind_r (checked_remote_id (mt_id raw)) (\<lambda>remote_id.
        bind_r (parse_opt (parse_microsoft_datetime dates) (mt_due raw)) (\<lambda>due_at.
        bind_r (parse_opt (parse_rfc3339 dates) (mt_created raw)) (\<lambda>created.
        bind_r (item_id web TASK_ID_PREFIX (a_id account) list_id remote_id) (\<lambda>i.
        Inr (Some \<lparr>t_id = i, t_title = mt_title raw, t_description = unwrap_or (mt_body raw) [],
          t_done = (mt_status raw = ''completed''), t_due_at = due_at,
          t_created_at = unwrap_or (opt_or created due_at) now, t_source = ''microsoft_todo'',
          t_external_id = remote_id, t_account = a_id account\<rparr>))))))"

definition normalize_microsoft_event ::
    "'w web \<Rightarrow> agenda_dates \<Rightarrow> account \<Rightarrow> string \<Rightarrow> bool \<Rightarrow> microsoft_event \<Rightarrow> provider_error + calendar_event option" where
  "normalize_microsoft_event web dates account remote_calendar_id read_only raw =
     (if me_is_cancelled raw then Inr None
      else
        bind_r (checked_remote_id (me_id raw)) (\<lambda>remote_id.
        bind_r (ok_or (me_start raw) (ProviderOther ''Microsoft event has no start'')) (\<lambda>start.
        bind_r (parse_microsoft_datetime dates start) (\<lambda>start_at.
        bind_r (ok_or (me_end raw) (ProviderOther ''Microsoft event has no end'')) (\<lambda>finish.
        bind_r (parse_microsoft_datetime dates finish) (\<lambda>end_at.
        bind_r (require (start_at < end_at) (ProviderOther ''Microsoft event has an invalid time range'')) (\<lambda>_.
        bind_r (item_id web EVENT_ID_PREFIX (a_id account) remote_calendar_id remote_id) (\<lambda>i.
        bind_r (calendar_id web (a_id account) remote_calendar_id) (\<lambda>calendar.
        Inr (Some \<lparr>e_id = i, e_external_id = remote_id, e_calendar_id = calendar, e_calendar_name = account_label account,
          e_title = me_subject raw, e_description = unwrap_or (me_body raw) (me_body_preview raw), e_start_at = start_at,
          e_end_at = end_at, e_all_day = me_is_all_day raw, e_read_only = read_only\<rparr>))))))))))"

subsection \<open>Bodies of requests\<close>

definition google_task_body :: "agenda_dates \<Rightarrow> int \<Rightarrow> task \<Rightarrow> json" where
  "google_task_body dates now task = JObj [(''title'', JStr (t_title task)), (''notes'', JStr (t_description task)),
     (''status'', JStr (if t_done task then ''completed'' else ''needsAction'')),
     (''completed'', if t_done task then JStr (dt_show_rfc3339 dates now) else JNull),
     (''due'', case t_due_at task of None \<Rightarrow> JNull | Some due \<Rightarrow> JStr (dt_show_date dates due @ ''T00:00:00.000Z''))]"

definition microsoft_datetime_json :: "agenda_dates \<Rightarrow> int \<Rightarrow> json" where
  "microsoft_datetime_json dates t = JObj [(''dateTime'', JStr (dt_show_local dates t)), (''timeZone'', JStr ''UTC'')]"

definition text_body :: "string \<Rightarrow> json" where
  "text_body content = JObj [(''content'', JStr content), (''contentType'', JStr ''text'')]"

definition microsoft_task_body :: "agenda_dates \<Rightarrow> task \<Rightarrow> json" where
  "microsoft_task_body dates task = JObj [(''title'', JStr (t_title task)), (''body'', text_body (t_description task)),
     (''status'', JStr (if t_done task then ''completed'' else ''notStarted'')),
     (''dueDateTime'', case t_due_at task of None \<Rightarrow> JNull | Some due \<Rightarrow> microsoft_datetime_json dates due)]"

definition google_event_body :: "agenda_dates \<Rightarrow> calendar_event \<Rightarrow> json" where
  "google_event_body dates event =
     (let point = (\<lambda>t. if e_all_day event then JObj [(''date'', JStr (dt_show_date dates t))]
                      else JObj [(''dateTime'', JStr (dt_show_rfc3339 dates t)), (''timeZone'', JStr ''UTC'')]) in
      JObj [(''summary'', JStr (e_title event)), (''description'', JStr (e_description event)),
            (''start'', point (e_start_at event)), (''end'', point (e_end_at event))])"

definition microsoft_event_body :: "agenda_dates \<Rightarrow> calendar_event \<Rightarrow> json" where
  "microsoft_event_body dates event = JObj [(''subject'', JStr (e_title event)), (''body'', text_body (e_description event)),
     (''start'', microsoft_datetime_json dates (e_start_at event)),
     (''end'', microsoft_datetime_json dates (e_end_at event)), (''isAllDay'', JBool (e_all_day event))]"

end
