(* ===== verification/Agenda_Provider.thy ===== *)
theory Agenda_Provider
  imports Agenda_Items
begin

section \<open>The agenda provider\<close>

text \<open>
  \<open>AgendaProvider\<close> of \<open>providers/agenda.rs\<close>, one definition per method. The record holds the account, what GNOME Online
  Accounts allows, the web interface, the clock and the dates, and what \<open>serde_json\<close> makes of the bodies of answers: a
  page is its items and the token or link of the next page. \<open>try_join!\<close> polls the tasks and the events in turn; the model
  takes the tasks first.
\<close>

record agenda_readers =
  rd_google_lists :: "string \<Rightarrow> (string list \<times> string option) option"
  rd_google_calendars :: "string \<Rightarrow> (google_calendar list \<times> string option) option"
  rd_google_tasks :: "string \<Rightarrow> (google_task list \<times> string option) option"
  rd_google_events :: "string \<Rightarrow> (google_event list \<times> string option) option"
  rd_google_list :: "string \<Rightarrow> string option"
  rd_google_task :: "string \<Rightarrow> google_task option"
  rd_google_event :: "string \<Rightarrow> google_event option"
  rd_microsoft_lists :: "string \<Rightarrow> (microsoft_task_list list \<times> string option) option"
  rd_microsoft_calendars :: "string \<Rightarrow> (microsoft_calendar list \<times> string option) option"
  rd_microsoft_tasks :: "string \<Rightarrow> (microsoft_task list \<times> string option) option"
  rd_microsoft_events :: "string \<Rightarrow> (microsoft_event list \<times> string option) option"
  rd_microsoft_task :: "string \<Rightarrow> microsoft_task option"
  rd_microsoft_event :: "string \<Rightarrow> microsoft_event option"

record 'w agenda_provider =
  av_account :: account
  av_family :: goa_family
  av_calendar_enabled :: bool
  av_tasks_enabled :: bool
  av_web :: "'w web"
  av_dates :: agenda_dates
  av_clock :: "'w \<Rightarrow> int"
  av_readers :: agenda_readers

subsection \<open>Requests\<close>

definition agenda_headers :: "api_root \<Rightarrow> string \<Rightarrow> string option \<Rightarrow> (string \<times> string) list" where
  "agenda_headers root token body =
     [(''Authorization'', ''Bearer '' @ token), (''Accept'', ''application/json'')]
     @ (if root = MicrosoftGraphApi
        then [(''Prefer'', ''outlook.timezone='' @ [DQUOTE] @ ''UTC'' @ [DQUOTE] @ '', outlook.body-content-type='' @ [DQUOTE]
          @ ''text'' @ [DQUOTE])] else [])
     @ (if body = None then [] else [(''Content-Type'', ''application/json'')])"

definition agenda_attempt ::
    "'w agenda_provider \<Rightarrow> api_root \<Rightarrow> http_method \<Rightarrow> url \<Rightarrow> string option \<Rightarrow> bool \<Rightarrow> ('w, provider_error, nat \<times> string) io" where
  "agenda_attempt a root method u body force_refresh =
     io_bind (io_map_err (token_provider_error (av_family a)) (wb_token (av_web a) force_refresh)) (\<lambda>token.
     io_bind (io_map_err (\<lambda>_. Temporary ''agenda provider transport failed'')
       (wb_send (av_web a) \<lparr>hq_method = method, hq_url = u, hq_headers = agenda_headers root token body, hq_body = body\<rparr>)) (\<lambda>wire.
     io_bind (io_lift (bounded_body MAX_AGENDA_RESPONSE_BYTES (Temporary ''agenda response transfer failed'')
       (ResourceTooLarge ''agenda response'') wire)) (\<lambda>response.
     io_return (wr_status wire, response))))"

definition agenda_request ::
    "'w agenda_provider \<Rightarrow> api_root \<Rightarrow> http_method \<Rightarrow> url \<Rightarrow> string option \<Rightarrow> ('w, provider_error, string) io" where
  "agenda_request a root method u body =
     io_bind (io_lift (validate_agenda_url root u)) (\<lambda>_.
     io_bind (agenda_attempt a root method u body False) (\<lambda>first.
     io_bind (if fst first = 401 then agenda_attempt a root method u body True else io_return first) (\<lambda>(status, response).
     if 200 \<le> status \<and> status < 300 then io_return response
     else io_error (http_provider_error (wb_parse_json (av_web a)) (av_family a) status response))))"

definition malformed_json :: provider_error where
  "malformed_json = ProviderOther ''agenda provider returned malformed JSON''"

definition send_json ::
    "'w agenda_provider \<Rightarrow> (string \<Rightarrow> 'a option) \<Rightarrow> api_root \<Rightarrow> http_method \<Rightarrow> url \<Rightarrow> json option \<Rightarrow> ('w, provider_error, 'a) io" where
  "send_json a reader root method u value =
     (let body = map_option (wb_json (av_web a)) value in
      io_bind (io_lift (require (case body of None \<Rightarrow> True | Some b \<Rightarrow> length b \<le> MAX_AGENDA_REQUEST_BYTES)
        (ResourceTooLarge ''agenda request''))) (\<lambda>_.
      io_bind (agenda_request a root method u body) (\<lambda>response.
      io_lift (ok_or (reader response) malformed_json))))"

definition get_json :: "'w agenda_provider \<Rightarrow> (string \<Rightarrow> 'a option) \<Rightarrow> api_root \<Rightarrow> url \<Rightarrow> ('w, provider_error, 'a) io" where
  "get_json a reader root u = send_json a reader root HttpGet u None"

definition send_empty :: "'w agenda_provider \<Rightarrow> api_root \<Rightarrow> http_method \<Rightarrow> url \<Rightarrow> ('w, provider_error, unit) io" where
  "send_empty a root method u =
     io_bind (agenda_request a root method u None) (\<lambda>body.
     if body = [] then io_return ()
     else io_lift (bind_r (ok_or (wb_parse_json (av_web a) body) malformed_json) (\<lambda>_. Inr ())))"

definition url_of :: "'w agenda_provider \<Rightarrow> api_root \<Rightarrow> string list \<Rightarrow> (string \<times> string) list \<Rightarrow> provider_error + url" where
  "url_of a root path pairs = map_ok (\<lambda>u. wb_pairs (av_web a) u pairs) (api_url (av_web a) root path)"

subsection \<open>Paging\<close>

text \<open>The four loops over pages of Google differ in their URL, their reader, what they keep of an item and their name:
  \<open>left\<close> pages may still be asked, \<open>token\<close> is the token of the next one. \<open>take_item\<close> runs the normalisation and the push.\<close>

fun google_pages ::
    "'w agenda_provider \<Rightarrow> nat \<Rightarrow> string \<Rightarrow> api_root \<Rightarrow> string list \<Rightarrow> (string \<times> string) list \<Rightarrow> (string \<Rightarrow> ('i list \<times> string option) option)
     \<Rightarrow> ('s \<Rightarrow> 'i \<Rightarrow> ('w, provider_error, 's) io) \<Rightarrow> string option \<Rightarrow> 's \<Rightarrow> ('w, provider_error, 's) io" where
  "google_pages a 0 name root path pairs reader take_item token s = io_error (page_limit_error name)"
| "google_pages a (Suc left) name root path pairs reader take_item token s =
     io_bind (io_lift (map_ok (\<lambda>u. wb_pairs (av_web a) u
       (pairs @ (case token of None \<Rightarrow> [] | Some t \<Rightarrow> [(''pageToken'', t)]))) (api_url (av_web a) root path))) (\<lambda>u.
     io_bind (get_json a reader root u) (\<lambda>(items, next_token).
     io_bind (io_fold take_item s items) (\<lambda>s.
     case next_token of
       None \<Rightarrow> io_return s
     | Some t \<Rightarrow> if t = [] then io_return s
                 else google_pages a left name root path pairs reader take_item (Some t) s)))"

fun graph_pages ::
    "'w agenda_provider \<Rightarrow> (string \<Rightarrow> ('i list \<times> string option) option) \<Rightarrow> nat \<Rightarrow> url \<Rightarrow> 'i list \<Rightarrow> ('w, provider_error, 'i list) io" where
  "graph_pages a reader 0 u items = io_error (page_limit_error ''Microsoft Graph'')"
| "graph_pages a reader (Suc left) u items =
     io_bind (get_json a reader MicrosoftGraphApi u) (\<lambda>(page, next_link).
     io_bind (io_lift (fold_r push_bounded items page)) (\<lambda>items.
     case next_link of
       None \<Rightarrow> io_return items
     | Some link \<Rightarrow>
         io_bind (io_lift (agenda_continuation_url (av_web a) MicrosoftGraphApi link)) (\<lambda>v.
         graph_pages a reader left v items)))"

definition graph_collection ::
    "'w agenda_provider \<Rightarrow> (string \<Rightarrow> ('i list \<times> string option) option) \<Rightarrow> url \<Rightarrow> nat \<Rightarrow> ('w, provider_error, 'i list) io" where
  "graph_collection a reader u max_pages = graph_pages a reader max_pages u []"

subsection \<open>Containers\<close>

definition google_task_lists :: "'w agenda_provider \<Rightarrow> ('w, provider_error, string list) io" where
  "google_task_lists a =
     google_pages a MAX_CONTAINER_PAGES ''Google task lists'' GoogleTasksApi [''users'', ''@me'', ''lists''] [(''maxResults'', ''100'')]
       (rd_google_lists (av_readers a))
       (\<lambda>lists list_id. if list_id \<noteq> [] then io_lift (push_container lists list_id) else io_return lists) None []"

definition google_calendars :: "'w agenda_provider \<Rightarrow> ('w, provider_error, google_calendar list) io" where
  "google_calendars a =
     google_pages a MAX_CONTAINER_PAGES ''Google calendars'' GoogleCalendarApi [''users'', ''me'', ''calendarList''] [(''maxResults'', ''100'')]
       (rd_google_calendars (av_readers a))
       (\<lambda>calendars c. if \<not> gcal_deleted c \<and> gcal_id c \<noteq> [] then io_lift (push_container calendars c) else io_return calendars)
       None []"

definition microsoft_containers ::
    "'w agenda_provider \<Rightarrow> string list \<Rightarrow> string \<Rightarrow> (string \<Rightarrow> ('i list \<times> string option) option) \<Rightarrow> ('w, provider_error, 'i list) io" where
  "microsoft_containers a path selected reader =
     io_bind (io_lift (url_of a MicrosoftGraphApi path [(''$top'', ''100''), (''$select'', selected)])) (\<lambda>u.
     io_bind (graph_collection a reader u MAX_CONTAINER_PAGES) (\<lambda>containers.
     io_bind (io_lift (require (length containers \<le> MAX_CONTAINERS) (ResourceTooLarge ''remote agenda containers''))) (\<lambda>_.
     io_return containers)))"

definition microsoft_task_lists :: "'w agenda_provider \<Rightarrow> ('w, provider_error, microsoft_task_list list) io" where
  "microsoft_task_lists a =
     microsoft_containers a [''me'', ''todo'', ''lists''] ''id,displayName,wellknownListName'' (rd_microsoft_lists (av_readers a))"

definition microsoft_calendars :: "'w agenda_provider \<Rightarrow> ('w, provider_error, microsoft_calendar list) io" where
  "microsoft_calendars a =
     microsoft_containers a [''me'', ''calendars''] ''id,name,canEdit,isDefaultCalendar'' (rd_microsoft_calendars (av_readers a))"

definition default_google_task_list :: "'w agenda_provider \<Rightarrow> ('w, provider_error, string) io" where
  "default_google_task_list a =
     io_bind (io_lift (api_url (av_web a) GoogleTasksApi [''users'', ''@me'', ''lists'', ''@default''])) (\<lambda>u.
     io_bind (get_json a (rd_google_list (av_readers a)) GoogleTasksApi u) (\<lambda>list_id.
     io_lift (checked_remote_id list_id)))"

definition default_google_calendar :: "'w agenda_provider \<Rightarrow> ('w, provider_error, string) io" where
  "default_google_calendar a =
     io_bind (google_calendars a) (\<lambda>calendars.
     io_lift (ok_or (map_option gcal_id (opt_or (find gcal_primary calendars)
       (find (\<lambda>c. \<not> google_calendar_is_read_only c) calendars))) ProviderNotFound))"

definition default_microsoft_task_list :: "'w agenda_provider \<Rightarrow> ('w, provider_error, string) io" where
  "default_microsoft_task_list a =
     io_bind (microsoft_task_lists a) (\<lambda>lists.
     io_lift (ok_or (map_option mtl_id (opt_or (find (\<lambda>l. mtl_wellknown_list_name l = Some ''defaultList'') lists)
       (case lists of [] \<Rightarrow> None | l # ls \<Rightarrow> Some l))) ProviderNotFound))"

definition default_microsoft_calendar :: "'w agenda_provider \<Rightarrow> ('w, provider_error, string) io" where
  "default_microsoft_calendar a =
     io_bind (microsoft_calendars a) (\<lambda>calendars.
     io_lift (ok_or (map_option mcal_id (opt_or (find (\<lambda>c. mcal_is_default c \<and> mcal_can_edit c) calendars)
       (find mcal_can_edit calendars))) ProviderNotFound))"

subsection \<open>Synchronising\<close>

definition av_now :: "'w agenda_provider \<Rightarrow> ('w, provider_error, int) io" where
  "av_now a w = (Inr (av_clock a w), w)"

definition keep_item :: "'i list \<Rightarrow> provider_error + 'i option \<Rightarrow> ('w, provider_error, 'i list) io" where
  "keep_item items r =
     io_bind (io_lift r) (\<lambda>item.
     case item of None \<Rightarrow> io_return items | Some x \<Rightarrow> io_lift (push_bounded items x))"

definition sync_google_tasks :: "'w agenda_provider \<Rightarrow> ('w, provider_error, task list) io" where
  "sync_google_tasks a =
     io_bind (google_task_lists a) (\<lambda>lists.
     io_fold (\<lambda>tasks list_id.
       google_pages a MAX_ITEM_PAGES ''Google Tasks'' GoogleTasksApi [''lists'', list_id, ''tasks'']
         [(''maxResults'', ''100''), (''showCompleted'', ''true''), (''showHidden'', ''true''), (''showDeleted'', ''false'')]
         (rd_google_tasks (av_readers a))
         (\<lambda>tasks raw. io_bind (av_now a) (\<lambda>now.
            keep_item tasks (normalize_google_task (av_web a) (av_dates a) now (av_account a) list_id raw))) None tasks) [] lists)"

definition sync_google_events :: "'w agenda_provider \<Rightarrow> int \<Rightarrow> int \<Rightarrow> ('w, provider_error, calendar_event list) io" where
  "sync_google_events a start finish =
     io_bind (google_calendars a) (\<lambda>calendars.
     io_fold (\<lambda>events c.
       google_pages a MAX_ITEM_PAGES ''Google Calendar'' GoogleCalendarApi [''calendars'', gcal_id c, ''events'']
         [(''maxResults'', ''250''), (''singleEvents'', ''true''), (''showDeleted'', ''false''), (''orderBy'', ''startTime''),
          (''timeMin'', dt_show_rfc3339 (av_dates a) start), (''timeMax'', dt_show_rfc3339 (av_dates a) finish)]
         (rd_google_events (av_readers a))
         (\<lambda>events raw. keep_item events (normalize_google_event (av_web a) (av_dates a) (av_account a) (gcal_id c)
            (google_calendar_is_read_only c) raw)) None events) [] calendars)"

definition sync_microsoft_tasks :: "'w agenda_provider \<Rightarrow> ('w, provider_error, task list) io" where
  "sync_microsoft_tasks a =
     io_bind (microsoft_task_lists a) (\<lambda>lists.
     io_fold (\<lambda>tasks l.
       io_bind (io_lift (api_url (av_web a) MicrosoftGraphApi [''me'', ''todo'', ''lists'', mtl_id l, ''tasks''])) (\<lambda>u.
       io_bind (graph_collection a (rd_microsoft_tasks (av_readers a)) u MAX_ITEM_PAGES) (\<lambda>raws.
       io_fold (\<lambda>tasks raw. io_bind (av_now a) (\<lambda>now.
         keep_item tasks (normalize_microsoft_task (av_web a) (av_dates a) now (av_account a) (mtl_id l) raw))) tasks raws))) [] lists)"

definition sync_microsoft_events :: "'w agenda_provider \<Rightarrow> int \<Rightarrow> int \<Rightarrow> ('w, provider_error, calendar_event list) io" where
  "sync_microsoft_events a start finish =
     io_bind (microsoft_calendars a) (\<lambda>calendars.
     io_fold (\<lambda>events c.
       io_bind (io_lift (url_of a MicrosoftGraphApi [''me'', ''calendars'', mcal_id c, ''calendarView'']
         [(''startDateTime'', dt_show_rfc3339 (av_dates a) start), (''endDateTime'', dt_show_rfc3339 (av_dates a) finish),
          (''$top'', ''250''), (''$select'', ''id,subject,body,bodyPreview,start,end,isAllDay,isCancelled'')])) (\<lambda>u.
       io_bind (graph_collection a (rd_microsoft_events (av_readers a)) u MAX_ITEM_PAGES) (\<lambda>raws.
       io_fold (\<lambda>events raw. keep_item events (normalize_microsoft_event (av_web a) (av_dates a) (av_account a) (mcal_id c)
         (\<not> mcal_can_edit c) raw)) events raws))) [] calendars)"

definition agenda_sync :: "'w agenda_provider \<Rightarrow> int \<Rightarrow> int \<Rightarrow> ('w, provider_error, agenda_page) io" where
  "agenda_sync a start finish =
     (if finish \<le> start then io_error (ProviderOther ''agenda range must end after it starts'')
      else
        io_bind (if \<not> av_tasks_enabled a then io_return []
          else (case av_family a of GoogleFamily \<Rightarrow> sync_google_tasks a | MicrosoftFamily \<Rightarrow> sync_microsoft_tasks a)) (\<lambda>tasks.
        io_bind (if \<not> av_calendar_enabled a then io_return []
          else (case av_family a of GoogleFamily \<Rightarrow> sync_google_events a start finish
            | MicrosoftFamily \<Rightarrow> sync_microsoft_events a start finish)) (\<lambda>events.
        io_return \<lparr>ap_tasks = tasks, ap_events = events\<rparr>)))"

end
