(* ===== verification/Agenda_Changes.thy ===== *)
theory Agenda_Changes
  imports Agenda_Provider
begin

section \<open>Changes to remote tasks and events\<close>

text \<open>
  The rest of \<open>AgendaProvider\<close> of \<open>providers/agenda.rs\<close>: what may be changed, where a task or an event is on the server,
  and the creation, the update and the deletion of each kind at each family.
\<close>

subsection \<open>Checks\<close>

definition validate_task_account :: "'w agenda_provider \<Rightarrow> task \<Rightarrow> provider_error + unit" where
  "validate_task_account a task =
     require (t_account task = [] \<or> t_account task = a_id (av_account a))
       (ProviderOther ''task belongs to a different QuickMail account'')"

definition ensure_tasks_enabled :: "'w agenda_provider \<Rightarrow> provider_error + unit" where
  "ensure_tasks_enabled a =
     require (av_tasks_enabled a) (Unsupported
       ((case av_family a of GoogleFamily \<Rightarrow> ''Google'' | MicrosoftFamily \<Rightarrow> ''Microsoft To Do'')
        @ '' tasks are disabled in GNOME Online Accounts''))"

definition ensure_calendar_enabled :: "'w agenda_provider \<Rightarrow> provider_error + unit" where
  "ensure_calendar_enabled a =
     require (av_calendar_enabled a)
       (Unsupported (family_display_name (av_family a) @ '' Calendar is disabled in GNOME Online Accounts''))"

definition at_midnight :: "int \<Rightarrow> bool" where
  "at_midnight t \<longleftrightarrow> t mod 86400000 = 0"

definition own_or_default :: "'w agenda_provider \<Rightarrow> calendar_event \<Rightarrow> bool" where
  "own_or_default a event \<longleftrightarrow> e_calendar_id event = [] \<or> e_calendar_id event = a_id (av_account a)"

definition validate_event :: "'w agenda_provider \<Rightarrow> calendar_event \<Rightarrow> bool \<Rightarrow> provider_error + unit" where
  "validate_event a event allow_account_container =
     (if trim (e_title event) = [] then Inl (ProviderOther ''event title cannot be empty'')
      else if e_end_at event \<le> e_start_at event then Inl (ProviderOther ''event must end after it starts'')
      else if e_all_day event \<and> \<not> (at_midnight (e_start_at event) \<and> at_midnight (e_end_at event))
      then Inl (ProviderOther ''all-day events must start and end at UTC midnight'')
      else if e_read_only event then Inl (Unsupported ''this remote calendar is read-only'')
      else if allow_account_container \<and> own_or_default a event then Inr ()
      else
        bind_r (decode_calendar_id (av_web a) (e_calendar_id event)) (\<lambda>(account_id, _).
        require (account_id = a_id (av_account a)) (ProviderOther ''event belongs to a different QuickMail account'')))"

subsection \<open>Where a task or an event is\<close>

text \<open>\<open>google_task_locator\<close> and \<open>microsoft_task_locator\<close> differ in the default list, the event locators in the default
  calendar.\<close>

definition locate ::
    "'w agenda_provider \<Rightarrow> string \<Rightarrow> string \<Rightarrow> string \<Rightarrow> ('w, provider_error, string) io \<Rightarrow> ('w, provider_error, string \<times> string) io" where
  "locate a pre i external_id container =
     (case decode_item_id (av_web a) pre i of
        Inr (account_id, container_id, remote_id) \<Rightarrow>
          io_lift (bind_r (ensure_same_account (a_id (av_account a)) account_id) (\<lambda>_. Inr (container_id, remote_id)))
      | Inl _ \<Rightarrow>
          if external_id = [] then io_error ProviderNotFound
          else
            io_bind container (\<lambda>container_id.
            io_bind (io_lift (checked_remote_id external_id)) (\<lambda>remote_id.
            io_return (container_id, remote_id))))"

definition google_task_locator :: "'w agenda_provider \<Rightarrow> task \<Rightarrow> ('w, provider_error, string \<times> string) io" where
  "google_task_locator a task = locate a TASK_ID_PREFIX (t_id task) (t_external_id task) (default_google_task_list a)"

definition microsoft_task_locator :: "'w agenda_provider \<Rightarrow> task \<Rightarrow> ('w, provider_error, string \<times> string) io" where
  "microsoft_task_locator a task = locate a TASK_ID_PREFIX (t_id task) (t_external_id task) (default_microsoft_task_list a)"

definition named_container ::
    "'w agenda_provider \<Rightarrow> calendar_event \<Rightarrow> ('w, provider_error, string) io \<Rightarrow> ('w, provider_error, string) io" where
  "named_container a event default_container =
     (if own_or_default a event then default_container
      else io_lift (bind_r (decode_calendar_id (av_web a) (e_calendar_id event)) (\<lambda>(account_id, container_id).
        bind_r (ensure_same_account (a_id (av_account a)) account_id) (\<lambda>_. Inr container_id))))"

definition google_event_container :: "'w agenda_provider \<Rightarrow> calendar_event \<Rightarrow> ('w, provider_error, string) io" where
  "google_event_container a event = named_container a event (default_google_calendar a)"

definition microsoft_event_container :: "'w agenda_provider \<Rightarrow> calendar_event \<Rightarrow> ('w, provider_error, string) io" where
  "microsoft_event_container a event = named_container a event (default_microsoft_calendar a)"

definition google_event_locator :: "'w agenda_provider \<Rightarrow> calendar_event \<Rightarrow> ('w, provider_error, string \<times> string) io" where
  "google_event_locator a event = locate a EVENT_ID_PREFIX (e_id event) (e_external_id event) (google_event_container a event)"

definition microsoft_event_locator :: "'w agenda_provider \<Rightarrow> calendar_event \<Rightarrow> ('w, provider_error, string \<times> string) io" where
  "microsoft_event_locator a event =
     locate a EVENT_ID_PREFIX (e_id event) (e_external_id event) (microsoft_event_container a event)"

subsection \<open>One change\<close>

text \<open>A change that answers with the resource: send it, read it, and refuse a resource that is gone.\<close>

definition changed ::
    "'w agenda_provider \<Rightarrow> (string \<Rightarrow> 'r option) \<Rightarrow> api_root \<Rightarrow> http_method \<Rightarrow> string list \<Rightarrow> json
     \<Rightarrow> (int \<Rightarrow> 'r \<Rightarrow> provider_error + 'i option) \<Rightarrow> string \<Rightarrow> ('w, provider_error, 'i) io" where
  "changed a reader root method path body norm_item gone =
     io_bind (io_lift (api_url (av_web a) root path)) (\<lambda>u.
     io_bind (send_json a reader root method u (Some body)) (\<lambda>raw.
     io_bind (av_now a) (\<lambda>now.
     io_bind (io_lift (norm_item now raw)) (\<lambda>item.
     io_lift (ok_or item (ProviderOther gone))))))"

definition removed_at :: "'w agenda_provider \<Rightarrow> api_root \<Rightarrow> string list \<Rightarrow> ('w, provider_error, unit) io" where
  "removed_at a root path =
     io_bind (io_lift (api_url (av_web a) root path)) (\<lambda>u. send_empty a root HttpDelete u)"

definition google_task_of :: "'w agenda_provider \<Rightarrow> string \<Rightarrow> int \<Rightarrow> google_task \<Rightarrow> provider_error + task option" where
  "google_task_of a list_id now = normalize_google_task (av_web a) (av_dates a) now (av_account a) list_id"

definition microsoft_task_of :: "'w agenda_provider \<Rightarrow> string \<Rightarrow> int \<Rightarrow> microsoft_task \<Rightarrow> provider_error + task option" where
  "microsoft_task_of a list_id now = normalize_microsoft_task (av_web a) (av_dates a) now (av_account a) list_id"

definition google_event_of :: "'w agenda_provider \<Rightarrow> string \<Rightarrow> google_event \<Rightarrow> provider_error + calendar_event option" where
  "google_event_of a calendar raw = normalize_google_event (av_web a) (av_dates a) (av_account a) calendar False raw"

definition microsoft_event_of :: "'w agenda_provider \<Rightarrow> string \<Rightarrow> microsoft_event \<Rightarrow> provider_error + calendar_event option" where
  "microsoft_event_of a calendar raw = normalize_microsoft_event (av_web a) (av_dates a) (av_account a) calendar False raw"

subsection \<open>Tasks\<close>

definition create_google_task :: "'w agenda_provider \<Rightarrow> task \<Rightarrow> ('w, provider_error, task) io" where
  "create_google_task a task =
     io_bind (default_google_task_list a) (\<lambda>list_id.
     io_bind (av_now a) (\<lambda>now.
     changed a (rd_google_task (av_readers a)) GoogleTasksApi HttpPost [''lists'', list_id, ''tasks'']
       (google_task_body (av_dates a) now task) (google_task_of a list_id) ''Google returned a deleted task after creation''))"

definition update_google_task :: "'w agenda_provider \<Rightarrow> task \<Rightarrow> ('w, provider_error, task) io" where
  "update_google_task a task =
     io_bind (google_task_locator a task) (\<lambda>(list_id, remote_id).
     io_bind (av_now a) (\<lambda>now.
     changed a (rd_google_task (av_readers a)) GoogleTasksApi HttpPatch [''lists'', list_id, ''tasks'', remote_id]
       (google_task_body (av_dates a) now task) (google_task_of a list_id) ''Google returned a deleted task after update''))"

definition delete_google_task :: "'w agenda_provider \<Rightarrow> task \<Rightarrow> ('w, provider_error, unit) io" where
  "delete_google_task a task =
     io_bind (google_task_locator a task) (\<lambda>(list_id, remote_id).
     removed_at a GoogleTasksApi [''lists'', list_id, ''tasks'', remote_id])"

definition create_microsoft_task :: "'w agenda_provider \<Rightarrow> task \<Rightarrow> ('w, provider_error, task) io" where
  "create_microsoft_task a task =
     io_bind (default_microsoft_task_list a) (\<lambda>list_id.
     changed a (rd_microsoft_task (av_readers a)) MicrosoftGraphApi HttpPost [''me'', ''todo'', ''lists'', list_id, ''tasks'']
       (microsoft_task_body (av_dates a) task) (microsoft_task_of a list_id) ''Microsoft returned a deleted task after creation'')"

definition update_microsoft_task :: "'w agenda_provider \<Rightarrow> task \<Rightarrow> ('w, provider_error, task) io" where
  "update_microsoft_task a task =
     io_bind (microsoft_task_locator a task) (\<lambda>(list_id, remote_id).
     changed a (rd_microsoft_task (av_readers a)) MicrosoftGraphApi HttpPatch
       [''me'', ''todo'', ''lists'', list_id, ''tasks'', remote_id]
       (microsoft_task_body (av_dates a) task) (microsoft_task_of a list_id) ''Microsoft returned a deleted task after update'')"

definition delete_microsoft_task :: "'w agenda_provider \<Rightarrow> task \<Rightarrow> ('w, provider_error, unit) io" where
  "delete_microsoft_task a task =
     io_bind (microsoft_task_locator a task) (\<lambda>(list_id, remote_id).
     removed_at a MicrosoftGraphApi [''me'', ''todo'', ''lists'', list_id, ''tasks'', remote_id])"

subsection \<open>Events\<close>

definition create_google_event :: "'w agenda_provider \<Rightarrow> calendar_event \<Rightarrow> ('w, provider_error, calendar_event) io" where
  "create_google_event a event =
     io_bind (google_event_container a event) (\<lambda>calendar.
     changed a (rd_google_event (av_readers a)) GoogleCalendarApi HttpPost [''calendars'', calendar, ''events'']
       (google_event_body (av_dates a) event) (\<lambda>_. google_event_of a calendar) ''Google returned a cancelled event after creation'')"

definition update_google_event :: "'w agenda_provider \<Rightarrow> calendar_event \<Rightarrow> ('w, provider_error, calendar_event) io" where
  "update_google_event a event =
     io_bind (google_event_locator a event) (\<lambda>(calendar, remote_id).
     changed a (rd_google_event (av_readers a)) GoogleCalendarApi HttpPatch [''calendars'', calendar, ''events'', remote_id]
       (google_event_body (av_dates a) event) (\<lambda>_. google_event_of a calendar) ''Google returned a cancelled event after update'')"

definition delete_google_event :: "'w agenda_provider \<Rightarrow> calendar_event \<Rightarrow> ('w, provider_error, unit) io" where
  "delete_google_event a event =
     io_bind (google_event_locator a event) (\<lambda>(calendar, remote_id).
     removed_at a GoogleCalendarApi [''calendars'', calendar, ''events'', remote_id])"

definition create_microsoft_event :: "'w agenda_provider \<Rightarrow> calendar_event \<Rightarrow> ('w, provider_error, calendar_event) io" where
  "create_microsoft_event a event =
     io_bind (microsoft_event_container a event) (\<lambda>calendar.
     changed a (rd_microsoft_event (av_readers a)) MicrosoftGraphApi HttpPost [''me'', ''calendars'', calendar, ''events'']
       (microsoft_event_body (av_dates a) event) (\<lambda>_. microsoft_event_of a calendar)
       ''Microsoft returned a cancelled event after creation'')"

definition update_microsoft_event :: "'w agenda_provider \<Rightarrow> calendar_event \<Rightarrow> ('w, provider_error, calendar_event) io" where
  "update_microsoft_event a event =
     io_bind (microsoft_event_locator a event) (\<lambda>(calendar, remote_id).
     changed a (rd_microsoft_event (av_readers a)) MicrosoftGraphApi HttpPatch
       [''me'', ''calendars'', calendar, ''events'', remote_id]
       (microsoft_event_body (av_dates a) event) (\<lambda>_. microsoft_event_of a calendar)
       ''Microsoft returned a cancelled event after update'')"

definition delete_microsoft_event :: "'w agenda_provider \<Rightarrow> calendar_event \<Rightarrow> ('w, provider_error, unit) io" where
  "delete_microsoft_event a event =
     io_bind (microsoft_event_locator a event) (\<lambda>(calendar, remote_id).
     removed_at a MicrosoftGraphApi [''me'', ''calendars'', calendar, ''events'', remote_id])"

subsection \<open>The interface\<close>

definition task_call :: "'w agenda_provider \<Rightarrow> task \<Rightarrow> ('w, provider_error, 'a) io \<Rightarrow> ('w, provider_error, 'a) io \<Rightarrow> ('w, provider_error, 'a) io" where
  "task_call a task google microsoft =
     io_bind (io_lift (ensure_tasks_enabled a)) (\<lambda>_.
     io_bind (io_lift (validate_task_account a task)) (\<lambda>_.
     case av_family a of GoogleFamily \<Rightarrow> google | MicrosoftFamily \<Rightarrow> microsoft))"

definition av_create_task :: "'w agenda_provider \<Rightarrow> task \<Rightarrow> ('w, provider_error, task) io" where
  "av_create_task a task = task_call a task (create_google_task a task) (create_microsoft_task a task)"

definition av_update_task :: "'w agenda_provider \<Rightarrow> task \<Rightarrow> ('w, provider_error, task) io" where
  "av_update_task a task = task_call a task (update_google_task a task) (update_microsoft_task a task)"

definition av_complete_task :: "'w agenda_provider \<Rightarrow> task \<Rightarrow> bool \<Rightarrow> ('w, provider_error, task) io" where
  "av_complete_task a task completed = av_update_task a (task\<lparr>t_done := completed\<rparr>)"

definition av_delete_task :: "'w agenda_provider \<Rightarrow> task \<Rightarrow> ('w, provider_error, unit) io" where
  "av_delete_task a task = task_call a task (delete_google_task a task) (delete_microsoft_task a task)"

definition event_call ::
    "'w agenda_provider \<Rightarrow> calendar_event \<Rightarrow> bool \<Rightarrow> ('w, provider_error, 'a) io \<Rightarrow> ('w, provider_error, 'a) io \<Rightarrow> ('w, provider_error, 'a) io" where
  "event_call a event allow google microsoft =
     io_bind (io_lift (ensure_calendar_enabled a)) (\<lambda>_.
     io_bind (io_lift (validate_event a event allow)) (\<lambda>_.
     case av_family a of GoogleFamily \<Rightarrow> google | MicrosoftFamily \<Rightarrow> microsoft))"

definition av_create_event :: "'w agenda_provider \<Rightarrow> calendar_event \<Rightarrow> ('w, provider_error, calendar_event) io" where
  "av_create_event a event = event_call a event True (create_google_event a event) (create_microsoft_event a event)"

definition av_update_event :: "'w agenda_provider \<Rightarrow> calendar_event \<Rightarrow> ('w, provider_error, calendar_event) io" where
  "av_update_event a event = event_call a event False (update_google_event a event) (update_microsoft_event a event)"

definition av_delete_event :: "'w agenda_provider \<Rightarrow> calendar_event \<Rightarrow> ('w, provider_error, unit) io" where
  "av_delete_event a event = event_call a event False (delete_google_event a event) (delete_microsoft_event a event)"

definition av_supports_due_time :: "'w agenda_provider \<Rightarrow> bool" where
  "av_supports_due_time a \<longleftrightarrow> av_family a = MicrosoftFamily"

end
