(* ===== verification/Agenda_Facts.thy ===== *)
theory Agenda_Facts
  imports Agenda_Changes Daemon_Agenda
begin

section \<open>What the agenda provider promises\<close>

text \<open>
  Where its requests go, that the identifiers it gives away lead back to the resource and to the account, that a
  synchronisation fits the store, and that a service that is switched off is left alone.
\<close>

subsection \<open>Requests go to the interfaces of the family only\<close>

fun root_family :: "api_root \<Rightarrow> goa_family" where
  "root_family GoogleCalendarApi = GoogleFamily"
| "root_family GoogleTasksApi = GoogleFamily"
| "root_family MicrosoftGraphApi = MicrosoftFamily"

definition agenda_request_ok :: "goa_family \<Rightarrow> web_request \<Rightarrow> bool" where
  "agenda_request_ok family r \<longleftrightarrow> list_ex (\<lambda>root. root_family root = family \<and> agenda_url_ok root (hq_url r))
     [GoogleCalendarApi, GoogleTasksApi, MicrosoftGraphApi]"

lemma agenda_request_okI: "agenda_url_ok root (hq_url r) \<Longrightarrow> agenda_request_ok (root_family root) r"
  by (cases root) (simp_all add: agenda_request_ok_def)

definition agenda_keeps :: "('w \<Rightarrow> bool) \<Rightarrow> 'w agenda_provider \<Rightarrow> bool" where
  "agenda_keeps I a \<longleftrightarrow> sends_only (agenda_request_ok (av_family a)) I (av_web a)"

locale agenda_guard =
  fixes I :: "'w \<Rightarrow> bool" and a :: "'w agenda_provider"
  assumes keeps: "agenda_keeps I a"
begin

lemma keeps_attempt:
  assumes "agenda_url_ok root u" and "root_family root = av_family a"
  shows "io_keeps I (agenda_attempt a root method u body force)"
proof -
  have "io_keeps I (wb_send (av_web a) r)" if "hq_url r = u" for r
    using keeps agenda_request_okI [of root r] assms that by (auto simp: agenda_keeps_def sends_only_def)
  moreover have "io_keeps I (wb_token (av_web a) force)" using keeps by (simp add: agenda_keeps_def sends_only_def)
  ultimately show ?thesis unfolding agenda_attempt_def by (auto intro!: inv_intros)
qed

lemma keeps_agenda_request: "root_family root = av_family a \<Longrightarrow> io_keeps I (agenda_request a root method u body)"
  unfolding agenda_request_def validate_agenda_url_def
  by (rule io_keeps_bind_lift) (auto simp: result_simps split: prod.split intro!: inv_intros keeps_attempt)

lemma keeps_send_json: "root_family root = av_family a \<Longrightarrow> io_keeps I (send_json a reader root method u value)"
  unfolding send_json_def Let_def by (auto intro!: inv_intros keeps_agenda_request)

lemma keeps_get_json: "root_family root = av_family a \<Longrightarrow> io_keeps I (get_json a reader root u)"
  unfolding get_json_def by (rule keeps_send_json)

lemma keeps_send_empty: "root_family root = av_family a \<Longrightarrow> io_keeps I (send_empty a root method u)"
  unfolding send_empty_def by (auto intro!: inv_intros keeps_agenda_request)

lemma keeps_google_pages:
  "root_family root = av_family a \<Longrightarrow> (\<And>s x. io_keeps I (take_item s x)) \<Longrightarrow>
    io_keeps I (google_pages a left name root path pairs reader take_item token s)"
  by (induction left arbitrary: token s)
    (auto split: prod.split option.split intro!: inv_intros keeps_get_json)

lemma keeps_graph_pages: "av_family a = MicrosoftFamily \<Longrightarrow> io_keeps I (graph_pages a reader left u items)"
  by (induction left arbitrary: u items) (auto split: prod.split option.split intro!: inv_intros keeps_get_json)

lemma keeps_now: "io_keeps I (av_now a)"
  by (simp add: io_keeps_def av_now_def)

lemma keeps_keep_item: "io_keeps I (keep_item items r)"
  unfolding keep_item_def by (auto split: option.split intro!: inv_intros)

lemmas agenda_keep_rules = inv_intros keeps_now keeps_keep_item keeps_send_json keeps_get_json keeps_send_empty
  keeps_google_pages keeps_graph_pages

lemma keeps_google_containers:
  assumes "av_family a = GoogleFamily"
  shows "io_keeps I (google_task_lists a)" "io_keeps I (google_calendars a)" "io_keeps I (default_google_task_list a)"
  unfolding google_task_lists_def google_calendars_def default_google_task_list_def
  by (auto simp: assms intro!: agenda_keep_rules)

lemma keeps_microsoft_containers:
  assumes "av_family a = MicrosoftFamily"
  shows "io_keeps I (microsoft_task_lists a)" "io_keeps I (microsoft_calendars a)"
  unfolding microsoft_task_lists_def microsoft_calendars_def microsoft_containers_def graph_collection_def
  by (auto simp: assms intro!: agenda_keep_rules)

lemma keeps_google_default: "av_family a = GoogleFamily \<Longrightarrow> io_keeps I (default_google_calendar a)"
  unfolding default_google_calendar_def by (auto intro!: agenda_keep_rules keeps_google_containers)

lemma keeps_microsoft_default:
  "av_family a = MicrosoftFamily \<Longrightarrow> io_keeps I (default_microsoft_task_list a)"
  "av_family a = MicrosoftFamily \<Longrightarrow> io_keeps I (default_microsoft_calendar a)"
  unfolding default_microsoft_task_list_def default_microsoft_calendar_def
  by (auto intro!: agenda_keep_rules keeps_microsoft_containers)

lemma keeps_agenda_sync: "io_keeps I (agenda_sync a start finish)"
  unfolding agenda_sync_def sync_google_tasks_def sync_google_events_def sync_microsoft_tasks_def sync_microsoft_events_def
    graph_collection_def
  by (cases "av_family a")
    (auto intro!: agenda_keep_rules keeps_google_containers keeps_microsoft_containers)

lemma keeps_locate: "io_keeps I container \<Longrightarrow> io_keeps I (locate a pre i external_id container)"
  unfolding locate_def by (auto split: sum.split prod.split intro!: inv_intros)

lemma keeps_named: "io_keeps I default_container \<Longrightarrow> io_keeps I (named_container a event default_container)"
  unfolding named_container_def by (auto intro!: inv_intros)

lemma keeps_changed: "root_family root = av_family a \<Longrightarrow> io_keeps I (changed a reader root method path body norm_item gone)"
  unfolding changed_def by (auto intro!: agenda_keep_rules)

lemma keeps_removed: "root_family root = av_family a \<Longrightarrow> io_keeps I (removed_at a root path)"
  unfolding removed_at_def by (auto intro!: agenda_keep_rules)

lemmas change_keep_rules = keeps_locate keeps_named keeps_changed keeps_removed keeps_google_containers keeps_google_default
  keeps_microsoft_default

lemma keeps_google_changes:
  assumes "av_family a = GoogleFamily"
  shows "io_keeps I (create_google_task a t)" "io_keeps I (update_google_task a t)" "io_keeps I (delete_google_task a t)"
    "io_keeps I (create_google_event a e)" "io_keeps I (update_google_event a e)" "io_keeps I (delete_google_event a e)"
  unfolding create_google_task_def update_google_task_def delete_google_task_def create_google_event_def
    update_google_event_def delete_google_event_def google_task_locator_def google_event_locator_def google_event_container_def
  by (auto simp: assms split: prod.split intro!: inv_intros keeps_now change_keep_rules)

lemma keeps_microsoft_changes:
  assumes "av_family a = MicrosoftFamily"
  shows "io_keeps I (create_microsoft_task a t)" "io_keeps I (update_microsoft_task a t)" "io_keeps I (delete_microsoft_task a t)"
    "io_keeps I (create_microsoft_event a e)" "io_keeps I (update_microsoft_event a e)" "io_keeps I (delete_microsoft_event a e)"
  unfolding create_microsoft_task_def update_microsoft_task_def delete_microsoft_task_def create_microsoft_event_def
    update_microsoft_event_def delete_microsoft_event_def microsoft_task_locator_def microsoft_event_locator_def
    microsoft_event_container_def
  by (auto simp: assms split: prod.split intro!: inv_intros keeps_now change_keep_rules)

lemma keeps_interface:
  shows "io_keeps I (av_create_task a t)" "io_keeps I (av_update_task a t)" "io_keeps I (av_complete_task a t b)"
    "io_keeps I (av_delete_task a t)" "io_keeps I (av_create_event a e)" "io_keeps I (av_update_event a e)"
    "io_keeps I (av_delete_event a e)"
  unfolding av_create_task_def av_update_task_def av_complete_task_def av_delete_task_def av_create_event_def
    av_update_event_def av_delete_event_def task_call_def event_call_def
  by (cases "av_family a"; auto intro!: inv_intros keeps_google_changes keeps_microsoft_changes)+

end

text \<open>The log of the requests is such an invariant.\<close>

definition watched :: "('w \<times> web_request list) agenda_provider \<Rightarrow> 'w web \<Rightarrow> ('w \<times> web_request list) agenda_provider" where
  "watched a web = a\<lparr>av_web := logged web\<rparr>"

interpretation guard: agenda_guard "requests_all (agenda_request_ok (av_family a))" "watched a web" for a web
  by unfold_locales (simp add: agenda_keeps_def watched_def sends_only_logged)

definition asked :: "('w \<times> web_request list, 'e, 'a) io \<Rightarrow> 'w \<Rightarrow> web_request list" where
  "asked m w = snd (snd (m (w, [])))"

lemma asked_ok: "io_keeps (requests_all ok) m \<Longrightarrow> list_all ok (asked m w)"
  unfolding io_keeps_def requests_all_def asked_def list_all_iff by (erule allE [of _ "(w, [])"]) simp

fun meant_for :: "goa_family \<Rightarrow> url \<Rightarrow> bool" where
  "meant_for GoogleFamily u \<longleftrightarrow>
     u_host u = Some ''www.googleapis.com'' \<and> starts_with (u_path u) ''/calendar/v3/''
     \<or> u_host u = Some ''tasks.googleapis.com'' \<and> starts_with (u_path u) ''/tasks/v1/''"
| "meant_for MicrosoftFamily u \<longleftrightarrow> u_host u = Some ''graph.microsoft.com'' \<and> starts_with (u_path u) ''/v1.0/''"

definition confined :: "goa_family \<Rightarrow> web_request \<Rightarrow> bool" where
  "confined family r \<longleftrightarrow> meant_for family (hq_url r) \<and> u_scheme (hq_url r) = ''https'' \<and> u_port (hq_url r) \<in> {None, Some 443}
     \<and> u_username (hq_url r) = [] \<and> u_password (hq_url r) = None \<and> u_fragment (hq_url r) = None"

lemma agenda_request_ok_confined: "agenda_request_ok family r \<Longrightarrow> confined family r"
  by (cases family) (auto simp: agenda_request_ok_def agenda_url_ok_def confined_def)

lemma asked_confined: "io_keeps (requests_all (agenda_request_ok family)) m \<Longrightarrow> list_all (confined family) (asked m w)"
  by (rule list.pred_mono_strong [OF asked_ok agenda_request_ok_confined])

text \<open>C3: the token of an account goes to its own provider only. Whatever the agenda provider is asked and whatever the
  server answers, the links to further pages included, every request of a Google account is an HTTPS request to the
  Calendar or the Tasks interface of Google and every request of a Microsoft account is one to Microsoft Graph, on the
  default port and below the path of the interface, without credentials in the URL.\<close>

theorem agenda_requests_confined:
  "list_all (confined (av_family a)) (asked (agenda_sync (watched a web) start finish) w @ asked (av_create_task (watched a web) t) w
    @ asked (av_update_task (watched a web) t) w @ asked (av_complete_task (watched a web) t b) w
    @ asked (av_delete_task (watched a web) t) w @ asked (av_create_event (watched a web) e) w
    @ asked (av_update_event (watched a web) e) w @ asked (av_delete_event (watched a web) e) w)"
  unfolding list_all_append
  by (intro conjI asked_confined guard.keeps_agenda_sync guard.keeps_interface)

end
