(* ===== verification/Agenda_Routing.thy ===== *)
theory Agenda_Routing
  imports Agenda_Facts
begin

section \<open>Identifiers and pages of the agenda\<close>

text \<open>
  The identifiers that the agenda provider gives to tasks, events and calendars lead back to the account, the container
  and the resource, for the provider and for the daemon, and what a synchronisation brings is what the store takes.
\<close>

subsection \<open>Identifiers\<close>

lemma checked_remote_id_Inr [result_simps]:
  "checked_remote_id s = Inr t \<longleftrightarrow> t = s \<and> s \<noteq> [] \<and> length s \<le> MAX_REMOTE_ID_BYTES \<and> \<not> list_ex is_control_char (utf8_chars s)"
  by (auto simp: checked_remote_id_def)

definition readable :: "string \<Rightarrow> bool" where
  "readable s \<longleftrightarrow> valid_utf8 s \<and> checked_remote_id s = Inr s"

lemma find_sub_fresh:
  assumes "starts_with t (c # n)" and "c \<notin> set s"
  shows "find_sub (s @ t) (c # n) = Some (length s)"
  using assms(2)
proof (induction s)
  case Nil
  with assms(1) show ?case by (cases t) (auto simp: starts_with_def)
next
  case (Cons x s)
  then have "\<not> starts_with (x # s @ t) (c # n)" by (auto simp: starts_with_def)
  with Cons show ?case by simp
qed

lemma calendar_marker_rev: "rev calendar_marker = CHR ''.'' # rev ('':'' @ CALENDAR_ID_PREFIX)"
  by (simp add: calendar_marker_def CALENDAR_ID_PREFIX_def)

lemma rsplit_sub_marker:
  assumes "CHR ''.'' \<notin> set s"
  shows "rsplit_sub (a @ calendar_marker @ s) calendar_marker = Some (a, s)"
proof -
  let ?v = "a @ calendar_marker @ s"
  have "find_sub (rev s @ (rev calendar_marker @ rev a)) (rev calendar_marker) = Some (length (rev s))"
    using assms unfolding calendar_marker_rev by (intro find_sub_fresh) (simp_all add: starts_with_iff)
  then have "find_sub (rev ?v) (rev calendar_marker) = Some (length s)" by simp
  then show ?thesis by (simp add: rsplit_sub_def)
qed

context base64url
begin

lemma enc_no_sep: "CHR ''.'' \<notin> set (enc s)" "CHR '':'' \<notin> set (enc s)"
  by (rule enc_not_in; code_simp)+

end

abbreviation url_codec :: "'w web \<Rightarrow> bool" where
  "url_codec web \<equiv> base64url (wb_encode web) (wb_decode web)"

lemma encode_component_Inr [result_simps]:
  "encode_component web s = Inr e \<longleftrightarrow> checked_remote_id s = Inr s \<and> e = wb_encode web s"
  by (auto simp: encode_component_def result_simps)

lemma decode_encode_component:
  "url_codec web \<Longrightarrow> readable s \<Longrightarrow> decode_component web (wb_encode web s) = Inr s"
  by (simp add: decode_component_def readable_def Let_def base64url.dec_enc ok_or_def require_def)

lemma decode_item_id_of:
  assumes codec: "url_codec web" and i: "item_id web pre a c r = Inr i" and "CHR ''.'' \<notin> set pre"
    and "valid_utf8 a" "valid_utf8 c" "valid_utf8 r"
  shows "decode_item_id web pre i = Inr (a, c, r)"
proof -
  from i have parts: "readable a" "readable c" "readable r" "length i \<le> MAX_EXPOSED_ID_BYTES"
    and i': "i = pre @ CHR ''.'' # wb_encode web a @ CHR ''.'' # wb_encode web c @ CHR ''.'' # wb_encode web r"
    using assms(4-6) by (auto simp: item_id_def bounded_exposed_id_def readable_def result_simps split: if_splits)
  have "split_on (CHR ''.'') i = [pre, wb_encode web a, wb_encode web c, wb_encode web r]"
    unfolding i' using assms(3) base64url.enc_no_sep(1) [OF codec] by (simp add: split_on_append split_on_no_sep)
  with parts show ?thesis
    by (simp add: decode_item_id_def Let_def decode_encode_component [OF codec])
qed

lemma calendar_id_shape:
  "calendar_id web a c = Inr i \<Longrightarrow> i = a @ calendar_marker @ wb_encode web c \<and> checked_remote_id a = Inr a
    \<and> checked_remote_id c = Inr c \<and> length i \<le> MAX_EXPOSED_ID_BYTES"
  by (auto simp: calendar_id_def calendar_marker_def bounded_exposed_id_def result_simps split: if_splits)

lemma decode_calendar_id_of:
  assumes codec: "url_codec web" and "calendar_id web a c = Inr i" and "valid_utf8 c"
  shows "decode_calendar_id web i = Inr (a, c)"
  using calendar_id_shape [OF assms(2)] rsplit_sub_marker [OF base64url.enc_no_sep(1) [OF codec]]
    decode_encode_component [OF codec, of c] assms(3)
  by (auto simp: decode_calendar_id_def readable_def require_def ok_or_def)

lemma locate_of:
  assumes "url_codec (av_web p)" and "item_id (av_web p) pre (a_id (av_account p)) c r = Inr i" and "CHR ''.'' \<notin> set pre"
    and "valid_utf8 (a_id (av_account p))" "valid_utf8 c" "valid_utf8 r"
  shows "locate p pre i ext container w = (Inr (c, r), w)"
  using decode_item_id_of [OF assms] by (simp add: locate_def ensure_same_account_def io_lift_def require_def)

lemma id_prefixes: "CHR ''.'' \<notin> set TASK_ID_PREFIX" "CHR ''.'' \<notin> set EVENT_ID_PREFIX"
  by (simp_all add: TASK_ID_PREFIX_def EVENT_ID_PREFIX_def)

text \<open>The resources that became tasks and events.\<close>

lemma normalized_google_task:
  "normalize_google_task web dates now account c raw = Inr (Some t) \<Longrightarrow>
    item_id web TASK_ID_PREFIX (a_id account) c (gt_id raw) = Inr (t_id t) \<and> t_external_id t = gt_id raw
    \<and> t_account t = a_id account \<and> t_source t = ''google_tasks''"
  by (auto simp: normalize_google_task_def result_simps split: if_splits)

lemma normalized_microsoft_task:
  "normalize_microsoft_task web dates now account c raw = Inr (Some t) \<Longrightarrow>
    item_id web TASK_ID_PREFIX (a_id account) c (mt_id raw) = Inr (t_id t) \<and> t_external_id t = mt_id raw
    \<and> t_account t = a_id account \<and> t_source t = ''microsoft_todo''"
  by (auto simp: normalize_microsoft_task_def result_simps split: if_splits)

lemma normalized_google_event:
  "normalize_google_event web dates account c ro raw = Inr (Some e) \<Longrightarrow>
    item_id web EVENT_ID_PREFIX (a_id account) c (ge_id raw) = Inr (e_id e) \<and> e_external_id e = ge_id raw
    \<and> calendar_id web (a_id account) c = Inr (e_calendar_id e) \<and> e_start_at e < e_end_at e"
  by (auto simp: normalize_google_event_def result_simps split: if_splits)

lemma normalized_microsoft_event:
  "normalize_microsoft_event web dates account c ro raw = Inr (Some e) \<Longrightarrow>
    item_id web EVENT_ID_PREFIX (a_id account) c (me_id raw) = Inr (e_id e) \<and> e_external_id e = me_id raw
    \<and> calendar_id web (a_id account) c = Inr (e_calendar_id e) \<and> e_start_at e < e_end_at e"
  by (auto simp: normalize_microsoft_event_def result_simps split: if_splits)

text \<open>C20: a remote task or event is found again. What the provider makes of a resource carries an identifier that leads
  it back, without a question to the server, to the very list or calendar and resource that it came from, whichever of
  the two families and kinds it is.\<close>

theorem remote_items_are_found_again:
  fixes p :: "'w agenda_provider"
  assumes codec: "url_codec (av_web p)" and account: "valid_utf8 (a_id (av_account p))"
    and gt: "normalize_google_task (av_web p) (av_dates p) now (av_account p) c1 r1 = Inr (Some t1)" "valid_utf8 c1" "valid_utf8 (gt_id r1)"
    and mt: "normalize_microsoft_task (av_web p) (av_dates p) now (av_account p) c2 r2 = Inr (Some t2)" "valid_utf8 c2" "valid_utf8 (mt_id r2)"
    and ge: "normalize_google_event (av_web p) (av_dates p) (av_account p) c3 ro3 r3 = Inr (Some e3)" "valid_utf8 c3" "valid_utf8 (ge_id r3)"
    and me: "normalize_microsoft_event (av_web p) (av_dates p) (av_account p) c4 ro4 r4 = Inr (Some e4)" "valid_utf8 c4" "valid_utf8 (me_id r4)"
  shows "google_task_locator p t1 w = (Inr (c1, gt_id r1), w) \<and> microsoft_task_locator p t2 w = (Inr (c2, mt_id r2), w)
    \<and> google_event_locator p e3 w = (Inr (c3, ge_id r3), w) \<and> microsoft_event_locator p e4 w = (Inr (c4, me_id r4), w)"
  unfolding google_task_locator_def microsoft_task_locator_def google_event_locator_def microsoft_event_locator_def
  using normalized_google_task [OF gt(1)] normalized_microsoft_task [OF mt(1)] normalized_google_event [OF ge(1)]
    normalized_microsoft_event [OF me(1)]
  by (intro conjI locate_of codec account id_prefixes gt mt ge me) simp_all

subsection \<open>The daemon finds the account of an event\<close>

lemma max_by_key_greatest:
  "x \<in> set xs \<Longrightarrow> \<forall>y \<in> set xs. f y \<le> f x \<Longrightarrow> \<exists>y \<in> set xs. max_by_key f xs = Some y \<and> f y = f x"
proof (induction xs arbitrary: x)
  case (Cons z zs)
  show ?case
  proof (cases "x \<in> set zs")
    case True
    with Cons obtain y where "y \<in> set zs" "max_by_key f zs = Some y" "f y = f x" by auto
    with Cons.prems(2) show ?thesis by auto
  next
    case False
    with Cons.prems have x: "x = z" "\<forall>y \<in> set zs. f y \<le> f z" by auto
    show ?thesis
    proof (cases "max_by_key f zs")
      case (Some y)
      then have "y \<in> set zs"
        by (induction zs arbitrary: y) (auto split: option.splits if_splits)
      with Some x show ?thesis by (auto intro: le_antisym)
    qed (simp add: x)
  qed
qed simp

lemma calendar_marker_colons: "calendar_marker = CHR '':'' # m \<Longrightarrow> CHR '':'' \<notin> set m"
  by (auto simp: calendar_marker_def CALENDAR_ID_PREFIX_def)

lemma marker_owner:
  assumes "a @ calendar_marker @ s = b @ calendar_marker @ t" and "CHR '':'' \<notin> set s"
  shows "length b \<le> length a"
proof (rule ccontr)
  assume "\<not> length b \<le> length a"
  then have "length a < length b" by simp
  then obtain x where b: "b = a @ x" "x \<noteq> []"
    using assms(1) by (metis append_eq_append_conv2 append_Nil2 append_eq_append_conv_if less_irrefl not_less order_less_imp_le self_append_conv)
  obtain m where m: "calendar_marker = CHR '':'' # m" by (simp add: calendar_marker_def)
  from assms(1) b(1) have "calendar_marker @ s = x @ calendar_marker @ t" by simp
  with b(2) have "m @ s = tl x @ CHR '':'' # m @ t" unfolding m by (cases x) simp_all
  then have "CHR '':'' \<in> set (m @ s)" by simp
  with assms(2) calendar_marker_colons [OF m] show False by simp
qed

lemma owns_calendar_iff:
  "owns_calendar i b \<longleftrightarrow> agenda_account_supported b \<and> (\<exists>t. i = a_id b @ calendar_marker @ t)"
  by (auto simp: owns_calendar_def str_simps starts_with_iff calendar_marker_def CALENDAR_ID_PREFIX_def split: option.splits)

text \<open>C16: an event goes back to the account that it came from. The calendar of an event that the provider of an account
  returned leads the daemon to that account among all accounts of the store, even when the name of one account begins
  the name of another, and the check of the provider reads the same account and calendar out of it.\<close>

theorem remote_event_returns_to_its_account:
  assumes codec: "url_codec web" and calendar: "calendar_id web (a_id account) c = Inr i" and utf8: "valid_utf8 c"
    and listed: "list_accounts (dm_db (de_others env s)) = Inr accounts" "account \<in> set accounts"
    and supported: "agenda_account_supported account"
  shows "fst (remote_event_account env i s) = Inr (Some (a_id account)) \<and> decode_calendar_id web i = Inr (a_id account, c)"
proof -
  have i: "i = a_id account @ calendar_marker @ wb_encode web c" using calendar_id_shape [OF calendar] by simp
  let ?owners = "filter (owns_calendar i) accounts"
  have mem: "account \<in> set ?owners" using listed(2) supported i by (auto simp: owns_calendar_iff)
  have longest: "\<forall>b \<in> set ?owners. length (a_id b) \<le> length (a_id account)"
  proof
    fix b assume "b \<in> set ?owners"
    then obtain t where "i = a_id b @ calendar_marker @ t" by (auto simp: owns_calendar_iff)
    then show "length (a_id b) \<le> length (a_id account)"
      using marker_owner base64url.enc_no_sep(2) [OF codec] unfolding i by blast
  qed
  from max_by_key_greatest [OF mem longest] obtain b where b: "b \<in> set ?owners"
    "max_by_key (\<lambda>a. length (a_id a)) ?owners = Some b" "length (a_id b) = length (a_id account)" by auto
  then obtain t where "i = a_id b @ calendar_marker @ t" by (auto simp: owns_calendar_iff)
  with b(3) have "a_id b = a_id account" unfolding i by (simp add: append_eq_append_conv)
  with b(2) have "fst (remote_event_account env i s) = Inr (Some (a_id account))"
    by (simp add: remote_event_account_def storage_def db_read_def db_call_def listed(1) Let_def io_bind_def io_map_err_def
        map_ok_def map_err_def io_return_def)
  with decode_calendar_id_of [OF codec calendar utf8] show ?thesis by simp
qed

end
