(* ===== verification/Agenda_Pages.thy ===== *)
theory Agenda_Pages
  imports Agenda_Routing
begin

section \<open>What a synchronisation of the agenda brings\<close>

text \<open>
  The pages of a collection are read to the end, and what a synchronisation brings is of the account, valid for the
  store, and bounded. A sample provider shows that the hypotheses of this theory and of \<open>Agenda_Routing\<close> hold together.
\<close>

subsection \<open>A page of the agenda fits the store\<close>

lemma io_post_fold: "(\<And>s x. Q s \<Longrightarrow> io_post I (f s x) Q) \<Longrightarrow> Q s \<Longrightarrow> io_post I (io_fold f s xs) Q"
  by (induction xs arbitrary: s) (auto intro: io_post_return io_post_bind)

lemma io_post_now: "(\<And>w. valid_ts (av_clock a w)) \<Longrightarrow> io_post I (av_now a) valid_ts"
  by (auto simp: io_post_def av_now_def)

text \<open>Every run keeps the trivial invariant.\<close>

abbreviation brings :: "('w, 'e, 'a) io \<Rightarrow> ('a \<Rightarrow> bool) \<Rightarrow> bool" where
  "brings \<equiv> io_post (\<lambda>_. True)"

lemma brings_anything: "brings m anything"
  by (simp add: io_post_def)

lemma brings_google_pages:
  "(\<And>s x. Q s \<Longrightarrow> brings (take_item s x) Q) \<Longrightarrow> Q s \<Longrightarrow>
    brings (google_pages a left name root path pairs reader take_item token s) Q"
proof (induction left arbitrary: token s)
  case 0
  then show ?case by (simp add: io_post_error)
next
  case (Suc left)
  show ?case
    unfolding google_pages.simps
    by (intro io_post_bind [OF brings_anything])
      (auto split: prod.split option.split intro!: io_post_bind [OF io_post_fold [where Q = Q]] io_post_return Suc)
qed

text \<open>What the parsers of \<open>chrono\<close> and the clock return is a \<open>DateTime<Utc>\<close>.\<close>

definition dates_ok :: "'w agenda_provider \<Rightarrow> bool" where
  "dates_ok a \<longleftrightarrow> (\<forall>w. valid_ts (av_clock a w))
     \<and> (\<forall>s t. dt_date (av_dates a) s = Some t \<longrightarrow> valid_ts t) \<and> (\<forall>s t. dt_rfc3339 (av_dates a) s = Some t \<longrightarrow> valid_ts t)
     \<and> (\<forall>f s t. dt_naive (av_dates a) f s = Some t \<longrightarrow> valid_ts t)"

definition task_fits :: "'w agenda_provider \<Rightarrow> task \<Rightarrow> bool" where
  "task_fits a t \<longleftrightarrow> remote_task_of (a_id (av_account a)) t \<and> task_ok t"

definition event_fits :: "'w agenda_provider \<Rightarrow> calendar_event \<Rightarrow> bool" where
  "event_fits a e \<longleftrightarrow> calendar_of_account (a_id (av_account a)) (e_calendar_id e) \<and> event_ok e \<and> e_start_at e < e_end_at e"

definition all_fit :: "('i \<Rightarrow> bool) \<Rightarrow> 'i list \<Rightarrow> bool" where
  "all_fit ok items \<longleftrightarrow> list_all ok items \<and> length items \<le> MAX_ITEMS"

lemma all_fit_Nil: "all_fit ok []"
  by (simp add: all_fit_def)

lemma keep_item_fits: "(\<And>x. r = Inr (Some x) \<Longrightarrow> ok x) \<Longrightarrow> all_fit ok items \<Longrightarrow> brings (keep_item items r) (all_fit ok)"
  unfolding keep_item_def
  by (rule io_post_bind [OF io_post_lift [where Q = "\<lambda>item. r = Inr item"]])
    (auto simp: push_bounded_def all_fit_def split: option.split if_splits intro!: io_post_return io_post_lift)

lemma parsed_dates_ok:
  assumes "dates_ok a"
  shows "parse_google_due (av_dates a) s = Inr t \<Longrightarrow> valid_ts t" "parse_rfc3339 (av_dates a) s = Inr t \<Longrightarrow> valid_ts t"
    "parse_google_event_time (av_dates a) g = Inr t \<Longrightarrow> valid_ts t"
    "parse_microsoft_datetime (av_dates a) m = Inr t \<Longrightarrow> valid_ts t"
proof -
  show rfc: "parse_rfc3339 (av_dates a) s = Inr t \<Longrightarrow> valid_ts t" for s t
    using assms by (auto simp: parse_rfc3339_def dates_ok_def result_simps)
  show "parse_google_due (av_dates a) s = Inr t \<Longrightarrow> valid_ts t"
    using assms by (auto simp: parse_google_due_def dates_ok_def result_simps split: option.splits)
  show "parse_google_event_time (av_dates a) g = Inr t \<Longrightarrow> valid_ts t"
    using assms rfc by (auto simp: parse_google_event_time_def dates_ok_def result_simps split: option.splits)
  have "parse_naive_datetime (av_dates a) s = Some t \<Longrightarrow> valid_ts t" for s
    using assms by (auto simp: parse_naive_datetime_def dates_ok_def split: list.splits if_splits)
  then show "parse_microsoft_datetime (av_dates a) m = Inr t \<Longrightarrow> valid_ts t"
    using assms by (auto simp: parse_microsoft_datetime_def dates_ok_def result_simps split: option.splits if_splits)
qed

lemma unwrap_or_ok:
  "(\<And>t. x = Some t \<Longrightarrow> valid_ts t) \<Longrightarrow> (\<And>t. y = Some t \<Longrightarrow> valid_ts t) \<Longrightarrow> valid_ts now \<Longrightarrow> valid_ts (unwrap_or (opt_or x y) now)"
  by (auto simp: unwrap_or_def opt_or_def split: option.split)

lemma parse_opt_Inr: "parse_opt f x = Inr y \<Longrightarrow> y = Some t \<Longrightarrow> \<exists>v. f v = Inr t"
  by (auto simp: parse_opt_def result_simps split: option.splits)

lemma normalized_tasks_fit:
  assumes dates: "dates_ok a" and now: "valid_ts now"
  shows "normalize_google_task web (av_dates a) now (av_account a) c r = Inr (Some t) \<Longrightarrow> task_fits a t"
    "normalize_microsoft_task web (av_dates a) now (av_account a) c r' = Inr (Some t) \<Longrightarrow> task_fits a t"
proof -
  have ok: "task_ok t" if "t_due_at t = due" "t_created_at t = unwrap_or (opt_or x due) now"
    "\<And>u. due = Some u \<Longrightarrow> valid_ts u" "\<And>u. x = Some u \<Longrightarrow> valid_ts u" for t :: task and due x
    using that now unwrap_or_ok [of x due now] by (auto simp: task_ok_def split: option.split)
  show "task_fits a t" if n: "normalize_google_task web (av_dates a) now (av_account a) c r = Inr (Some t)"
  proof -
    from n obtain due x where "t_due_at t = due" "t_created_at t = unwrap_or (opt_or x due) now"
      "parse_opt (parse_google_due (av_dates a)) (gt_due r) = Inr due" "parse_opt (parse_rfc3339 (av_dates a)) (gt_updated r) = Inr x"
      by (auto simp: normalize_google_task_def result_simps split: if_splits)
    with ok have "task_ok t" using parse_opt_Inr parsed_dates_ok(1,2) [OF dates] by metis
    with normalized_google_task [OF n] show ?thesis by (simp add: task_fits_def remote_task_of_def)
  qed
  show "task_fits a t" if n: "normalize_microsoft_task web (av_dates a) now (av_account a) c r' = Inr (Some t)"
  proof -
    from n obtain due x where "t_due_at t = due" "t_created_at t = unwrap_or (opt_or x due) now"
      "parse_opt (parse_microsoft_datetime (av_dates a)) (mt_due r') = Inr due"
      "parse_opt (parse_rfc3339 (av_dates a)) (mt_created r') = Inr x"
      by (auto simp: normalize_microsoft_task_def result_simps split: if_splits)
    with ok have "task_ok t" using parse_opt_Inr parsed_dates_ok(2,4) [OF dates] by metis
    with normalized_microsoft_task [OF n] show ?thesis by (simp add: task_fits_def remote_task_of_def)
  qed
qed

lemma calendar_id_of_account: "calendar_id web a c = Inr i \<Longrightarrow> calendar_of_account a i"
  by (auto simp: calendar_of_account_def starts_with_iff COLON_def calendar_marker_def dest!: calendar_id_shape)

lemma normalized_events_fit:
  assumes dates: "dates_ok a"
  shows "normalize_google_event web (av_dates a) (av_account a) c ro r = Inr (Some e) \<Longrightarrow> event_fits a e"
    "normalize_microsoft_event web (av_dates a) (av_account a) c ro r' = Inr (Some e) \<Longrightarrow> event_fits a e"
proof -
  show "event_fits a e" if n: "normalize_google_event web (av_dates a) (av_account a) c ro r = Inr (Some e)"
  proof -
    from n have "event_ok e" using parsed_dates_ok(3) [OF dates]
      by (auto simp: normalize_google_event_def result_simps event_ok_def split: if_splits)
    with normalized_google_event [OF n] calendar_id_of_account show ?thesis unfolding event_fits_def by blast
  qed
  show "event_fits a e" if n: "normalize_microsoft_event web (av_dates a) (av_account a) c ro r' = Inr (Some e)"
  proof -
    from n have "event_ok e" using parsed_dates_ok(4) [OF dates]
      by (auto simp: normalize_microsoft_event_def result_simps event_ok_def split: if_splits)
    with normalized_microsoft_event [OF n] calendar_id_of_account show ?thesis unfolding event_fits_def by blast
  qed
qed

lemma brings_kept_task:
  assumes "dates_ok a" and "\<And>now x. valid_ts now \<Longrightarrow> r now = Inr (Some x) \<Longrightarrow> task_fits a x" and "all_fit (task_fits a) ts"
  shows "brings (io_bind (av_now a) (\<lambda>now. keep_item ts (r now))) (all_fit (task_fits a))"
proof (rule io_post_bind)
  show "brings (av_now a) valid_ts" using assms(1) by (intro io_post_now) (simp add: dates_ok_def)
  show "brings (keep_item ts (r now)) (all_fit (task_fits a))" if "valid_ts now" for now
    using assms(2,3) that by (intro keep_item_fits) blast+
qed

lemma brings_tasks:
  assumes dates: "dates_ok a"
  shows "brings (sync_google_tasks a) (all_fit (task_fits a))" "brings (sync_microsoft_tasks a) (all_fit (task_fits a))"
proof -
  note one = brings_kept_task [OF dates]
  show "brings (sync_google_tasks a) (all_fit (task_fits a))"
    unfolding sync_google_tasks_def
    by (intro io_post_bind [OF brings_anything] io_post_fold brings_google_pages one normalized_tasks_fit(1) [OF dates] all_fit_Nil)
  show "brings (sync_microsoft_tasks a) (all_fit (task_fits a))"
    unfolding sync_microsoft_tasks_def
    by (intro io_post_bind [OF brings_anything] io_post_fold one normalized_tasks_fit(2) [OF dates] all_fit_Nil)
qed

lemma brings_events:
  assumes dates: "dates_ok a"
  shows "brings (sync_google_events a start finish) (all_fit (event_fits a))"
    "brings (sync_microsoft_events a start finish) (all_fit (event_fits a))"
  unfolding sync_google_events_def sync_microsoft_events_def
  by (intro io_post_bind [OF brings_anything] io_post_fold brings_google_pages keep_item_fits
      normalized_events_fit [OF dates] all_fit_Nil; assumption)+

lemma brings_agenda:
  assumes dates: "dates_ok a"
  shows "brings (agenda_sync a start finish) (\<lambda>page. all_fit (task_fits a) (ap_tasks page) \<and> all_fit (event_fits a) (ap_events page))"
proof -
  have tasks: "brings (if \<not> av_tasks_enabled a then io_return []
      else (case av_family a of GoogleFamily \<Rightarrow> sync_google_tasks a | MicrosoftFamily \<Rightarrow> sync_microsoft_tasks a)) (all_fit (task_fits a))"
    using brings_tasks [OF dates] by (auto split: goa_family.split intro: io_post_return all_fit_Nil)
  have events: "brings (if \<not> av_calendar_enabled a then io_return []
      else (case av_family a of GoogleFamily \<Rightarrow> sync_google_events a start finish
        | MicrosoftFamily \<Rightarrow> sync_microsoft_events a start finish)) (all_fit (event_fits a))"
    using brings_events [OF dates] by (auto split: goa_family.split intro: io_post_return all_fit_Nil)
  show ?thesis
  proof (cases "finish \<le> start")
    case False
    show ?thesis
      unfolding agenda_sync_def if_not_P [OF False]
      by (rule io_post_bind [OF tasks], rule io_post_bind [OF events], rule io_post_return) simp
  qed (simp add: agenda_sync_def io_post_error)
qed

text \<open>C17: what a synchronisation of the agenda brings is what the daemon expects and the store accepts. All its tasks and
  events belong to the account, their instants are valid, every event ends after it starts, and there are at most 8000
  of each; so \<open>replace_remote_agenda\<close> never refuses the page as one of another account, and the daemon's assumption on
  its agenda provider holds.\<close>

theorem agenda_sync_fits_store:
  assumes dates: "dates_ok a" and run: "agenda_sync a start finish w = (Inr page, w')"
  shows "agenda_page_ok page \<and> length (ap_tasks page) \<le> 8000 \<and> length (ap_events page) \<le> 8000
    \<and> list_all (\<lambda>e. e_start_at e < e_end_at e) (ap_events page)
    \<and> replace_remote_agenda (a_id (av_account a)) start finish (ap_tasks page) (ap_events page) d
        \<noteq> Inl (InvalidData ''remote agenda page is not scoped to its account'')"
proof -
  let ?a = "a_id (av_account a)"
  have fits: "all_fit (task_fits a) (ap_tasks page)" "all_fit (event_fits a) (ap_events page)"
    using io_postD [OF brings_agenda [OF dates] _ run] by simp_all
  have "\<not> list_ex (\<lambda>t. t_account t \<noteq> ?a) (ap_tasks page)"
    using fits(1) by (auto simp: all_fit_def task_fits_def remote_task_of_def list_all_iff list_ex_iff)
  moreover have "\<not> list_ex (\<lambda>e. \<not> (case strip_prefix (e_calendar_id e) ?a of
      None \<Rightarrow> False | Some rest \<Rightarrow> starts_with rest [COLON])) (ap_events page)"
    using fits(2) by (fastforce simp: all_fit_def event_fits_def calendar_of_account_def list_all_iff list_ex_iff starts_with_iff)
  moreover have "fold_r (\<lambda>d t. upsert_task_row t d) d1 ts \<noteq> Inl (InvalidData m)" for d1 ts m
    by (induction ts arbitrary: d1) (auto simp: result_simps upsert_task_row_def)
  moreover have "fold_r (\<lambda>d e. upsert_event_row e d) d1 es \<noteq> Inl (InvalidData m)" for d1 es m
    by (induction es arbitrary: d1) (auto simp: result_simps upsert_event_row_def)
  moreover have "bump_revision d1 \<noteq> Inl (InvalidData ''remote agenda page is not scoped to its account'')" for d1
    by (simp add: bump_revision_def)
  ultimately have "replace_remote_agenda ?a start finish (ap_tasks page) (ap_events page) d
      \<noteq> Inl (InvalidData ''remote agenda page is not scoped to its account'')"
    by (simp add: replace_remote_agenda_def Let_def bind_r_eq_Inl)
  with fits show ?thesis
    by (auto simp: all_fit_def task_fits_def event_fits_def agenda_page_ok_def list_all_iff MAX_ITEMS_def)
qed

subsection \<open>A collection is read to its end\<close>

text \<open>The items from a page on: its own, then those from the page that its link names.\<close>

inductive collects :: "'w web \<Rightarrow> (url \<Rightarrow> 'i list \<times> string option) \<Rightarrow> url \<Rightarrow> 'i list \<Rightarrow> bool"
  for web :: "'w web" and page :: "url \<Rightarrow> 'i list \<times> string option" where
  Last_page: "page u = (xs, None) \<Longrightarrow> collects web page u xs"
| Next_page: "page u = (xs, Some link) \<Longrightarrow> wb_parse_url web link = Some v \<Longrightarrow> collects web page v ys \<Longrightarrow> collects web page u (xs @ ys)"

lemma push_all: "fold_r push_bounded items xs = Inr r \<Longrightarrow> length items \<le> MAX_ITEMS \<Longrightarrow> r = items @ xs \<and> length r \<le> MAX_ITEMS"
proof (induction xs arbitrary: items)
  case (Cons x xs)
  from Cons.prems obtain m where "push_bounded items x = Inr m" and rest: "fold_r push_bounded m xs = Inr r"
    by (auto simp: result_simps)
  then have "length items < MAX_ITEMS" "m = items @ [x]" by (auto simp: push_bounded_def split: if_splits)
  with rest Cons.IH [of "items @ [x]"] show ?case by auto
qed simp

text \<open>A page that arrives is the page of its URL.\<close>

definition serves_items :: "'w agenda_provider \<Rightarrow> (string \<Rightarrow> ('i list \<times> string option) option) \<Rightarrow> (url \<Rightarrow> 'i list \<times> string option) \<Rightarrow> bool" where
  "serves_items a reader page \<longleftrightarrow> (\<forall>u w x w'. get_json a reader MicrosoftGraphApi u w = (Inr x, w') \<longrightarrow> x = page u)"

lemma graph_pages_collect:
  assumes "serves_items a reader page"
  shows "graph_pages a reader left u items w = (Inr r, w') \<Longrightarrow> length items \<le> MAX_ITEMS \<Longrightarrow>
    \<exists>ys. collects (av_web a) page u ys \<and> r = items @ ys \<and> length r \<le> MAX_ITEMS"
proof (induction left arbitrary: u items w)
  case 0
  then show ?case by simp
next
  case (Suc left)
  from Suc.prems(1) obtain xs link v m where answer: "get_json a reader MicrosoftGraphApi u w = (Inr (xs, link), v)"
    and push: "fold_r push_bounded items xs = Inr m"
    and next_page: "(case link of None \<Rightarrow> io_return m
      | Some link \<Rightarrow> io_bind (io_lift (agenda_continuation_url (av_web a) MicrosoftGraphApi link)) (\<lambda>v.
          graph_pages a reader left v m)) v = (Inr r, w')"
    by (auto simp: result_simps)
  have page: "page u = (xs, link)" using assms answer unfolding serves_items_def by metis
  have m: "m = items @ xs" "length m \<le> MAX_ITEMS" using push_all [OF push Suc.prems(2)] by auto
  show ?case
  proof (cases link)
    case None
    with next_page m page show ?thesis by (auto simp: result_simps intro: Last_page)
  next
    case (Some l)
    with next_page obtain n where n: "wb_parse_url (av_web a) l = Some n" "graph_pages a reader left n m v = (Inr r, w')"
      by (auto simp: result_simps agenda_continuation_url_def)
    from Suc.IH [OF n(2) m(2)] obtain ys where "collects (av_web a) page n ys" "r = m @ ys" "length r \<le> MAX_ITEMS" by blast
    with page Some n(1) m(1) show ?thesis by (auto intro: Next_page)
  qed
qed

lemma collects_unique: "collects web page u xs \<Longrightarrow> collects web page u ys \<Longrightarrow> xs = ys"
proof (induction arbitrary: ys rule: collects.induct)
  case (Last_page u xs)
  from Last_page.prems Last_page.hyps show ?case by cases simp_all
next
  case (Next_page u xs link v zs)
  from Next_page.prems Next_page.hyps(1,2) Next_page.IH show ?case by cases auto
qed


text \<open>Nothing of a collection of Microsoft Graph is lost. When reading a collection succeeds, the result is the items of
  the first page and of all the pages that follow it along the links of the server, in their order, and at most 8000. A
  page is what the server has at its URL.\<close>

theorem graph_collection_complete:
  assumes "graph_collection a reader u n w = (Inr items, w')"
    and "serves_items a reader page"
  shows "collects (av_web a) page u items \<and> length items \<le> 8000"
  using graph_pages_collect [OF assms(2), of n u "[]" w items w'] assms(1)
  by (auto simp: graph_collection_def MAX_ITEMS_def)

text \<open>A service that is switched off in GNOME Online Accounts is left alone. With both services off, a synchronisation
  brings nothing and asks nothing, and every change is refused, none of them touching the network or the credentials.\<close>

theorem disabled_agenda_is_quiet:
  assumes "\<not> av_tasks_enabled a" and "\<not> av_calendar_enabled a"
  shows "agenda_sync a start finish w = (if finish \<le> start then Inl (ProviderOther ''agenda range must end after it starts'')
      else Inr \<lparr>ap_tasks = [], ap_events = []\<rparr>, w)
    \<and> list_all (\<lambda>r. \<exists>m. r = (Inl (Unsupported m), w)) [av_create_task a t w, av_update_task a t w, av_complete_task a t b w]
    \<and> list_all (\<lambda>r. \<exists>m. r = (Inl (Unsupported m), w)) [av_create_event a e w, av_update_event a e w]
    \<and> list_all (\<lambda>r. \<exists>m. r = (Inl (Unsupported m), w)) [av_delete_task a t w, av_delete_event a e w]"
  using assms
  by (simp add: agenda_sync_def av_create_task_def av_update_task_def av_complete_task_def av_delete_task_def
      av_create_event_def av_update_event_def av_delete_event_def task_call_def event_call_def ensure_tasks_enabled_def
      ensure_calendar_enabled_def io_bind_def io_lift_def io_return_def io_error_def require_def)

end
