(* ===== verification/Agenda_Samples.thy ===== *)
theory Agenda_Samples
  imports Agenda_Pages
begin

section \<open>A sample agenda provider\<close>

text \<open>
  A Google account with one list and one task, and a Microsoft account with one calendar: the hypotheses of the
  properties of the agenda hold together.
\<close>

definition tasks_root :: url where
  "tasks_root = \<lparr>u_text = api_base GoogleTasksApi, u_scheme = ''https'', u_username = [], u_password = None,
     u_host = Some (api_host GoogleTasksApi), u_port = None, u_path = api_path_prefix GoogleTasksApi, u_query = None,
     u_query_pairs = [], u_fragment = None\<rparr>"

definition graph_root :: url where
  "graph_root = \<lparr>u_text = api_base MicrosoftGraphApi, u_scheme = ''https'', u_username = [], u_password = None,
     u_host = Some (api_host MicrosoftGraphApi), u_port = None, u_path = api_path_prefix MicrosoftGraphApi, u_query = None,
     u_query_pairs = [], u_fragment = None\<rparr>"

definition agenda_web :: "unit web" where
  "agenda_web = \<lparr>wb_send = (\<lambda>r. io_return \<lparr>wr_status = 200, wr_length = None, wr_chunks = []\<rparr>),
     wb_token = (\<lambda>force. io_return ''token''), wb_parse_url = (\<lambda>s. Some tasks_root),
     wb_push = (\<lambda>u segments. Some (u\<lparr>u_path := u_path u @ concat segments\<rparr>)), wb_pairs = (\<lambda>u pairs. u),
     wb_encode = base64_url_encode, wb_decode = base64_url_decode, wb_json = (\<lambda>v. []), wb_parse_json = (\<lambda>s. None)\<rparr>"

definition sample_dates :: agenda_dates where
  "sample_dates = \<lparr>dt_date = (\<lambda>s. Some 0), dt_rfc3339 = (\<lambda>s. if s = [] then Some 0 else Some 60000), dt_naive = (\<lambda>f s. None),
     dt_show_rfc3339 = (\<lambda>t. []), dt_show_date = (\<lambda>t. []), dt_show_local = (\<lambda>t. [])\<rparr>"

definition sample_google_task :: google_task where
  "sample_google_task = \<lparr>gt_id = ''T'', gt_title = ''Buy milk'', gt_notes = [], gt_status = ''needsAction'', gt_due = None,
     gt_updated = None, gt_deleted = False, gt_hidden = False\<rparr>"

definition sample_google_event :: google_event where
  "sample_google_event = \<lparr>ge_id = ''T'', ge_status = ''confirmed'', ge_summary = ''Lunch'', ge_description = [],
     ge_start = Some \<lparr>gw_date_time = Some [], gw_date = None\<rparr>, ge_end = Some \<lparr>gw_date_time = Some ''1'', gw_date = None\<rparr>\<rparr>"

definition sample_microsoft_task :: microsoft_task where
  "sample_microsoft_task = \<lparr>mt_id = ''T'', mt_title = ''Buy milk'', mt_body = None, mt_status = ''notStarted'', mt_due = None,
     mt_created = None, mt_is_deleted = False\<rparr>"

definition sample_microsoft_event :: microsoft_event where
  "sample_microsoft_event = \<lparr>me_id = ''T'', me_subject = ''Lunch'', me_body = None, me_body_preview = [],
     me_start = Some \<lparr>md_date_time = [], md_time_zone = ''UTC''\<rparr>, me_end = Some \<lparr>md_date_time = ''1'', md_time_zone = ''UTC''\<rparr>,
     me_is_all_day = False, me_is_cancelled = False\<rparr>"

definition sample_readers :: agenda_readers where
  "sample_readers = \<lparr>rd_google_lists = (\<lambda>s. Some ([''L''], None)), rd_google_calendars = (\<lambda>s. None),
     rd_google_tasks = (\<lambda>s. Some ([sample_google_task], None)), rd_google_events = (\<lambda>s. None), rd_google_list = (\<lambda>s. None),
     rd_google_task = (\<lambda>s. None), rd_google_event = (\<lambda>s. None), rd_microsoft_lists = (\<lambda>s. None),
     rd_microsoft_calendars = (\<lambda>s. None), rd_microsoft_tasks = (\<lambda>s. None), rd_microsoft_events = (\<lambda>s. None),
     rd_microsoft_task = (\<lambda>s. None), rd_microsoft_event = (\<lambda>s. None)\<rparr>"

definition sample_agenda_account :: account where
  "sample_agenda_account = \<lparr>a_id = ''A'', a_address = ''me@example.com'', a_display_name = [], a_provider = ''gmail'',
     a_protocol = [], a_host = [], a_unread = 0, a_total = 0, a_enabled = True\<rparr>"

definition sample_agenda :: "bool \<Rightarrow> unit agenda_provider" where
  "sample_agenda enabled = \<lparr>av_account = sample_agenda_account, av_family = GoogleFamily, av_calendar_enabled = False,
     av_tasks_enabled = enabled, av_web = agenda_web, av_dates = sample_dates, av_clock = (\<lambda>w. 0), av_readers = sample_readers\<rparr>"

lemma sample_agenda_fields [simp]:
  "av_account (sample_agenda b) = sample_agenda_account" "av_family (sample_agenda b) = GoogleFamily"
  "av_calendar_enabled (sample_agenda b) = False" "av_tasks_enabled (sample_agenda b) = b"
  "av_web (sample_agenda b) = agenda_web" "av_dates (sample_agenda b) = sample_dates" "av_clock (sample_agenda b) = (\<lambda>w. 0)"
  "av_readers (sample_agenda b) = sample_readers"
  by (simp_all add: sample_agenda_def)

lemma sample_codec: "url_codec agenda_web"
  by (simp add: agenda_web_def gmail_codec.base64url_axioms)

lemma sample_ids: "checked_remote_id ''A'' = Inr ''A''" "checked_remote_id ''L'' = Inr ''L''" "checked_remote_id ''T'' = Inr ''T''"
  "valid_utf8 ''A''" "valid_utf8 ''L''" "valid_utf8 ''T''"
  by (simp_all add: checked_remote_id_def MAX_REMOTE_ID_BYTES_def) (code_simp+)

lemma sample_item_id:
  assumes "pre \<in> {TASK_ID_PREFIX, EVENT_ID_PREFIX}"
  shows "\<exists>i. item_id agenda_web pre ''A'' ''L'' ''T'' = Inr i"
  using assms gmail_codec.enc_length
  by (auto simp: item_id_def encode_component_def bounded_exposed_id_def sample_ids agenda_web_def TASK_ID_PREFIX_def
      EVENT_ID_PREFIX_def MAX_EXPOSED_ID_BYTES_def simp del: base64_url_encode.simps)

lemma sample_calendar_id: "\<exists>i. calendar_id agenda_web ''A'' ''L'' = Inr i"
  using gmail_codec.enc_length
  by (auto simp: calendar_id_def encode_component_def bounded_exposed_id_def sample_ids agenda_web_def CALENDAR_ID_PREFIX_def
      MAX_EXPOSED_ID_BYTES_def simp del: base64_url_encode.simps)

lemma sample_normal_forms:
  "\<exists>t. normalize_google_task agenda_web sample_dates 0 sample_agenda_account ''L'' sample_google_task = Inr (Some t)"
  "\<exists>t. normalize_microsoft_task agenda_web sample_dates 0 sample_agenda_account ''L'' sample_microsoft_task = Inr (Some t)"
  "\<exists>e. normalize_google_event agenda_web sample_dates sample_agenda_account ''L'' False sample_google_event = Inr (Some e)"
  "\<exists>e. normalize_microsoft_event agenda_web sample_dates sample_agenda_account ''L'' False sample_microsoft_event = Inr (Some e)"
proof -
  from sample_item_id obtain i where i: "item_id agenda_web TASK_ID_PREFIX ''A'' ''L'' ''T'' = Inr i" by blast
  from sample_item_id obtain j where j: "item_id agenda_web EVENT_ID_PREFIX ''A'' ''L'' ''T'' = Inr j" by blast
  from sample_calendar_id obtain c where c: "calendar_id agenda_web ''A'' ''L'' = Inr c" by blast
  show "\<exists>t. normalize_google_task agenda_web sample_dates 0 sample_agenda_account ''L'' sample_google_task = Inr (Some t)"
    "\<exists>t. normalize_microsoft_task agenda_web sample_dates 0 sample_agenda_account ''L'' sample_microsoft_task = Inr (Some t)"
    "\<exists>e. normalize_google_event agenda_web sample_dates sample_agenda_account ''L'' False sample_google_event = Inr (Some e)"
    "\<exists>e. normalize_microsoft_event agenda_web sample_dates sample_agenda_account ''L'' False sample_microsoft_event = Inr (Some e)"
    by (simp_all add: normalize_google_task_def normalize_microsoft_task_def normalize_google_event_def
        normalize_microsoft_event_def sample_google_task_def sample_microsoft_task_def sample_google_event_def
        sample_microsoft_event_def sample_agenda_account_def sample_dates_def sample_ids i j c parse_opt_def ok_or_def
        require_def parse_google_event_time_def parse_rfc3339_def parse_microsoft_datetime_def)
qed

theorem remote_items_are_found_again_witness:
  "\<exists>t1 t2 e3 e4. google_task_locator (sample_agenda True) t1 () = (Inr (''L'', ''T''), ())
    \<and> microsoft_task_locator (sample_agenda True) t2 () = (Inr (''L'', ''T''), ())
    \<and> google_event_locator (sample_agenda True) e3 () = (Inr (''L'', ''T''), ())
    \<and> microsoft_event_locator (sample_agenda True) e4 () = (Inr (''L'', ''T''), ())"
proof -
  let ?p = "sample_agenda True"
  have codec: "url_codec (av_web ?p)" and utf8: "valid_utf8 (a_id (av_account ?p))"
    using sample_codec sample_ids by (simp_all add: sample_agenda_account_def)
  have raws: "gt_id sample_google_task = ''T''" "mt_id sample_microsoft_task = ''T''" "ge_id sample_google_event = ''T''"
    "me_id sample_microsoft_event = ''T''"
    by (simp_all add: sample_google_task_def sample_microsoft_task_def sample_google_event_def sample_microsoft_event_def)
  from sample_normal_forms obtain t1 t2 e3 e4 where
    n: "normalize_google_task (av_web ?p) (av_dates ?p) 0 (av_account ?p) ''L'' sample_google_task = Inr (Some t1)"
    "normalize_microsoft_task (av_web ?p) (av_dates ?p) 0 (av_account ?p) ''L'' sample_microsoft_task = Inr (Some t2)"
    "normalize_google_event (av_web ?p) (av_dates ?p) (av_account ?p) ''L'' False sample_google_event = Inr (Some e3)"
    "normalize_microsoft_event (av_web ?p) (av_dates ?p) (av_account ?p) ''L'' False sample_microsoft_event = Inr (Some e4)"
    unfolding sample_agenda_fields by (elim exE)
  have "google_task_locator ?p t1 () = (Inr (''L'', gt_id sample_google_task), ())
    \<and> microsoft_task_locator ?p t2 () = (Inr (''L'', mt_id sample_microsoft_task), ())
    \<and> google_event_locator ?p e3 () = (Inr (''L'', ge_id sample_google_event), ())
    \<and> microsoft_event_locator ?p e4 () = (Inr (''L'', me_id sample_microsoft_event), ())"
    by (rule remote_items_are_found_again [OF codec utf8 n(1) _ _ n(2) _ _ n(3) _ _ n(4)]) (simp_all only: raws sample_ids)
  then show ?thesis unfolding raws by (intro exI)
qed

text \<open>The daemon, with the account in its store.\<close>

definition agenda_row :: account_row where
  "agenda_row = \<lparr>ar_account = sample_agenda_account, ar_config = JNull, ar_auth_state = ''ok'', ar_auth_error = None,
     ar_updated_at = 1\<rparr>"

definition agenda_daemon :: "(unit, unit) daemon" where
  "agenda_daemon = sample_daemon (empty_db\<lparr>d_accounts := [agenda_row]\<rparr>)"

theorem remote_event_returns_to_its_account_witness:
  "\<exists>i. fst (remote_event_account sample_env i agenda_daemon) = Inr (Some ''A'')
     \<and> decode_calendar_id agenda_web i = Inr (''A'', ''L'')"
proof -
  have a: "a_id sample_agenda_account = ''A''" by (simp add: sample_agenda_account_def)
  from sample_calendar_id obtain i where i: "calendar_id agenda_web (a_id sample_agenda_account) ''L'' = Inr i"
    unfolding a by (elim exE)
  have listed: "list_accounts (dm_db (de_others sample_env agenda_daemon)) = Inr [sample_agenda_account]"
    by (simp add: list_accounts_def accounts_by_address_def agenda_daemon_def sample_daemon_def sample_env_def agenda_row_def)
  have supported: "agenda_account_supported sample_agenda_account"
    by (simp add: agenda_account_supported_def brokered_provider_family_def sample_agenda_account_def)
  have "sample_agenda_account \<in> set [sample_agenda_account]" by simp
  from remote_event_returns_to_its_account [OF sample_codec i sample_ids(5) listed this supported]
  show ?thesis unfolding a by (rule exI)
qed

lemma sample_tasks_url:
  "list_all (\<lambda>s. checked_remote_id s = Inr s) path \<Longrightarrow>
    api_url agenda_web GoogleTasksApi path = Inr (tasks_root\<lparr>u_path := ''/tasks/v1/'' @ concat path\<rparr>)"
proof -
  assume "list_all (\<lambda>s. checked_remote_id s = Inr s) path"
  then have "collect_r checked_remote_id path = Inr path" by (induction path) simp_all
  then show ?thesis
    by (simp add: api_url_def Let_def agenda_web_def ok_or_def tasks_root_def validate_agenda_url_def agenda_url_ok_def
        require_def starts_with_def)
qed

lemma sample_get_json:
  "agenda_url_ok root u \<Longrightarrow> get_json (sample_agenda b) reader root u ()
    = (case reader [] of None \<Rightarrow> Inl malformed_json | Some x \<Rightarrow> Inr x, ())"
  by (simp add: get_json_def send_json_def agenda_request_def agenda_attempt_def validate_agenda_url_def agenda_web_def
      bounded_body_def io_bind_def io_lift_def io_return_def io_map_err_def require_def ok_or_def split: option.split)

lemma sample_tasks_url_ok: "starts_with p ''/tasks/v1/'' \<Longrightarrow> agenda_url_ok GoogleTasksApi (tasks_root\<lparr>u_path := p\<rparr>)"
  by (simp add: agenda_url_ok_def tasks_root_def)

lemma sample_pairs: "wb_pairs agenda_web u pairs = u"
  by (simp add: agenda_web_def)

lemmas sample_run = sample_tasks_url map_ok_def sample_get_json sample_tasks_url_ok sample_pairs starts_with_def
  io_bind_def io_lift_def io_return_def

lemma sample_segments: "checked_remote_id ''users'' = Inr ''users''" "checked_remote_id ''@me'' = Inr ''@me''"
  "checked_remote_id ''lists'' = Inr ''lists''" "checked_remote_id ''tasks'' = Inr ''tasks''"
  by (simp_all add: checked_remote_id_def MAX_REMOTE_ID_BYTES_def) (code_simp+)

lemma sample_lists: "google_task_lists (sample_agenda b) () = (Inr [''L''], ())"
  by (simp add: google_task_lists_def MAX_CONTAINER_PAGES_def numeral_eq_Suc sample_run sample_segments sample_readers_def
      push_container_def MAX_CONTAINERS_def)

lemma sample_agenda_sync: "\<exists>t. agenda_sync (sample_agenda True) 0 1 () = (Inr \<lparr>ap_tasks = [t], ap_events = []\<rparr>, ())"
proof -
  from sample_normal_forms(1) obtain t where
    t: "normalize_google_task agenda_web sample_dates 0 sample_agenda_account ''L'' sample_google_task = Inr (Some t)"
    by (elim exE)
  have "sync_google_tasks (sample_agenda True) () = (Inr [t], ())"
    by (simp add: sync_google_tasks_def MAX_ITEM_PAGES_def numeral_eq_Suc sample_run sample_lists sample_segments
        sample_ids sample_readers_def av_now_def keep_item_def push_bounded_def MAX_ITEMS_def t)
  then have "agenda_sync (sample_agenda True) 0 1 () = (Inr \<lparr>ap_tasks = [t], ap_events = []\<rparr>, ())"
    by (simp add: agenda_sync_def io_bind_def io_return_def)
  then show ?thesis by (rule exI)
qed

theorem agenda_sync_fits_store_witness:
  "\<exists>page. agenda_sync (sample_agenda True) 0 1 () = (Inr page, ()) \<and> agenda_page_ok page \<and> length (ap_tasks page) = 1"
proof -
  from sample_agenda_sync obtain t where run: "agenda_sync (sample_agenda True) 0 1 () = (Inr \<lparr>ap_tasks = [t], ap_events = []\<rparr>, ())"
    by (elim exE)
  have "dates_ok (sample_agenda True)"
    by (simp add: dates_ok_def sample_dates_def valid_ts_def ts_min_def ts_max_def)
  from agenda_sync_fits_store [OF this run] run show ?thesis by (intro exI conjI) (assumption, blast, simp)
qed

theorem graph_collection_complete_witness:
  "\<exists>items w. graph_collection (sample_agenda True) (\<lambda>s. Some ([0 :: nat], None)) graph_root 1 () = (Inr items, w)
     \<and> collects agenda_web (\<lambda>u. ([0], None)) graph_root items"
proof -
  have run: "graph_collection (sample_agenda True) (\<lambda>s. Some ([0 :: nat], None)) graph_root 1 () = (Inr [0], ())"
    by (simp add: graph_collection_def numeral_eq_Suc One_nat_def sample_run graph_root_def agenda_url_ok_def
        push_bounded_def MAX_ITEMS_def)
  have "serves_items (sample_agenda True) (\<lambda>s. Some ([0 :: nat], None)) (\<lambda>u. ([0], None))"
    by (auto simp: serves_items_def get_json_def send_json_def Let_def result_simps)
  from graph_collection_complete [OF run this] run show ?thesis unfolding sample_agenda_fields by (intro exI conjI) (assumption, blast)
qed

theorem disabled_agenda_is_quiet_witness:
  "agenda_sync (sample_agenda False) 0 1 () = (Inr \<lparr>ap_tasks = [], ap_events = []\<rparr>, ())"
  using disabled_agenda_is_quiet [of "sample_agenda False" 0 1 "()"] by simp

end
