(* ===== verification/Online_Accounts.thy ===== *)
theory Online_Accounts
  imports Agenda_Values Smtp_Delivery
begin

section \<open>GNOME Online Accounts\<close>

text \<open>
  \<open>providers/auth.rs\<close>: which account of GNOME Online Accounts belongs to a mail address, what it allows, and the access
  tokens it hands out. D-Bus is the record \<open>goa_bus\<close>: a session, the objects with their interfaces, proxies, properties
  and the two calls, which may also run out of time. A token is its text and the instant at which it expires.
\<close>

record goa_account =
  go_id :: string
  go_object_path :: string
  go_provider_type :: string
  go_email :: string
  go_mail_disabled :: bool
  go_calendar_disabled :: bool
  go_tasks_disabled :: bool
  go_attention_needed :: bool

record goa_mail_settings =
  gs_imap_host :: string
  gs_imap_port :: nat
  gs_imap_implicit_tls :: bool
  gs_imap_username :: string
  gs_smtp_host :: string
  gs_smtp_port :: nat
  gs_smtp_implicit_tls :: bool
  gs_smtp_username :: string

record access_token =
  at_value :: string
  at_expires_at :: "int option"

record cached_token =
  ct_token :: access_token
  ct_cached_at :: int

datatype goa_interface = GoaAccount | GoaMail | GoaOAuth2

fun interface_name :: "goa_interface \<Rightarrow> string" where
  "interface_name GoaAccount = ''org.gnome.OnlineAccounts.Account''"
| "interface_name GoaMail = ''org.gnome.OnlineAccounts.Mail''"
| "interface_name GoaOAuth2 = ''org.gnome.OnlineAccounts.OAuth2Based''"

text \<open>\<open>Inl True\<close> is a call that ran out of time, \<open>Inl False\<close> one that failed.\<close>

record 'w goa_bus =
  gb_session :: "('w, unit, unit) io"
  gb_objects :: "('w, unit, (string \<times> string list) list) io"
  gb_proxy :: "string \<Rightarrow> goa_interface \<Rightarrow> ('w, unit, unit) io"
  gb_bool :: "string \<Rightarrow> goa_interface \<Rightarrow> string \<Rightarrow> ('w, unit, bool) io"
  gb_text :: "string \<Rightarrow> goa_interface \<Rightarrow> string \<Rightarrow> ('w, unit, string) io"
  gb_ensure_credentials :: "string \<Rightarrow> ('w, bool, unit) io"
  gb_access_token :: "string \<Rightarrow> ('w, bool, string \<times> int) io"
  gb_clock :: "'w \<Rightarrow> int"

subsection \<open>What an account is and allows\<close>

fun matches_provider_type :: "goa_family \<Rightarrow> string \<Rightarrow> bool" where
  "matches_provider_type GoogleFamily provider_type \<longleftrightarrow> eq_ignore_ascii_case provider_type ''google''"
| "matches_provider_type MicrosoftFamily provider_type \<longleftrightarrow>
     eq_ignore_ascii_case provider_type ''ms_graph'' \<or> eq_ignore_ascii_case provider_type ''windows_live''"

fun recognized_disabled :: "bool \<Rightarrow> bool option list \<Rightarrow> bool" where
  "recognized_disabled recognized [] \<longleftrightarrow> \<not> recognized"
| "recognized_disabled recognized (None # values) \<longleftrightarrow> recognized_disabled recognized values"
| "recognized_disabled recognized (Some v # values) \<longleftrightarrow> v \<or> recognized_disabled True values"

definition service_disabled :: "bool option list \<Rightarrow> bool" where
  "service_disabled values \<longleftrightarrow> recognized_disabled False values"

definition is_goa_oauth_mail_account :: "string list \<Rightarrow> bool" where
  "is_goa_oauth_mail_account interfaces \<longleftrightarrow> interface_name GoaAccount \<in> set interfaces
     \<and> interface_name GoaMail \<in> set interfaces \<and> interface_name GoaOAuth2 \<in> set interfaces"

definition goa_identity_matches :: "string \<Rightarrow> string list \<Rightarrow> bool" where
  "goa_identity_matches requested identities \<longleftrightarrow>
     trim requested \<noteq> [] \<and> list_ex (\<lambda>i. eq_ignore_ascii_case (trim i) (trim requested)) identities"

definition is_syntactic_mail_address :: "string \<Rightarrow> bool" where
  "is_syntactic_mail_address value =
     (let value = trim value in
      value \<noteq> [] \<and> length value \<le> 320 \<and> \<not> list_ex is_whitespace_char (utf8_chars value)
      \<and> (case split_once value (CHR ''@'') of
           None \<Rightarrow> False
         | Some (local_part, domain) \<Rightarrow> local_part \<noteq> [] \<and> domain \<noteq> [] \<and> CHR ''@'' \<notin> set domain))"

definition preferred_mail_address :: "string \<Rightarrow> string \<Rightarrow> string \<Rightarrow> string option" where
  "preferred_mail_address requested presentation_identity discovered =
     find is_syntactic_mail_address (map trim [requested, presentation_identity, discovered])"

definition validate_mail_capabilities :: "string \<Rightarrow> bool \<Rightarrow> bool \<Rightarrow> bool \<Rightarrow> bool \<Rightarrow> bool \<Rightarrow> token_error + unit" where
  "validate_mail_capabilities provider_type mail_disabled imap_supported smtp_supported smtp_use_auth smtp_xoauth2 =
     (if \<not> mail_disabled \<and> imap_supported \<and> smtp_supported \<and> smtp_use_auth \<and> smtp_xoauth2 then Inr ()
      else if eq_ignore_ascii_case provider_type ''ms_graph''
      then Inl (UnsupportedMailTransport (''this Microsoft Online Account exposes mail through Microsoft Graph and must use ''
        @ ''QuickMail'' @ [CHR 0x27] @ ''s Graph provider, not IMAP/SMTP XOAUTH2''))
      else Inl (UnsupportedMailTransport ''GOA account does not expose enabled IMAP/SMTP XOAUTH2''))"

definition split_host_port :: "string \<Rightarrow> nat \<Rightarrow> token_error + (string \<times> nat)" where
  "split_host_port host default_port =
     (if host = [] \<or> CR \<in> set host \<or> LF \<in> set host \<or> NUL \<in> set host
      then Inl (TokenOther ''GOA returned an invalid mail host'')
      else
        (case rsplit_once host (CHR '':'') of
           None \<Rightarrow> Inr (host, default_port)
         | Some (name, port) \<Rightarrow>
             if CHR '':'' \<in> set name then Inr (host, default_port)
             else
               (case parse_uint u16_max port of
                  None \<Rightarrow> Inr (host, default_port)
                | Some n \<Rightarrow> if 0 < n then Inr (name, n) else Inr (host, default_port))))"

subsection \<open>Properties\<close>

definition bus_error :: "('w, unit, 'a) io \<Rightarrow> ('w, token_error, 'a) io" where
  "bus_error m = io_map_err (\<lambda>_. StoreUnavailable) m"

text \<open>\<open>get_property(..).await.unwrap_or(d)\<close> and \<open>.ok()\<close>.\<close>

definition or_else :: "'a \<Rightarrow> ('w, unit, 'a) io \<Rightarrow> ('w, token_error, 'a) io" where
  "or_else d m w = (case m w of (Inl _, w') \<Rightarrow> (Inr d, w') | (Inr x, w') \<Rightarrow> (Inr x, w'))"

definition property_ok :: "('w, unit, 'a) io \<Rightarrow> ('w, token_error, 'a option) io" where
  "property_ok m w = (case m w of (Inl _, w') \<Rightarrow> (Inr None, w') | (Inr x, w') \<Rightarrow> (Inr (Some x), w'))"

definition last_segment :: "string \<Rightarrow> string" where
  "last_segment path = last (split_on (CHR ''/'') path)"

text \<open>One object: \<open>None\<close> when it is not the account that is looked for.\<close>

definition discover_object :: "'w goa_bus \<Rightarrow> string \<Rightarrow> goa_family \<Rightarrow> string \<Rightarrow> string list \<Rightarrow> ('w, token_error, goa_account option) io" where
  "discover_object bus email family path interfaces =
     (if \<not> is_goa_oauth_mail_account interfaces then io_return None
      else
        io_bind (bus_error (gb_proxy bus path GoaAccount)) (\<lambda>_.
        io_bind (property_ok (gb_text bus path GoaAccount ''ProviderType'')) (\<lambda>found.
        case found of
          None \<Rightarrow> io_return None
        | Some provider_type \<Rightarrow>
            if \<not> matches_provider_type family provider_type then io_return None
            else
              io_bind (property_ok (gb_proxy bus path GoaMail)) (\<lambda>mail.
              if mail = None then io_return None
              else
                io_bind (or_else [] (gb_text bus path GoaMail ''EmailAddress'')) (\<lambda>discovered_email.
                io_bind (or_else [] (gb_text bus path GoaAccount ''Identity'')) (\<lambda>identity.
                io_bind (or_else [] (gb_text bus path GoaAccount ''PresentationIdentity'')) (\<lambda>presentation_identity.
                if \<not> goa_identity_matches email [discovered_email, identity, presentation_identity] then io_return None
                else
                  (case preferred_mail_address email presentation_identity discovered_email of
                     None \<Rightarrow> io_return None
                   | Some mail_address \<Rightarrow>
                       io_bind (io_collect (\<lambda>p. property_ok (gb_bool bus path GoaAccount p)) [''CalendarDisabled'', ''CalendarsDisabled'']) (\<lambda>calendar.
                       io_bind (io_collect (\<lambda>p. property_ok (gb_bool bus path GoaAccount p)) [''TodoDisabled'', ''TaskDisabled'', ''TasksDisabled'']) (\<lambda>tasks.
                       io_bind (or_else False (gb_bool bus path GoaAccount ''MailDisabled'')) (\<lambda>mail_disabled.
                       io_bind (or_else False (gb_bool bus path GoaAccount ''AttentionNeeded'')) (\<lambda>attention.
                       io_return (Some \<lparr>go_id = last_segment path, go_object_path = path, go_provider_type = provider_type,
                         go_email = mail_address, go_mail_disabled = mail_disabled,
                         go_calendar_disabled = service_disabled calendar, go_tasks_disabled = service_disabled tasks,
                         go_attention_needed = attention\<rparr>)))))))))))))"

fun discover_among :: "'w goa_bus \<Rightarrow> string \<Rightarrow> goa_family \<Rightarrow> (string \<times> string list) list \<Rightarrow> ('w, token_error, goa_account option) io" where
  "discover_among bus email family [] = io_return None"
| "discover_among bus email family ((path, interfaces) # objects) =
     io_bind (discover_object bus email family path interfaces) (\<lambda>found.
     case found of Some account \<Rightarrow> io_return (Some account) | None \<Rightarrow> discover_among bus email family objects)"

definition goa_discover :: "'w goa_bus \<Rightarrow> string \<Rightarrow> goa_family \<Rightarrow> ('w, token_error, goa_account option) io" where
  "goa_discover bus email family =
     io_bind (bus_error (gb_session bus)) (\<lambda>_.
     io_bind (bus_error (gb_objects bus)) (discover_among bus email family))"

definition mail_settings :: "'w goa_bus \<Rightarrow> goa_account \<Rightarrow> ('w, token_error, goa_mail_settings) io" where
  "mail_settings bus account =
     (let path = go_object_path account; mail = gb_bool bus path GoaMail;
          named = (\<lambda>user. if trim user = [] then go_email account else user) in
      io_bind (bus_error (gb_session bus)) (\<lambda>_.
      io_bind (bus_error (gb_proxy bus path GoaMail)) (\<lambda>_.
      io_bind (bus_error (gb_proxy bus path GoaAccount)) (\<lambda>_.
      io_bind (or_else False (gb_bool bus path GoaAccount ''MailDisabled'')) (\<lambda>mail_disabled.
      io_bind (or_else False (mail ''ImapSupported'')) (\<lambda>imap_supported.
      io_bind (or_else False (mail ''SmtpSupported'')) (\<lambda>smtp_supported.
      io_bind (or_else False (mail ''SmtpUseAuth'')) (\<lambda>smtp_use_auth.
      io_bind (or_else False (mail ''SmtpAuthXoauth2'')) (\<lambda>smtp_xoauth2.
      io_bind (io_lift (validate_mail_capabilities (go_provider_type account) mail_disabled imap_supported smtp_supported
        smtp_use_auth smtp_xoauth2)) (\<lambda>_.
      io_bind (bus_error (gb_text bus path GoaMail ''ImapHost'')) (\<lambda>imap_host.
      io_bind (bus_error (gb_text bus path GoaMail ''ImapUserName'')) (\<lambda>imap_username.
      io_bind (or_else False (mail ''ImapUseSsl'')) (\<lambda>imap_implicit_tls.
      io_bind (or_else False (mail ''ImapUseTls'')) (\<lambda>imap_starttls.
      io_bind (bus_error (gb_text bus path GoaMail ''SmtpHost'')) (\<lambda>smtp_host.
      io_bind (bus_error (gb_text bus path GoaMail ''SmtpUserName'')) (\<lambda>smtp_username.
      io_bind (or_else False (mail ''SmtpUseSsl'')) (\<lambda>smtp_implicit_tls.
      io_bind (or_else False (mail ''SmtpUseTls'')) (\<lambda>smtp_starttls.
      io_bind (io_lift (require ((imap_implicit_tls \<or> imap_starttls) \<and> (smtp_implicit_tls \<or> smtp_starttls))
        (TokenOther ''GOA mail transport is not configured for TLS''))) (\<lambda>_.
      io_bind (io_lift (split_host_port imap_host (if imap_implicit_tls then 993 else 143))) (\<lambda>(imap_name, imap_port).
      io_bind (io_lift (split_host_port smtp_host (if smtp_implicit_tls then 465 else 587))) (\<lambda>(smtp_name, smtp_port).
      io_return \<lparr>gs_imap_host = imap_name, gs_imap_port = imap_port, gs_imap_implicit_tls = imap_implicit_tls,
        gs_imap_username = named imap_username, gs_smtp_host = smtp_name, gs_smtp_port = smtp_port,
        gs_smtp_implicit_tls = smtp_implicit_tls, gs_smtp_username = named smtp_username\<rparr>)))))))))))))))))))))"

subsection \<open>Access tokens\<close>

text \<open>Instants are in milliseconds. The cache of a \<open>GoaTokenSource\<close> is beside the world of the bus.\<close>

definition cached_access_token_is_fresh :: "cached_token \<Rightarrow> int \<Rightarrow> bool" where
  "cached_access_token_is_fresh cached now \<longleftrightarrow>
     (case at_expires_at (ct_token cached) of
        Some expires_at \<Rightarrow> now + 30000 < expires_at
      | None \<Rightarrow> now - 60000 < ct_cached_at cached)"

record 'w token_world =
  tw_cached :: "cached_token option"
  tw_bus :: 'w

definition fetch_token :: "'w goa_bus \<Rightarrow> string \<Rightarrow> ('w, token_error, access_token) io" where
  "fetch_token bus path =
     io_bind (bus_error (gb_session bus)) (\<lambda>_.
     io_bind (bus_error (gb_proxy bus path GoaAccount)) (\<lambda>_.
     io_bind (or_else True (gb_bool bus path GoaAccount ''AttentionNeeded'')) (\<lambda>attention.
     if attention then io_error AuthorizationRequired
     else
       io_bind (io_map_err (\<lambda>late. if late then StoreUnavailable else AuthorizationRequired) (gb_ensure_credentials bus path)) (\<lambda>_.
       io_bind (bus_error (gb_proxy bus path GoaOAuth2)) (\<lambda>_.
       io_bind (io_map_err (\<lambda>late. if late then StoreUnavailable else AuthorizationRequired) (gb_access_token bus path)) (\<lambda>(token, expires_in).
       \<lambda>w. (Inr \<lparr>at_value = token, at_expires_at = (if 0 < expires_in then Some (gb_clock bus w + expires_in * 1000) else None)\<rparr>, w)))))))"

definition access_token_of :: "'w goa_bus \<Rightarrow> string \<Rightarrow> bool \<Rightarrow> ('w token_world, token_error, access_token) io" where
  "access_token_of bus path force_refresh s =
     (let kept = (if force_refresh then None
            else (case tw_cached s of
                    Some cached \<Rightarrow> if cached_access_token_is_fresh cached (gb_clock bus (tw_bus s)) then Some cached else None
                  | None \<Rightarrow> None)) in
      case kept of
        Some cached \<Rightarrow> (Inr (ct_token cached), s)
      | None \<Rightarrow>
          (case fetch_token bus path (tw_bus s) of
             (Inl e, w) \<Rightarrow> (Inl e, s\<lparr>tw_bus := w\<rparr>)
           | (Inr token, w) \<Rightarrow> (Inr token, \<lparr>tw_cached = Some \<lparr>ct_token = token, ct_cached_at = gb_clock bus w\<rparr>, tw_bus = w\<rparr>)))"

subsection \<open>What they promise\<close>

lemma recognized_disabled_iff:
  "recognized_disabled r vs \<longleftrightarrow> Some True \<in> set vs \<or> \<not> r \<and> Some False \<notin> set vs"
  by (induction r vs rule: recognized_disabled.induct) auto

text \<open>Access to calendars and tasks fails closed: a service counts as allowed only when some spelling of its switch says
  so and none says the opposite.\<close>

lemma service_fails_closed: "\<not> service_disabled vs \<longleftrightarrow> Some False \<in> set vs \<and> Some True \<notin> set vs"
  by (auto simp: service_disabled_def recognized_disabled_iff)

text \<open>C21: an access token that is known to end within half a minute is not handed out from the cache. A token comes from
  the cache, with nothing asked, only when no refresh was demanded and the cached one is still good for thirty seconds,
  or has no known end and is less than a minute old; every other token was fetched now and is what the cache holds
  afterwards. A failure leaves the cache as it was.\<close>

theorem cached_tokens_are_fresh:
  "case access_token_of bus path force s of
     (Inl e, s') \<Rightarrow> tw_cached s' = tw_cached s
   | (Inr token, s') \<Rightarrow>
       \<not> force \<and> s' = s \<and> map_option ct_token (tw_cached s) = Some token
         \<and> (case at_expires_at token of
              Some expires_at \<Rightarrow> gb_clock bus (tw_bus s) + 30000 < expires_at
            | None \<Rightarrow> list_all (\<lambda>c. gb_clock bus (tw_bus s) < ct_cached_at c + 60000) (option_list (tw_cached s)))
       \<or> fetch_token bus path (tw_bus s) = (Inr token, tw_bus s') \<and> map_option ct_token (tw_cached s') = Some token"
  by (auto simp: access_token_of_def Let_def cached_access_token_is_fresh_def option_list_def split: option.splits prod.splits sum.splits if_splits)

end
