(* ===== verification/Provider_Factory.thy ===== *)
theory Provider_Factory
  imports Online_Accounts Agenda_Provider
begin

section \<open>The factory of providers\<close>

text \<open>
  \<open>providers/factory.rs\<close> and the discovery of \<open>providers/agenda.rs\<close>. The keyring, the control center, the constructors of
  the providers and the identifier generator are the fields of the record \<open>factory\<close>; \<open>Inl False\<close> of a keyring operation is
  a keyring that cannot be reached, \<open>Inl True\<close> an entry that could not be read, written or removed. Removing an entry that
  is not there is a success of \<open>kr_delete\<close>, as \<open>delete_secret\<close> treats it.
\<close>

datatype mail_authentication = PasswordLogin string string | OAuthLogin string goa_account

record imap_smtp_config =
  cf_imap_host :: string
  cf_imap_port :: nat
  cf_imap_security :: connection_security
  cf_smtp_host :: string
  cf_smtp_port :: nat
  cf_smtp_security :: connection_security
  cf_imap_authentication :: mail_authentication
  cf_smtp_authentication :: mail_authentication
  cf_discover_special_use :: bool
  cf_archive_mailbox :: "string option"
  cf_trash_mailbox :: "string option"

record 'w keyring =
  kr_set :: "string \<Rightarrow> string \<Rightarrow> ('w, bool, unit) io"
  kr_get :: "string \<Rightarrow> ('w, bool, string) io"
  kr_delete :: "string \<Rightarrow> ('w, bool, unit) io"

record ('p, 'w) factory =
  fy_bus :: "'w goa_bus"
  fy_keyring :: "'w keyring"
  fy_launch :: "string list \<Rightarrow> ('w, unit, unit) io"
  fy_sleep :: "'w \<Rightarrow> 'w"
  fy_uuid :: "'w \<Rightarrow> string \<times> 'w"
  fy_build :: "account \<Rightarrow> imap_smtp_config \<Rightarrow> string + 'p"
  fy_graph :: "account \<Rightarrow> goa_account \<Rightarrow> provider_error + 'p"
  fy_server :: "json \<Rightarrow> mail_server_setup option"

subsection \<open>Routes\<close>

datatype provider_route = GoogleGoa | MicrosoftGoa | PasswordImap

definition route_of :: "string \<Rightarrow> provider_route" where
  "route_of provider =
     (let name = to_ascii_lowercase (trim provider) in
      if name = ''gmail'' then GoogleGoa
      else if name \<in> {''outlook'', ''hotmail'', ''microsoft365''} then MicrosoftGoa else PasswordImap)"

datatype microsoft_transport = GraphTransport | LegacyImap

definition microsoft_goa_transport :: "string \<Rightarrow> provider_error + microsoft_transport" where
  "microsoft_goa_transport provider_type =
     (if eq_ignore_ascii_case provider_type ''ms_graph'' then Inr GraphTransport
      else if eq_ignore_ascii_case provider_type ''windows_live'' then Inr LegacyImap
      else Inl (Unsupported ''GNOME Online Accounts exposed an unknown Microsoft mail transport''))"

datatype goa_interaction = Interactive | SilentRestore

definition security_of :: "string \<Rightarrow> provider_error + connection_security" where
  "security_of value =
     (let value = to_ascii_lowercase value in
      if value \<in> {''tls'', ''ssl'', ''implicit_tls'', ''implicit-tls''} then Inr ImplicitTls
      else if value \<in> {''starttls'', ''start_tls'', ''start-tls''} then Inr StartTls
      else Inl (Unsupported ''unencrypted mail server connections are not supported''))"

definition auth_error :: "token_error \<Rightarrow> provider_error" where
  "auth_error e = Authentication (token_error_text e)"

subsection \<open>Online accounts\<close>

fun add_provider_type :: "goa_family \<Rightarrow> string" where
  "add_provider_type GoogleFamily = ''google''"
| "add_provider_type MicrosoftFamily = ''ms_graph''"

definition launched :: "('p, 'w) factory \<Rightarrow> string list \<Rightarrow> ('w, provider_error, unit) io" where
  "launched fy args = io_map_err (\<lambda>_. auth_error AuthorizationRequired) (fy_launch fy (''online-accounts'' # args))"

text \<open>A new source of tokens has nothing in its cache.\<close>

definition has_token :: "('p, 'w) factory \<Rightarrow> goa_account \<Rightarrow> ('w, provider_error, bool) io" where
  "has_token fy account w =
     (case access_token_of (fy_bus fy) (go_object_path account) False \<lparr>tw_cached = None, tw_bus = w\<rparr> of
        (r, s) \<Rightarrow> (Inr (\<not> isl r), tw_bus s))"

text \<open>\<open>tries\<close> counts what is left of the 300 rounds.\<close>

fun authorize ::
    "('p, 'w) factory \<Rightarrow> string \<Rightarrow> goa_family \<Rightarrow> goa_interaction \<Rightarrow> nat \<Rightarrow> bool \<Rightarrow> ('w, provider_error, goa_account) io" where
  "authorize fy email family interaction 0 opened =
     io_error (Authentication (family_display_name family @ '' Online Accounts authorization timed out''))"
| "authorize fy email family interaction (Suc tries) opened =
     io_bind (io_map_err auth_error (goa_discover (fy_bus fy) email family)) (\<lambda>found.
     io_bind (case found of None \<Rightarrow> io_return False | Some account \<Rightarrow> has_token fy account) (\<lambda>ready.
     if ready then io_return (the found)
     else
       io_bind (if interaction = Interactive \<and> \<not> opened
          then io_bind (launched fy (case found of Some account \<Rightarrow> [go_id account]
                 | None \<Rightarrow> [''add'', add_provider_type family])) (\<lambda>_. io_return True)
          else io_return opened) (\<lambda>opened.
       if interaction = SilentRestore
       then io_error (Authentication (family_display_name family @ '' account needs authorization in GNOME Online Accounts''))
       else (\<lambda>w. authorize fy email family interaction tries opened (fy_sleep fy w)))))"

definition authorized_goa :: "('p, 'w) factory \<Rightarrow> string \<Rightarrow> goa_family \<Rightarrow> goa_interaction \<Rightarrow> ('w, provider_error, goa_account) io" where
  "authorized_goa fy email family interaction = authorize fy email family interaction 300 False"

definition tls_kind :: "bool \<Rightarrow> connection_security" where
  "tls_kind implicit = (if implicit then ImplicitTls else StartTls)"

definition built :: "('p, 'w) factory \<Rightarrow> account \<Rightarrow> imap_smtp_config \<Rightarrow> provider_error + 'p" where
  "built fy account config = map_err ProviderOther (fy_build fy account config)"

definition goa_imap_provider :: "('p, 'w) factory \<Rightarrow> account \<Rightarrow> goa_account \<Rightarrow> ('w, provider_error, 'p) io" where
  "goa_imap_provider fy account goa =
     io_bind (io_map_err auth_error (mail_settings (fy_bus fy) goa)) (\<lambda>s.
     io_lift (built fy account \<lparr>cf_imap_host = gs_imap_host s, cf_imap_port = gs_imap_port s,
       cf_imap_security = tls_kind (gs_imap_implicit_tls s), cf_smtp_host = gs_smtp_host s, cf_smtp_port = gs_smtp_port s,
       cf_smtp_security = tls_kind (gs_smtp_implicit_tls s),
       cf_imap_authentication = OAuthLogin (gs_imap_username s) goa, cf_smtp_authentication = OAuthLogin (gs_smtp_username s) goa,
       cf_discover_special_use = True, cf_archive_mailbox = None, cf_trash_mailbox = None\<rparr>))"

definition goa_mail_provider :: "('p, 'w) factory \<Rightarrow> account \<Rightarrow> goa_family \<Rightarrow> goa_interaction \<Rightarrow> ('w, provider_error, 'p) io" where
  "goa_mail_provider fy account family interaction =
     io_bind (authorized_goa fy (a_address account) family interaction) (goa_imap_provider fy account)"

definition microsoft_provider :: "('p, 'w) factory \<Rightarrow> account \<Rightarrow> goa_interaction \<Rightarrow> ('w, provider_error, 'p) io" where
  "microsoft_provider fy account interaction =
     io_bind (authorized_goa fy (a_address account) MicrosoftFamily interaction) (\<lambda>goa.
     if go_mail_disabled goa
     then io_error (Unsupported ''Mail is disabled for this Microsoft account in GNOME Online Accounts'')
     else
       io_bind (io_lift (microsoft_goa_transport (go_provider_type goa))) (\<lambda>transport.
       case transport of
         GraphTransport \<Rightarrow> io_lift (fy_graph fy (account\<lparr>a_protocol := ''microsoft_graph''\<rparr>) goa)
       | LegacyImap \<Rightarrow> goa_imap_provider fy (account\<lparr>a_protocol := ''imap_xoauth2''\<rparr>) goa))"

subsection \<open>Passwords\<close>

definition secret_user :: "string \<Rightarrow> string \<Rightarrow> string" where
  "secret_user account_id purpose = account_id @ '':'' @ purpose"

definition store_unavailable :: provider_error where
  "store_unavailable = ProviderOther ''credential store unavailable''"

definition store_secret :: "('p, 'w) factory \<Rightarrow> string \<Rightarrow> string \<Rightarrow> string \<Rightarrow> ('w, provider_error, unit) io" where
  "store_secret fy account_id purpose secret =
     io_map_err (\<lambda>_. store_unavailable) (kr_set (fy_keyring fy) (secret_user account_id purpose) secret)"

definition load_secret :: "('p, 'w) factory \<Rightarrow> string \<Rightarrow> string \<Rightarrow> ('w, provider_error, string) io" where
  "load_secret fy account_id purpose =
     io_map_err (\<lambda>missing. if missing then Authentication ''mail server password is missing'' else store_unavailable)
       (kr_get (fy_keyring fy) (secret_user account_id purpose))"

definition delete_secret :: "('p, 'w) factory \<Rightarrow> string \<Rightarrow> string \<Rightarrow> ('w, provider_error, unit) io" where
  "delete_secret fy account_id purpose =
     io_map_err (\<lambda>kept. if kept then ProviderOther ''could not remove account credentials'' else store_unavailable)
       (kr_delete (fy_keyring fy) (secret_user account_id purpose))"

text \<open>Both purposes are tried; the first error is returned.\<close>

definition cleanup_account_secrets :: "('p, 'w) factory \<Rightarrow> string \<Rightarrow> ('w, provider_error, unit) io" where
  "cleanup_account_secrets fy account_id =
     io_bind (io_attempt (delete_secret fy account_id ''imap-password'')) (\<lambda>first.
     io_bind (io_attempt (delete_secret fy account_id ''smtp-password'')) (\<lambda>second.
     io_lift (bind_r first (\<lambda>_. second))))"

text \<open>A failure after secrets were stored is reported with what came of removing them.\<close>

definition with_cleanup :: "provider_error \<Rightarrow> ('w, provider_error, unit) io \<Rightarrow> ('w, provider_error, 'p) io" where
  "with_cleanup failure cleanup =
     io_bind (io_attempt cleanup) (\<lambda>r.
     case r of
       Inr _ \<Rightarrow> io_error failure
     | Inl e \<Rightarrow> io_error (ProviderOther (provider_error_text failure @ ''; additionally, '' @ provider_error_text e)))"

definition password_config ::
    "mail_server_setup \<Rightarrow> connection_security \<Rightarrow> string \<Rightarrow> mail_server_setup \<Rightarrow> connection_security \<Rightarrow> string \<Rightarrow> imap_smtp_config" where
  "password_config imap imap_security imap_password smtp smtp_security smtp_password =
     \<lparr>cf_imap_host = mss_host imap, cf_imap_port = mss_port imap, cf_imap_security = imap_security,
      cf_smtp_host = mss_host smtp, cf_smtp_port = mss_port smtp, cf_smtp_security = smtp_security,
      cf_imap_authentication = PasswordLogin (mss_username imap) imap_password,
      cf_smtp_authentication = PasswordLogin (mss_username smtp) smtp_password,
      cf_discover_special_use = True, cf_archive_mailbox = Some ''Archive'', cf_trash_mailbox = Some ''Trash''\<rparr>"

definition imap_provider ::
    "('p, 'w) factory \<Rightarrow> account \<Rightarrow> mail_server_setup \<Rightarrow> mail_server_setup \<Rightarrow> bool \<Rightarrow> ('w, provider_error, 'p) io" where
  "imap_provider fy account imap smtp store_secrets =
     io_bind (io_lift (security_of (mss_security imap))) (\<lambda>imap_security.
     io_bind (io_lift (security_of (mss_security smtp))) (\<lambda>smtp_security.
     io_bind (if store_secrets
        then io_bind (store_secret fy (a_id account) ''imap-password'' (mss_password imap)) (\<lambda>_. io_return (mss_password imap))
        else load_secret fy (a_id account) ''imap-password'') (\<lambda>imap_password.
     io_bind (if store_secrets
        then io_bind (io_attempt (store_secret fy (a_id account) ''smtp-password'' (mss_password smtp))) (\<lambda>r.
               case r of
                 Inl e \<Rightarrow> with_cleanup e (delete_secret fy (a_id account) ''imap-password'')
               | Inr _ \<Rightarrow> io_return (mss_password smtp))
        else load_secret fy (a_id account) ''smtp-password'') (\<lambda>smtp_password.
     case built fy account (password_config imap imap_security imap_password smtp smtp_security smtp_password) of
       Inl e \<Rightarrow> if store_secrets then with_cleanup e (cleanup_account_secrets fy (a_id account)) else io_error e
     | Inr p \<Rightarrow> io_return p))))"

subsection \<open>The factory\<close>

definition new_account :: "account_add_params \<Rightarrow> string \<Rightarrow> account" where
  "new_account setup i = \<lparr>a_id = i, a_address = trim (aap_address setup), a_display_name = aap_display_name setup,
     a_provider = aap_provider setup, a_protocol = aap_provider setup, a_host = [], a_unread = 0, a_total = 0, a_enabled = True\<rparr>"

definition factory_create :: "('p, 'w) factory \<Rightarrow> account_add_params \<Rightarrow> ('w, provider_error, 'p) io" where
  "factory_create fy setup w =
     (case fy_uuid fy w of (i, w) \<Rightarrow>
      let account = new_account setup i in
      (case route_of (aap_provider setup) of
         GoogleGoa \<Rightarrow> goa_mail_provider fy account GoogleFamily Interactive
       | MicrosoftGoa \<Rightarrow> microsoft_provider fy account Interactive
       | PasswordImap \<Rightarrow>
           io_bind (io_lift (ok_or (aap_imap setup) (ProviderOther ''IMAP configuration is required''))) (\<lambda>imap.
           io_bind (io_lift (ok_or (aap_smtp setup) (ProviderOther ''SMTP configuration is required''))) (\<lambda>smtp.
           imap_provider fy account imap smtp True))) w)"

definition config_part :: "string \<Rightarrow> json \<Rightarrow> json" where
  "config_part key config = (case json_get key config of Some v \<Rightarrow> v | None \<Rightarrow> JNull)"

definition factory_restore :: "('p, 'w) factory \<Rightarrow> account \<Rightarrow> json \<Rightarrow> ('w, provider_error, 'p) io" where
  "factory_restore fy account config =
     (case route_of (a_provider account) of
        GoogleGoa \<Rightarrow> goa_mail_provider fy account GoogleFamily SilentRestore
      | MicrosoftGoa \<Rightarrow> microsoft_provider fy account SilentRestore
      | PasswordImap \<Rightarrow>
          io_bind (io_lift (ok_or (fy_server fy (config_part ''imap'' config))
            (ProviderOther ''stored IMAP configuration is invalid''))) (\<lambda>imap.
          io_bind (io_lift (ok_or (fy_server fy (config_part ''smtp'' config))
            (ProviderOther ''stored SMTP configuration is invalid''))) (\<lambda>smtp.
          imap_provider fy account imap smtp False)))"

definition factory_reauthorize :: "('p, 'w) factory \<Rightarrow> account \<Rightarrow> json \<Rightarrow> ('w, provider_error, 'p) io" where
  "factory_reauthorize fy account config =
     (case route_of (a_provider account) of
        GoogleGoa \<Rightarrow> goa_mail_provider fy account GoogleFamily Interactive
      | MicrosoftGoa \<Rightarrow> microsoft_provider fy account Interactive
      | PasswordImap \<Rightarrow> factory_restore fy account config)"

definition factory_remove :: "('p, 'w) factory \<Rightarrow> string \<Rightarrow> ('w, provider_error, unit) io" where
  "factory_remove fy account_id = cleanup_account_secrets fy account_id"

text \<open>\<open>AgendaProvider::discover\<close>; the client of \<open>reqwest\<close> that it builds is in \<open>connect\<close>, with the services that are on.\<close>

definition agenda_discover ::
    "'w goa_bus \<Rightarrow> (account \<Rightarrow> goa_family \<Rightarrow> goa_account \<Rightarrow> bool \<Rightarrow> bool \<Rightarrow> provider_error + 'g) \<Rightarrow> account
     \<Rightarrow> ('w, provider_error, 'g option) io" where
  "agenda_discover bus connect account =
     (case account_family account of
        None \<Rightarrow> io_return None
      | Some family \<Rightarrow>
          io_bind (io_map_err (token_provider_error family) (goa_discover bus (a_address account) family)) (\<lambda>found.
          case found of
            None \<Rightarrow> io_return None
          | Some goa \<Rightarrow> io_lift (map_ok Some (connect account family goa (\<not> go_calendar_disabled goa) (\<not> go_tasks_disabled goa)))))"

end
