(* ===== verification/Factory_Facts.thy ===== *)
theory Factory_Facts
  imports Provider_Factory
begin

section \<open>What the factory promises\<close>

text \<open>
  No password is left behind when the setup of an account fails, and restoring accounts at the start of the daemon opens
  no window.
\<close>

subsection \<open>Passwords in the keyring\<close>

text \<open>What the keyring holds, by user: an operation changes its own entry when it succeeds and nothing when it fails.\<close>

definition keyring_laws :: "'w keyring \<Rightarrow> ('w \<Rightarrow> string \<rightharpoonup> string) \<Rightarrow> bool" where
  "keyring_laws kr secrets \<longleftrightarrow>
     (\<forall>u s w r w'. kr_set kr u s w = (r, w') \<longrightarrow> secrets w' = (if isl r then secrets w else (secrets w)(u \<mapsto> s)))
     \<and> (\<forall>u w r w'. kr_delete kr u w = (r, w') \<longrightarrow> secrets w' = (if isl r then secrets w else (secrets w)(u := None)))
     \<and> (\<forall>u w r w'. kr_get kr u w = (r, w') \<longrightarrow> secrets w' = secrets w)"

lemma store_secret_cases:
  assumes "keyring_laws (fy_keyring fy) secrets" and "store_secret fy a p s w = (r, w')"
  shows "secrets w' = (case r of Inr _ \<Rightarrow> (secrets w)(secret_user a p \<mapsto> s) | Inl _ \<Rightarrow> secrets w)"
proof -
  obtain q v where q: "kr_set (fy_keyring fy) (secret_user a p) s w = (q, v)" by (rule prod.exhaust)
  with assms(1) have "secrets v = (if isl q then secrets w else (secrets w)(secret_user a p \<mapsto> s))"
    unfolding keyring_laws_def by blast
  with assms(2) show ?thesis by (auto simp: store_secret_def io_map_err_def q map_err_def split: sum.splits)
qed

lemma delete_secret_cases:
  assumes "keyring_laws (fy_keyring fy) secrets" and "delete_secret fy a p w = (r, w')"
  shows "secrets w' = (case r of Inr _ \<Rightarrow> (secrets w)(secret_user a p := None) | Inl _ \<Rightarrow> secrets w)"
proof -
  obtain q v where q: "kr_delete (fy_keyring fy) (secret_user a p) w = (q, v)" by (rule prod.exhaust)
  with assms(1) have "secrets v = (if isl q then secrets w else (secrets w)(secret_user a p := None))"
    unfolding keyring_laws_def by blast
  with assms(2) show ?thesis by (auto simp: delete_secret_def io_map_err_def q map_err_def split: sum.splits)
qed

lemma cleanup_removes:
  assumes laws: "keyring_laws (fy_keyring fy) secrets" and run: "cleanup_account_secrets fy a w = (Inr u, w')"
  shows "secrets w' = (secrets w)(secret_user a ''imap-password'' := None, secret_user a ''smtp-password'' := None)"
proof -
  obtain r v where first: "delete_secret fy a ''imap-password'' w = (r, v)" by (rule prod.exhaust)
  obtain r' v' where second: "delete_secret fy a ''smtp-password'' v = (r', v')" by (rule prod.exhaust)
  from run have "r = Inr ()" "r' = Inr ()" "w' = v'"
    by (auto simp: cleanup_account_secrets_def io_bind_def io_attempt_def first second io_lift_def bind_r_eq_Inr)
  with delete_secret_cases [OF laws first] delete_secret_cases [OF laws second] show ?thesis by simp
qed

lemma with_cleanup_Inl:
  "with_cleanup failure cleanup w = (Inl e, w') \<longleftrightarrow>
     (\<exists>r. cleanup w = (r, w') \<and> e = (case r of Inr _ \<Rightarrow> failure
       | Inl c \<Rightarrow> ProviderOther (provider_error_text failure @ ''; additionally, '' @ provider_error_text c)))"
  by (cases "cleanup w") (auto simp: with_cleanup_def io_bind_def io_attempt_def io_error_def split: sum.splits)

lemma with_cleanup_not_Inr: "with_cleanup failure cleanup w \<noteq> (Inr p, w')"
  by (cases "cleanup w") (auto simp: with_cleanup_def io_bind_def io_attempt_def io_error_def split: sum.splits)

definition account_secrets :: "string \<Rightarrow> string \<Rightarrow> string \<Rightarrow> (string \<rightharpoonup> string) \<Rightarrow> string \<rightharpoonup> string" where
  "account_secrets a imap smtp m = m(secret_user a ''imap-password'' \<mapsto> imap, secret_user a ''smtp-password'' \<mapsto> smtp)"

definition no_secrets :: "string \<Rightarrow> (string \<rightharpoonup> string) \<Rightarrow> bool" where
  "no_secrets a m \<longleftrightarrow> m (secret_user a ''imap-password'') = None \<and> m (secret_user a ''smtp-password'') = None"

definition reports_cleanup :: "provider_error \<Rightarrow> bool" where
  "reports_cleanup e \<longleftrightarrow> (\<exists>a b. e = ProviderOther (a @ ''; additionally, '' @ b))"

lemma imap_provider_secrets:
  assumes laws: "keyring_laws (fy_keyring fy) secrets" and fresh: "no_secrets (a_id account) (secrets w)"
  shows "case imap_provider fy account imap smtp True w of
      (Inl e, w') \<Rightarrow> secrets w' = secrets w \<or> reports_cleanup e
    | (Inr p, w') \<Rightarrow> secrets w' = account_secrets (a_id account) (mss_password imap) (mss_password smtp) (secrets w)"
proof (cases "\<exists>x y. security_of (mss_security imap) = Inr x \<and> security_of (mss_security smtp) = Inr y")
  case False
  then show ?thesis
    by (auto simp: imap_provider_def io_bind_def io_lift_def split: sum.splits)
next
  case True
  then obtain x y where xy: "security_of (mss_security imap) = Inr x" "security_of (mss_security smtp) = Inr y" by blast
  let ?i = "secret_user (a_id account) ''imap-password''" and ?s = "secret_user (a_id account) ''smtp-password''"
  obtain r1 w1 where one: "store_secret fy (a_id account) ''imap-password'' (mss_password imap) w = (r1, w1)" by (rule prod.exhaust)
  obtain r2 w2 where two: "store_secret fy (a_id account) ''smtp-password'' (mss_password smtp) w1 = (r2, w2)" by (rule prod.exhaust)
  note s1 = store_secret_cases [OF laws one] and s2 = store_secret_cases [OF laws two]
  show ?thesis
  proof (cases r1)
    case (Inl e)
    with s1 show ?thesis by (simp add: imap_provider_def io_bind_def io_lift_def xy one)
  next
    case r1: (Inr u)
    show ?thesis
    proof (cases r2)
      case (Inl e)
      obtain r3 w3 where three: "delete_secret fy (a_id account) ''imap-password'' w2 = (r3, w3)" by (rule prod.exhaust)
      have "secrets w3 = secrets w" if "r3 = Inr ()"
        using delete_secret_cases [OF laws three] that s1 s2 r1 Inl fresh by (auto simp: no_secrets_def fun_upd_idem_iff)
      then show ?thesis
        using r1 Inl
        by (cases r3) (auto simp: imap_provider_def io_bind_def io_lift_def io_return_def io_attempt_def xy one two
            with_cleanup_def three io_error_def reports_cleanup_def)
    next
      case r2: (Inr v)
      have stored: "secrets w2 = account_secrets (a_id account) (mss_password imap) (mss_password smtp) (secrets w)"
        using s1 s2 r1 r2 by (simp add: account_secrets_def)
      show ?thesis
      proof (cases "built fy account (password_config imap x (mss_password imap) smtp y (mss_password smtp))")
        case (Inr p)
        with stored show ?thesis
          using r1 r2 by (simp add: imap_provider_def io_bind_def io_lift_def io_return_def io_attempt_def xy one two)
      next
        case (Inl e)
        obtain r3 w3 where three: "cleanup_account_secrets fy (a_id account) w2 = (r3, w3)" by (rule prod.exhaust)
        have "secrets w3 = secrets w" if "r3 = Inr ()"
        proof -
          from cleanup_removes [OF laws] three that have "secrets w3 = (secrets w2)(?i := None, ?s := None)" by blast
          with stored fresh show ?thesis by (auto simp: account_secrets_def no_secrets_def fun_eq_iff)
        qed
        then show ?thesis
          using r1 r2 Inl
          by (cases r3) (auto simp: imap_provider_def io_bind_def io_lift_def io_return_def io_attempt_def xy one two
              with_cleanup_def three io_error_def reports_cleanup_def)
      qed
    qed
  qed
qed


subsection \<open>Restoring opens no window\<close>

definition quiet_bus :: "('w \<Rightarrow> bool) \<Rightarrow> 'w goa_bus \<Rightarrow> bool" where
  "quiet_bus I bus \<longleftrightarrow> io_keeps I (gb_session bus) \<and> io_keeps I (gb_objects bus) \<and> (\<forall>p i. io_keeps I (gb_proxy bus p i))
     \<and> (\<forall>p i n. io_keeps I (gb_bool bus p i n)) \<and> (\<forall>p i n. io_keeps I (gb_text bus p i n))
     \<and> (\<forall>p. io_keeps I (gb_ensure_credentials bus p)) \<and> (\<forall>p. io_keeps I (gb_access_token bus p))"

definition quiet_factory :: "('w \<Rightarrow> bool) \<Rightarrow> ('p, 'w) factory \<Rightarrow> bool" where
  "quiet_factory I fy \<longleftrightarrow> quiet_bus I (fy_bus fy) \<and> (\<forall>u. io_keeps I (kr_get (fy_keyring fy) u)) \<and> (\<forall>w. I w \<longrightarrow> I (fy_sleep fy w))"

lemma keeps_bus_error: "io_keeps I m \<Longrightarrow> io_keeps I (bus_error m)"
  unfolding bus_error_def by (rule inv_intros)

lemma keeps_or_else: "io_keeps I m \<Longrightarrow> io_keeps I (or_else d m)" "io_keeps I m \<Longrightarrow> io_keeps I (property_ok m)"
  by (auto simp: io_keeps_def or_else_def property_ok_def split: prod.split sum.split)

locale quiet_guard =
  fixes I :: "'w \<Rightarrow> bool" and bus :: "'w goa_bus"
  assumes quiet: "quiet_bus I bus"
begin

lemma bus_keeps: "io_keeps I (gb_session bus)" "io_keeps I (gb_objects bus)" "io_keeps I (gb_proxy bus p i)"
  "io_keeps I (gb_bool bus p i n)" "io_keeps I (gb_text bus p i n)" "io_keeps I (gb_ensure_credentials bus p)"
  "io_keeps I (gb_access_token bus p)"
  using quiet by (simp_all add: quiet_bus_def)

lemmas bus_rules = keeps_bus_error keeps_or_else bus_keeps inv_intros

lemma keeps_discover_object: "io_keeps I (discover_object bus email family path interfaces)"
  unfolding discover_object_def by (auto split: option.split intro!: bus_rules)

lemma keeps_discover_among: "io_keeps I (discover_among bus email family objects)"
  by (induction objects) (auto split: option.split intro!: inv_intros keeps_discover_object)

lemma keeps_goa_discover: "io_keeps I (goa_discover bus email family)"
  unfolding goa_discover_def by (auto intro!: bus_rules keeps_discover_among)

lemma keeps_mail_settings: "io_keeps I (mail_settings bus account)"
  unfolding mail_settings_def Let_def by (auto split: prod.split intro!: bus_rules)

lemma keeps_fetch_token: "io_keeps I (fetch_token bus path)"
proof -
  have "io_keeps I (\<lambda>w. (Inr (f w), w))" for f :: "'w \<Rightarrow> access_token" by (simp add: io_keeps_def)
  then show ?thesis unfolding fetch_token_def by (auto split: prod.split intro!: bus_rules)
qed

lemma keeps_has_token: "fy_bus fy = bus \<Longrightarrow> io_keeps I (has_token fy account)"
  using keeps_fetch_token [of "go_object_path account"]
  by (auto simp: io_keeps_def has_token_def access_token_of_def Let_def split: prod.splits sum.splits)

end

lemma keeps_authorize_silent:
  assumes "quiet_factory I fy"
  shows "io_keeps I (authorize fy email family SilentRestore tries opened)"
proof (cases tries)
  case (Suc n)
  have "quiet_guard I (fy_bus fy)" using assms by (simp add: quiet_factory_def quiet_guard_def)
  then show ?thesis
    unfolding Suc authorize.simps
    by (auto split: option.split intro!: inv_intros quiet_guard.keeps_goa_discover quiet_guard.keeps_has_token)
qed (simp add: inv_intros)

lemma keeps_silent_provider:
  assumes "quiet_factory I fy"
  shows "io_keeps I (goa_mail_provider fy account family SilentRestore)" "io_keeps I (microsoft_provider fy account SilentRestore)"
    "io_keeps I (imap_provider fy account imap smtp False)"
proof -
  have bus: "quiet_guard I (fy_bus fy)" using assms by (simp add: quiet_factory_def quiet_guard_def)
  have goa: "io_keeps I (goa_imap_provider fy account goa)" for account goa
    unfolding goa_imap_provider_def by (auto intro!: inv_intros quiet_guard.keeps_mail_settings [OF bus])
  note silent = keeps_authorize_silent [OF assms]
  show "io_keeps I (goa_mail_provider fy account family SilentRestore)"
    unfolding goa_mail_provider_def authorized_goa_def by (intro inv_intros silent goa)
  show "io_keeps I (microsoft_provider fy account SilentRestore)"
    unfolding microsoft_provider_def authorized_goa_def
    by (auto split: microsoft_transport.split intro!: inv_intros silent goa)
  have "io_keeps I (kr_get (fy_keyring fy) u)" for u using assms by (simp add: quiet_factory_def)
  then show "io_keeps I (imap_provider fy account imap smtp False)"
    unfolding imap_provider_def load_secret_def
    by (auto split: sum.split intro!: inv_intros)
qed

text \<open>The state beside a count of the windows that were opened.\<close>

definition counting_bus :: "'w goa_bus \<Rightarrow> ('w \<times> nat) goa_bus" where
  "counting_bus bus = \<lparr>gb_session = beside (gb_session bus), gb_objects = beside (gb_objects bus),
     gb_proxy = (\<lambda>p i. beside (gb_proxy bus p i)), gb_bool = (\<lambda>p i n. beside (gb_bool bus p i n)),
     gb_text = (\<lambda>p i n. beside (gb_text bus p i n)), gb_ensure_credentials = (\<lambda>p. beside (gb_ensure_credentials bus p)),
     gb_access_token = (\<lambda>p. beside (gb_access_token bus p)), gb_clock = gb_clock bus \<circ> fst\<rparr>"

definition counting :: "('p, 'w) factory \<Rightarrow> ('p, 'w \<times> nat) factory" where
  "counting fy = \<lparr>fy_bus = counting_bus (fy_bus fy),
     fy_keyring = \<lparr>kr_set = (\<lambda>u s. beside (kr_set (fy_keyring fy) u s)), kr_get = (\<lambda>u. beside (kr_get (fy_keyring fy) u)),
       kr_delete = (\<lambda>u. beside (kr_delete (fy_keyring fy) u))\<rparr>,
     fy_launch = (\<lambda>args w. case fy_launch fy args (fst w) of (r, v) \<Rightarrow> (r, (v, Suc (snd w)))),
     fy_sleep = (\<lambda>w. (fy_sleep fy (fst w), snd w)), fy_uuid = (\<lambda>w. case fy_uuid fy (fst w) of (i, v) \<Rightarrow> (i, (v, snd w))),
     fy_build = fy_build fy, fy_graph = fy_graph fy, fy_server = fy_server fy\<rparr>"

lemma beside_keeps: "io_keeps (\<lambda>w. snd w = n) (beside m)"
  by (auto simp: io_keeps_def beside_def split: prod.splits)

interpretation counted: quiet_guard "\<lambda>w. snd w = n" "counting_bus bus" for n bus
  by unfold_locales (simp add: quiet_bus_def counting_bus_def beside_keeps)

lemma counting_quiet: "quiet_factory (\<lambda>w. snd w = n) (counting fy)"
  using counted.quiet by (simp add: quiet_factory_def counting_def beside_keeps)

text \<open>C22: restoring the accounts at the start of the daemon opens no window. Whatever GNOME Online Accounts answers, the
  control center is never started for an account that is restored, authorised or not.\<close>

theorem restore_opens_no_window:
  "snd (snd (factory_restore (counting fy) account config (w, n))) = n"
proof -
  note quiet = keeps_silent_provider [OF counting_quiet [of n fy]]
  have "io_keeps (\<lambda>w. snd w = n) (factory_restore (counting fy) account config)"
    unfolding factory_restore_def by (auto split: provider_route.split intro!: inv_intros quiet)
  then show ?thesis unfolding io_keeps_def by simp
qed

subsection \<open>A sample factory\<close>

definition sample_bus :: "(string \<rightharpoonup> string) goa_bus" where
  "sample_bus = \<lparr>gb_session = io_error (), gb_objects = io_error (), gb_proxy = (\<lambda>p i. io_error ()), gb_bool = (\<lambda>p i n. io_error ()),
     gb_text = (\<lambda>p i n. io_error ()), gb_ensure_credentials = (\<lambda>p. io_error False), gb_access_token = (\<lambda>p. io_error False),
     gb_clock = (\<lambda>w. 0)\<rparr>"

definition sample_keyring :: "(string \<rightharpoonup> string) keyring" where
  "sample_keyring = \<lparr>kr_set = (\<lambda>u s w. (Inr (), w(u \<mapsto> s))),
     kr_get = (\<lambda>u w. (case w u of None \<Rightarrow> Inl True | Some s \<Rightarrow> Inr s, w)), kr_delete = (\<lambda>u w. (Inr (), w(u := None)))\<rparr>"

definition sample_factory :: "(unit, string \<rightharpoonup> string) factory" where
  "sample_factory = \<lparr>fy_bus = sample_bus, fy_keyring = sample_keyring, fy_launch = (\<lambda>args. io_return ()), fy_sleep = (\<lambda>w. w),
     fy_uuid = (\<lambda>w. (''A'', w)), fy_build = (\<lambda>account config. Inl ''bad host''), fy_graph = (\<lambda>account goa. Inr ()),
     fy_server = (\<lambda>v. None)\<rparr>"

definition sample_server :: mail_server_setup where
  "sample_server = \<lparr>mss_host = ''mail.example.com'', mss_port = 993, mss_security = ''tls'', mss_username = ''me'',
     mss_password = ''secret''\<rparr>"

definition sample_setup :: account_add_params where
  "sample_setup = \<lparr>aap_provider = ''imap'', aap_address = ''me@example.com'', aap_display_name = [],
     aap_imap = Some sample_server, aap_smtp = Some sample_server\<rparr>"

lemma sample_keyring_laws: "keyring_laws (fy_keyring sample_factory) (\<lambda>w. w)"
  by (auto simp: keyring_laws_def sample_factory_def sample_keyring_def)

lemma sample_route: "route_of (aap_provider sample_setup) = PasswordImap" "security_of (mss_security sample_server) = Inr ImplicitTls"
  by (simp_all add: sample_setup_def sample_server_def) (code_simp+)

lemma sample_creation:
  "\<exists>w. factory_create sample_factory sample_setup Map.empty = (Inl (ProviderOther ''bad host''), w)"
proof -
  have fields: "fy_uuid sample_factory = Pair ''A''" "fy_keyring sample_factory = sample_keyring"
    "fy_build sample_factory = (\<lambda>account config. Inl ''bad host'')" "aap_imap sample_setup = Some sample_server"
    "aap_smtp sample_setup = Some sample_server"
    by (simp_all add: sample_factory_def sample_setup_def)
  show ?thesis
    by (simp add: factory_create_def fields sample_route Let_def imap_provider_def io_bind_def io_lift_def io_return_def ok_or_def
        store_secret_def sample_keyring_def io_map_err_def map_err_def io_attempt_def built_def with_cleanup_def
        cleanup_account_secrets_def delete_secret_def io_error_def)
qed


end
