(* ===== verification/Spec2Isabelle.thy ===== *)
theory Spec2Isabelle
  imports Imap_Sync Imap_Actions Smtp_Delivery Avatars Daemon_Recovery Daemon_Connection
    Graph_Pages Gmail_Messages Agenda_Samples Factory_Facts
begin

text \<open>
  A model of QuickMail. The program is a daemon, \<open>quickmaild\<close>, that keeps the mail, the tasks and the calendar of
  several accounts in one SQLite database and serves them over JSON-RPC on a Unix socket. A request enters through a
  connection (\<open>handle_connection\<close>), is decoded and dispatched (\<open>dispatch_inner\<close>), reads or changes the database
  through its single worker thread (\<open>storage.rs\<close>), and asks the provider of an account (\<open>providers/\<close>) for what the
  cache lacks or for what must happen outside. Changes are announced to all connections as events.

  The paths below are under \<open>src/crates/\<close>.

  \<^bold>\<open>Foundations.\<close>
  \<open>Prelude\<close> holds results as sums, folds over them, facts on lists, and the collections of facts the proofs share
  (\<open>result_simps\<close>, \<open>inv_intros\<close>). \<open>Rust_Strings\<close> is what the code uses of \<open>str\<close> and \<open>[u8]\<close>: a \<open>String\<close> is the list
  of its bytes, \<open>valid_utf8\<close> says when it is one; trimming, splitting, case, parsing and printing of numbers.
  \<open>Effects\<close> gives an \<open>async\<close> function as a function from the state of the world outside to a result and a later
  state, and rules for what such functions keep (\<open>io_keeps\<close>) and promise (\<open>io_post\<close>).
  \<open>Models\<close> is \<open>quickmail-core\<close> (\<open>models.rs\<close>, \<open>provider.rs\<close>, \<open>rpc.rs\<close>): a struct is a record, an enum a datatype, an
  integer a word of its width where it is stored or computed with, an instant its milliseconds.

  \<^bold>\<open>The store\<close>, \<open>quickmaild/src/storage.rs\<close>.
  \<open>Keyed_Tables\<close>: a table is the list of its rows, with upsert, update and deletion by key; the locale \<open>primary_key\<close>
  states what a client may rely on and is interpreted on every table. \<open>Storage_State\<close> is the schema: rows, tables, the
  full text index, foreign keys with their cascades, the revision. \<open>Storage_Invariant\<close> defines \<open>db_ok\<close>: keys are
  unique, references resolve, rows fit their columns, remote slots are unique, the index matches the messages.
  \<open>Storage_Operations\<close> is the log of operations: queueing, finishing, deferring, committing, recovering.
  \<open>Storage_Accounts\<close>, \<open>Storage_Messages\<close> (upserts, keyset pages, threads), \<open>Storage_Sync\<close> (the transaction of a page
  of news) and \<open>Storage_Agenda\<close> (tasks, events, drafts, dashboard) hold one definition per method of the repository.
  \<open>Storage_Jobs\<close> is \<open>Database\<close>: one job per writing method, executed in order by the worker behind a queue of 128; its
  locale \<open>preserved\<close> lifts what one job keeps to every execution. \<open>Storage_Bodies\<close> shows that a loaded body stays
  cleaned.

  \<^bold>\<open>Mail over IMAP and SMTP\<close>, \<open>quickmaild/src/providers/imap_smtp.rs\<close> and \<open>mime.rs\<close>.
  \<open>Imap_Ids\<close> has the textual forms (identifiers, cursors, quoted arguments; the locale \<open>text_codec\<close>),
  \<open>Imap_Session\<close> the session of a lane with its one retry, \<open>Imap_Transport\<close> the commands, \<open>Imap_Provider\<close> the trait
  \<open>MailProvider\<close> on top of them, \<open>Imap_Sync\<close> what an incremental synchronisation promises against a server that other
  clients change meanwhile (\<open>evolves\<close>), \<open>Imap_Actions\<close> the windows of a first synchronisation and the order of the
  commands of a move, \<open>Mime_Codec\<close> the limits and codecs of messages, \<open>Smtp_Delivery\<close> the XOAUTH2 dialogue and its
  single repetition.

  \<^bold>\<open>Providers over HTTP\<close>, \<open>providers/microsoft_graph.rs\<close>, \<open>providers/gmail.rs\<close> and \<open>providers/agenda.rs\<close>.
  \<open>Web_Apis\<close> is what they share: requests, answers, bodies read in pieces up to a bound, loops over requests, and the
  log of requests on which the confinement theorems rest (\<open>logged\<close>, \<open>sends_only\<close>). \<open>Base64_Url\<close> is the codec of remote
  identifiers and of the texts of Gmail. \<open>Graph_Values\<close> (identifiers, drafts, errors), \<open>Graph_Client\<close> (URLs, pages,
  uploads, the one repetition after an expired token) and \<open>Graph_Provider\<close> (the trait \<open>MailProvider\<close>) follow the file
  from top to bottom; \<open>Graph_Facts\<close> shows that every request stays on the host and below the path of the interface, and
  \<open>Graph_Pages\<close> that folder listings are complete, that cursors continue where the server said, and that a page
  satisfies what the store asks of it. \<open>Gmail_Values\<close>, \<open>Gmail_Client\<close> and \<open>Gmail_Provider\<close> are the same three layers
  for Gmail; \<open>Gmail_Facts\<close> confines its requests and the messages that an action reaches, \<open>Gmail_Messages\<close> says when its
  unbounded loop over pages ends, that a listed attachment is the one that is fetched, and that details keep their order.
  \<open>Agenda_Values\<close>, \<open>Agenda_Items\<close>, \<open>Agenda_Provider\<close> and \<open>Agenda_Changes\<close> are
  the tasks and calendars of Google and Microsoft, in the same order; \<open>Agenda_Facts\<close> confines their requests,
  \<open>Agenda_Routing\<close> shows that an identifier leads back to the account, the container and the item it was made of,
  \<open>Agenda_Pages\<close> that a synchronisation is bounded and fits the store; \<open>Agenda_Samples\<close> holds runs on concrete servers.

  \<^bold>\<open>Accounts outside\<close>, \<open>providers/auth.rs\<close> and \<open>providers/factory.rs\<close>. \<open>Online_Accounts\<close> reads GNOME Online Accounts
  over D-Bus: which object belongs to an address, what it allows, its mail settings, its access tokens and their cache.
  \<open>Provider_Factory\<close> is \<open>ProductionProviderFactory\<close>: setting up, restoring, authorising again and removing an account;
  \<open>Factory_Facts\<close> shows that a failed setup leaves no password behind and that a restoration opens no window.

  \<^bold>\<open>The daemon\<close>, \<open>quickmaild/src/daemon.rs\<close>.
  \<open>Html_Css\<close> cleans bodies and style sheets, \<open>Avatars\<close> fetches the pictures of senders, \<open>Daemon_Values\<close> holds the
  decisions without state. \<open>Daemon_State\<close> is the struct \<open>Daemon\<close> and its surroundings \<open>daemon_env\<close>. The arms of
  \<open>dispatch_inner\<close> are the handlers of \<open>Daemon_Mail\<close>, \<open>Daemon_Agenda\<close>, \<open>Daemon_Accounts\<close> and \<open>Daemon_Sync\<close>;
  \<open>Daemon_Recovery\<close> repeats what an earlier run left pending. \<open>Daemon_Sync_Facts\<close> states what a synchronisation keeps,
  whatever happens to its account. \<open>Daemon_Dispatch\<close> ties every method name to its decoder and its handler and shows
  that every request keeps the store. \<open>Daemon_Connection\<close> is the loop of a connection as a step relation; the locale
  \<open>answering\<close> states what it needs of a dispatcher, and is interpreted on \<open>dispatch_inbound\<close>.

  \<^bold>\<open>Waiting.\<close> A handler gives way to other tasks at every \<open>await\<close>. The model applies \<open>de_others\<close>, an arbitrary
  change of the daemon's state, at each of them (\<open>await_read\<close>, \<open>await_update\<close>, \<open>await_lock\<close>, \<open>db_call\<close>). A theorem
  about handlers holds for every such change that keeps the invariant in question (\<open>env_meets\<close>, \<open>env_good\<close>). What a
  mutex orders is one step with no change in between; what it merely delays is such a wait.

  \<^bold>\<open>Parameters.\<close> What is not in the repository is an argument: the crates that parse HTML (\<open>ammonia\<close>), mail
  (\<open>mail-parser\<close>, \<open>mail-builder\<close>), JSON (\<open>serde_json\<close>) and URLs, the full text search of SQLite, IMAP, TLS, HTTP and
  DNS, clocks and UUIDs. Hypotheses on them state documented behaviour only (UIDs grow and are not used again under one
  validity, a reply belongs to the command that was sent, an instant is one of \<open>DateTime\<close>). For the providers over
  HTTP they are fields of records: \<open>web\<close> (the client of \<open>reqwest\<close> and its decoders, the parser and printer of URLs),
  \<open>agenda_dates\<close> (the parsers and printers of \<open>chrono\<close>), \<open>goa_bus\<close> (the objects and properties on the session bus)
  and \<open>factory\<close> (keyring, control center, constructors of providers).

  \<^bold>\<open>Bounds and fuel.\<close> No recursion has a fuel that cuts it short unseen. The bounds are those of the code: an SMTP
  reply ends after 65536 bytes, the measure of its loop; a session or delivery is tried at most twice, a counter from 1;
  a style sheet has at most 2048 rules; a first synchronisation searches 16 windows of 4096 UIDs; recovery repeats 128
  operations of an account; a connection holds 32 requests in its lane, in its queue of responses and as tasks, from
  which the bound of 291 moves of \<open>every_request_is_answered\<close> follows; a listing of folders asks for 64 pages and takes
  512 folders; a list of tasks or a calendar has 32 pages, the list of lists or calendars 8, with at most 64 of them and
  8000 items; an authorisation looks 300 times for its account. Where such a loop counts down in the model, running out
  is the error that the code returns after as many rounds. The two loops of Gmail over pages have no bound in the code and
  are partial functions: \<open>None\<close> is a run that does not end.

  \<^bold>\<open>Not modelled.\<close> Migrations of old databases and the rows for demonstrations, the test codec \<open>SafeMimeCodec\<close>, the
  IDLE connection, the password transport of SMTP (one call of a crate), sockets, private directories and the removal of
  cache files (system calls), \<open>quickmailctl\<close> and the GNOME and QML front ends, which show what the daemon answers. The order
  in which the slots and key locks of avatars let fetches run is left out. The provider of Gmail is modelled, but the factory
  never makes it at this commit: a Google account reaches its mail over IMAP.
\<close>

end
